(* ===== verification/Prelude.thy ===== *)
theory Prelude
  imports Main "HOL-Library.Word" "HOL-Library.List_Lexorder"
begin

text \<open>
  What every component of the model shares: names for the machine integers of the source, Rust's
  \<open>Result\<close> as a sum type, the checked and saturating operations on \<open>usize\<close>, \<open>u64\<close> and
  \<open>u128\<close> values (modelled as natural numbers below the width's bound), big-endian byte
  encodings, and the spans of \<^verbatim>\<open>std::time::Duration\<close> as nanosecond counts.
\<close>

unbundle bit_operations_syntax

section \<open>Machine integers\<close>

type_synonym u8 = "8 word"
type_synonym u16 = "16 word"
type_synonym u32 = "32 word"
type_synonym u64 = "64 word"

named_theorems codec \<open>unfolding rules for encoders and decoders\<close>
named_theorems rust_arith \<open>checked and saturating arithmetic\<close>

section \<open>Results\<close>

text \<open>\<^verbatim>\<open>Result<T, E>\<close> is \<open>E + T\<close>; the \<open>?\<close> operator is \<open>and_then\<close>.\<close>

abbreviation Ok :: "'a \<Rightarrow> 'e + 'a" where "Ok \<equiv> Inr"
abbreviation Err :: "'e \<Rightarrow> 'e + 'a" where "Err \<equiv> Inl"

definition and_then :: "'e + 'a \<Rightarrow> ('a \<Rightarrow> 'e + 'b) \<Rightarrow> 'e + 'b" where
  "and_then r f = (case r of Inl e \<Rightarrow> Inl e | Inr x \<Rightarrow> f x)"

definition map_err :: "('e \<Rightarrow> 'f) \<Rightarrow> 'e + 'a \<Rightarrow> 'f + 'a" where
  "map_err g r = (case r of Inl e \<Rightarrow> Inl (g e) | Inr x \<Rightarrow> Inr x)"

definition ok_or :: "'a option \<Rightarrow> 'e \<Rightarrow> 'e + 'a" where
  "ok_or x e = (case x of None \<Rightarrow> Inl e | Some y \<Rightarrow> Inr y)"

definition is_ok :: "'e + 'a \<Rightarrow> bool" where
  "is_ok r = (case r of Inl e \<Rightarrow> False | Inr x \<Rightarrow> True)"

definition result_ok :: "'e + 'a \<Rightarrow> 'a option" where
  "result_ok r = (case r of Inl e \<Rightarrow> None | Inr x \<Rightarrow> Some x)"

lemma and_then_simps [simp]:
  "and_then (Err e) f = Err e"
  "and_then (Ok x) f = f x"
  by (simp_all add: and_then_def)

lemma and_then_eq_Ok_iff: "and_then r f = Ok y \<longleftrightarrow> (\<exists>x. r = Ok x \<and> f x = Ok y)"
  by (cases r) auto

lemma and_then_eq_Err_iff:
  "and_then r f = Err e \<longleftrightarrow> r = Err e \<or> (\<exists>x. r = Ok x \<and> f x = Err e)"
  by (cases r) auto

lemma map_err_simps [simp]:
  "map_err g (Err e) = Err (g e)"
  "map_err g (Ok x) = Ok x"
  by (simp_all add: map_err_def)

lemma map_err_eq_Ok_iff [simp]: "map_err g r = Ok y \<longleftrightarrow> r = Ok y"
  by (cases r) auto

lemma ok_or_simps [simp]:
  "ok_or None e = Err e"
  "ok_or (Some x) e = Ok x"
  by (simp_all add: ok_or_def)

lemma ok_or_eq_Ok_iff [simp]: "ok_or x e = Ok y \<longleftrightarrow> x = Some y"
  by (cases x) auto

lemma is_ok_simps [simp]: "\<not> is_ok (Err e)" "is_ok (Ok x)"
  by (simp_all add: is_ok_def)

lemma result_ok_simps [simp]: "result_ok (Err e) = None" "result_ok (Ok x) = Some x"
  by (simp_all add: result_ok_def)

lemma is_ok_iff: "is_ok r \<longleftrightarrow> (\<exists>x. r = Ok x)"
  by (cases r) auto

section \<open>Checked and saturating arithmetic\<close>

definition u32_max :: nat where "u32_max = 4294967295"
definition u64_max :: nat where "u64_max = 18446744073709551615"
definition u128_bound :: nat where "u128_bound = 340282366920938463463374607431768211456"
definition usize_max :: nat where "usize_max = u64_max"
definition c_int_max :: nat where "c_int_max = 2147483647"

definition sat_add :: "nat \<Rightarrow> nat \<Rightarrow> nat \<Rightarrow> nat" where
  "sat_add m a b = min m (a + b)"

definition checked_add :: "nat \<Rightarrow> nat \<Rightarrow> nat \<Rightarrow> nat option" where
  "checked_add m a b = (if a + b \<le> m then Some (a + b) else None)"

definition checked_mul :: "nat \<Rightarrow> nat \<Rightarrow> nat \<Rightarrow> nat option" where
  "checked_mul m a b = (if a * b \<le> m then Some (a * b) else None)"

definition checked_sub :: "nat \<Rightarrow> nat \<Rightarrow> nat option" where
  "checked_sub a b = (if b \<le> a then Some (a - b) else None)"

text \<open>\<open>u128::div_ceil\<close>; the divisor is never zero where the source calls it.\<close>

definition div_ceil :: "nat \<Rightarrow> nat \<Rightarrow> nat" where
  "div_ceil a b = (a + (b - 1)) div b"

lemma sat_add_le [simp]: "sat_add m a b \<le> m"
  by (simp add: sat_add_def)

lemma sat_add_exact [simp]: "a + b \<le> m \<Longrightarrow> sat_add m a b = a + b"
  by (simp add: sat_add_def)

lemma checked_add_eq_Some_iff [rust_arith]:
  "checked_add m a b = Some c \<longleftrightarrow> c = a + b \<and> a + b \<le> m"
  by (auto simp: checked_add_def)

lemma checked_add_eq_None_iff [rust_arith]: "checked_add m a b = None \<longleftrightarrow> m < a + b"
  by (auto simp: checked_add_def)

lemma checked_mul_eq_Some_iff [rust_arith]:
  "checked_mul m a b = Some c \<longleftrightarrow> c = a * b \<and> a * b \<le> m"
  by (auto simp: checked_mul_def)

lemma checked_mul_eq_None_iff [rust_arith]: "checked_mul m a b = None \<longleftrightarrow> m < a * b"
  by (auto simp: checked_mul_def)

lemma div_ceil_ge:
  assumes "0 < b"
  shows "a \<le> div_ceil a b * b"
proof -
  have "(a + (b - 1)) mod b < b" using assms by simp
  moreover have "a + (b - 1) = (a + (b - 1)) div b * b + (a + (b - 1)) mod b" by simp
  ultimately have "a + (b - 1) < (a + (b - 1)) div b * b + b" by linarith
  then show ?thesis using assms unfolding div_ceil_def by linarith
qed

lemma div_ceil_least:
  assumes "0 < b" and "a \<le> c * b"
  shows "div_ceil a b \<le> c"
proof -
  have "a + (b - 1) < Suc c * b" using assms by simp
  then have "(a + (b - 1)) div b < Suc c" using assms(1) by (simp add: less_mult_imp_div_less)
  then show ?thesis by (simp add: div_ceil_def)
qed

lemma div_ceil_pos: "0 < b \<Longrightarrow> 0 < a \<Longrightarrow> 0 < div_ceil a b"
  using div_ceil_ge [of b a] by (cases "div_ceil a b") auto

section \<open>Big-endian octets\<close>

text \<open>\<open>u16::to_be_bytes\<close>, \<open>u16::from_be_bytes\<close> and \<open>u32::from_be_bytes\<close>.\<close>

definition u16_to_be :: "u16 \<Rightarrow> u8 list" where
  "u16_to_be w = [word_of_nat (unat w div 256), word_of_nat (unat w)]"

definition u16_from_be :: "u8 \<Rightarrow> u8 \<Rightarrow> u16" where
  "u16_from_be a b = word_of_nat (unat a * 256 + unat b)"

definition u32_from_be :: "u8 \<Rightarrow> u8 \<Rightarrow> u8 \<Rightarrow> u8 \<Rightarrow> u32" where
  "u32_from_be a b c d =
     word_of_nat (((unat a * 256 + unat b) * 256 + unat c) * 256 + unat d)"

definition u32_to_be :: "u32 \<Rightarrow> u8 list" where
  "u32_to_be w =
     [word_of_nat (unat w div 16777216), word_of_nat (unat w div 65536),
      word_of_nat (unat w div 256), word_of_nat (unat w)]"

lemma length_u16_to_be [simp]: "length (u16_to_be w) = 2"
  by (simp add: u16_to_be_def)

lemma length_u32_to_be [simp]: "length (u32_to_be w) = 4"
  by (simp add: u32_to_be_def)

lemma unat_u8_lt [simp]: "unat (a :: u8) < 256"
  using unsigned_less [of a] by simp

lemma unat_u16_lt [simp]: "unat (a :: u16) < 65536"
  using unsigned_less [of a] by simp

lemma unat_u32_lt [simp]: "unat (a :: u32) < 4294967296"
  using unsigned_less [of a] by simp

lemma unat_word_of_nat_small:
  "unat (word_of_nat n :: u8) = n mod 256"
  "unat (word_of_nat n :: u16) = n mod 65536"
  "unat (word_of_nat n :: u32) = n mod 4294967296"
  by (simp_all add: unat_of_nat)

lemma unat_u16_from_be: "unat (u16_from_be a b) = unat a * 256 + unat b"
proof -
  have "unat a * 256 + unat b < 65536" using unat_u8_lt [of a] unat_u8_lt [of b] by linarith
  then show ?thesis unfolding u16_from_be_def by (simp only: unat_word_of_nat_small) simp
qed

text \<open>One step of a base-256 positional number.\<close>

lemma base256_div [simp]: "(d :: nat) < 256 \<Longrightarrow> (x * 256 + d) div 256 = x"
  by simp

lemma base256_less: "(x :: nat) < m \<Longrightarrow> d < 256 \<Longrightarrow> x * 256 + d < m * 256"
  by linarith

lemma unat_u32_from_be:
  "unat (u32_from_be a b c d) = ((unat a * 256 + unat b) * 256 + unat c) * 256 + unat d"
proof -
  have "((unat a * 256 + unat b) * 256 + unat c) * 256 + unat d < 256 * 256 * 256 * 256"
    by (intro base256_less unat_u8_lt)
  then show ?thesis unfolding u32_from_be_def by (simp only: unat_word_of_nat_small) simp
qed

lemma word_of_nat_eq_u8: "n mod 256 = unat w \<Longrightarrow> (word_of_nat n :: u8) = w"
  by (simp only: word_unat_eq_iff unat_word_of_nat_small)

lemma u16_from_be_to_be [simp]: "u16_from_be (u16_to_be w ! 0) (u16_to_be w ! Suc 0) = w"
proof -
  let ?n = "unat w"
  have "?n div 256 < 256" using unat_u16_lt [of w] by linarith
  then have "?n div 256 mod 256 * 256 + ?n mod 256 = ?n" by simp
  then show ?thesis
    by (simp only: word_unat_eq_iff unat_u16_from_be u16_to_be_def nth_Cons_0 nth_Cons_Suc
        unat_word_of_nat_small)
qed

lemma u16_to_be_from_be [simp]: "u16_to_be (u16_from_be a b) = [a, b]"
proof -
  have "(unat a * 256 + unat b) div 256 mod 256 = unat a" "(unat a * 256 + unat b) mod 256 = unat b"
    using unat_u8_lt [of a] unat_u8_lt [of b] by simp_all
  then show ?thesis
    by (simp only: u16_to_be_def unat_u16_from_be word_of_nat_eq_u8)
qed

lemma u16_from_be_inj [simp]: "u16_from_be a b = u16_from_be c d \<longleftrightarrow> a = c \<and> b = d"
  by (metis u16_to_be_from_be list.inject)

lemma nat_base256_digits:
  assumes "(n :: nat) < 4294967296"
  shows "((n div 16777216 mod 256 * 256 + n div 65536 mod 256) * 256 + n div 256 mod 256) * 256
      + n mod 256 = n"
proof -
  have d2: "n div 65536 = n div 256 div 256" and d3: "n div 16777216 = n div 256 div 256 div 256"
    by (simp_all add: div_mult2_eq [symmetric])
  have "n div 256 div 256 div 256 < 256"
    using assms by (simp add: div_mult2_eq [symmetric] less_mult_imp_div_less)
  then have "n div 256 div 256 div 256 mod 256 = n div 256 div 256 div 256" by simp
  then show ?thesis unfolding d2 d3 by (simp only: div_mult_mod_eq)
qed

lemma u32_from_be_to_be [simp]:
  "u32_from_be (u32_to_be w ! 0) (u32_to_be w ! Suc 0) (u32_to_be w ! 2) (u32_to_be w ! 3) = w"
proof -
  have "u32_to_be w ! Suc 0 = word_of_nat (unat w div 65536)"
    "u32_to_be w ! 2 = word_of_nat (unat w div 256)"
    "u32_to_be w ! 3 = word_of_nat (unat w)"
    "u32_to_be w ! 0 = word_of_nat (unat w div 16777216)"
    by (simp_all add: u32_to_be_def)
  then show ?thesis
    by (simp only: word_unat_eq_iff unat_u32_from_be unat_word_of_nat_small
        nat_base256_digits [OF unat_u32_lt])
qed

lemma u32_to_be_from_be [simp]: "u32_to_be (u32_from_be a b c d) = [a, b, c, d]"
proof -
  let ?x = "unat a" let ?y = "?x * 256 + unat b" let ?z = "?y * 256 + unat c"
  let ?n = "?z * 256 + unat d"
  have e1: "?n div 256 = ?z" by (intro base256_div unat_u8_lt)
  have "?n div 65536 = ?n div 256 div 256" by (simp only: div_mult2_eq [symmetric]) simp
  also have "\<dots> = ?y" unfolding e1 by (intro base256_div unat_u8_lt)
  finally have e2: "?n div 65536 = ?y" .
  have "?n div 16777216 = ?n div 65536 div 256" by (simp only: div_mult2_eq [symmetric]) simp
  also have "\<dots> = ?x" unfolding e2 by (intro base256_div unat_u8_lt)
  finally have e3: "?n div 16777216 = ?x" .
  have m: "(k * 256 + unat e) mod 256 = unat e" for k and e :: u8
    using unat_u8_lt [of e] by simp
  have m0: "unat a mod 256 = unat a" by simp
  show ?thesis
    unfolding u32_to_be_def unat_u32_from_be e1 e2 e3
    by (simp only: word_of_nat_eq_u8 [OF m] word_of_nat_eq_u8 [OF m0])
qed

section \<open>Durations\<close>

text \<open>
  \<^verbatim>\<open>std::time::Duration\<close> holds \<open>u64\<close> seconds and less than one second of nanoseconds; the
  model keeps the nanosecond count, which is bounded by \<open>duration_max\<close>.
\<close>

type_synonym duration = nat

definition nanos_per_sec :: nat where "nanos_per_sec = 1000000000"
definition duration_max :: duration where
  "duration_max = u64_max * nanos_per_sec + 999999999"

definition from_millis :: "nat \<Rightarrow> duration" where "from_millis ms = ms * 1000000"
definition from_secs :: "nat \<Rightarrow> duration" where "from_secs s = s * nanos_per_sec"
definition as_millis :: "duration \<Rightarrow> nat" where "as_millis d = d div 1000000"

definition duration_checked_add :: "duration \<Rightarrow> duration \<Rightarrow> duration option" where
  "duration_checked_add a b = checked_add duration_max a b"

section \<open>Lists\<close>

text \<open>\<^verbatim>\<open>slice.get(a..b)\<close>.\<close>

definition slice_get :: "nat \<Rightarrow> nat \<Rightarrow> 'a list \<Rightarrow> 'a list option" where
  "slice_get a b xs = (if a \<le> b \<and> b \<le> length xs then Some (take (b - a) (drop a xs)) else None)"

lemma slice_get_Some_iff:
  "slice_get a b xs = Some ys \<longleftrightarrow> a \<le> b \<and> b \<le> length xs \<and> ys = take (b - a) (drop a xs)"
  by (auto simp: slice_get_def)

lemma length_slice_get: "slice_get a b xs = Some ys \<Longrightarrow> length ys = b - a"
  by (auto simp: slice_get_Some_iff)

text \<open>The consecutive octets of a list with a known length, read off by position.\<close>

lemma take_Suc_drop_nth: "n < length xs \<Longrightarrow> take (Suc k) (drop n xs) = xs ! n # take k (drop (Suc n) xs)"
  by (simp add: Cons_nth_drop_Suc [symmetric])

text \<open>\<^verbatim>\<open>buffer[off..off + n].copy_from_slice(xs)\<close>, for a range that lies in the buffer.\<close>

definition write_slice :: "nat \<Rightarrow> 'a list \<Rightarrow> 'a list \<Rightarrow> 'a list" where
  "write_slice off xs buf = take off buf @ xs @ drop (off + length xs) buf"

lemma length_write_slice [simp]:
  "off + length xs \<le> length buf \<Longrightarrow> length (write_slice off xs buf) = length buf"
  by (simp add: write_slice_def)

text \<open>Filling a buffer from the front: the next write extends what is already written.\<close>

lemma write_slice_next:
  "length pre = off \<Longrightarrow> length xs \<le> n \<Longrightarrow>
     write_slice off xs (pre @ replicate n z) = (pre @ xs) @ replicate (n - length xs) z"
  by (simp add: write_slice_def)

lemma write_slice_first:
  "length xs \<le> n \<Longrightarrow> write_slice 0 xs (replicate n z) = xs @ replicate (n - length xs) z"
  by (simp add: write_slice_def)

end
