(* ===== verification/Rust_Str.thy ===== *)
theory Rust_Str
  imports Prelude
begin

text \<open>
  The operations on \<^verbatim>\<open>&str\<close> the source calls, over UTF-8 octets: a \<open>string\<close> of the model is
  the list of the octets of a Rust string, so \<open>length\<close> is \<^verbatim>\<open>str::len\<close>. \<open>str_trim\<close> removes the
  Unicode \<^verbatim>\<open>White_Space\<close> characters by their UTF-8 encodings, \<open>str_trim_ascii\<close> only the ASCII
  ones. Decimal and hexadecimal printing and parsing, and \<^verbatim>\<open>Ipv4Addr\<close>'s text form, follow the
  standard library.
\<close>

section \<open>Characters\<close>

definition code :: "char \<Rightarrow> nat" where "code c = of_char c"

lemma code_lt [simp]: "code c < 256"
  by (simp add: code_def)

lemma code_char_of [simp]: "n < 256 \<Longrightarrow> code (char_of n) = n"
  by (simp add: code_def)

lemma char_of_code [simp]: "char_of (code c) = c"
  by (simp add: code_def)

lemma code_eq_iff: "code c = code d \<longleftrightarrow> c = d"
  by (simp add: code_def)

definition is_ascii_digit :: "char \<Rightarrow> bool" where
  "is_ascii_digit c \<longleftrightarrow> 48 \<le> code c \<and> code c \<le> 57"

definition is_ascii_whitespace :: "char \<Rightarrow> bool" where
  "is_ascii_whitespace c \<longleftrightarrow> code c \<in> {32, 9, 10, 12, 13}"

definition hex_digit_value :: "char \<Rightarrow> nat option" where
  "hex_digit_value c =
     (let n = code c in
      if 48 \<le> n \<and> n \<le> 57 then Some (n - 48)
      else if 97 \<le> n \<and> n \<le> 102 then Some (n - 97 + 10)
      else if 65 \<le> n \<and> n \<le> 70 then Some (n - 65 + 10)
      else None)"

definition is_ascii_hexdigit :: "char \<Rightarrow> bool" where
  "is_ascii_hexdigit c \<longleftrightarrow> hex_digit_value c \<noteq> None"

definition to_ascii_uppercase :: "char \<Rightarrow> char" where
  "to_ascii_uppercase c = (if 97 \<le> code c \<and> code c \<le> 122 then char_of (code c - 32) else c)"

definition to_ascii_lowercase :: "char \<Rightarrow> char" where
  "to_ascii_lowercase c = (if 65 \<le> code c \<and> code c \<le> 90 then char_of (code c + 32) else c)"

definition eq_ignore_ascii_case :: "string \<Rightarrow> string \<Rightarrow> bool" where
  "eq_ignore_ascii_case s t \<longleftrightarrow> map to_ascii_lowercase s = map to_ascii_lowercase t"

section \<open>Trimming and splitting\<close>

definition str_trim_ascii :: "string \<Rightarrow> string" where
  "str_trim_ascii s =
     rev (dropWhile is_ascii_whitespace (rev (dropWhile is_ascii_whitespace s)))"

text \<open>How many octets a leading white-space character takes, zero when there is none.\<close>

definition ws_one :: "nat \<Rightarrow> bool" where
  "ws_one a \<longleftrightarrow> (9 \<le> a \<and> a \<le> 13) \<or> a = 32"

definition ws_two :: "nat \<Rightarrow> nat \<Rightarrow> bool" where
  "ws_two a b \<longleftrightarrow> a = 0xC2 \<and> (b = 0x85 \<or> b = 0xA0)"

definition ws_three :: "nat \<Rightarrow> nat \<Rightarrow> nat \<Rightarrow> bool" where
  "ws_three a b c \<longleftrightarrow>
     (a = 0xE1 \<and> b = 0x9A \<and> c = 0x80)
     \<or> (a = 0xE2 \<and> b = 0x80 \<and> (0x80 \<le> c \<and> c \<le> 0x8A \<or> c = 0xA8 \<or> c = 0xA9 \<or> c = 0xAF))
     \<or> (a = 0xE2 \<and> b = 0x81 \<and> c = 0x9F)
     \<or> (a = 0xE3 \<and> b = 0x80 \<and> c = 0x80)"

definition leading_ws :: "string \<Rightarrow> nat" where
  "leading_ws s =
     (if 1 \<le> length s \<and> ws_one (code (s ! 0)) then 1
      else if 2 \<le> length s \<and> ws_two (code (s ! 0)) (code (s ! 1)) then 2
      else if 3 \<le> length s \<and> ws_three (code (s ! 0)) (code (s ! 1)) (code (s ! 2)) then 3
      else 0)"

text \<open>The same on a reversed string, where the octets of a character come in reverse.\<close>

definition trailing_ws :: "string \<Rightarrow> nat" where
  "trailing_ws s =
     (if 1 \<le> length s \<and> ws_one (code (s ! 0)) then 1
      else if 2 \<le> length s \<and> ws_two (code (s ! 1)) (code (s ! 0)) then 2
      else if 3 \<le> length s \<and> ws_three (code (s ! 2)) (code (s ! 1)) (code (s ! 0)) then 3
      else 0)"

function trim_by :: "(string \<Rightarrow> nat) \<Rightarrow> string \<Rightarrow> string" where
  "trim_by f s = (if f s = 0 \<or> s = [] then s else trim_by f (drop (f s) s))"
  by pat_completeness auto
termination
  by (relation "measure (\<lambda>(f, s). length s)") auto

declare trim_by.simps [simp del]

definition str_trim :: "string \<Rightarrow> string" where
  "str_trim s = rev (trim_by trailing_ws (rev (trim_by leading_ws s)))"

fun split_char :: "char \<Rightarrow> string \<Rightarrow> string list" where
  "split_char sep [] = [[]]"
| "split_char sep (c # cs) =
     (if c = sep then [] # split_char sep cs
      else (case split_char sep cs of [] \<Rightarrow> [[c]] | p # ps \<Rightarrow> (c # p) # ps))"

definition split_once :: "char \<Rightarrow> string \<Rightarrow> (string \<times> string) option" where
  "split_once sep s =
     (if sep \<in> set s
      then Some (takeWhile (\<lambda>c. c \<noteq> sep) s, tl (dropWhile (\<lambda>c. c \<noteq> sep) s))
      else None)"

definition strip_prefix :: "string \<Rightarrow> string \<Rightarrow> string option" where
  "strip_prefix p s = (if take (length p) s = p then Some (drop (length p) s) else None)"

definition starts_with :: "string \<Rightarrow> string \<Rightarrow> bool" where
  "starts_with p s \<longleftrightarrow> take (length p) s = p"

text \<open>\<^verbatim>\<open>str::lines\<close>: a line ends at \<open>\n\<close> or \<open>\r\n\<close>; a final line without one keeps its \<open>\r\<close>.\<close>

definition newline :: char where "newline = CHR 0x0A"
definition tab :: char where "tab = CHR 0x09"

definition strip_cr :: "string \<Rightarrow> string" where
  "strip_cr s = (if s \<noteq> [] \<and> last s = CHR 0x0D then butlast s else s)"

definition str_lines :: "string \<Rightarrow> string list" where
  "str_lines s =
     (let segs = split_char newline s in
      map strip_cr (butlast segs) @ (if last segs = [] then [] else [last segs]))"

lemma split_char_ne [simp]: "split_char sep s \<noteq> []"
  by (induction s) (auto split: list.splits)

lemma split_char_no_sep: "sep \<notin> set s \<Longrightarrow> split_char sep s = [s]"
  by (induction s) auto

lemma split_char_append:
  "sep \<notin> set p \<Longrightarrow> split_char sep (p @ sep # s) = p # split_char sep s"
  by (induction p) auto

lemma split_once_append:
  "sep \<notin> set p \<Longrightarrow> split_once sep (p @ sep # s) = Some (p, s)"
  by (simp add: split_once_def takeWhile_append dropWhile_append)

lemma trim_by_id: "f s = 0 \<Longrightarrow> trim_by f s = s"
  by (simp add: trim_by.simps)

text \<open>A text whose ends are printable ASCII is its own trimmed form.\<close>

definition plain_char :: "char \<Rightarrow> bool" where
  "plain_char c \<longleftrightarrow> 33 \<le> code c \<and> code c \<le> 126"

lemma leading_ws_plain:
  assumes "s = [] \<or> plain_char (hd s)"
  shows "leading_ws s = 0"
  using assms by (cases s) (auto simp: leading_ws_def plain_char_def ws_one_def ws_two_def ws_three_def)

lemma ws_two_last: "ws_two a b \<Longrightarrow> 128 \<le> b"
  and ws_three_last: "ws_three a b c \<Longrightarrow> 128 \<le> c"
  by (auto simp: ws_two_def ws_three_def)

lemma trailing_ws_plain:
  assumes "s = [] \<or> plain_char (hd s)"
  shows "trailing_ws s = 0"
proof (cases s)
  case (Cons c t)
  then have "code c < 128" and "\<not> ws_one (code c)"
    using assms by (auto simp: plain_char_def ws_one_def)
  then show ?thesis
    using Cons ws_two_last [of "code (s ! 1)" "code c"]
      ws_three_last [of "code (s ! 2)" "code (s ! 1)" "code c"]
    by (auto simp: trailing_ws_def)
qed (simp add: trailing_ws_def)

lemma str_trim_plain:
  assumes "s \<noteq> []" and "plain_char (hd s)" and "plain_char (last s)"
  shows "str_trim s = s"
  using assms by (simp add: str_trim_def trim_by_id leading_ws_plain trailing_ws_plain hd_rev)

text \<open>
  What trimming leaves does not end in white space, so a part of it that reaches its end is not
  blank.
\<close>

lemma trim_by_stops: "trim_by f s = [] \<or> f (trim_by f s) = 0"
proof (induction f s rule: trim_by.induct)
  case (1 f s)
  then show ?case by (subst (1 2) trim_by.simps) (auto simp: trim_by.simps [of f s])
qed

lemma trim_by_suffix: "\<exists>u. s = u @ trim_by f s"
proof (induction f s rule: trim_by.induct)
  case (1 f s)
  show ?case
  proof (cases "f s = 0 \<or> s = []")
    case False
    then obtain u where "drop (f s) s = u @ trim_by f (drop (f s) s)" using 1 by blast
    then have "s = (take (f s) s @ u) @ trim_by f s"
      using False by (simp add: trim_by.simps [of f s])
    then show ?thesis by blast
  qed (simp add: trim_by.simps [of f s])
qed

lemma trim_by_all:
  "trim_by leading_ws s = [] \<Longrightarrow> s \<noteq> [] \<Longrightarrow> \<exists>u c. s = u @ c \<and> c \<noteq> [] \<and> leading_ws c = length c"
proof (induction leading_ws s rule: trim_by.induct)
  case (1 s)
  then have nz: "leading_ws s \<noteq> 0" using trim_by_id [of leading_ws s] by auto
  show ?case
  proof (cases "drop (leading_ws s) s = []")
    case True
    moreover have "leading_ws s \<le> length s" by (simp add: leading_ws_def)
    ultimately show ?thesis using 1(3) by (intro exI [of _ "[]"] exI [of _ s]) simp
  next
    case False
    have "trim_by leading_ws (drop (leading_ws s) s) = []"
      using 1(2,3) nz by (simp add: trim_by.simps [of _ s])
    then obtain u c where "drop (leading_ws s) s = u @ c" "c \<noteq> []" "leading_ws c = length c"
      using 1(1) nz 1(3) False by blast
    moreover from this(1) have "s = (take (leading_ws s) s @ u) @ c"
      by (metis append.assoc append_take_drop_id)
    ultimately show ?thesis by blast
  qed
qed

lemma trailing_of_leading: "c \<noteq> [] \<Longrightarrow> leading_ws c = length c \<Longrightarrow> trailing_ws (rev c) \<noteq> 0"
proof -
  assume c: "c \<noteq> []" "leading_ws c = length c"
  then have "length c = 1 \<or> length c = 2 \<or> length c = 3"
    by (auto simp: leading_ws_def split: if_splits)
  then consider x where "c = [x]" | x y where "c = [x, y]" | x y z where "c = [x, y, z]"
    by (auto simp: length_Suc_conv numeral_eq_Suc)
  then show ?thesis
    using c(2) by cases (auto simp: leading_ws_def trailing_ws_def split: if_splits)
qed

lemma trailing_ws_append: "trailing_ws s \<noteq> 0 \<Longrightarrow> trailing_ws (s @ t) \<noteq> 0"
  by (auto simp: trailing_ws_def nth_append split: if_splits)

lemma trimmed_end: "str_trim s = [] \<or> trailing_ws (rev (str_trim s)) = 0"
  using trim_by_stops [of trailing_ws "rev (trim_by leading_ws s)"] by (simp add: str_trim_def)

lemma trimmed_tail_not_blank:
  assumes "str_trim s = p @ tab # v"
  shows "str_trim v \<noteq> []"
proof
  assume blank: "str_trim v = []"
  have end0: "trailing_ws (rev v @ tab # rev p) = 0"
    using trimmed_end [of s] assms by simp
  obtain u where u: "v = u @ trim_by leading_ws v" using trim_by_suffix by blast
  have "\<exists>t. rev v = t @ drop (length t) (rev v) \<and> t \<noteq> [] \<and> trailing_ws t \<noteq> 0 \<or> v = []"
  proof (cases "trim_by leading_ws v = []")
    case True
    show ?thesis
    proof (cases "v = []")
      case False
      then obtain w c where "v = w @ c" "c \<noteq> []" "leading_ws c = length c"
        using True trim_by_all by blast
      then show ?thesis using trailing_of_leading [of c] by (intro exI [of _ "rev c"]) simp
    qed simp
  next
    case False
    have "trailing_ws (rev (trim_by leading_ws v)) \<noteq> 0"
      using blank False trim_by_id [of trailing_ws "rev (trim_by leading_ws v)"]
      by (auto simp: str_trim_def)
    moreover have "rev v = rev (trim_by leading_ws v) @ rev u" using u by (metis rev_append)
    ultimately show ?thesis
      using False by (intro exI [of _ "rev (trim_by leading_ws v)"]) simp
  qed
  then show False
  proof (elim exE disjE conjE)
    assume "v = []"
    then show False using end0 by (simp add: trailing_ws_def ws_one_def tab_def code_def)
  next
    fix t assume "rev v = t @ drop (length t) (rev v)" "trailing_ws t \<noteq> 0"
    then show False using trailing_ws_append end0 by (metis append_assoc)
  qed
qed

lemma str_trim_ascii_plain:
  assumes "\<forall>c \<in> set s. plain_char c"
  shows "str_trim_ascii s = s"
proof -
  have "\<not> is_ascii_whitespace c" if "c \<in> set s" for c
    using that assms by (auto simp: plain_char_def is_ascii_whitespace_def)
  then have "dropWhile is_ascii_whitespace s = s" "dropWhile is_ascii_whitespace (rev s) = rev s"
    by (auto simp: dropWhile_eq_self_iff hd_in_set hd_rev)
  then show ?thesis by (simp add: str_trim_ascii_def)
qed

section \<open>UTF-8\<close>

text \<open>\<^verbatim>\<open>CStr::to_str\<close> accepts well-formed UTF-8.\<close>

definition continuation :: "char \<Rightarrow> bool" where
  "continuation c \<longleftrightarrow> 0x80 \<le> (of_char c :: nat) \<and> (of_char c :: nat) \<le> 0xBF"

definition in_range :: "nat \<Rightarrow> nat \<Rightarrow> char \<Rightarrow> bool" where
  "in_range a b c \<longleftrightarrow> a \<le> (of_char c :: nat) \<and> (of_char c :: nat) \<le> b"

fun utf8_valid :: "string \<Rightarrow> bool" where
  "utf8_valid [] \<longleftrightarrow> True"
| "utf8_valid (c # s) \<longleftrightarrow>
     (if in_range 0 0x7F c then utf8_valid s
      else (case s of
          [] \<Rightarrow> False
        | d # s \<Rightarrow>
            if in_range 0xC2 0xDF c then continuation d \<and> utf8_valid s
            else (case s of
                [] \<Rightarrow> False
              | e # s \<Rightarrow>
                  if in_range 0xE0 0xEF c
                  then continuation e \<and> utf8_valid s
                    \<and> in_range (if c = CHR 0xE0 then 0xA0 else 0x80) (if c = CHR 0xED then 0x9F else 0xBF) d
                  else (case s of
                      [] \<Rightarrow> False
                    | f # s \<Rightarrow>
                        in_range 0xF0 0xF4 c \<and> continuation e \<and> continuation f \<and> utf8_valid s
                        \<and> in_range (if c = CHR 0xF0 then 0x90 else 0x80)
                            (if c = CHR 0xF4 then 0x8F else 0xBF) d))))"

section \<open>Numbers in text\<close>

definition digit_char :: "nat \<Rightarrow> char" where "digit_char n = char_of (48 + n)"

fun show_nat :: "nat \<Rightarrow> string" where
  "show_nat n =
     (if n < 10 then [digit_char n] else show_nat (n div 10) @ [digit_char (n mod 10)])"

declare show_nat.simps [simp del]

definition hex_lower :: "nat \<Rightarrow> char" where
  "hex_lower n = (if n < 10 then char_of (48 + n) else char_of (87 + n))"

definition hex_upper :: "nat \<Rightarrow> char" where
  "hex_upper n = (if n < 10 then char_of (48 + n) else char_of (55 + n))"

text \<open>The formats \<^verbatim>\<open>{:02x}\<close> and \<^verbatim>\<open>{:02X}\<close> of a \<^verbatim>\<open>u8\<close>.\<close>

definition hex02_lower :: "u8 \<Rightarrow> string" where
  "hex02_lower w = [hex_lower (unat w div 16), hex_lower (unat w mod 16)]"

definition hex02_upper :: "u8 \<Rightarrow> string" where
  "hex02_upper w = [hex_upper (unat w div 16), hex_upper (unat w mod 16)]"

definition digits_value :: "nat \<Rightarrow> nat list \<Rightarrow> nat" where
  "digits_value radix ds = foldl (\<lambda>a d. a * radix + d) 0 ds"

text \<open>
  \<^verbatim>\<open>from_str_radix\<close> of the unsigned integers with largest value \<open>m\<close>, radix 10 or 16: one leading
  \<open>+\<close> is accepted, a sign alone and the empty string are not, overflow is an error.
\<close>

definition digit_values :: "nat \<Rightarrow> string \<Rightarrow> nat list option" where
  "digit_values radix s =
     (if \<forall>c \<in> set s. (case hex_digit_value c of None \<Rightarrow> False | Some d \<Rightarrow> d < radix)
      then Some (map (\<lambda>c. the (hex_digit_value c)) s) else None)"

definition from_str_radix :: "nat \<Rightarrow> nat \<Rightarrow> string \<Rightarrow> nat option" where
  "from_str_radix radix m s =
     (let body = (if length s > 1 \<and> hd s = CHR ''+'' then tl s else s) in
      if body = [] then None
      else case digit_values radix body of
        None \<Rightarrow> None
      | Some ds \<Rightarrow> (let v = digits_value radix ds in if v \<le> m then Some v else None))"

lemma code_digit_char [simp]: "n < 10 \<Longrightarrow> code (digit_char n) = 48 + n"
  by (simp add: digit_char_def)

lemma hex_digit_value_digit_char [simp]: "n < 10 \<Longrightarrow> hex_digit_value (digit_char n) = Some n"
  by (simp add: hex_digit_value_def Let_def)

lemma hex_digit_value_hex_lower [simp]: "n < 16 \<Longrightarrow> hex_digit_value (hex_lower n) = Some n"
  by (auto simp: hex_lower_def hex_digit_value_def Let_def)

lemma hex_digit_value_hex_upper [simp]: "n < 16 \<Longrightarrow> hex_digit_value (hex_upper n) = Some n"
  by (auto simp: hex_upper_def hex_digit_value_def Let_def)

lemma plain_hex_lower: "n < 16 \<Longrightarrow> plain_char (hex_lower n)"
  by (auto simp: hex_lower_def plain_char_def)

lemma hex_upper_inj: "a < 16 \<Longrightarrow> b < 16 \<Longrightarrow> hex_upper a = hex_upper b \<Longrightarrow> a = b"
  by (metis hex_digit_value_hex_upper option.inject)

lemma show_nat_ne [simp]: "show_nat n \<noteq> []"
  by (subst show_nat.simps) simp

lemma set_show_nat: "c \<in> set (show_nat n) \<Longrightarrow> \<exists>d < 10. c = digit_char d"
proof (induction n rule: show_nat.induct)
  case (1 n)
  show ?case
  proof (cases "n < 10")
    case True
    then show ?thesis using 1 by (auto simp: show_nat.simps [of n])
  next
    case False
    then have "c \<in> set (show_nat (n div 10)) \<or> c = digit_char (n mod 10)"
      using 1(2) by (auto simp: show_nat.simps [of n])
    moreover have "n mod 10 < 10" by simp
    ultimately show ?thesis using 1(1) False by blast
  qed
qed

lemma digit_values_append:
  "digit_values r s = Some ds \<Longrightarrow> digit_values r t = Some es \<Longrightarrow> digit_values r (s @ t) = Some (ds @ es)"
  by (auto simp: digit_values_def split: if_splits)

lemma digits_value_snoc [simp]: "digits_value r (ds @ [d]) = digits_value r ds * r + d"
  by (simp add: digits_value_def)

lemma digit_values_show_nat: "\<exists>ds. digit_values 10 (show_nat n) = Some ds \<and> digits_value 10 ds = n"
proof (induction n rule: show_nat.induct)
  case (1 n)
  show ?case
  proof (cases "n < 10")
    case True
    then show ?thesis
      by (simp add: show_nat.simps [of n] digit_values_def digits_value_def)
  next
    case False
    then obtain ds where ds: "digit_values 10 (show_nat (n div 10)) = Some ds"
      "digits_value 10 ds = n div 10"
      using 1 by blast
    have "digit_values 10 [digit_char (n mod 10)] = Some [n mod 10]"
      by (simp add: digit_values_def)
    then have "digit_values 10 (show_nat n) = Some (ds @ [n mod 10])"
      using ds(1) False by (simp add: show_nat.simps [of n] digit_values_append)
    moreover have "digits_value 10 (ds @ [n mod 10]) = n" using ds(2) by simp
    ultimately show ?thesis by blast
  qed
qed

lemma show_nat_plain: "\<forall>c \<in> set (show_nat n). plain_char c \<and> is_ascii_digit c"
  by (auto dest!: set_show_nat simp: plain_char_def is_ascii_digit_def)

lemma show_nat_no: "\<not> is_ascii_digit c \<Longrightarrow> c \<notin> set (show_nat n)"
  using show_nat_plain by blast

lemma from_str_radix_show_nat_exact:
  "from_str_radix 10 m (show_nat n) = (if n \<le> m then Some n else None)"
proof -
  have "hd (show_nat n) \<noteq> CHR ''+''"
    using show_nat_no [of "CHR ''+''" n] hd_in_set [OF show_nat_ne [of n]]
    by (force simp: is_ascii_digit_def code_def)
  then show ?thesis
    using digit_values_show_nat [of n] by (auto simp: from_str_radix_def Let_def)
qed

lemma from_str_radix_show_nat: "n \<le> m \<Longrightarrow> from_str_radix 10 m (show_nat n) = Some n"
  by (simp add: from_str_radix_show_nat_exact)

section \<open>IPv4 addresses in text\<close>

text \<open>
  \<^verbatim>\<open>Ipv4Addr\<close> is its 32 bits; the derived order on the octets is the order of the bits. Its
  \<^verbatim>\<open>Display\<close> is the dotted quad; its \<^verbatim>\<open>FromStr\<close> takes four decimal groups of one to three
  digits without a leading zero, each at most 255, and nothing else.
\<close>

type_synonym ipv4 = u32

definition ipv4_octets :: "ipv4 \<Rightarrow> u8 list" where "ipv4_octets a = u32_to_be a"

definition ipv4_new :: "u8 \<Rightarrow> u8 \<Rightarrow> u8 \<Rightarrow> u8 \<Rightarrow> ipv4" where "ipv4_new a b c d = u32_from_be a b c d"

definition ipv4_unspecified :: ipv4 where "ipv4_unspecified = 0"
definition ipv4_broadcast :: ipv4 where "ipv4_broadcast = 0xFFFFFFFF"

definition show_ipv4 :: "ipv4 \<Rightarrow> string" where
  "show_ipv4 a =
     (let q = ipv4_octets a in
      show_nat (unat (q ! 0)) @ ''.'' @ show_nat (unat (q ! 1)) @ ''.''
      @ show_nat (unat (q ! 2)) @ ''.'' @ show_nat (unat (q ! 3)))"

definition parse_ipv4_group :: "string \<Rightarrow> u8 option" where
  "parse_ipv4_group s =
     (if s = [] \<or> 3 < length s \<or> \<not> list_all is_ascii_digit s
         \<or> (1 < length s \<and> hd s = CHR ''0'') then None
      else map_option word_of_nat (from_str_radix 10 255 s))"

definition parse_ipv4 :: "string \<Rightarrow> ipv4 option" where
  "parse_ipv4 s =
     (case map parse_ipv4_group (split_char (CHR ''.'') s) of
        [Some a, Some b, Some c, Some d] \<Rightarrow> Some (ipv4_new a b c d)
      | _ \<Rightarrow> None)"

lemma show_nat_small_length: "n < 1000 \<Longrightarrow> length (show_nat n) \<le> 3"
  by (simp add: show_nat.simps [of n] show_nat.simps [of "n div 10"] show_nat.simps [of "n div 10 div 10"])

lemma show_nat_lead: "1 < length (show_nat n) \<Longrightarrow> hd (show_nat n) \<noteq> CHR ''0''"
proof (induction n rule: show_nat.induct)
  case (1 n)
  show ?case
  proof (cases "n < 10")
    case True
    then show ?thesis using 1 by (simp add: show_nat.simps [of n])
  next
    case False
    show ?thesis
    proof (cases "1 < length (show_nat (n div 10))")
      case True
      then show ?thesis using 1 False by (simp add: show_nat.simps [of n])
    next
      case short: False
      then have small: "n div 10 < 10"
        by (metis One_nat_def Suc_lessI add_Suc_right length_append_singleton length_greater_0_conv
            less_add_same_cancel1 show_nat.simps show_nat_ne zero_less_Suc list.size(4) not_less_iff_gr_or_eq)
      have "hd (show_nat n) = digit_char (n div 10)"
        using False small by (simp add: show_nat.simps [of n] show_nat.simps [of "n div 10"])
      moreover have "0 < n div 10" using False by simp
      ultimately have "code (hd (show_nat n)) \<noteq> 48" using small by simp
      then show ?thesis by (auto simp: code_def)
    qed
  qed
qed

lemma parse_ipv4_group_show: "parse_ipv4_group (show_nat (unat (b :: u8))) = Some b"
proof -
  have "length (show_nat (unat b)) \<le> 3"
    using unat_u8_lt [of b] by (intro show_nat_small_length) linarith
  moreover have "list_all is_ascii_digit (show_nat (unat b))"
    using show_nat_plain by (auto simp: list_all_iff)
  moreover have "from_str_radix 10 255 (show_nat (unat b)) = Some (unat b)"
    using unat_u8_lt [of b] by (intro from_str_radix_show_nat) linarith
  ultimately show ?thesis using show_nat_lead [of "unat b"] by (auto simp: parse_ipv4_group_def)
qed

lemma dot_not_in_show_nat [simp]: "CHR ''.'' \<notin> set (show_nat n)"
  by (rule show_nat_no) (simp add: is_ascii_digit_def code_def)

lemma parse_show_ipv4 [simp]: "parse_ipv4 (show_ipv4 a) = Some a"
proof -
  let ?q = "ipv4_octets a"
  have "split_char (CHR ''.'') (show_ipv4 a) =
      [show_nat (unat (?q ! 0)), show_nat (unat (?q ! 1)), show_nat (unat (?q ! 2)), show_nat (unat (?q ! 3))]"
    by (simp add: show_ipv4_def Let_def split_char_append split_char_no_sep)
  then have "parse_ipv4 (show_ipv4 a) = Some (ipv4_new (?q ! 0) (?q ! 1) (?q ! 2) (?q ! 3))"
    by (simp add: parse_ipv4_def parse_ipv4_group_show)
  then show ?thesis by (simp add: ipv4_new_def ipv4_octets_def)
qed

lemma show_ipv4_chars: "c \<in> set (show_ipv4 a) \<Longrightarrow> plain_char c \<and> (is_ascii_digit c \<or> c = CHR ''.'')"
  using show_nat_plain by (fastforce simp: show_ipv4_def Let_def plain_char_def code_def)

lemma show_ipv4_ne [simp]: "show_ipv4 a \<noteq> []"
  by (simp add: show_ipv4_def Let_def)

end
