(* ===== verification/Mac_Address.thy ===== *)
theory Mac_Address
  imports Rust_Str
begin

text \<open>
  \<^verbatim>\<open>src/mac_address.rs\<close>: the 48-bit hardware address with its predicates, its text form
  \<^verbatim>\<open>aa:bb:cc:dd:ee:ff\<close>, and the two parsers. The parser of the source trims white space around
  each component before it checks the length; the octet lengths it reports are those of the
  trimmed component.
\<close>

section \<open>The address type\<close>

datatype mac_address = MacAddress u8 u8 u8 u8 u8 u8

fun octets :: "mac_address \<Rightarrow> u8 list" where
  "octets (MacAddress a b c d e f) = [a, b, c, d, e, f]"

text \<open>\<open>from_octets\<close> takes \<^verbatim>\<open>[u8; 6]\<close>: its argument has six elements wherever it is called.\<close>

definition from_octets :: "u8 list \<Rightarrow> mac_address" where
  "from_octets xs = MacAddress (xs ! 0) (xs ! 1) (xs ! 2) (xs ! 3) (xs ! 4) (xs ! 5)"

definition mac_broadcast :: mac_address where
  "mac_broadcast = MacAddress 0xFF 0xFF 0xFF 0xFF 0xFF 0xFF"

definition mac_zero :: mac_address where
  "mac_zero = MacAddress 0 0 0 0 0 0"

definition is_broadcast :: "mac_address \<Rightarrow> bool" where
  "is_broadcast m \<longleftrightarrow> octets m = octets mac_broadcast"

definition is_zero :: "mac_address \<Rightarrow> bool" where
  "is_zero m \<longleftrightarrow> octets m = replicate 6 0"

definition is_unicast :: "mac_address \<Rightarrow> bool" where
  "is_unicast m \<longleftrightarrow> (octets m ! 0) AND 0x01 = 0"

definition is_multicast :: "mac_address \<Rightarrow> bool" where
  "is_multicast m \<longleftrightarrow> \<not> is_unicast m"

definition is_universally_administered :: "mac_address \<Rightarrow> bool" where
  "is_universally_administered m \<longleftrightarrow> (octets m ! 0) AND 0x02 = 0"

definition is_locally_administered :: "mac_address \<Rightarrow> bool" where
  "is_locally_administered m \<longleftrightarrow> \<not> is_universally_administered m"

definition mal_prefix :: "mac_address \<Rightarrow> u8 list" where
  "mal_prefix m = [octets m ! 0, octets m ! 1, octets m ! 2]"

lemma length_octets [simp]: "length (octets m) = 6"
  by (cases m) simp

lemma from_octets_octets [simp]: "from_octets (octets m) = m"
  by (cases m) (simp add: from_octets_def)

lemma octets_from_octets: "length xs = 6 \<Longrightarrow> octets (from_octets xs) = xs"
  by (auto simp: from_octets_def numeral_eq_Suc length_Suc_conv)

lemma octets_inject [simp]: "octets a = octets b \<longleftrightarrow> a = b"
  by (metis from_octets_octets)

lemma is_zero_iff: "is_zero m \<longleftrightarrow> m = mac_zero"
  by (cases m) (simp add: is_zero_def mac_zero_def numeral_eq_Suc)

lemma is_broadcast_iff: "is_broadcast m \<longleftrightarrow> m = mac_broadcast"
  by (simp add: is_broadcast_def)

text \<open>The derived order is the lexicographic order of the octets.\<close>

instantiation mac_address :: linorder
begin

definition less_eq_mac_address :: "mac_address \<Rightarrow> mac_address \<Rightarrow> bool" where
  "less_eq_mac_address a b \<longleftrightarrow> octets a \<le> octets b"

definition less_mac_address :: "mac_address \<Rightarrow> mac_address \<Rightarrow> bool" where
  "less_mac_address a b \<longleftrightarrow> octets a < octets b"

instance
  by intro_classes
    (auto simp: less_eq_mac_address_def less_mac_address_def less_le_not_le)

end

section \<open>Printing\<close>

fun join_strings :: "string \<Rightarrow> string list \<Rightarrow> string" where
  "join_strings sep [] = []"
| "join_strings sep [s] = s"
| "join_strings sep (s # t # ts) = s @ sep @ join_strings sep (t # ts)"

definition show_mac_sep :: "string \<Rightarrow> mac_address \<Rightarrow> string" where
  "show_mac_sep sep m = join_strings sep (map hex02_lower (octets m))"

text \<open>\<^verbatim>\<open>Display\<close>.\<close>

definition show_mac :: "mac_address \<Rightarrow> string" where
  "show_mac m = show_mac_sep '':'' m"

section \<open>Parsing\<close>

datatype mac_parse_error =
    WrongComponentCount nat nat
  | ComponentWrongLength nat nat
  | InvalidHexadecimalDigit nat char

text \<open>A \<^verbatim>\<open>char\<close> made from one octet prints as the UTF-8 encoding of that code point.\<close>

definition show_latin1 :: "char \<Rightarrow> string" where
  "show_latin1 c =
     (if code c < 128 then [c]
      else [char_of (192 + code c div 64), char_of (128 + code c mod 64)])"

fun show_mac_parse_error :: "mac_parse_error \<Rightarrow> string" where
  "show_mac_parse_error (WrongComponentCount e a) =
     ''expected '' @ show_nat e @ '' colon-separated components, got '' @ show_nat a"
| "show_mac_parse_error (ComponentWrongLength i n) =
     ''component at index '' @ show_nat i
     @ '' must be exactly two hexadecimal digits, got length '' @ show_nat n"
| "show_mac_parse_error (InvalidHexadecimalDigit i c) =
     ''invalid hexadecimal digit `'' @ show_latin1 c @ ''` in component at index '' @ show_nat i"

definition parse_hexadecimal_nibble :: "char \<Rightarrow> nat \<Rightarrow> mac_parse_error + u8" where
  "parse_hexadecimal_nibble c i =
     (let n = code c in
      if 48 \<le> n \<and> n \<le> 57 then Ok (word_of_nat (n - 48))
      else if 97 \<le> n \<and> n \<le> 102 then Ok (word_of_nat (n - 97 + 10))
      else if 65 \<le> n \<and> n \<le> 70 then Ok (word_of_nat (n - 65 + 10))
      else Err (InvalidHexadecimalDigit i c))"

definition parse_component :: "nat \<Rightarrow> string \<Rightarrow> mac_parse_error + u8" where
  "parse_component i component =
     (let trimmed = str_trim component in
      if length trimmed \<noteq> 2 then Err (ComponentWrongLength i (length trimmed))
      else and_then (parse_hexadecimal_nibble (trimmed ! 0) i) (\<lambda>high.
           and_then (parse_hexadecimal_nibble (trimmed ! 1) i) (\<lambda>low.
           Ok ((push_bit 4 high) OR low))))"

fun parse_components :: "nat \<Rightarrow> string list \<Rightarrow> mac_parse_error + u8 list" where
  "parse_components i [] = Ok []"
| "parse_components i (c # cs) =
     and_then (parse_component i c) (\<lambda>b.
     and_then (parse_components (Suc i) cs) (\<lambda>bs. Ok (b # bs)))"

definition parse_mac_address_octets_with_separator ::
    "string \<Rightarrow> char \<Rightarrow> mac_parse_error + mac_address" where
  "parse_mac_address_octets_with_separator text sep =
     (let components = split_char sep text in
      if length components \<noteq> 6 then Err (WrongComponentCount 6 (length components))
      else and_then (parse_components 0 components) (\<lambda>bs. Ok (from_octets bs)))"

text \<open>\<^verbatim>\<open>TryFrom<&str>\<close>.\<close>

definition mac_try_from :: "string \<Rightarrow> mac_parse_error + mac_address" where
  "mac_try_from text = parse_mac_address_octets_with_separator text (CHR '':'')"

definition mac_parse_cli_token :: "string \<Rightarrow> string + mac_address" where
  "mac_parse_cli_token token =
     (let has_colon = (CHR '':'' \<in> set token); has_hyphen = (CHR ''-'' \<in> set token) in
      if has_colon \<and> has_hyphen
      then Err (''invalid MAC address '' @ [CHR 0x27] @ token @ [CHR 0x27] @ '': mix of '' @ [CHR 0x27]
        @ '':'' @ [CHR 0x27] @ '' and '' @ [CHR 0x27] @ ''-'' @ [CHR 0x27] @ '' separators is not allowed'')
      else
        let separator = (if has_hyphen then CHR ''-'' else CHR '':'') in
        map_err (\<lambda>e. ''invalid MAC address '' @ [CHR 0x27] @ token @ [CHR 0x27] @ '': ''
                      @ show_mac_parse_error e)
          (parse_mac_address_octets_with_separator token separator))"

section \<open>Round trip\<close>

lemma parse_hexadecimal_nibble_hex_lower:
  "n < 16 \<Longrightarrow> parse_hexadecimal_nibble (hex_lower n) i = Ok (word_of_nat n)"
  by (auto simp: parse_hexadecimal_nibble_def hex_lower_def Let_def)

lemma nibbles_or:
  fixes b :: u8
  shows "push_bit 4 (word_of_nat (unat b div 16)) OR word_of_nat (unat b mod 16) = b"
proof -
  have hi: "(word_of_nat (unat b div 16) :: u8) = drop_bit 4 b"
  proof (rule word_of_nat_eq_u8)
    have "unat (drop_bit 4 b) = unat b div 16"
      by (simp only: unat_drop_bit_eq) (simp add: drop_bit_eq_div)
    moreover have "unat b div 16 < 256" using unat_u8_lt [of b] by linarith
    ultimately show "unat b div 16 mod 256 = unat (drop_bit 4 b)" by simp
  qed
  have lo: "(word_of_nat (unat b mod 16) :: u8) = take_bit 4 b"
  proof (rule word_of_nat_eq_u8)
    show "unat b mod 16 mod 256 = unat (take_bit 4 b)"
      by (simp only: unsigned_take_bit_eq) (simp add: take_bit_eq_mod)
  qed
  show ?thesis
    unfolding hi lo by (rule bit_word_eqI) (auto simp: bit_simps)
qed

lemma str_trim_hex02: "str_trim (hex02_lower b) = hex02_lower b"
proof -
  have "unat b div 16 < 16" using unat_u8_lt [of b] by linarith
  then show ?thesis by (intro str_trim_plain) (auto simp: hex02_lower_def intro!: plain_hex_lower)
qed

lemma parse_component_hex02: "parse_component i (hex02_lower b) = Ok b"
proof -
  have "unat b div 16 < 16" using unat_u8_lt [of b] by linarith
  then show ?thesis
    using nibbles_or [of b]
    by (simp add: parse_component_def str_trim_hex02)
      (simp add: hex02_lower_def parse_hexadecimal_nibble_hex_lower del: of_nat_add)
qed

lemma parse_components_hex02: "parse_components i (map hex02_lower bs) = Ok bs"
  by (induction bs arbitrary: i) (simp_all add: parse_component_hex02)

lemma hex02_no_sep: "\<not> is_ascii_hexdigit c \<Longrightarrow> c \<notin> set (hex02_lower b)"
proof -
  have "unat b div 16 < 16" using unat_u8_lt [of b] by linarith
  then show "\<not> is_ascii_hexdigit c \<Longrightarrow> c \<notin> set (hex02_lower b)"
    by (auto simp: hex02_lower_def is_ascii_hexdigit_def)
qed

lemma split_join_hex02:
  "\<not> is_ascii_hexdigit c \<Longrightarrow> bs \<noteq> [] \<Longrightarrow>
     split_char c (join_strings [c] (map hex02_lower bs)) = map hex02_lower bs"
proof (induction bs)
  case (Cons b bs)
  then show ?case
    by (cases bs) (auto simp: split_char_no_sep split_char_append hex02_no_sep)
qed simp

lemma parse_show_mac_sep:
  assumes "\<not> is_ascii_hexdigit c"
  shows "parse_mac_address_octets_with_separator (show_mac_sep [c] m) c = Ok m"
proof -
  have "octets m \<noteq> []" by (cases m) simp
  then show ?thesis
    using assms
    by (simp add: parse_mac_address_octets_with_separator_def show_mac_sep_def split_join_hex02
        parse_components_hex02)
qed

lemma set_join_strings: "set (join_strings sep ss) \<subseteq> set sep \<union> \<Union> (set ` set ss)"
  by (induction sep ss rule: join_strings.induct) auto

lemma set_show_mac_sep: "x \<in> set (show_mac_sep [c] m) \<Longrightarrow> x = c \<or> is_ascii_hexdigit x"
  using set_join_strings [of "[c]" "map hex02_lower (octets m)"] hex02_no_sep [of x]
  by (auto simp: show_mac_sep_def)

lemma sep_in_show_mac_sep: "c \<in> set (show_mac_sep [c] m)"
  by (cases m) (simp add: show_mac_sep_def)

lemma not_hexdigit_separators [simp]:
  "\<not> is_ascii_hexdigit (CHR '':'')" "\<not> is_ascii_hexdigit (CHR ''-'')"
  by (simp_all add: is_ascii_hexdigit_def hex_digit_value_def code_def)

lemma mac_try_from_show [simp]: "mac_try_from (show_mac m) = Ok m"
  by (simp add: mac_try_from_def show_mac_def parse_show_mac_sep)

section \<open>The accepted texts\<close>

lemma parse_nibble_Ok_iff:
  "parse_hexadecimal_nibble c i = Ok b \<longleftrightarrow> (\<exists>x. hex_digit_value c = Some x \<and> b = word_of_nat x)"
  by (auto simp: parse_hexadecimal_nibble_def hex_digit_value_def Let_def)

lemma hex_digit_value_lt: "hex_digit_value c = Some x \<Longrightarrow> x < 16"
  by (auto simp: hex_digit_value_def Let_def split: if_splits)

lemma nibbles_value:
  assumes "x < 16" and "y < 16"
  shows "push_bit 4 (word_of_nat x) OR word_of_nat y = (word_of_nat (16 * x + y) :: u8)"
proof -
  let ?b = "word_of_nat (16 * x + y) :: u8"
  have u: "unat ?b = 16 * x + y" using assms by (simp only: unat_word_of_nat_small) simp
  have "unat ?b div 16 = x" "unat ?b mod 16 = y" unfolding u using assms by simp_all
  then show ?thesis using nibbles_or [of ?b] by simp
qed

text \<open>The octet a component denotes: two hexadecimal digits, after trimming.\<close>

definition component_value :: "string \<Rightarrow> u8 option" where
  "component_value c =
     (case str_trim c of
        [h, l] \<Rightarrow>
          Option.bind (hex_digit_value h) (\<lambda>x.
          map_option (\<lambda>y. word_of_nat (16 * x + y)) (hex_digit_value l))
      | _ \<Rightarrow> None)"

lemma parse_component_Ok_iff: "parse_component i c = Ok b \<longleftrightarrow> component_value c = Some b"
proof -
  consider "length (str_trim c) \<noteq> 2" | h l where "str_trim c = [h, l]"
    by (cases "str_trim c" rule: remdups_adj.cases) auto
  then show ?thesis
  proof cases
    case 1
    then show ?thesis
      by (auto simp: parse_component_def component_value_def Let_def split: list.splits)
  next
    case 2
    have "parse_component i c = Ok b \<longleftrightarrow>
        (\<exists>x y. hex_digit_value h = Some x \<and> hex_digit_value l = Some y
           \<and> b = push_bit 4 (word_of_nat x) OR word_of_nat y)"
      using 2 by (auto simp: parse_component_def and_then_eq_Ok_iff parse_nibble_Ok_iff)
    also have "\<dots> \<longleftrightarrow> (\<exists>x y. hex_digit_value h = Some x \<and> hex_digit_value l = Some y
           \<and> b = word_of_nat (16 * x + y))"
      using nibbles_value hex_digit_value_lt by metis
    also have "\<dots> \<longleftrightarrow> component_value c = Some b"
      using 2 by (auto simp: component_value_def bind_eq_Some_conv simp del: of_nat_add of_nat_mult)
    finally show ?thesis .
  qed
qed

lemma parse_components_Ok_iff:
  "parse_components i cs = Ok bs \<longleftrightarrow> map component_value cs = map Some bs"
proof (induction cs arbitrary: i bs)
  case (Cons c cs)
  then show ?case
    by (cases bs) (auto simp: and_then_eq_Ok_iff parse_component_Ok_iff)
qed auto

lemma parse_with_separator_Ok_iff:
  "parse_mac_address_octets_with_separator t c = Ok m \<longleftrightarrow>
     map component_value (split_char c t) = map Some (octets m)"
  (is "?L \<longleftrightarrow> ?R")
proof
  assume ?L
  then obtain bs where "length (split_char c t) = 6" "map component_value (split_char c t) = map Some bs"
    "m = from_octets bs"
    by (auto simp: parse_mac_address_octets_with_separator_def and_then_eq_Ok_iff
        parse_components_Ok_iff Let_def split: if_splits)
  moreover from this have "length bs = 6" by (metis length_map)
  ultimately show ?R by (simp add: octets_from_octets)
next
  assume R: ?R
  have "length (octets m) = 6" by (cases m) simp
  then have "length (split_char c t) = 6" using R by (metis length_map)
  then show ?L
    using R by (simp add: parse_mac_address_octets_with_separator_def and_then_eq_Ok_iff
        parse_components_Ok_iff)
qed

section \<open>Properties\<close>

text \<open>
  The text parser accepts exactly the texts whose colon-separated components, each trimmed,
  are two hexadecimal digits, six of them, and the address is that of their values.
\<close>

theorem mac_text_accepted_exactly:
  "mac_try_from t = Ok m \<longleftrightarrow> map component_value (split_char (CHR '':'') t) = map Some (octets m)"
  by (simp add: mac_try_from_def parse_with_separator_Ok_iff)

text \<open>
  Printing an address and reading it back gives the address, both through \<^verbatim>\<open>TryFrom\<close> and as a
  command-line token, with colons or with hyphens.
\<close>

theorem mac_text_round_trip:
  "mac_try_from (show_mac m) = Ok m \<and> mac_parse_cli_token (show_mac m) = Ok m
   \<and> mac_parse_cli_token (show_mac_sep ''-'' m) = Ok m"
proof -
  have "CHR ''-'' \<notin> set (show_mac m)" "CHR '':'' \<notin> set (show_mac_sep ''-'' m)"
    using set_show_mac_sep [of "CHR ''-''" "CHR '':''" m] set_show_mac_sep [of "CHR '':''" "CHR ''-''" m]
    by (auto simp: show_mac_def)
  then show ?thesis
    using parse_show_mac_sep [of "CHR '':''" m] parse_show_mac_sep [of "CHR ''-''" m]
      sep_in_show_mac_sep [of "CHR ''-''" m]
    by (simp add: mac_parse_cli_token_def mac_try_from_def show_mac_def Let_def)
qed

end
