(* ===== verification/Ethernet_Frame.thy ===== *)
theory Ethernet_Frame
  imports Mac_Address
begin

text \<open>
  \<^verbatim>\<open>src/ethernet_frame.rs\<close>: the IEEE 802.1Q tags with their 16-bit control information, the
  encoders of Ethernet II and IEEE 802.3 LLC/SNAP frames, and the parser. A frame is a list of
  octets; the borrowed payload of a parsed frame is the octets it borrows.
\<close>

section \<open>Constants\<close>

definition ethernet_ii_header_length :: nat where "ethernet_ii_header_length = 14"
definition ieee_8021q_tag_length :: nat where "ieee_8021q_tag_length = 4"
definition ieee_8021ad_tag_stack_length :: nat where
  "ieee_8021ad_tag_stack_length = ieee_8021q_tag_length * 2"
definition llc_snap_header_length :: nat where "llc_snap_header_length = 8"
definition ieee_8023_maximum_length :: u16 where "ieee_8023_maximum_length = 1500"
definition minimum_ethernet_ii_ethertype :: u16 where "minimum_ethernet_ii_ethertype = 1536"
definition protocol_vlan_tag :: u16 where "protocol_vlan_tag = 0x8100"
definition protocol_vlan_tag_service :: u16 where "protocol_vlan_tag_service = 0x88A8"
definition protocol_vlan_tag_qinq_9100 :: u16 where "protocol_vlan_tag_qinq_9100 = 0x9100"
definition protocol_vlan_tag_qinq_9200 :: u16 where "protocol_vlan_tag_qinq_9200 = 0x9200"
definition protocol_vlan_tag_qinq_9300 :: u16 where "protocol_vlan_tag_qinq_9300 = 0x9300"
definition vlan_identifier_mask :: u16 where "vlan_identifier_mask = 0x0FFF"
definition priority_code_point_shift :: nat where "priority_code_point_shift = 13"
definition drop_eligible_indicator_bit :: u16 where "drop_eligible_indicator_bit = push_bit 12 1"
definition protocol_ipv4 :: u16 where "protocol_ipv4 = 0x0800"
definition protocol_arp :: u16 where "protocol_arp = 0x0806"
definition llc_snap_address :: u8 where "llc_snap_address = 0xAA"
definition llc_unnumbered_information :: u8 where "llc_unnumbered_information = 0x03"
definition snap_oui :: "u8 list" where "snap_oui = [0, 0, 0]"

lemmas frame_constants =
  ethernet_ii_header_length_def ieee_8021q_tag_length_def ieee_8021ad_tag_stack_length_def
  llc_snap_header_length_def ieee_8023_maximum_length_def minimum_ethernet_ii_ethertype_def
  protocol_vlan_tag_def protocol_vlan_tag_service_def protocol_vlan_tag_qinq_9100_def
  protocol_vlan_tag_qinq_9200_def protocol_vlan_tag_qinq_9300_def
  protocol_ipv4_def protocol_arp_def llc_snap_address_def llc_unnumbered_information_def snap_oui_def

section \<open>Tag control information\<close>

datatype vlan_identifier = VlanIdentifier u16

fun vid_as_u16 :: "vlan_identifier \<Rightarrow> u16" where "vid_as_u16 (VlanIdentifier v) = v"

definition vid_new :: "u16 \<Rightarrow> vlan_identifier option" where
  "vid_new v = (if v \<le> vlan_identifier_mask then Some (VlanIdentifier v) else None)"

definition vid_from_tci :: "u16 \<Rightarrow> vlan_identifier" where
  "vid_from_tci tci = VlanIdentifier (tci AND vlan_identifier_mask)"

datatype priority_code_point = PriorityCodePoint u8

fun pcp_as_u8 :: "priority_code_point \<Rightarrow> u8" where "pcp_as_u8 (PriorityCodePoint p) = p"

definition pcp_zero :: priority_code_point where "pcp_zero = PriorityCodePoint 0"

definition pcp_new :: "u8 \<Rightarrow> priority_code_point option" where
  "pcp_new p = (if p \<le> 7 then Some (PriorityCodePoint p) else None)"

definition pcp_from_tci :: "u16 \<Rightarrow> priority_code_point" where
  "pcp_from_tci tci =
     PriorityCodePoint (ucast (drop_bit priority_code_point_shift tci AND 0b111))"

record tag_control_information =
  priority_code_point :: priority_code_point
  drop_eligible_indicator :: bool
  vlan_identifier :: vlan_identifier

definition tci_from_vlan_identifier :: "vlan_identifier \<Rightarrow> tag_control_information" where
  "tci_from_vlan_identifier v =
     \<lparr>priority_code_point = pcp_zero, drop_eligible_indicator = False, vlan_identifier = v\<rparr>"

definition tci_new ::
    "priority_code_point \<Rightarrow> bool \<Rightarrow> vlan_identifier \<Rightarrow> tag_control_information" where
  "tci_new p d v = \<lparr>priority_code_point = p, drop_eligible_indicator = d, vlan_identifier = v\<rparr>"

definition tci_as_u16 :: "tag_control_information \<Rightarrow> u16" where
  "tci_as_u16 t =
     (let priority = push_bit priority_code_point_shift (ucast (pcp_as_u8 (priority_code_point t)));
          drop_eligible = (if drop_eligible_indicator t then drop_eligible_indicator_bit else 0) in
      priority OR drop_eligible OR vid_as_u16 (vlan_identifier t))"

definition tci_from_u16 :: "u16 \<Rightarrow> tag_control_information" where
  "tci_from_u16 tci =
     \<lparr>priority_code_point = pcp_from_tci tci,
      drop_eligible_indicator = (tci AND drop_eligible_indicator_bit \<noteq> 0),
      vlan_identifier = vid_from_tci tci\<rparr>"

text \<open>The values the constructors admit: a 12-bit identifier and a 3-bit priority.\<close>

definition vid_wf :: "vlan_identifier \<Rightarrow> bool" where "vid_wf v \<longleftrightarrow> vid_as_u16 v \<le> 0x0FFF"
definition pcp_wf :: "priority_code_point \<Rightarrow> bool" where "pcp_wf p \<longleftrightarrow> pcp_as_u8 p \<le> 7"
definition tci_wf :: "tag_control_information \<Rightarrow> bool" where
  "tci_wf t \<longleftrightarrow> pcp_wf (priority_code_point t) \<and> vid_wf (vlan_identifier t)"

section \<open>Tag stacks\<close>

datatype tag_stack =
    Customer tag_control_information
  | ServiceAndCustomer tag_control_information tag_control_information

definition tag_stack_new ::
    "tag_control_information option \<Rightarrow> tag_control_information \<Rightarrow> tag_stack" where
  "tag_stack_new service customer =
     (case service of Some s \<Rightarrow> ServiceAndCustomer s customer | None \<Rightarrow> Customer customer)"

fun service_tag_control_information :: "tag_stack \<Rightarrow> tag_control_information option" where
  "service_tag_control_information (Customer c) = None"
| "service_tag_control_information (ServiceAndCustomer s c) = Some s"

fun customer_tag_control_information :: "tag_stack \<Rightarrow> tag_control_information" where
  "customer_tag_control_information (Customer c) = c"
| "customer_tag_control_information (ServiceAndCustomer s c) = c"

fun encoded_octet_count :: "tag_stack \<Rightarrow> nat" where
  "encoded_octet_count (Customer c) = ieee_8021q_tag_length"
| "encoded_octet_count (ServiceAndCustomer s c) = ieee_8021ad_tag_stack_length"

fun outer_tag_protocol_identifier :: "tag_stack \<Rightarrow> u16" where
  "outer_tag_protocol_identifier (Customer c) = protocol_vlan_tag"
| "outer_tag_protocol_identifier (ServiceAndCustomer s c) = protocol_vlan_tag_service"

definition tag_stack_wf :: "tag_stack \<Rightarrow> bool" where
  "tag_stack_wf s \<longleftrightarrow>
     tci_wf (customer_tag_control_information s)
     \<and> (case service_tag_control_information s of None \<Rightarrow> True | Some t \<Rightarrow> tci_wf t)"

section \<open>Encoders\<close>

datatype ethernet_framing = EthernetIi | Ieee8023LlcSnap

record parsed_ethernet_frame =
  pef_destination :: mac_address
  pef_source :: mac_address
  pef_ether_type :: u16
  pef_service_vlan_tag :: "tag_control_information option"
  pef_vlan_tag :: "tag_control_information option"
  pef_vlan_identifier :: "u16 option"
  pef_framing :: ethernet_framing
  pef_payload :: "u8 list"

definition encode_ethernet_ii_frame ::
    "mac_address \<Rightarrow> mac_address \<Rightarrow> u16 \<Rightarrow> u8 list \<Rightarrow> u8 list" where
  "encode_ethernet_ii_frame destination source ether_type payload =
     octets destination @ octets source @ u16_to_be ether_type @ payload"

definition append_ieee_8021q_tag_stack :: "u8 list \<Rightarrow> tag_stack \<Rightarrow> u8 list" where
  "append_ieee_8021q_tag_stack frame s =
     frame @ u16_to_be (outer_tag_protocol_identifier s)
     @ (case service_tag_control_information s of
          None \<Rightarrow> []
        | Some service \<Rightarrow> u16_to_be (tci_as_u16 service) @ u16_to_be protocol_vlan_tag)
     @ u16_to_be (tci_as_u16 (customer_tag_control_information s))"

definition encode_ethernet_ii_frame_with_tag ::
    "mac_address \<Rightarrow> mac_address \<Rightarrow> tag_stack option \<Rightarrow> u16 \<Rightarrow> u8 list \<Rightarrow> u8 list" where
  "encode_ethernet_ii_frame_with_tag destination source vlan_tag ether_type payload =
     (case vlan_tag of
        None \<Rightarrow> encode_ethernet_ii_frame destination source ether_type payload
      | Some s \<Rightarrow>
          append_ieee_8021q_tag_stack (octets destination @ octets source) s
          @ u16_to_be ether_type @ payload)"

definition encode_llc_snap_frame ::
    "mac_address \<Rightarrow> mac_address \<Rightarrow> tag_stack option \<Rightarrow> u16 \<Rightarrow> u8 list \<Rightarrow> u8 list" where
  "encode_llc_snap_frame destination source vlan_tag ether_type payload =
     (let mac_client_data_length = sat_add usize_max llc_snap_header_length (length payload);
          length_field = (if mac_client_data_length < 65536 then word_of_nat mac_client_data_length
                          else ieee_8023_maximum_length);
          frame = octets destination @ octets source;
          frame = (case vlan_tag of None \<Rightarrow> frame | Some s \<Rightarrow> append_ieee_8021q_tag_stack frame s) in
      frame @ u16_to_be length_field
      @ [llc_snap_address, llc_snap_address, llc_unnumbered_information]
      @ snap_oui @ u16_to_be ether_type @ payload)"

section \<open>Parser\<close>

text \<open>The error of the parser is a static message.\<close>

definition unsupported_qinq_tpid_message :: string where
  "unsupported_qinq_tpid_message = ''Ethernet frame uses an unofficial QinQ TPID; only IEEE 802.1Q 0x8100 and 0x88A8 tagging is supported here''"
definition stacked_customer_tag_message :: string where
  "stacked_customer_tag_message = ''Ethernet frame stacks a VLAN tag inside an IEEE 802.1Q customer tag; only 0x88A8 may wrap 0x8100''"
definition service_tag_truncated_message :: string where
  "service_tag_truncated_message = ''IEEE 802.1Q service tag is truncated''"
definition customer_tag_truncated_message :: string where
  "customer_tag_truncated_message = ''IEEE 802.1Q customer tag inside a service tag is truncated''"
definition service_tag_without_customer_tag_message :: string where
  "service_tag_without_customer_tag_message = ''IEEE 802.1Q service tag is not followed by an IEEE 802.1Q customer tag''"
definition tag_stack_too_deep_message :: string where
  "tag_stack_too_deep_message = ''Ethernet frame stacks more than one IEEE 802.1Q service tag and one customer tag''"

definition read_u16_at :: "u8 list \<Rightarrow> nat \<Rightarrow> string \<Rightarrow> string + u16" where
  "read_u16_at frame offset message =
     and_then (ok_or (slice_get offset (sat_add usize_max offset 2) frame) message)
       (\<lambda>field. Ok (u16_from_be (field ! 0) (field ! 1)))"

definition is_unsupported_vlan_tpid :: "u16 \<Rightarrow> bool" where
  "is_unsupported_vlan_tpid t \<longleftrightarrow>
     t = protocol_vlan_tag_qinq_9100 \<or> t = protocol_vlan_tag_qinq_9200
     \<or> t = protocol_vlan_tag_qinq_9300"

definition decode_service_and_customer_tags ::
    "u8 list \<Rightarrow> string + (tag_stack option \<times> u16 \<times> nat)" where
  "decode_service_and_customer_tags frame =
     and_then (read_u16_at frame ethernet_ii_header_length service_tag_truncated_message) (\<lambda>service.
     and_then (read_u16_at frame (ethernet_ii_header_length + 2) service_tag_truncated_message)
       (\<lambda>customer_tpid.
     if customer_tpid \<noteq> protocol_vlan_tag then Err service_tag_without_customer_tag_message
     else
       let customer_tag_offset = ethernet_ii_header_length + ieee_8021q_tag_length in
       and_then (read_u16_at frame customer_tag_offset customer_tag_truncated_message) (\<lambda>customer.
       and_then (read_u16_at frame (customer_tag_offset + 2) customer_tag_truncated_message)
         (\<lambda>inner.
       if inner = protocol_vlan_tag \<or> inner = protocol_vlan_tag_service
          \<or> is_unsupported_vlan_tpid inner
       then Err tag_stack_too_deep_message
       else Ok (Some (ServiceAndCustomer (tci_from_u16 service) (tci_from_u16 customer)), inner,
              ethernet_ii_header_length + ieee_8021ad_tag_stack_length)))))"

definition decode_optional_tag_stack ::
    "u8 list \<Rightarrow> u16 \<Rightarrow> string + (tag_stack option \<times> u16 \<times> nat)" where
  "decode_optional_tag_stack frame type_or_length =
     (if is_unsupported_vlan_tpid type_or_length then Err unsupported_qinq_tpid_message
      else if type_or_length = protocol_vlan_tag_service then decode_service_and_customer_tags frame
      else if type_or_length \<noteq> protocol_vlan_tag
      then Ok (None, type_or_length, ethernet_ii_header_length)
      else
        and_then (read_u16_at frame ethernet_ii_header_length ''IEEE 802.1Q tag is truncated'')
          (\<lambda>customer.
        and_then (read_u16_at frame (ethernet_ii_header_length + 2) ''IEEE 802.1Q tag is truncated'')
          (\<lambda>inner.
        if inner = protocol_vlan_tag \<or> inner = protocol_vlan_tag_service
           \<or> is_unsupported_vlan_tpid inner
        then Err stacked_customer_tag_message
        else Ok (Some (Customer (tci_from_u16 customer)), inner,
               ethernet_ii_header_length + ieee_8021q_tag_length))))"

definition decode_rfc_1042_llc_snap ::
    "u8 list \<Rightarrow> nat \<Rightarrow> string + (u16 \<times> nat \<times> ethernet_framing)" where
  "decode_rfc_1042_llc_snap frame payload_start =
     (let snap_end = sat_add usize_max payload_start llc_snap_header_length in
      and_then (ok_or (slice_get payload_start snap_end frame)
        ''IEEE 802.3 LLC/SNAP header is truncated'') (\<lambda>header.
      if header ! 0 \<noteq> llc_snap_address \<or> header ! 1 \<noteq> llc_snap_address
         \<or> header ! 2 \<noteq> llc_unnumbered_information
      then Err ''IEEE 802.3 frame is not RFC 1042 LLC/SNAP''
      else if [header ! 3, header ! 4, header ! 5] \<noteq> snap_oui
      then Err ''SNAP organizationally unique identifier is not RFC 1042 Ethernet''
      else Ok (u16_from_be (header ! 6) (header ! 7), snap_end, Ieee8023LlcSnap)))"

definition decode_ethertype_or_ieee_8023_snap ::
    "u8 list \<Rightarrow> u16 \<Rightarrow> nat \<Rightarrow> string + (u16 \<times> nat \<times> ethernet_framing)" where
  "decode_ethertype_or_ieee_8023_snap frame type_or_length payload_start =
     (if minimum_ethernet_ii_ethertype \<le> type_or_length
      then Ok (type_or_length, payload_start, EthernetIi)
      else if ieee_8023_maximum_length < type_or_length
      then Err ''length/type field is neither an IEEE 802.3 length nor an Ethernet II EtherType''
      else decode_rfc_1042_llc_snap frame payload_start)"

definition try_parse_ethernet_frame :: "u8 list \<Rightarrow> string + parsed_ethernet_frame" where
  "try_parse_ethernet_frame frame =
     (if length frame < ethernet_ii_header_length then Err ''frame is shorter than Ethernet II header''
      else
        let destination_octets = take 6 frame;
            source_octets = take 6 (drop 6 frame);
            type_or_length = u16_from_be (frame ! 12) (frame ! 13) in
        and_then (decode_optional_tag_stack frame type_or_length)
          (\<lambda>(vlan_tag, inner_type_or_length, payload_start).
        and_then (decode_ethertype_or_ieee_8023_snap frame inner_type_or_length payload_start)
          (\<lambda>(ether_type, payload_start, framing).
        let customer_tag = map_option customer_tag_control_information vlan_tag in
        Ok \<lparr>pef_destination = from_octets destination_octets,
            pef_source = from_octets source_octets,
            pef_ether_type = ether_type,
            pef_service_vlan_tag = Option.bind vlan_tag service_tag_control_information,
            pef_vlan_tag = customer_tag,
            pef_vlan_identifier = map_option (\<lambda>t. vid_as_u16 (vlan_identifier t)) customer_tag,
            pef_framing = framing,
            pef_payload = drop payload_start frame\<rparr>)))"

section \<open>Tag control information round trips\<close>

lemma vlan_identifier_mask_eq: "vlan_identifier_mask = mask 12"
  by (simp add: vlan_identifier_mask_def mask_eq_exp_minus_1)

lemma seven_eq_mask: "(0b111 :: u16) = mask 3"
  by (simp add: mask_eq_exp_minus_1)

lemma vid_wf_iff: "vid_wf v \<longleftrightarrow> (\<forall>n<16. bit (vid_as_u16 v) n \<longrightarrow> n < 12)"
proof -
  have "vid_wf v \<longleftrightarrow> take_bit 12 (vid_as_u16 v) = vid_as_u16 v"
    by (simp only: word_unat_eq_iff unsigned_take_bit_eq take_bit_nat_eq_self_iff vid_wf_def
        word_le_nat_alt) auto
  then show ?thesis by (auto simp: bit_eq_iff bit_simps)
qed

lemma pcp_wf_iff: "pcp_wf p \<longleftrightarrow> (\<forall>n<8. bit (pcp_as_u8 p) n \<longrightarrow> n < 3)"
proof -
  have "pcp_wf p \<longleftrightarrow> take_bit 3 (pcp_as_u8 p) = pcp_as_u8 p"
    by (simp only: word_unat_eq_iff unsigned_take_bit_eq take_bit_nat_eq_self_iff pcp_wf_def
        word_le_nat_alt) auto
  then show ?thesis by (auto simp: bit_eq_iff bit_simps)
qed

lemma vid_from_tci_wf: "vid_wf (vid_from_tci w)"
  by (auto simp: vid_wf_iff vid_from_tci_def vlan_identifier_mask_eq bit_simps)

lemma pcp_from_tci_wf: "pcp_wf (pcp_from_tci w)"
  unfolding pcp_wf_iff pcp_from_tci_def seven_eq_mask by (auto simp: bit_simps)

lemma tci_from_u16_wf [simp]: "tci_wf (tci_from_u16 w)"
  by (simp add: tci_wf_def tci_from_u16_def vid_from_tci_wf pcp_from_tci_wf)

lemma bit_drop_eligible: "bit drop_eligible_indicator_bit n \<longleftrightarrow> n = 12"
  by (simp only: drop_eligible_indicator_bit_def bit_push_bit_iff) (auto simp: bit_1_iff)

lemma dei_bit_iff: "(w :: u16) AND drop_eligible_indicator_bit \<noteq> 0 \<longleftrightarrow> bit w 12"
proof -
  have "w AND push_bit 12 1 \<noteq> 0 \<longleftrightarrow> bit w 12"
    by (metis and_exp_eq_0_iff_not_bit push_bit_of_1)
  then show ?thesis by (simp add: drop_eligible_indicator_bit_def)
qed

lemma tci_as_u16_from_u16 [simp]: "tci_as_u16 (tci_from_u16 w) = w"
proof (rule bit_word_eqI)
  fix n assume "n < LENGTH(16)"
  then have "n < 16" by simp
  then consider "n < 12" | "n = 12" | "13 \<le> n" "13 + (n - 13) = n" "n - 13 < 3" by linarith
  then show "bit (tci_as_u16 (tci_from_u16 w)) n = bit w n"
    unfolding tci_as_u16_def tci_from_u16_def tag_control_information.simps dei_bit_iff
      pcp_from_tci_def vid_from_tci_def seven_eq_mask vlan_identifier_mask_eq
      priority_code_point_shift_def
    using \<open>n < 16\<close> by cases (auto simp: bit_simps Let_def bit_drop_eligible)
qed

lemma tci_from_u16_as_u16:
  assumes "tci_wf t"
  shows "tci_from_u16 (tci_as_u16 t) = t"
proof -
  obtain p d v where t: "t = \<lparr>priority_code_point = PriorityCodePoint p,
      drop_eligible_indicator = d, vlan_identifier = VlanIdentifier v\<rparr>"
    by (metis pcp_as_u8.cases vid_as_u16.cases tag_control_information.cases)
  have v: "bit v n \<Longrightarrow> n < 16 \<Longrightarrow> n < 12" and p: "bit p n \<Longrightarrow> n < 8 \<Longrightarrow> n < 3" for n
    using assms by (simp_all add: t tci_wf_def vid_wf_iff pcp_wf_iff)
  let ?w = "tci_as_u16 t"
  have w: "bit ?w n \<longleftrightarrow> n < 16 \<and> (13 \<le> n \<and> bit p (n - 13) \<or> d \<and> n = 12 \<or> bit v n)" for n
    by (auto simp: t tci_as_u16_def Let_def priority_code_point_shift_def
        bit_drop_eligible bit_simps dest: bit_imp_le_length)
  have "pcp_from_tci ?w = PriorityCodePoint p"
    unfolding pcp_from_tci_def seven_eq_mask priority_code_point.inject
    by (rule bit_word_eqI)
      (auto simp: bit_simps w priority_code_point_shift_def dest: v p)
  moreover have "vid_from_tci ?w = VlanIdentifier v"
    unfolding vid_from_tci_def vlan_identifier_mask_eq vlan_identifier.inject
    by (rule bit_word_eqI) (auto simp: bit_simps w dest: v)
  moreover have "bit ?w 12 \<longleftrightarrow> d" using v [of 12] by (auto simp: w)
  ultimately show ?thesis by (simp add: tci_from_u16_def dei_bit_iff t)
qed

section \<open>The frames the parser accepts\<close>

definition is_vlan_tpid :: "u16 \<Rightarrow> bool" where
  "is_vlan_tpid t \<longleftrightarrow>
     t = protocol_vlan_tag \<or> t = protocol_vlan_tag_service \<or> is_unsupported_vlan_tpid t"

definition tag_octets :: "tag_stack option \<Rightarrow> u8 list" where
  "tag_octets stack = (case stack of None \<Rightarrow> [] | Some s \<Rightarrow> append_ieee_8021q_tag_stack [] s)"

definition snap_octets :: "u16 \<Rightarrow> u8 list" where
  "snap_octets et =
     [llc_snap_address, llc_snap_address, llc_unnumbered_information] @ snap_oui @ u16_to_be et"

definition opt_stack_wf :: "tag_stack option \<Rightarrow> bool" where
  "opt_stack_wf stack \<longleftrightarrow> (case stack of None \<Rightarrow> True | Some s \<Rightarrow> tag_stack_wf s)"

text \<open>The record the parser returns for the pieces of a frame.\<close>

definition parsed_frame ::
    "mac_address \<Rightarrow> mac_address \<Rightarrow> tag_stack option \<Rightarrow> u16 \<Rightarrow> ethernet_framing \<Rightarrow> u8 list
     \<Rightarrow> parsed_ethernet_frame" where
  "parsed_frame d s stack et framing payload =
     \<lparr>pef_destination = d, pef_source = s, pef_ether_type = et,
      pef_service_vlan_tag = Option.bind stack service_tag_control_information,
      pef_vlan_tag = map_option customer_tag_control_information stack,
      pef_vlan_identifier =
        map_option (\<lambda>t. vid_as_u16 (vlan_identifier (customer_tag_control_information t))) stack,
      pef_framing = framing, pef_payload = payload\<rparr>"

lemma append_tag_stack: "append_ieee_8021q_tag_stack frame s = frame @ tag_octets (Some s)"
  by (simp add: append_ieee_8021q_tag_stack_def tag_octets_def)

lemma tag_octets_simps:
  "tag_octets None = []"
  "tag_octets (Some (Customer c)) = u16_to_be protocol_vlan_tag @ u16_to_be (tci_as_u16 c)"
  "tag_octets (Some (ServiceAndCustomer s c)) =
     u16_to_be protocol_vlan_tag_service @ u16_to_be (tci_as_u16 s)
     @ u16_to_be protocol_vlan_tag @ u16_to_be (tci_as_u16 c)"
  by (simp_all add: tag_octets_def append_ieee_8021q_tag_stack_def)

lemma tpids_distinct [simp]:
  "protocol_vlan_tag \<noteq> protocol_vlan_tag_service" "protocol_vlan_tag_service \<noteq> protocol_vlan_tag"
  "\<not> is_unsupported_vlan_tpid protocol_vlan_tag"
  "\<not> is_unsupported_vlan_tpid protocol_vlan_tag_service"
  by (simp_all add: is_unsupported_vlan_tpid_def frame_constants)

lemma split_two: "2 \<le> length xs \<Longrightarrow> xs = u16_to_be (u16_from_be (xs ! 0) (xs ! 1)) @ drop 2 xs"
  by (cases xs; cases "tl xs") auto

lemma u16_to_be_inject [simp]: "u16_to_be a = u16_to_be b \<longleftrightarrow> a = b"
  by (metis u16_from_be_to_be)

lemma u16_to_be_append_inject [simp]:
  "u16_to_be a @ x = u16_to_be b @ y \<longleftrightarrow> a = b \<and> x = y"
  by (simp add: append_eq_append_conv)

lemma u16_at: "length pre = n \<Longrightarrow> u16_from_be ((pre @ u16_to_be w @ y) ! n) ((pre @ u16_to_be w @ y) ! Suc n) = w"
  by (simp add: nth_append)

text \<open>Reading two octets behind a known prefix.\<close>

lemma read_u16_at_Ok_iff:
  assumes "n + 2 \<le> usize_max" and "length pre = n"
  shows "read_u16_at (pre @ y) n msg = Ok w \<longleftrightarrow> (\<exists>z. y = u16_to_be w @ z)"
proof -
  have sg: "slice_get n (sat_add usize_max n 2) (pre @ y) =
      (if 2 \<le> length y then Some (take 2 y) else None)"
    using assms by (auto simp: slice_get_def)
  show ?thesis
  proof (cases "2 \<le> length y")
    case True
    then have "y = u16_to_be (u16_from_be (y ! 0) (y ! 1)) @ drop 2 y" by (rule split_two)
    moreover have "read_u16_at (pre @ y) n msg = Ok (u16_from_be (y ! 0) (y ! 1))"
      using True by (simp add: read_u16_at_def sg)
    moreover have "u16_from_be ((u16_to_be w @ z) ! 0) ((u16_to_be w @ z) ! 1) = w" for z
      using u16_at [of "[]" 0 w z] by simp
    ultimately show ?thesis by (metis Inr_inject)
  next
    case False
    then show ?thesis by (auto simp: read_u16_at_def sg)
  qed
qed

lemma small_offsets:
  "n \<le> 100 \<Longrightarrow> n + 2 \<le> usize_max" "n \<le> 100 \<Longrightarrow> sat_add usize_max n 8 = n + 8"
  by (simp_all add: usize_max_def u64_max_def)

lemma decode_optional_tag_stack_Ok_iff:
  assumes pre: "length pre = 12"
  shows "decode_optional_tag_stack (pre @ u16_to_be t @ y) t = Ok (stack, tf, n) \<longleftrightarrow>
    (\<exists>z. u16_to_be t @ y = tag_octets stack @ u16_to_be tf @ z \<and> opt_stack_wf stack
        \<and> \<not> is_vlan_tpid tf \<and> n = 14 + length (tag_octets stack))"
  (is "?L \<longleftrightarrow> ?R")
proof -
  let ?frame = "pre @ u16_to_be t @ y"
  have r14: "read_u16_at ?frame 14 m = Ok w \<longleftrightarrow> (\<exists>z. y = u16_to_be w @ z)" for m w
    using read_u16_at_Ok_iff [of 14 "pre @ u16_to_be t" y m w] pre
    by (simp add: usize_max_def u64_max_def)
  have r16: "read_u16_at (pre @ u16_to_be t @ u16_to_be a @ z) 16 m = Ok w \<longleftrightarrow> (\<exists>z'. z = u16_to_be w @ z')"
    for a z m w
    using read_u16_at_Ok_iff [of 16 "pre @ u16_to_be t @ u16_to_be a" z m w] pre
    by (simp add: usize_max_def u64_max_def)
  have r18: "read_u16_at (pre @ u16_to_be t @ u16_to_be a @ u16_to_be b @ z) 18 m = Ok w \<longleftrightarrow>
      (\<exists>z'. z = u16_to_be w @ z')" for a b z m w
    using read_u16_at_Ok_iff [of 18 "pre @ u16_to_be t @ u16_to_be a @ u16_to_be b" z m w]
      pre
    by (simp add: usize_max_def u64_max_def)
  have r20: "read_u16_at (pre @ u16_to_be t @ u16_to_be a @ u16_to_be b @ u16_to_be c @ z) 20 m = Ok w
      \<longleftrightarrow> (\<exists>z'. z = u16_to_be w @ z')" for a b c z m w
    using read_u16_at_Ok_iff [of 20 "pre @ u16_to_be t @ u16_to_be a @ u16_to_be b @ u16_to_be c" z m w]
      pre
    by (simp add: usize_max_def u64_max_def)
  note reads = r14 r16 r18 r20
  note defs = decode_optional_tag_stack_def decode_service_and_customer_tags_def Let_def
    ethernet_ii_header_length_def ieee_8021q_tag_length_def ieee_8021ad_tag_stack_length_def
  show ?thesis
  proof
    assume L: ?L
    consider "\<not> is_vlan_tpid t" | "t = protocol_vlan_tag" | "t = protocol_vlan_tag_service"
      | "is_unsupported_vlan_tpid t"
      by (auto simp: is_vlan_tpid_def)
    then show ?R
    proof cases
      case 1
      then show ?thesis using L
        by (auto simp: defs is_vlan_tpid_def tag_octets_simps opt_stack_wf_def)
    next
      case 2
      with L obtain a where a: "read_u16_at ?frame 14 ''IEEE 802.1Q tag is truncated'' = Ok a"
        by (auto simp: defs and_then_eq_Ok_iff)
      then obtain z where z: "y = u16_to_be a @ z" using r14 by blast
      with 2 L a obtain b where b: "read_u16_at ?frame 16 ''IEEE 802.1Q tag is truncated'' = Ok b"
        by (auto simp: defs and_then_eq_Ok_iff)
      then obtain z' where z': "z = u16_to_be b @ z'" using r16 z by blast
      show ?thesis
        using 2 L a b z z'
        by (auto simp: defs is_vlan_tpid_def opt_stack_wf_def tag_stack_wf_def tag_octets_simps
            split: if_splits)
    next
      case 3
      with L obtain a where a: "read_u16_at ?frame 14 service_tag_truncated_message = Ok a"
        by (auto simp: defs and_then_eq_Ok_iff)
      then obtain z where z: "y = u16_to_be a @ z" using r14 by blast
      have b: "read_u16_at ?frame 16 service_tag_truncated_message = Ok protocol_vlan_tag"
        using 3 L a by (auto simp: defs and_then_eq_Ok_iff split: if_splits)
      then obtain z' where z': "z = u16_to_be protocol_vlan_tag @ z'" using r16 z by blast
      obtain c where c: "read_u16_at ?frame 18 customer_tag_truncated_message = Ok c"
        using 3 L a b by (auto simp: defs and_then_eq_Ok_iff split: if_splits)
      then obtain z2 where z2: "z' = u16_to_be c @ z2" using r18 z z' by blast
      obtain e where e: "read_u16_at ?frame 20 customer_tag_truncated_message = Ok e"
        using 3 L a b c by (auto simp: defs and_then_eq_Ok_iff split: if_splits)
      then obtain z3 where z3: "z2 = u16_to_be e @ z3" using r20 z z' z2 by blast
      show ?thesis
        using 3 L a b c e z z' z2 z3
        by (auto simp: defs is_vlan_tpid_def opt_stack_wf_def tag_stack_wf_def tag_octets_simps
            split: if_splits)
    qed (use L in \<open>simp add: defs\<close>)
  next
    assume ?R
    then obtain z where eq: "u16_to_be t @ y = tag_octets stack @ u16_to_be tf @ z"
      and wf: "opt_stack_wf stack" and tf: "\<not> is_vlan_tpid tf" and n: "n = 14 + length (tag_octets stack)"
      by blast
    consider "stack = None" | c where "stack = Some (Customer c)"
      | s c where "stack = Some (ServiceAndCustomer s c)"
      by (metis option.exhaust tag_stack.exhaust)
    then show ?L
    proof cases
      case 1
      then show ?thesis using eq tf n by (simp add: defs tag_octets_simps is_vlan_tpid_def)
    next
      case 2
      then have "t = protocol_vlan_tag" and y: "y = u16_to_be (tci_as_u16 c) @ u16_to_be tf @ z"
        using eq by (simp_all add: tag_octets_simps)
      moreover have "read_u16_at ?frame 14 m = Ok (tci_as_u16 c)" "read_u16_at ?frame 16 m = Ok tf" for m
        using r14 r16 y by auto
      ultimately show ?thesis
        using 2 tf n wf
        by (simp add: defs tag_octets_simps is_vlan_tpid_def opt_stack_wf_def tag_stack_wf_def
            tci_from_u16_as_u16)
    next
      case 3
      then have "t = protocol_vlan_tag_service"
        and y: "y = u16_to_be (tci_as_u16 s) @ u16_to_be protocol_vlan_tag
          @ u16_to_be (tci_as_u16 c) @ u16_to_be tf @ z"
        using eq by (simp_all add: tag_octets_simps)
      moreover have "read_u16_at ?frame 14 m = Ok (tci_as_u16 s)"
        "read_u16_at ?frame 16 m = Ok protocol_vlan_tag"
        "read_u16_at ?frame 18 m = Ok (tci_as_u16 c)" "read_u16_at ?frame 20 m = Ok tf" for m
        using r14 r16 r18 r20 y by auto
      ultimately show ?thesis
        using 3 tf n wf
        by (simp add: defs tag_octets_simps is_vlan_tpid_def opt_stack_wf_def tag_stack_wf_def
            tci_from_u16_as_u16)
    qed
  qed
qed

lemma snap_octets_simp:
  "snap_octets et = [0xAA, 0xAA, 0x03, 0, 0, 0] @ u16_to_be et"
  by (simp add: snap_octets_def frame_constants)

lemma length_snap_octets [simp]: "length (snap_octets et) = 8"
  by (simp add: snap_octets_simp)

lemma eight_octets: "8 \<le> length z \<Longrightarrow> \<exists>a b c d e f g h p. z = a # b # c # d # e # f # g # h # p"
  by (auto simp: numeral_eq_Suc Suc_le_length_iff)

lemma Cons_Cons_u16_to_be [simp]:
  "g # h # p = u16_to_be w @ q \<longleftrightarrow> w = u16_from_be g h \<and> p = q"
proof -
  have "g # h # p = u16_to_be (u16_from_be g h) @ p" by simp
  then show ?thesis by (metis u16_to_be_append_inject)
qed

lemma decode_ethertype_Ok_iff:
  assumes "length pre = n" and "n \<le> 100"
  shows "decode_ethertype_or_ieee_8023_snap (pre @ z) tf n = Ok (et, m, framing) \<longleftrightarrow>
    (framing = EthernetIi \<and> et = tf \<and> 1536 \<le> tf \<and> m = n
     \<or> framing = Ieee8023LlcSnap \<and> tf \<le> 1500 \<and> m = n + 8 \<and> (\<exists>p. z = snap_octets et @ p))"
proof -
  have sg: "slice_get n (n + 8) (pre @ z) = (if 8 \<le> length z then Some (take 8 z) else None)"
    using assms by (auto simp: slice_get_def)
  have snap: "decode_rfc_1042_llc_snap (pre @ z) n = Ok (et, m, framing) \<longleftrightarrow>
    framing = Ieee8023LlcSnap \<and> m = n + 8 \<and> (\<exists>p. z = snap_octets et @ p)"
  proof (cases "8 \<le> length z")
    case True
    then obtain a b c d e f g h p where z: "z = a # b # c # d # e # f # g # h # p"
      using eight_octets by blast
    have "slice_get n (n + 8) (pre @ z) = Some [a, b, c, d, e, f, g, h]" using sg z by simp
    then have "decode_rfc_1042_llc_snap (pre @ z) n =
      (if a \<noteq> 0xAA \<or> b \<noteq> 0xAA \<or> c \<noteq> 0x03 then Err ''IEEE 802.3 frame is not RFC 1042 LLC/SNAP''
       else if [d, e, f] \<noteq> [0, 0, 0]
       then Err ''SNAP organizationally unique identifier is not RFC 1042 Ethernet''
       else Ok (u16_from_be g h, n + 8, Ieee8023LlcSnap))"
      using assms(2)
      by (simp add: decode_rfc_1042_llc_snap_def Let_def llc_snap_header_length_def
          small_offsets frame_constants)
    moreover have "(\<exists>p. z = snap_octets et @ p) \<longleftrightarrow>
      a = 0xAA \<and> b = 0xAA \<and> c = 0x03 \<and> d = 0 \<and> e = 0 \<and> f = 0 \<and> et = u16_from_be g h"
      by (simp add: z snap_octets_simp)
    ultimately show ?thesis by auto
  next
    case False
    then have "z \<noteq> snap_octets et @ p" for p by auto
    then show ?thesis
      using False assms(2)
      by (auto simp: decode_rfc_1042_llc_snap_def Let_def llc_snap_header_length_def
          small_offsets sg)
  qed
  have "1536 \<le> tf \<Longrightarrow> \<not> tf \<le> 1500"
    by (simp add: word_le_nat_alt)
  then show ?thesis
    by (auto simp: decode_ethertype_or_ieee_8023_snap_def minimum_ethernet_ii_ethertype_def
        ieee_8023_maximum_length_def snap not_le not_less)
qed

lemma length_not_tpid: "tf \<le> 1500 \<Longrightarrow> \<not> is_vlan_tpid tf"
  by (auto simp: is_vlan_tpid_def is_unsupported_vlan_tpid_def frame_constants word_le_nat_alt)

definition framing_octets :: "ethernet_framing \<Rightarrow> u16 \<Rightarrow> u8 list" where
  "framing_octets framing et =
     (case framing of EthernetIi \<Rightarrow> [] | Ieee8023LlcSnap \<Rightarrow> snap_octets et)"

definition type_field_ok :: "ethernet_framing \<Rightarrow> u16 \<Rightarrow> u16 \<Rightarrow> bool" where
  "type_field_ok framing tf et \<longleftrightarrow>
     (case framing of
        EthernetIi \<Rightarrow> tf = et \<and> 1536 \<le> et \<and> \<not> is_vlan_tpid et
      | Ieee8023LlcSnap \<Rightarrow> tf \<le> 1500)"

lemma split_header:
  assumes "14 \<le> length frame"
  obtains d s t y where "frame = octets d @ octets s @ u16_to_be t @ y"
proof
  have "length (take 6 frame) = 6" "length (take 6 (drop 6 frame)) = 6" using assms by simp_all
  moreover have "2 \<le> length (drop 12 frame)" using assms by simp
  moreover have "frame = take 6 frame @ take 6 (drop 6 frame) @ drop 12 frame"
    using append_take_drop_id [of 6 frame] append_take_drop_id [of 6 "drop 6 frame"] by simp
  ultimately show "frame = octets (from_octets (take 6 frame)) @ octets (from_octets (take 6 (drop 6 frame)))
      @ u16_to_be (u16_from_be (drop 12 frame ! 0) (drop 12 frame ! 1)) @ drop 2 (drop 12 frame)"
    by (metis octets_from_octets split_two)
qed

lemma try_parse_header:
  fixes d s t y
  defines "frame \<equiv> octets d @ octets s @ u16_to_be t @ y"
  shows "try_parse_ethernet_frame frame =
    and_then (decode_optional_tag_stack frame t) (\<lambda>(stack, tf, n).
    and_then (decode_ethertype_or_ieee_8023_snap frame tf n) (\<lambda>(et, m, framing).
    Ok (parsed_frame d s stack et framing (drop m frame))))"
proof -
  have "length frame \<ge> 14" "take 6 frame = octets d" "take 6 (drop 6 frame) = octets s"
    by (simp_all add: frame_def)
  moreover have "u16_from_be (frame ! 12) (frame ! 13) = t"
    using u16_at [of "octets d @ octets s" 12 t y] by (simp add: frame_def)
  ultimately show ?thesis
    by (simp add: try_parse_ethernet_frame_def ethernet_ii_header_length_def parsed_frame_def
        option.map_comp comp_def Let_def)
qed

lemma try_parse_Ok_iff:
  "try_parse_ethernet_frame frame = Ok f \<longleftrightarrow>
     (\<exists>d s stack tf et framing payload.
        frame = octets d @ octets s @ tag_octets stack @ u16_to_be tf
                @ framing_octets framing et @ payload
        \<and> opt_stack_wf stack \<and> type_field_ok framing tf et
        \<and> f = parsed_frame d s stack et framing payload)"
  (is "?L \<longleftrightarrow> ?R")
proof
  assume L: ?L
  then have "14 \<le> length frame"
    by (auto simp: try_parse_ethernet_frame_def ethernet_ii_header_length_def not_less split: if_splits)
  then obtain d s t y where fr: "frame = octets d @ octets s @ u16_to_be t @ y" by (rule split_header)
  obtain stack tf n et m framing where
    dec: "decode_optional_tag_stack frame t = Ok (stack, tf, n)"
    and ety: "decode_ethertype_or_ieee_8023_snap frame tf n = Ok (et, m, framing)"
    and f: "f = parsed_frame d s stack et framing (drop m frame)"
    using L unfolding fr try_parse_header by (auto simp: and_then_eq_Ok_iff)
  obtain z where z: "u16_to_be t @ y = tag_octets stack @ u16_to_be tf @ z" and wf: "opt_stack_wf stack"
    and tf: "\<not> is_vlan_tpid tf" and n: "n = 14 + length (tag_octets stack)"
    using dec decode_optional_tag_stack_Ok_iff [of "octets d @ octets s" t y stack tf n] fr by auto
  let ?pre = "octets d @ octets s @ tag_octets stack @ u16_to_be tf"
  have frame: "frame = ?pre @ z" using fr z by simp
  have "length (tag_octets stack) \<le> 8"
    by (cases stack; cases "the stack") (auto simp: tag_octets_simps)
  then have len: "length ?pre = n" "n \<le> 100" using n by simp_all
  then consider "framing = EthernetIi" "et = tf" "1536 \<le> tf" "m = n"
    | p where "framing = Ieee8023LlcSnap" "tf \<le> 1500" "m = n + 8" "z = snap_octets et @ p"
    using ety decode_ethertype_Ok_iff [OF len, of z tf et m framing] frame by auto
  then show ?R
  proof cases
    case 1
    then have "drop m frame = z" using frame len by simp
    then show ?thesis
      using 1 frame wf tf f
      by (intro exI [of _ d] exI [of _ s] exI [of _ stack] exI [of _ tf] exI [of _ et]
          exI [of _ framing] exI [of _ z]) (simp add: framing_octets_def type_field_ok_def)
  next
    case 2
    then have "drop m frame = p" using frame len by simp
    then show ?thesis
      using 2 frame wf tf f
      by (intro exI [of _ d] exI [of _ s] exI [of _ stack] exI [of _ tf] exI [of _ et]
          exI [of _ framing] exI [of _ p]) (simp add: framing_octets_def type_field_ok_def)
  qed
next
  assume ?R
  then obtain d s stack tf et framing payload where
    frame: "frame = octets d @ octets s @ tag_octets stack @ u16_to_be tf
                @ framing_octets framing et @ payload"
    and wf: "opt_stack_wf stack" and tf: "type_field_ok framing tf et"
    and f: "f = parsed_frame d s stack et framing payload"
    by blast
  let ?z = "framing_octets framing et @ payload"
  have ntp: "\<not> is_vlan_tpid tf"
    using tf length_not_tpid by (cases framing) (auto simp: type_field_ok_def)
  obtain t y where ty: "u16_to_be t @ y = tag_octets stack @ u16_to_be tf @ ?z"
    by (cases stack; cases "the stack") (auto simp: tag_octets_simps)
  then have fr: "frame = octets d @ octets s @ u16_to_be t @ y" using frame by simp
  let ?pre = "octets d @ octets s @ tag_octets stack @ u16_to_be tf"
  let ?n = "14 + length (tag_octets stack)"
  have "length (tag_octets stack) \<le> 8"
    by (cases stack; cases "the stack") (auto simp: tag_octets_simps)
  then have len: "length ?pre = ?n" "?n \<le> 100" by simp_all
  have dec: "decode_optional_tag_stack frame t = Ok (stack, tf, ?n)"
    using decode_optional_tag_stack_Ok_iff [of "octets d @ octets s" t y stack tf ?n] fr ty wf ntp by auto
  have "decode_ethertype_or_ieee_8023_snap frame tf ?n =
      Ok (et, ?n + length (framing_octets framing et), framing)"
    using decode_ethertype_Ok_iff [OF len, of ?z tf et _ framing] tf frame
    by (cases framing) (auto simp: type_field_ok_def framing_octets_def)
  moreover have "drop (?n + length (framing_octets framing et)) frame = payload"
    using frame by simp
  ultimately show ?L
    using dec f unfolding fr try_parse_header by simp
qed

lemma try_parse_OkI:
  assumes "frame = octets d @ octets s @ tag_octets stack @ u16_to_be tf
                   @ framing_octets framing et @ payload"
    and "opt_stack_wf stack" and "type_field_ok framing tf et"
  shows "try_parse_ethernet_frame frame = Ok (parsed_frame d s stack et framing payload)"
  using assms unfolding try_parse_Ok_iff by blast

section \<open>The encoders against that description\<close>

lemma encode_ethernet_ii_layout:
  "encode_ethernet_ii_frame_with_tag d s stack et payload =
     octets d @ octets s @ tag_octets stack @ u16_to_be et @ payload"
  by (cases stack)
    (simp_all add: encode_ethernet_ii_frame_with_tag_def encode_ethernet_ii_frame_def
      append_tag_stack tag_octets_simps)

definition snap_length_field :: "u8 list \<Rightarrow> u16" where
  "snap_length_field payload =
     (let n = sat_add usize_max 8 (length payload) in if n < 65536 then word_of_nat n else 1500)"

lemma encode_llc_snap_layout:
  "encode_llc_snap_frame d s stack et payload =
     octets d @ octets s @ tag_octets stack @ u16_to_be (snap_length_field payload)
     @ snap_octets et @ payload"
  by (cases stack)
    (simp_all add: encode_llc_snap_frame_def snap_length_field_def Let_def append_tag_stack
      tag_octets_simps snap_octets_def llc_snap_header_length_def ieee_8023_maximum_length_def)

lemma snap_length_field_small:
  assumes "8 + length payload \<le> 1500"
  shows "snap_length_field payload \<le> 1500" "unat (snap_length_field payload) = 8 + length payload"
proof -
  have "snap_length_field payload = word_of_nat (8 + length payload)"
    using assms by (simp add: snap_length_field_def sat_add_def usize_max_def u64_max_def)
  then show v: "unat (snap_length_field payload) = 8 + length payload"
    using assms by (simp only: unat_word_of_nat_small) simp
  show "snap_length_field payload \<le> 1500"
    using assms v by (simp add: word_le_nat_alt)
qed

lemma parse_encode_ethernet_ii:
  assumes "opt_stack_wf stack" and "1536 \<le> et" and "\<not> is_vlan_tpid et"
  shows "try_parse_ethernet_frame (encode_ethernet_ii_frame_with_tag d s stack et payload) =
           Ok (parsed_frame d s stack et EthernetIi payload)"
  using assms
  by (intro try_parse_OkI [where tf = et])
    (simp_all add: encode_ethernet_ii_layout framing_octets_def type_field_ok_def)

lemma parse_encode_llc_snap:
  assumes "opt_stack_wf stack" and "8 + length payload \<le> 1500"
  shows "try_parse_ethernet_frame (encode_llc_snap_frame d s stack et payload) =
           Ok (parsed_frame d s stack et Ieee8023LlcSnap payload)"
  using assms snap_length_field_small
  by (intro try_parse_OkI [where tf = "snap_length_field payload"])
    (simp_all add: encode_llc_snap_layout framing_octets_def type_field_ok_def)

lemma length_tag_octets:
  "length (tag_octets stack) = (case stack of None \<Rightarrow> 0 | Some s \<Rightarrow> encoded_octet_count s)"
  by (cases stack; cases "the stack")
    (auto simp: tag_octets_simps ieee_8021q_tag_length_def ieee_8021ad_tag_stack_length_def)

lemma encoded_octet_count_le: "encoded_octet_count s \<le> 8"
  by (cases s) (simp_all add: ieee_8021q_tag_length_def ieee_8021ad_tag_stack_length_def)

section \<open>Properties\<close>

text \<open>
  Reading a tag control information field and writing it back gives the sixteen bits, and every
  field value in range survives writing and reading: priority, drop eligibility and VLAN identifier
  neither overlap nor lose bits.
\<close>

theorem tag_control_information_round_trip:
  "tci_as_u16 (tci_from_u16 w) = w \<and> tci_wf (tci_from_u16 w)
   \<and> (tci_wf t \<longrightarrow> tci_from_u16 (tci_as_u16 t) = t)"
  using tci_from_u16_as_u16 by simp

lemma tag_control_information_round_trip_witness:
  "tci_from_u16 (tci_as_u16 (tci_from_u16 0xBFFF)) = tci_from_u16 0xBFFF"
  using tag_control_information_round_trip [of 0 "tci_from_u16 0xBFFF"] by simp

text \<open>
  C29: the frame parser accepts exactly the frames with two addresses, an optional customer tag or
  service and customer tag, and then either an Ethernet II type of at least 1536 that is no VLAN
  tag, or a length of at most 1500 with an RFC 1042 LLC/SNAP header; the parts it returns are those
  of the frame, and the payload is everything that follows.
\<close>

theorem ethernet_parser_exact:
  "try_parse_ethernet_frame frame = Ok f \<longleftrightarrow>
     (\<exists>d s stack tf et framing payload.
        frame = octets d @ octets s @ tag_octets stack @ u16_to_be tf
                @ framing_octets framing et @ payload
        \<and> opt_stack_wf stack \<and> type_field_ok framing tf et
        \<and> f = parsed_frame d s stack et framing payload)"
  by (rule try_parse_Ok_iff)

text \<open>
  Parsing an encoded frame gives back the addresses, the tags, the type and the payload, for
  Ethernet II with a type of at least 1536 that is no VLAN tag, and for LLC/SNAP with a payload of
  at most 1492 octets.
\<close>

theorem ethernet_encode_parse:
  assumes "opt_stack_wf stack"
  shows "(1536 \<le> et \<and> \<not> is_vlan_tpid et \<longrightarrow>
      try_parse_ethernet_frame (encode_ethernet_ii_frame_with_tag d s stack et payload) =
        Ok (parsed_frame d s stack et EthernetIi payload))
    \<and> (8 + length payload \<le> 1500 \<longrightarrow>
      try_parse_ethernet_frame (encode_llc_snap_frame d s stack et payload) =
        Ok (parsed_frame d s stack et Ieee8023LlcSnap payload))"
  using assms parse_encode_ethernet_ii parse_encode_llc_snap by blast

lemma ethernet_encode_parse_witness:
  "try_parse_ethernet_frame (encode_ethernet_ii_frame_with_tag mac_broadcast mac_zero
       (Some (Customer (tci_from_u16 0x600A))) 0x0806 [1, 2, 3]) =
     Ok (parsed_frame mac_broadcast mac_zero (Some (Customer (tci_from_u16 0x600A))) 0x0806
           EthernetIi [1, 2, 3])
   \<and> try_parse_ethernet_frame (encode_llc_snap_frame mac_broadcast mac_zero None 0x0806 [1, 2, 3]) =
     Ok (parsed_frame mac_broadcast mac_zero None 0x0806 Ieee8023LlcSnap [1, 2, 3])"
proof -
  have stack: "opt_stack_wf (Some (Customer (tci_from_u16 0x600A)))" "opt_stack_wf None"
    by (simp_all add: opt_stack_wf_def tag_stack_wf_def)
  have "\<not> is_vlan_tpid 0x0806"
    by (simp add: is_vlan_tpid_def is_unsupported_vlan_tpid_def frame_constants)
  then show ?thesis
    using ethernet_encode_parse [OF stack(1), of "0x0806" mac_broadcast mac_zero "[1, 2, 3]"]
      ethernet_encode_parse [OF stack(2), of "0x0806" mac_broadcast mac_zero "[1, 2, 3]"]
    by simp
qed

lemma read_u16_after:
  assumes "length pre = n" and "n \<le> 100"
  shows "read_u16_at (pre @ u16_to_be w @ z) n msg = Ok w"
  using read_u16_at_Ok_iff [OF small_offsets(1) [OF assms(2)] assms(1)] by blast

text \<open>
  Tag arrangements outside one customer tag or one service tag around one customer tag are
  rejected, each with its own message: an unofficial outer TPID, any tag inside a customer tag, a
  service tag not followed by a customer tag, and any tag inside the pair.
\<close>

theorem unsupported_tag_nesting_rejected:
  "(is_unsupported_vlan_tpid t \<longrightarrow>
      try_parse_ethernet_frame (octets d @ octets s @ u16_to_be t @ rest)
        = Err unsupported_qinq_tpid_message)
   \<and> (is_vlan_tpid t \<longrightarrow>
      try_parse_ethernet_frame (octets d @ octets s @ u16_to_be 0x8100 @ u16_to_be c @ u16_to_be t @ rest)
        = Err stacked_customer_tag_message)
   \<and> (u \<noteq> 0x8100 \<longrightarrow>
      try_parse_ethernet_frame (octets d @ octets s @ u16_to_be 0x88A8 @ u16_to_be c @ u16_to_be u @ rest)
        = Err service_tag_without_customer_tag_message)
   \<and> (is_vlan_tpid t \<longrightarrow>
      try_parse_ethernet_frame (octets d @ octets s @ u16_to_be 0x88A8 @ u16_to_be c
          @ u16_to_be 0x8100 @ u16_to_be c' @ u16_to_be t @ rest)
        = Err tag_stack_too_deep_message)"
proof -
  have r: "read_u16_at (octets d @ octets s @ u16_to_be a @ u16_to_be w @ z) 14 m = Ok w"
    "read_u16_at (octets d @ octets s @ u16_to_be a @ u16_to_be b @ u16_to_be w @ z) 16 m = Ok w"
    "read_u16_at (octets d @ octets s @ u16_to_be a @ u16_to_be b @ u16_to_be b' @ u16_to_be w @ z) 18 m = Ok w"
    "read_u16_at (octets d @ octets s @ u16_to_be a @ u16_to_be b @ u16_to_be b' @ u16_to_be b'' @ u16_to_be w @ z)
       20 m = Ok w" for a b b' b'' w z m
    using read_u16_after [of "octets d @ octets s @ u16_to_be a" 14 w z]
      read_u16_after [of "octets d @ octets s @ u16_to_be a @ u16_to_be b" 16 w z]
      read_u16_after [of "octets d @ octets s @ u16_to_be a @ u16_to_be b @ u16_to_be b'" 18 w z]
      read_u16_after [of "octets d @ octets s @ u16_to_be a @ u16_to_be b @ u16_to_be b' @ u16_to_be b''" 20 w z]
    by simp_all
  have tpid: "t = 0x8100 \<or> t = 0x88A8 \<or> is_unsupported_vlan_tpid t" if "is_vlan_tpid t"
    using that by (simp add: is_vlan_tpid_def frame_constants)
  have no: "\<not> is_unsupported_vlan_tpid 0x8100" "\<not> is_unsupported_vlan_tpid 0x88A8"
    by (simp_all add: is_unsupported_vlan_tpid_def frame_constants)
  have p1: "protocol_vlan_tag = 0x8100" "protocol_vlan_tag_service = 0x88A8"
    "ethernet_ii_header_length = 14" "ieee_8021q_tag_length = 4"
    by (simp_all add: frame_constants)
  show ?thesis
    unfolding try_parse_header
    using tpid by (simp add: decode_optional_tag_stack_def decode_service_and_customer_tags_def p1 r no)
qed

lemma unsupported_tag_nesting_rejected_witness:
  "try_parse_ethernet_frame (octets mac_broadcast @ octets mac_zero @ u16_to_be 0x88A8 @ u16_to_be 7
      @ u16_to_be 0x0806 @ []) = Err service_tag_without_customer_tag_message"
  using unsupported_tag_nesting_rejected [of 0 mac_broadcast mac_zero "[]" 7 "0x0806"] by simp

end
