(* ===== verification/Address_Resolution_Protocol.thy ===== *)
theory Address_Resolution_Protocol
  imports Ethernet_Frame
begin

text \<open>
  \<^verbatim>\<open>src/address_resolution_protocol.rs\<close>: the encoder of ARP requests from a fully resolved
  layout, the builders on top of it, and the two parsers.
\<close>

section \<open>Constants\<close>

definition arp_hardware_type_ethernet :: u16 where "arp_hardware_type_ethernet = 1"
definition arp_operation_request :: u16 where "arp_operation_request = 1"
definition arp_operation_reply :: u16 where "arp_operation_reply = 2"
definition arp_reserved_field_zero :: u16 where "arp_reserved_field_zero = 0"
definition arp_reserved_field_all_ones :: u16 where "arp_reserved_field_all_ones = 65535"
definition arp_hardware_type_offset :: nat where "arp_hardware_type_offset = 0"
definition arp_protocol_type_offset :: nat where "arp_protocol_type_offset = 2"
definition arp_hardware_length_offset :: nat where "arp_hardware_length_offset = 4"
definition arp_protocol_length_offset :: nat where "arp_protocol_length_offset = 5"
definition arp_opcode_offset :: nat where "arp_opcode_offset = 6"
definition arp_sender_hardware_offset :: nat where "arp_sender_hardware_offset = 8"
definition arp_sender_protocol_offset :: nat where "arp_sender_protocol_offset = 14"
definition arp_target_hardware_offset :: nat where "arp_target_hardware_offset = 18"
definition arp_target_protocol_offset :: nat where "arp_target_protocol_offset = 24"
definition arp_ipv4_payload_length :: nat where "arp_ipv4_payload_length = 28"
definition arp_ethernet_hardware_address_length :: u8 where
  "arp_ethernet_hardware_address_length = 6"
definition arp_ipv4_protocol_address_length :: u8 where "arp_ipv4_protocol_address_length = 4"
definition minimum_ethernet_frame_length :: nat where "minimum_ethernet_frame_length = 60"

lemmas arp_constants =
  arp_hardware_type_ethernet_def arp_operation_request_def arp_operation_reply_def
  arp_reserved_field_zero_def arp_reserved_field_all_ones_def arp_hardware_type_offset_def
  arp_protocol_type_offset_def arp_hardware_length_offset_def arp_protocol_length_offset_def
  arp_opcode_offset_def arp_sender_hardware_offset_def arp_sender_protocol_offset_def
  arp_target_hardware_offset_def arp_target_protocol_offset_def arp_ipv4_payload_length_def
  arp_ethernet_hardware_address_length_def arp_ipv4_protocol_address_length_def

section \<open>Request layouts\<close>

record request_layout =
  rl_ethernet_destination :: mac_address
  rl_ethernet_source :: mac_address
  rl_vlan_tag :: "tag_stack option"
  rl_llc_snap :: bool
  rl_hardware_type :: u16
  rl_protocol_type :: u16
  rl_hardware_length :: u8
  rl_protocol_length :: u8
  rl_opcode :: u16
  rl_sender_hardware :: mac_address
  rl_sender_protocol :: ipv4
  rl_target_hardware :: mac_address
  rl_target_protocol :: ipv4
  rl_padding :: "u8 list"

definition rfc_826_ethernet_ii :: "mac_address \<Rightarrow> ipv4 \<Rightarrow> ipv4 \<Rightarrow> request_layout" where
  "rfc_826_ethernet_ii interface_mac source target =
     \<lparr>rl_ethernet_destination = mac_broadcast,
      rl_ethernet_source = interface_mac,
      rl_vlan_tag = None,
      rl_llc_snap = False,
      rl_hardware_type = arp_hardware_type_ethernet,
      rl_protocol_type = protocol_ipv4,
      rl_hardware_length = arp_ethernet_hardware_address_length,
      rl_protocol_length = arp_ipv4_protocol_address_length,
      rl_opcode = arp_operation_request,
      rl_sender_hardware = interface_mac,
      rl_sender_protocol = source,
      rl_target_hardware = mac_zero,
      rl_target_protocol = target,
      rl_padding = []\<rparr>"

section \<open>Encoding\<close>

text \<open>The 28-octet header, written field by field into a zeroed buffer.\<close>

definition encode_arp_header :: "request_layout \<Rightarrow> u8 list" where
  "encode_arp_header l =
     (let h = replicate arp_ipv4_payload_length 0;
          h = write_slice arp_hardware_type_offset (u16_to_be (rl_hardware_type l)) h;
          h = write_slice arp_protocol_type_offset (u16_to_be (rl_protocol_type l)) h;
          h = write_slice arp_hardware_length_offset [rl_hardware_length l] h;
          h = write_slice arp_protocol_length_offset [rl_protocol_length l] h;
          h = write_slice arp_opcode_offset (u16_to_be (rl_opcode l)) h;
          h = write_slice arp_sender_hardware_offset (octets (rl_sender_hardware l)) h;
          h = write_slice arp_sender_protocol_offset (ipv4_octets (rl_sender_protocol l)) h;
          h = write_slice arp_target_hardware_offset (octets (rl_target_hardware l)) h in
      write_slice arp_target_protocol_offset (ipv4_octets (rl_target_protocol l)) h)"

definition encode_request_from_layout :: "request_layout \<Rightarrow> u8 list" where
  "encode_request_from_layout l =
     (let payload = encode_arp_header l @ rl_padding l;
          body =
            (if rl_llc_snap l
             then encode_llc_snap_frame (rl_ethernet_destination l) (rl_ethernet_source l)
                    (rl_vlan_tag l) protocol_arp payload
             else encode_ethernet_ii_frame_with_tag (rl_ethernet_destination l)
                    (rl_ethernet_source l) (rl_vlan_tag l) protocol_arp payload) in
      if length body < minimum_ethernet_frame_length
      then body @ replicate (minimum_ethernet_frame_length - length body) 0
      else body)"

definition copy_into_minimum_ethernet_frame :: "u8 list \<Rightarrow> u8 list" where
  "copy_into_minimum_ethernet_frame frame =
     (let minimum = replicate minimum_ethernet_frame_length 0;
          copy_length = min (length frame) minimum_ethernet_frame_length in
      write_slice 0 (take copy_length frame) minimum)"

definition build_request_with_wire_options ::
    "mac_address \<Rightarrow> ipv4 \<Rightarrow> ipv4 \<Rightarrow> vlan_identifier option \<Rightarrow> bool \<Rightarrow> u8 list" where
  "build_request_with_wire_options mac source target vid llc_snap =
     (let layout = rfc_826_ethernet_ii mac source target;
          layout = layout\<lparr>rl_vlan_tag :=
            map_option Customer (map_option tci_from_vlan_identifier vid)\<rparr>;
          layout = layout\<lparr>rl_llc_snap := llc_snap\<rparr> in
      copy_into_minimum_ethernet_frame (encode_request_from_layout layout))"

definition build_request_with_optional_tag ::
    "mac_address \<Rightarrow> ipv4 \<Rightarrow> ipv4 \<Rightarrow> vlan_identifier option \<Rightarrow> u8 list" where
  "build_request_with_optional_tag mac source target vid =
     build_request_with_wire_options mac source target vid False"

definition build_request :: "mac_address \<Rightarrow> ipv4 \<Rightarrow> ipv4 \<Rightarrow> u8 list" where
  "build_request mac source target = build_request_with_optional_tag mac source target None"

definition build_probe :: "mac_address \<Rightarrow> ipv4 \<Rightarrow> u8 list" where
  "build_probe mac target =
     copy_into_minimum_ethernet_frame
       (encode_request_from_layout (rfc_826_ethernet_ii mac ipv4_unspecified target))"

definition build_announcement :: "mac_address \<Rightarrow> ipv4 \<Rightarrow> u8 list" where
  "build_announcement mac claimed =
     copy_into_minimum_ethernet_frame
       (encode_request_from_layout (rfc_826_ethernet_ii mac claimed claimed))"

definition maximum_arp_request_padding_octet_count :: "bool \<Rightarrow> nat" where
  "maximum_arp_request_padding_octet_count llc_snap =
     (let reserved = (if llc_snap then llc_snap_header_length + arp_ipv4_payload_length
                      else arp_ipv4_payload_length) in
      unat ieee_8023_maximum_length - reserved)"

section \<open>Parsing\<close>

record parsed_arp =
  pa_opcode :: u16
  pa_sender_protocol :: ipv4
  pa_sender_hardware :: mac_address
  pa_target_hardware :: mac_address
  pa_target_protocol :: ipv4

definition try_parse_arp_payload :: "u8 list \<Rightarrow> string + parsed_arp" where
  "try_parse_arp_payload arp =
     (let hardware_type = u16_from_be (arp ! arp_hardware_type_offset) (arp ! (arp_hardware_type_offset + 1)) in
      if hardware_type = arp_reserved_field_zero \<or> hardware_type = arp_reserved_field_all_ones
      then Err ''address resolution hardware type is reserved by RFC 5494''
      else if hardware_type \<noteq> arp_hardware_type_ethernet
      then Err ''address resolution hardware type is not Ethernet''
      else if u16_from_be (arp ! arp_protocol_type_offset) (arp ! (arp_protocol_type_offset + 1))
              \<noteq> protocol_ipv4
      then Err ''address resolution protocol type is not IPv4''
      else if arp ! arp_hardware_length_offset \<noteq> arp_ethernet_hardware_address_length
              \<or> arp ! arp_protocol_length_offset \<noteq> arp_ipv4_protocol_address_length
      then Err ''address resolution address lengths are not Ethernet plus IPv4''
      else
        let opcode = u16_from_be (arp ! arp_opcode_offset) (arp ! (arp_opcode_offset + 1)) in
        if opcode = arp_reserved_field_zero \<or> opcode = arp_reserved_field_all_ones
        then Err ''address resolution opcode is reserved by RFC 5494''
        else Ok \<lparr>pa_opcode = opcode,
               pa_sender_protocol =
                 ipv4_new (arp ! arp_sender_protocol_offset) (arp ! (arp_sender_protocol_offset + 1))
                   (arp ! (arp_sender_protocol_offset + 2)) (arp ! (arp_sender_protocol_offset + 3)),
               pa_sender_hardware = from_octets (take 6 (drop arp_sender_hardware_offset arp)),
               pa_target_hardware = from_octets (take 6 (drop arp_target_hardware_offset arp)),
               pa_target_protocol =
                 ipv4_new (arp ! arp_target_protocol_offset) (arp ! (arp_target_protocol_offset + 1))
                   (arp ! (arp_target_protocol_offset + 2))
                   (arp ! (arp_target_protocol_offset + 3))\<rparr>)"

definition try_parse_arp :: "u8 list \<Rightarrow> string + parsed_arp" where
  "try_parse_arp frame =
     and_then (try_parse_ethernet_frame frame) (\<lambda>parsed.
     if pef_ether_type parsed \<noteq> protocol_arp
     then Err ''EtherType is not address resolution protocol''
     else if length (pef_payload parsed) < arp_ipv4_payload_length
     then Err ''address resolution payload is shorter than IPv4 over Ethernet''
     else try_parse_arp_payload (pef_payload parsed))"

definition try_parse_arp_reply :: "u8 list \<Rightarrow> string + (ipv4 \<times> mac_address)" where
  "try_parse_arp_reply frame =
     and_then (try_parse_arp frame) (\<lambda>parsed.
     if pa_opcode parsed = arp_operation_reply
     then Ok (pa_sender_protocol parsed, pa_sender_hardware parsed)
     else if pa_opcode parsed = arp_operation_request
     then Err ''address resolution opcode is a request, not a reply''
     else Err ''address resolution opcode is not a recognized reply'')"

section \<open>The octets of an ARP packet\<close>

definition arp_fields ::
    "u16 \<Rightarrow> u16 \<Rightarrow> u8 \<Rightarrow> u8 \<Rightarrow> u16 \<Rightarrow> mac_address \<Rightarrow> ipv4 \<Rightarrow> mac_address \<Rightarrow> ipv4 \<Rightarrow> u8 list" where
  "arp_fields hrd pro hln pln op sha spa tha tpa =
     u16_to_be hrd @ u16_to_be pro @ [hln, pln] @ u16_to_be op
     @ octets sha @ u32_to_be spa @ octets tha @ u32_to_be tpa"

lemma length_arp_fields [simp]: "length (arp_fields hrd pro hln pln op sha spa tha tpa) = 28"
  by (simp add: arp_fields_def)

lemma encode_arp_header_fields:
  "encode_arp_header l =
     arp_fields (rl_hardware_type l) (rl_protocol_type l) (rl_hardware_length l)
       (rl_protocol_length l) (rl_opcode l) (rl_sender_hardware l) (rl_sender_protocol l)
       (rl_target_hardware l) (rl_target_protocol l)"
  unfolding encode_arp_header_def Let_def arp_constants ipv4_octets_def arp_fields_def
  by (simp add: write_slice_first write_slice_next del: append_assoc)

definition arp_octets :: "parsed_arp \<Rightarrow> u8 list" where
  "arp_octets a = arp_fields 1 0x0800 6 4 (pa_opcode a) (pa_sender_hardware a)
     (pa_sender_protocol a) (pa_target_hardware a) (pa_target_protocol a)"

definition opcode_ok :: "u16 \<Rightarrow> bool" where
  "opcode_ok op \<longleftrightarrow> op \<noteq> 0 \<and> op \<noteq> 65535"

text \<open>Splitting a field off the front.\<close>

lemma split_u16: "n + 2 \<le> length xs \<Longrightarrow> \<exists>w y. xs = u16_to_be w @ y \<and> n \<le> length y"
proof -
  assume len: "n + 2 \<le> length xs"
  then have "2 \<le> length xs" "n \<le> length (drop 2 xs)" by simp_all
  then show ?thesis using split_two [of xs] by metis
qed

lemma split_u32: "n + 4 \<le> length xs \<Longrightarrow> \<exists>w y. xs = u32_to_be w @ y \<and> n \<le> length y"
proof -
  assume "n + 4 \<le> length xs"
  then obtain a b c d y where "xs = a # b # c # d # y" "n \<le> length y"
    by (auto simp: numeral_eq_Suc Suc_le_length_iff)
  then have "xs = u32_to_be (u32_from_be a b c d) @ y \<and> n \<le> length y" by simp
  then show ?thesis by blast
qed

lemma split_mac: "n + 6 \<le> length xs \<Longrightarrow> \<exists>m y. xs = octets m @ y \<and> n \<le> length y"
proof -
  assume "n + 6 \<le> length xs"
  then have "xs = octets (from_octets (take 6 xs)) @ drop 6 xs" "n \<le> length (drop 6 xs)"
    by (simp_all add: octets_from_octets)
  then show ?thesis by blast
qed

lemma split_pair: "n + 2 \<le> length xs \<Longrightarrow> \<exists>a b y. xs = [a, b] @ y \<and> n \<le> length y"
  by (auto simp: numeral_eq_Suc Suc_le_length_iff)

lemma split_arp_fields:
  assumes "28 \<le> length arp"
  shows "\<exists>hrd pro hln pln op sha spa tha tpa pad.
           arp = arp_fields hrd pro hln pln op sha spa tha tpa @ pad"
proof -
  have "26 + 2 \<le> length arp" using assms by simp
  from split_u16 [OF this] obtain hrd y1 where 1: "arp = u16_to_be hrd @ y1" "24 + 2 \<le> length y1"
    by auto
  from split_u16 [OF 1(2)] obtain pro y2 where 2: "y1 = u16_to_be pro @ y2" "22 + 2 \<le> length y2"
    by auto
  from split_pair [OF 2(2)] obtain hln pln y3 where 3: "y2 = [hln, pln] @ y3" "20 + 2 \<le> length y3"
    by auto
  from split_u16 [OF 3(2)] obtain op y4 where 4: "y3 = u16_to_be op @ y4" "14 + 6 \<le> length y4"
    by auto
  from split_mac [OF 4(2)] obtain sha y5 where 5: "y4 = octets sha @ y5" "10 + 4 \<le> length y5"
    by auto
  from split_u32 [OF 5(2)] obtain spa y6 where 6: "y5 = u32_to_be spa @ y6" "4 + 6 \<le> length y6"
    by auto
  from split_mac [OF 6(2)] obtain tha y7 where 7: "y6 = octets tha @ y7" "0 + 4 \<le> length y7"
    by auto
  from split_u32 [OF 7(2)] obtain tpa y8 where 8: "y7 = u32_to_be tpa @ y8" by blast
  have "arp = arp_fields hrd pro hln pln op sha spa tha tpa @ y8"
    by (simp add: 1(1) 2(1) 3(1) 4(1) 5(1) 6(1) 7(1) 8 arp_fields_def)
  then show ?thesis by blast
qed

lemma arp_fields_nth:
  fixes hrd pro hln pln op sha spa tha tpa pad
  defines "arp \<equiv> arp_fields hrd pro hln pln op sha spa tha tpa @ pad"
  shows "u16_from_be (arp ! 0) (arp ! 1) = hrd" "u16_from_be (arp ! 2) (arp ! 3) = pro"
    "arp ! 4 = hln" "arp ! 5 = pln" "u16_from_be (arp ! 6) (arp ! 7) = op"
    "take 6 (drop 8 arp) = octets sha"
    "u32_from_be (arp ! 14) (arp ! 15) (arp ! 16) (arp ! 17) = spa"
    "take 6 (drop 18 arp) = octets tha"
    "u32_from_be (arp ! 24) (arp ! 25) (arp ! 26) (arp ! 27) = tpa"
  by (simp_all add: arp_def arp_fields_def nth_append)

lemma try_parse_arp_payload_by_fields:
  assumes "u16_from_be (arp ! 0) (arp ! 1) = hrd" "u16_from_be (arp ! 2) (arp ! 3) = pro"
    "arp ! 4 = hln" "arp ! 5 = pln" "u16_from_be (arp ! 6) (arp ! 7) = op"
    "take 6 (drop 8 arp) = octets sha"
    "u32_from_be (arp ! 14) (arp ! 15) (arp ! 16) (arp ! 17) = spa"
    "take 6 (drop 18 arp) = octets tha"
    "u32_from_be (arp ! 24) (arp ! 25) (arp ! 26) (arp ! 27) = tpa"
  shows "try_parse_arp_payload arp =
     (if hrd = 0 \<or> hrd = 65535 then Err ''address resolution hardware type is reserved by RFC 5494''
      else if hrd \<noteq> 1 then Err ''address resolution hardware type is not Ethernet''
      else if pro \<noteq> 0x0800 then Err ''address resolution protocol type is not IPv4''
      else if hln \<noteq> 6 \<or> pln \<noteq> 4
      then Err ''address resolution address lengths are not Ethernet plus IPv4''
      else if op = 0 \<or> op = 65535 then Err ''address resolution opcode is reserved by RFC 5494''
      else Ok \<lparr>pa_opcode = op, pa_sender_protocol = spa, pa_sender_hardware = sha,
             pa_target_hardware = tha, pa_target_protocol = tpa\<rparr>)"
proof -
  have "arp ! (0 + 1) = arp ! 1" "arp ! (2 + 1) = arp ! 3" "arp ! (6 + 1) = arp ! 7"
    "arp ! (14 + 1) = arp ! 15" "arp ! (14 + 2) = arp ! 16" "arp ! (14 + 3) = arp ! 17"
    "arp ! (24 + 1) = arp ! 25" "arp ! (24 + 2) = arp ! 26" "arp ! (24 + 3) = arp ! 27"
    by simp_all
  then show ?thesis
    unfolding try_parse_arp_payload_def arp_constants protocol_ipv4_def ipv4_new_def Let_def
    by (simp only: assms from_octets_octets)
qed

lemmas try_parse_arp_payload_fields = try_parse_arp_payload_by_fields [OF arp_fields_nth]

lemma try_parse_arp_payload_Ok_iff:
  assumes "28 \<le> length arp"
  shows "try_parse_arp_payload arp = Ok a \<longleftrightarrow>
           opcode_ok (pa_opcode a) \<and> (\<exists>pad. arp = arp_octets a @ pad)"
proof -
  obtain hrd pro hln pln op sha spa tha tpa pad where
    arp: "arp = arp_fields hrd pro hln pln op sha spa tha tpa @ pad"
    using split_arp_fields [OF assms] by blast
  show ?thesis
  proof
    assume "try_parse_arp_payload arp = Ok a"
    then show "opcode_ok (pa_opcode a) \<and> (\<exists>pad. arp = arp_octets a @ pad)"
      unfolding arp try_parse_arp_payload_fields
      by (auto simp: arp_octets_def opcode_ok_def split: if_splits)
  next
    assume "opcode_ok (pa_opcode a) \<and> (\<exists>pad. arp = arp_octets a @ pad)"
    then obtain pad' where "opcode_ok (pa_opcode a)" "arp = arp_octets a @ pad'" by blast
    then show "try_parse_arp_payload arp = Ok a"
      by (cases a) (simp add: arp_octets_def try_parse_arp_payload_fields opcode_ok_def)
  qed
qed

section \<open>The frames the ARP parser accepts\<close>

lemma try_parse_arp_Ok_iff:
  "try_parse_arp frame = Ok a \<longleftrightarrow>
     opcode_ok (pa_opcode a) \<and>
     (\<exists>d s stack tf framing pad.
        frame = octets d @ octets s @ tag_octets stack @ u16_to_be tf
                @ framing_octets framing protocol_arp @ arp_octets a @ pad
        \<and> opt_stack_wf stack \<and> type_field_ok framing tf protocol_arp)"
  (is "?L \<longleftrightarrow> ?R")
proof
  assume L: ?L
  then obtain f where f: "try_parse_ethernet_frame frame = Ok f" "pef_ether_type f = protocol_arp"
    and len: "28 \<le> length (pef_payload f)" and p: "try_parse_arp_payload (pef_payload f) = Ok a"
    by (auto simp: try_parse_arp_def and_then_eq_Ok_iff arp_ipv4_payload_length_def not_less
        split: if_splits)
  obtain d s stack tf et framing payload where fr:
    "frame = octets d @ octets s @ tag_octets stack @ u16_to_be tf @ framing_octets framing et @ payload"
    "opt_stack_wf stack" "type_field_ok framing tf et" "f = parsed_frame d s stack et framing payload"
    using f(1) unfolding try_parse_Ok_iff by blast
  have "et = protocol_arp" "pef_payload f = payload" using f(2) fr(4) by (simp_all add: parsed_frame_def)
  moreover obtain pad where "opcode_ok (pa_opcode a)" "payload = arp_octets a @ pad"
    using p try_parse_arp_payload_Ok_iff [OF len, of a] calculation by auto
  ultimately show ?R using fr by blast
next
  assume ?R
  then obtain d s stack tf framing pad where op: "opcode_ok (pa_opcode a)"
    and fr: "frame = octets d @ octets s @ tag_octets stack @ u16_to_be tf
                @ framing_octets framing protocol_arp @ arp_octets a @ pad"
    "opt_stack_wf stack" "type_field_ok framing tf protocol_arp"
    by blast
  then have f: "try_parse_ethernet_frame frame =
      Ok (parsed_frame d s stack protocol_arp framing (arp_octets a @ pad))"
    unfolding try_parse_Ok_iff by blast
  have len: "28 \<le> length (arp_octets a @ pad)" by (simp add: arp_octets_def)
  then have "try_parse_arp_payload (arp_octets a @ pad) = Ok a"
    using try_parse_arp_payload_Ok_iff [OF len, of a] op by blast
  then show ?L
    using f len by (simp add: try_parse_arp_def parsed_frame_def arp_ipv4_payload_length_def)
qed

section \<open>Encoded requests\<close>

definition layout_framing :: "request_layout \<Rightarrow> ethernet_framing" where
  "layout_framing l = (if rl_llc_snap l then Ieee8023LlcSnap else EthernetIi)"

definition layout_type_field :: "request_layout \<Rightarrow> u16" where
  "layout_type_field l =
     (if rl_llc_snap l then snap_length_field (encode_arp_header l @ rl_padding l) else protocol_arp)"

text \<open>The frame before and after the zero padding to the minimum length.\<close>

definition layout_body :: "request_layout \<Rightarrow> u8 list" where
  "layout_body l =
     octets (rl_ethernet_destination l) @ octets (rl_ethernet_source l) @ tag_octets (rl_vlan_tag l)
     @ u16_to_be (layout_type_field l) @ framing_octets (layout_framing l) protocol_arp
     @ encode_arp_header l @ rl_padding l"

lemma encode_request_body:
  "encode_request_from_layout l = layout_body l @ replicate (60 - length (layout_body l)) 0"
  by (cases "rl_llc_snap l")
    (simp_all add: encode_request_from_layout_def Let_def encode_llc_snap_layout
      encode_ethernet_ii_layout layout_body_def layout_framing_def layout_type_field_def
      framing_octets_def minimum_ethernet_frame_length_def)

definition layout_length :: "request_layout \<Rightarrow> nat" where
  "layout_length l =
     14 + (case rl_vlan_tag l of None \<Rightarrow> 0 | Some s \<Rightarrow> encoded_octet_count s)
     + (if rl_llc_snap l then 8 else 0) + 28 + length (rl_padding l)"

lemma length_encode_arp_header [simp]: "length (encode_arp_header l) = 28"
  by (simp add: encode_arp_header_fields)

lemma length_layout_body: "length (layout_body l) = layout_length l"
  by (simp add: layout_body_def layout_length_def length_tag_octets framing_octets_def
      layout_framing_def)

lemma length_encode_request: "length (encode_request_from_layout l) = max 60 (layout_length l)"
  by (simp add: encode_request_body length_layout_body)

text \<open>The layouts whose frame the parser can take apart again.\<close>

definition layout_frameable :: "request_layout \<Rightarrow> bool" where
  "layout_frameable l \<longleftrightarrow>
     opt_stack_wf (rl_vlan_tag l)
     \<and> length (rl_padding l) \<le> maximum_arp_request_padding_octet_count (rl_llc_snap l)"

lemma maximum_padding_value:
  "maximum_arp_request_padding_octet_count llc = (if llc then 1464 else 1472)"
  by (simp add: maximum_arp_request_padding_octet_count_def llc_snap_header_length_def
      arp_ipv4_payload_length_def ieee_8023_maximum_length_def)

lemma protocol_arp_not_tpid: "\<not> is_vlan_tpid protocol_arp" "1536 \<le> protocol_arp"
  by (simp_all add: is_vlan_tpid_def is_unsupported_vlan_tpid_def frame_constants)

lemma layout_type_field_ok:
  assumes "layout_frameable l"
  shows "type_field_ok (layout_framing l) (layout_type_field l) protocol_arp"
proof (cases "rl_llc_snap l")
  case True
  then have "8 + length (encode_arp_header l @ rl_padding l) \<le> 1500"
    using assms by (simp add: layout_frameable_def maximum_padding_value)
  then show ?thesis
    using True snap_length_field_small(1)
    by (simp add: type_field_ok_def layout_framing_def layout_type_field_def)
next
  case False
  then show ?thesis
    by (simp add: type_field_ok_def layout_framing_def layout_type_field_def protocol_arp_not_tpid)
qed

lemma parse_ethernet_of_request:
  assumes "layout_frameable l"
  shows "try_parse_ethernet_frame (encode_request_from_layout l) =
    Ok (parsed_frame (rl_ethernet_destination l) (rl_ethernet_source l) (rl_vlan_tag l) protocol_arp
          (layout_framing l)
          (encode_arp_header l @ rl_padding l @ replicate (60 - layout_length l) 0))"
proof (rule try_parse_OkI)
  show "encode_request_from_layout l = octets (rl_ethernet_destination l)
      @ octets (rl_ethernet_source l) @ tag_octets (rl_vlan_tag l) @ u16_to_be (layout_type_field l)
      @ framing_octets (layout_framing l) protocol_arp
      @ encode_arp_header l @ rl_padding l @ replicate (60 - layout_length l) 0"
    by (simp only: encode_request_body length_layout_body) (simp add: layout_body_def)
qed (use layout_type_field_ok [OF assms] assms in \<open>simp_all add: layout_frameable_def\<close>)

lemma parse_arp_of_request:
  assumes "layout_frameable l"
  shows "try_parse_arp (encode_request_from_layout l) =
    (if rl_hardware_type l = 0 \<or> rl_hardware_type l = 65535
     then Err ''address resolution hardware type is reserved by RFC 5494''
     else if rl_hardware_type l \<noteq> 1 then Err ''address resolution hardware type is not Ethernet''
     else if rl_protocol_type l \<noteq> 0x0800 then Err ''address resolution protocol type is not IPv4''
     else if rl_hardware_length l \<noteq> 6 \<or> rl_protocol_length l \<noteq> 4
     then Err ''address resolution address lengths are not Ethernet plus IPv4''
     else if rl_opcode l = 0 \<or> rl_opcode l = 65535
     then Err ''address resolution opcode is reserved by RFC 5494''
     else Ok \<lparr>pa_opcode = rl_opcode l, pa_sender_protocol = rl_sender_protocol l,
            pa_sender_hardware = rl_sender_hardware l, pa_target_hardware = rl_target_hardware l,
            pa_target_protocol = rl_target_protocol l\<rparr>)"
proof -
  have "try_parse_arp (encode_request_from_layout l) =
      try_parse_arp_payload (encode_arp_header l @ rl_padding l @ replicate (60 - layout_length l) 0)"
    using parse_ethernet_of_request [OF assms]
    by (simp add: try_parse_arp_def parsed_frame_def arp_ipv4_payload_length_def)
  then show ?thesis
    unfolding encode_arp_header_fields try_parse_arp_payload_fields .
qed

section \<open>The builders\<close>

lemma copy_minimum_of_sixty: "length frame = 60 \<Longrightarrow> copy_into_minimum_ethernet_frame frame = frame"
  by (simp add: copy_into_minimum_ethernet_frame_def minimum_ethernet_frame_length_def write_slice_def)

definition wire_option_layout ::
    "mac_address \<Rightarrow> ipv4 \<Rightarrow> ipv4 \<Rightarrow> vlan_identifier option \<Rightarrow> bool \<Rightarrow> request_layout" where
  "wire_option_layout mac source target vid llc =
     (rfc_826_ethernet_ii mac source target)
       \<lparr>rl_vlan_tag := map_option Customer (map_option tci_from_vlan_identifier vid),
        rl_llc_snap := llc\<rparr>"

lemma build_with_wire_options_eq:
  "build_request_with_wire_options mac source target vid llc =
     encode_request_from_layout (wire_option_layout mac source target vid llc)"
proof -
  have "layout_length (wire_option_layout mac source target vid llc) \<le> 60"
    by (simp add: layout_length_def wire_option_layout_def rfc_826_ethernet_ii_def
        ieee_8021q_tag_length_def split: option.splits)
  then have "length (encode_request_from_layout (wire_option_layout mac source target vid llc)) = 60"
    by (simp add: length_encode_request)
  then show ?thesis
    by (simp add: build_request_with_wire_options_def Let_def copy_minimum_of_sixty
        wire_option_layout_def rfc_826_ethernet_ii_def)
qed

lemma build_plain_eq:
  "build_request mac source target = encode_request_from_layout (rfc_826_ethernet_ii mac source target)"
  "build_probe mac target = encode_request_from_layout (rfc_826_ethernet_ii mac ipv4_unspecified target)"
  "build_announcement mac claimed = encode_request_from_layout (rfc_826_ethernet_ii mac claimed claimed)"
proof -
  have len: "length (encode_request_from_layout (rfc_826_ethernet_ii mac source target)) = 60"
    for mac source target
    by (simp add: length_encode_request layout_length_def rfc_826_ethernet_ii_def)
  have "wire_option_layout mac source target None False = rfc_826_ethernet_ii mac source target"
    by (simp add: wire_option_layout_def rfc_826_ethernet_ii_def)
  then show "build_request mac source target =
      encode_request_from_layout (rfc_826_ethernet_ii mac source target)"
    by (simp add: build_request_def build_request_with_optional_tag_def build_with_wire_options_eq)
  show "build_probe mac target =
      encode_request_from_layout (rfc_826_ethernet_ii mac ipv4_unspecified target)"
    by (simp add: build_probe_def copy_minimum_of_sixty len)
  show "build_announcement mac claimed =
      encode_request_from_layout (rfc_826_ethernet_ii mac claimed claimed)"
    by (simp add: build_announcement_def copy_minimum_of_sixty len)
qed

lemma rfc_826_frameable [simp]: "layout_frameable (rfc_826_ethernet_ii mac source target)"
  by (simp add: layout_frameable_def rfc_826_ethernet_ii_def opt_stack_wf_def)

lemma parse_rfc_826_request:
  "try_parse_arp (encode_request_from_layout (rfc_826_ethernet_ii mac source target)) =
     Ok \<lparr>pa_opcode = 1, pa_sender_protocol = source, pa_sender_hardware = mac,
         pa_target_hardware = mac_zero, pa_target_protocol = target\<rparr>"
  by (simp add: parse_arp_of_request)
    (simp add: rfc_826_ethernet_ii_def arp_constants protocol_ipv4_def)

section \<open>Properties\<close>

text \<open>
  C1: the ARP parser accepts exactly the Ethernet frames of EtherType 0x0806, tagged or not, in
  either framing, whose payload starts with a 28-octet Ethernet/IPv4 packet with an opcode other than
  the reserved 0 and 65535; it returns the five fields of that packet whatever octets follow.
\<close>

theorem arp_parser_exact:
  "try_parse_arp frame = Ok a \<longleftrightarrow>
     (pa_opcode a \<noteq> 0 \<and> pa_opcode a \<noteq> 65535) \<and>
     (\<exists>d s stack tf framing pad.
        frame = octets d @ octets s @ tag_octets stack @ u16_to_be tf
                @ framing_octets framing 0x0806 @ arp_octets a @ pad
        \<and> opt_stack_wf stack \<and> type_field_ok framing tf 0x0806)"
  using try_parse_arp_Ok_iff [of frame a] by (simp add: opcode_ok_def protocol_arp_def)

text \<open>
  A request is its headers, its tags, the ARP packet and the padding, filled with zeros up to 60
  octets, so its length is the larger of 60 and the sum of the parts: nothing is cut off.
\<close>

theorem encoded_request_octets:
  "encode_request_from_layout l = layout_body l @ replicate (60 - length (layout_body l)) 0
   \<and> length (layout_body l) = layout_length l
   \<and> length (encode_request_from_layout l) = max 60 (layout_length l)"
  using encode_request_body length_layout_body length_encode_request by blast

text \<open>
  C30: a request whose tags are in range and whose padding fits the MAC client data is parsed back to
  the addresses, tags and framing it was built from, and the ARP parser returns its packet when the
  header fields are those of Ethernet and IPv4 and the opcode is not reserved.
\<close>

theorem request_parses_back:
  assumes "layout_frameable l"
  shows "try_parse_ethernet_frame (encode_request_from_layout l) =
      Ok (parsed_frame (rl_ethernet_destination l) (rl_ethernet_source l) (rl_vlan_tag l) 0x0806
            (if rl_llc_snap l then Ieee8023LlcSnap else EthernetIi)
            (encode_arp_header l @ rl_padding l @ replicate (60 - layout_length l) 0))
    \<and> (rl_hardware_type l = 1 \<and> rl_protocol_type l = 0x0800 \<and> rl_hardware_length l = 6
        \<and> rl_protocol_length l = 4 \<and> rl_opcode l \<notin> {0, 65535} \<longrightarrow>
      try_parse_arp (encode_request_from_layout l) =
        Ok \<lparr>pa_opcode = rl_opcode l, pa_sender_protocol = rl_sender_protocol l,
            pa_sender_hardware = rl_sender_hardware l, pa_target_hardware = rl_target_hardware l,
            pa_target_protocol = rl_target_protocol l\<rparr>)"
  using parse_ethernet_of_request [OF assms] parse_arp_of_request [OF assms]
  by (simp add: layout_framing_def protocol_arp_def)

definition witness_layout :: request_layout where
  "witness_layout =
     (rfc_826_ethernet_ii mac_zero (ipv4_new 10 0 0 1) (ipv4_new 10 0 0 2))
       \<lparr>rl_vlan_tag := Some (Customer (tci_from_u16 0x600A)), rl_llc_snap := True,
        rl_padding := [1, 2, 3]\<rparr>"

lemma request_parses_back_witness:
  "try_parse_arp (encode_request_from_layout witness_layout) =
     Ok \<lparr>pa_opcode = 1, pa_sender_protocol = ipv4_new 10 0 0 1, pa_sender_hardware = mac_zero,
         pa_target_hardware = mac_zero, pa_target_protocol = ipv4_new 10 0 0 2\<rparr>"
proof -
  have "layout_frameable witness_layout"
    by (simp add: layout_frameable_def witness_layout_def opt_stack_wf_def tag_stack_wf_def
        maximum_padding_value)
  from request_parses_back [OF this] show ?thesis
    by (simp add: witness_layout_def rfc_826_ethernet_ii_def arp_constants protocol_ipv4_def)
qed

text \<open>
  The builders with the fixed 60-octet result never truncate: whatever the VLAN identifier and
  the framing, the frame has 60 octets and is the encoded request of the same fields, and a probe
  and an announcement are requests with the sender address zero and the claimed one.
\<close>

theorem fixed_length_builders:
  "build_request_with_wire_options mac source target vid llc =
     encode_request_from_layout (wire_option_layout mac source target vid llc)
   \<and> length (build_request_with_wire_options mac source target vid llc) = 60
   \<and> try_parse_arp (build_request mac source target) =
       Ok \<lparr>pa_opcode = 1, pa_sender_protocol = source, pa_sender_hardware = mac,
           pa_target_hardware = mac_zero, pa_target_protocol = target\<rparr>
   \<and> build_probe mac target = build_request mac 0 target
   \<and> build_announcement mac target = build_request mac target target"
proof -
  have "layout_length (wire_option_layout mac source target vid llc) \<le> 60"
    by (cases vid) (simp_all add: layout_length_def wire_option_layout_def rfc_826_ethernet_ii_def
        frame_constants)
  then show ?thesis
    by (simp add: build_with_wire_options_eq length_encode_request build_plain_eq
        parse_rfc_826_request ipv4_unspecified_def)
qed

end
