(* ===== verification/App_Error.thy ===== *)
theory App_Error
  imports Rust_Str
begin

text \<open>
  \<^verbatim>\<open>src/error.rs\<close>: the error type of the library, its text and its \<^verbatim>\<open>source()\<close>. A
  \<^verbatim>\<open>std::io::Error\<close> is what the code reads of it: its kind, its raw \<^verbatim>\<open>errno\<close> where it has one and
  the text it prints as, which the operating system supplies.
\<close>

section \<open>Input/output errors\<close>

datatype io_kind =
    NotFound | PermissionDenied | Interrupted | WouldBlock | InvalidInput | InvalidData | OtherKind

record io_error =
  io_kind :: io_kind
  io_errno :: "int option"
  io_text :: string

section \<open>The error type\<close>

datatype scan_timing_limit =
    BandwidthInterval | InterRoundGap | RetryReceiveWindow | MonotonicDeadline

datatype app_error =
    Io io_error
  | UnsupportedPlatform string
  | InvalidInterfaceName string
  | InterfaceLookupFailed string io_error
  | InterfaceFlagsQueryFailed string io_error
  | InterfaceRejectedForScanning string string
  | RawSocketOpenFailed io_error
  | RawSocketCapabilityRequired io_error
  | BpfDeviceAccessRequired io_error
  | SocketBindFailed io_error
  | InterfaceIpv4AddressQueryFailed string io_error
  | InterfaceIpv4NetmaskQueryFailed string io_error
  | InterfaceHardwareAddressQueryFailed string io_error
  | InterfaceHardwareAddressUnsupported string string
  | InterfaceIpv4AddressInvalidFamily nat
  | InterfaceIpv4NetmaskInvalidFamily string nat
  | Ipv4NetmaskInvalid string
  | Ipv4SubnetUnsupported string
  | Ipv4CidrStringInvalid string string
  | PollWaitFailed io_error
  | RawPacketReceiveFailed io_error
  | InterfaceEnumerationFailed io_error
  | AutomaticInterfaceSelectionNoneFound
  | AutomaticInterfaceSelectionAmbiguous "string list"
  | SingleScanTargetRejected ipv4 string string
  | Ieee8023MacClientDataExceedsMaximum nat u16
  | ServiceVlanTagRequiresCustomerVlanTag u16
  | InterTargetBandwidthRejected
  | InterTargetIntervalRejected
  | RetryBackoffFactorRejected
  | ScanTimingExceedsLimit scan_timing_limit
  | MonitorTimeoutRejected

section \<open>Display\<close>

fun join_comma :: "string list \<Rightarrow> string" where
  "join_comma [] = []"
| "join_comma [s] = s"
| "join_comma (s # t # ts) = s @ '', '' @ join_comma (t # ts)"

fun scan_timing_limit_display_message :: "scan_timing_limit \<Rightarrow> string" where
  "scan_timing_limit_display_message BandwidthInterval =
     ''outbound send interval derived from --bandwidth does not fit in a duration''"
| "scan_timing_limit_display_message InterRoundGap =
     ''inter-round gap of the send interval plus --pacing-ms does not fit in a duration''"
| "scan_timing_limit_display_message RetryReceiveWindow =
     ''retry receive window does not fit in a duration''"
| "scan_timing_limit_display_message MonotonicDeadline =
     ''scan deadline does not fit in the monotonic clock''"

definition write_early_app_error :: "app_error \<Rightarrow> string option" where
  "write_early_app_error e =
     (case e of
        Io s \<Rightarrow> Some (''input/output error: '' @ io_text s)
      | UnsupportedPlatform os \<Rightarrow>
          Some (''this command requires Linux packet sockets; host operating system is '' @ os)
      | InvalidInterfaceName m \<Rightarrow> Some (''invalid interface name: '' @ m)
      | InterfaceLookupFailed n s \<Rightarrow>
          Some (''failed to look up interface index for `'' @ n @ ''`: '' @ io_text s)
      | InterfaceFlagsQueryFailed n s \<Rightarrow>
          Some (''failed to read interface flags for `'' @ n @ ''`: '' @ io_text s)
      | InterfaceRejectedForScanning n r \<Rightarrow>
          Some (''interface `'' @ n @ ''` is not suitable for ARP scanning: '' @ r)
      | RawSocketOpenFailed s \<Rightarrow> Some (''failed to open raw packet socket: '' @ io_text s)
      | RawSocketCapabilityRequired s \<Rightarrow>
          Some (''opening a raw packet socket requires the Linux capability CAP_NET_RAW (or equivalent privileges); permission denied: '' @ io_text s)
      | BpfDeviceAccessRequired s \<Rightarrow>
          Some (''opening a Berkeley Packet Filter device requires root or BPF access (try running with sudo); permission denied: '' @ io_text s)
      | SocketBindFailed s \<Rightarrow> Some (''failed to bind raw packet socket: '' @ io_text s)
      | InterfaceEnumerationFailed s \<Rightarrow>
          Some (''failed to enumerate network interfaces: '' @ io_text s)
      | AutomaticInterfaceSelectionNoneFound \<Rightarrow>
          Some ''no usable network interface was found for automatic selection; specify one explicitly with --interface <NAME>''
      | AutomaticInterfaceSelectionAmbiguous ns \<Rightarrow>
          Some (''multiple usable network interfaces were found for automatic selection: '' @ join_comma ns
                @ ''; specify one explicitly with --interface <NAME>'')
      | _ \<Rightarrow> None)"

definition write_rate_limit_app_error :: "app_error \<Rightarrow> string option" where
  "write_rate_limit_app_error e =
     (case e of
        InterTargetBandwidthRejected \<Rightarrow> Some ''inter-target bandwidth must be greater than zero''
      | InterTargetIntervalRejected \<Rightarrow> Some ''inter-target interval must be greater than zero''
      | RetryBackoffFactorRejected \<Rightarrow> Some ''retry backoff factor must be finite and at least 1''
      | ScanTimingExceedsLimit l \<Rightarrow> Some (scan_timing_limit_display_message l)
      | _ \<Rightarrow> None)"

definition unexpected_variant :: string where
  "unexpected_variant = ''unexpected application error variant during display formatting''"

definition write_late_app_error_rest :: "app_error \<Rightarrow> string" where
  "write_late_app_error_rest e =
     (case e of
        InterfaceIpv4AddressQueryFailed n s \<Rightarrow>
          ''failed to read IPv4 address for `'' @ n @ ''`: '' @ io_text s
      | InterfaceIpv4NetmaskQueryFailed n s \<Rightarrow>
          ''failed to read IPv4 netmask for `'' @ n @ ''`: '' @ io_text s
      | InterfaceHardwareAddressQueryFailed n s \<Rightarrow>
          ''failed to read hardware address for `'' @ n @ ''`: '' @ io_text s
      | InterfaceHardwareAddressUnsupported n r \<Rightarrow>
          ''hardware address for `'' @ n @ ''` is not supported for ARP scanning: '' @ r
      | InterfaceIpv4AddressInvalidFamily f \<Rightarrow>
          ''interface IPv4 address query returned an unexpected address family: '' @ show_nat f
      | InterfaceIpv4NetmaskInvalidFamily n f \<Rightarrow>
          ''interface IPv4 netmask query for `'' @ n @ ''` returned an unexpected address family: ''
          @ show_nat f
      | Ipv4NetmaskInvalid m \<Rightarrow> ''IPv4 netmask `'' @ m @ ''` is not a valid contiguous netmask''
      | Ipv4SubnetUnsupported m \<Rightarrow> ''IPv4 subnet is not supported for scanning: '' @ m
      | Ipv4CidrStringInvalid s m \<Rightarrow>
          ''invalid IPv4 classless inter-domain routing notation `'' @ s @ ''`: '' @ m
      | PollWaitFailed s \<Rightarrow> ''failed while waiting for raw packet socket readiness: '' @ io_text s
      | RawPacketReceiveFailed s \<Rightarrow> ''failed to receive raw Ethernet frame: '' @ io_text s
      | SingleScanTargetRejected t n r \<Rightarrow>
          ''single-target scan rejected '' @ show_ipv4 t @ '' on interface `'' @ n @ ''`: '' @ r
      | Ieee8023MacClientDataExceedsMaximum c m \<Rightarrow>
          ''IEEE 802.3 MAC client data is '' @ show_nat c @ '' octets; maximum is ''
          @ show_nat (unat m) @ '' (reduce --padding, especially with --llc)''
      | ServiceVlanTagRequiresCustomerVlanTag v \<Rightarrow>
          ''IEEE 802.1Q service VLAN '' @ show_nat (unat v)
          @ '' needs a customer VLAN to wrap: set --vlan as well as --svlan''
      | MonitorTimeoutRejected \<Rightarrow> ''monitor timeout must be greater than zero''
      | _ \<Rightarrow> unexpected_variant)"

definition write_late_app_error :: "app_error \<Rightarrow> string" where
  "write_late_app_error e =
     (case write_rate_limit_app_error e of Some s \<Rightarrow> s | None \<Rightarrow> write_late_app_error_rest e)"

definition show_app_error :: "app_error \<Rightarrow> string" where
  "show_app_error e =
     (case write_early_app_error e of Some s \<Rightarrow> s | None \<Rightarrow> write_late_app_error e)"

text \<open>\<^verbatim>\<open>Error::source\<close>.\<close>

definition app_error_source :: "app_error \<Rightarrow> io_error option" where
  "app_error_source e =
     (case e of
        Io s \<Rightarrow> Some s
      | InterfaceLookupFailed n s \<Rightarrow> Some s
      | InterfaceFlagsQueryFailed n s \<Rightarrow> Some s
      | RawSocketOpenFailed s \<Rightarrow> Some s
      | RawSocketCapabilityRequired s \<Rightarrow> Some s
      | BpfDeviceAccessRequired s \<Rightarrow> Some s
      | SocketBindFailed s \<Rightarrow> Some s
      | InterfaceIpv4AddressQueryFailed n s \<Rightarrow> Some s
      | InterfaceIpv4NetmaskQueryFailed n s \<Rightarrow> Some s
      | InterfaceHardwareAddressQueryFailed n s \<Rightarrow> Some s
      | PollWaitFailed s \<Rightarrow> Some s
      | RawPacketReceiveFailed s \<Rightarrow> Some s
      | InterfaceEnumerationFailed s \<Rightarrow> Some s
      | _ \<Rightarrow> None)"

section \<open>Every variant has its own text\<close>

text \<open>
  The fall-through arm of the three-stage formatter is dead, and every error with a cause prints
  the cause last.
\<close>

lemmas show_app_error_defs =
  show_app_error_def write_early_app_error_def write_late_app_error_def
  write_rate_limit_app_error_def write_late_app_error_rest_def

lemma late_only_reached:
  "write_early_app_error e = None \<Longrightarrow> write_rate_limit_app_error e = None \<Longrightarrow>
     (\<exists>c cs. write_late_app_error_rest e = c # cs \<and> c \<noteq> CHR ''u'')"
  by (cases e)
    (simp_all add: write_early_app_error_def write_rate_limit_app_error_def write_late_app_error_rest_def)

lemma source_is_printed_last:
  "app_error_source e = Some s \<Longrightarrow> \<exists>p. show_app_error e = p @ '': '' @ io_text s"
  by (cases e) (auto simp: app_error_source_def show_app_error_defs)

section \<open>Properties\<close>

text \<open>
  The fall-through text of the formatter is never printed for a variant that reaches its last
  stage, and every error with a cause ends its text with that of the cause.
\<close>

theorem app_error_text:
  "(write_early_app_error e = None \<and> write_rate_limit_app_error e = None \<longrightarrow>
      show_app_error e \<noteq> unexpected_variant)
   \<and> (\<forall>s. app_error_source e = Some s \<longrightarrow> (\<exists>p. show_app_error e = p @ '': '' @ io_text s))"
proof -
  have "write_late_app_error_rest e \<noteq> unexpected_variant"
    if "write_early_app_error e = None" "write_rate_limit_app_error e = None"
    using late_only_reached [OF that] by (auto simp: unexpected_variant_def)
  then show ?thesis
    using source_is_printed_last
    by (auto simp: show_app_error_def write_late_app_error_def)
qed

lemma app_error_text_witness:
  "\<exists>p. show_app_error (PollWaitFailed \<lparr>io_kind = OtherKind, io_errno = None, io_text = ''interrupted''\<rparr>)
         = p @ '': '' @ ''interrupted''"
  using app_error_text
    [of "PollWaitFailed \<lparr>io_kind = OtherKind, io_errno = None, io_text = ''interrupted''\<rparr>"]
  by (simp add: app_error_source_def)

end
