(* ===== verification/Application_Command.thy ===== *)
theory Application_Command
  imports Address_Resolution_Protocol App_Error
begin

text \<open>
  \<^verbatim>\<open>src/application_command.rs\<close>: the wire options of a scan with their validation, the parsers of
  the command-line tokens, the rate-limit types and the commands themselves. An \<^verbatim>\<open>f64\<close> is its
  64-bit pattern as a natural number; the parser of a decimal \<^verbatim>\<open>f64\<close> literal is a parameter of
  \<open>parse_retry_backoff_factor\<close>.
\<close>

definition quoted :: "string \<Rightarrow> string" where
  "quoted s = [CHR 0x27] @ s @ [CHR 0x27]"

section \<open>Sender protocol address\<close>

datatype arp_sender_protocol_address =
    InterfaceAddress | ExplicitAddress ipv4 | DestinationTarget

definition parse_arpspa_cli_token :: "string \<Rightarrow> string + arp_sender_protocol_address" where
  "parse_arpspa_cli_token token =
     (if eq_ignore_ascii_case token ''dest'' then Ok DestinationTarget
      else (case parse_ipv4 token of
        Some a \<Rightarrow> Ok (ExplicitAddress a)
      | None \<Rightarrow> Err (''invalid --arpspa value '' @ quoted token
               @ '': expected a dotted-quad IPv4 address or dest'')))"

fun ipv4_address_for_target :: "arp_sender_protocol_address \<Rightarrow> ipv4 \<Rightarrow> ipv4 \<Rightarrow> ipv4" where
  "ipv4_address_for_target InterfaceAddress interface target = interface"
| "ipv4_address_for_target (ExplicitAddress a) interface target = a"
| "ipv4_address_for_target DestinationTarget interface target = target"

section \<open>Integers of the command line\<close>

definition parse_cli_integer :: "nat \<Rightarrow> string \<Rightarrow> string \<Rightarrow> string + nat" where
  "parse_cli_integer type_max token width_name =
     (let trimmed = str_trim token;
          hexadecimal = (case strip_prefix ''0x'' trimmed of
             Some h \<Rightarrow> Some h | None \<Rightarrow> strip_prefix ''0X'' trimmed) in
      and_then
        (case hexadecimal of
           Some h \<Rightarrow> ok_or (from_str_radix 16 (u128_bound - 1) h)
             (''invalid hexadecimal integer '' @ quoted token @ '': expected a '' @ width_name @ '' value'')
         | None \<Rightarrow> ok_or (from_str_radix 10 (u128_bound - 1) trimmed)
             (''invalid integer '' @ quoted token @ '': expected a decimal or 0x-prefixed ''
              @ width_name @ '' value''))
        (\<lambda>parsed.
      if parsed \<le> type_max then Ok parsed
      else Err (''integer '' @ quoted token @ '' is outside the '' @ width_name @ '' range'')))"

definition parse_u16_cli_token :: "string \<Rightarrow> string + u16" where
  "parse_u16_cli_token token =
     and_then (parse_cli_integer 65535 token ''16-bit'') (\<lambda>n. Ok (word_of_nat n))"

definition parse_u8_cli_token :: "string \<Rightarrow> string + u8" where
  "parse_u8_cli_token token =
     and_then (parse_cli_integer 255 token ''8-bit'') (\<lambda>n. Ok (word_of_nat n))"

section \<open>Wire options\<close>

record scan_wire_options =
  wo_vlan_identifier :: "vlan_identifier option"
  wo_vlan_priority_code_point :: priority_code_point
  wo_vlan_drop_eligible_indicator :: bool
  wo_service_vlan_identifier :: "vlan_identifier option"
  wo_service_vlan_priority_code_point :: priority_code_point
  wo_service_vlan_drop_eligible_indicator :: bool
  wo_sender_protocol_address :: arp_sender_protocol_address
  wo_llc_snap :: bool
  wo_ethernet_destination :: "mac_address option"
  wo_ethernet_source :: "mac_address option"
  wo_arp_hardware_type :: u16
  wo_arp_protocol_type :: u16
  wo_arp_hardware_length :: u8
  wo_arp_protocol_length :: u8
  wo_arp_operation :: u16
  wo_arp_sender_hardware :: "mac_address option"
  wo_arp_target_hardware :: "mac_address option"
  wo_padding :: "u8 list"

definition default_wire_options :: scan_wire_options where
  "default_wire_options =
     \<lparr>wo_vlan_identifier = None,
      wo_vlan_priority_code_point = pcp_zero,
      wo_vlan_drop_eligible_indicator = False,
      wo_service_vlan_identifier = None,
      wo_service_vlan_priority_code_point = pcp_zero,
      wo_service_vlan_drop_eligible_indicator = False,
      wo_sender_protocol_address = InterfaceAddress,
      wo_llc_snap = False,
      wo_ethernet_destination = None,
      wo_ethernet_source = None,
      wo_arp_hardware_type = arp_hardware_type_ethernet,
      wo_arp_protocol_type = protocol_ipv4,
      wo_arp_hardware_length = arp_ethernet_hardware_address_length,
      wo_arp_protocol_length = arp_ipv4_protocol_address_length,
      wo_arp_operation = arp_operation_request,
      wo_arp_sender_hardware = None,
      wo_arp_target_hardware = None,
      wo_padding = []\<rparr>"

definition unwrap_or :: "'a \<Rightarrow> 'a option \<Rightarrow> 'a" where
  "unwrap_or d x = (case x of None \<Rightarrow> d | Some y \<Rightarrow> y)"

definition ieee_8021q_tag_stack :: "scan_wire_options \<Rightarrow> tag_stack option" where
  "ieee_8021q_tag_stack o' =
     (case wo_vlan_identifier o' of
        None \<Rightarrow> None
      | Some vid \<Rightarrow>
          let customer = tci_new (wo_vlan_priority_code_point o')
                (wo_vlan_drop_eligible_indicator o') vid;
              service = map_option (tci_new (wo_service_vlan_priority_code_point o')
                (wo_service_vlan_drop_eligible_indicator o')) (wo_service_vlan_identifier o') in
          Some (tag_stack_new service customer))"

definition address_resolution_request_layout ::
    "scan_wire_options \<Rightarrow> mac_address \<Rightarrow> ipv4 \<Rightarrow> ipv4 \<Rightarrow> request_layout" where
  "address_resolution_request_layout o' interface_mac sender target =
     \<lparr>rl_ethernet_destination = unwrap_or mac_broadcast (wo_ethernet_destination o'),
      rl_ethernet_source = unwrap_or interface_mac (wo_ethernet_source o'),
      rl_vlan_tag = ieee_8021q_tag_stack o',
      rl_llc_snap = wo_llc_snap o',
      rl_hardware_type = wo_arp_hardware_type o',
      rl_protocol_type = wo_arp_protocol_type o',
      rl_hardware_length = wo_arp_hardware_length o',
      rl_protocol_length = wo_arp_protocol_length o',
      rl_opcode = wo_arp_operation o',
      rl_sender_hardware = unwrap_or interface_mac (wo_arp_sender_hardware o'),
      rl_sender_protocol = sender,
      rl_target_hardware = unwrap_or mac_zero (wo_arp_target_hardware o'),
      rl_target_protocol = target,
      rl_padding = wo_padding o'\<rparr>"

definition validate_ieee_8021q_tag_stack :: "scan_wire_options \<Rightarrow> app_error + unit" where
  "validate_ieee_8021q_tag_stack o' =
     (case (wo_service_vlan_identifier o', wo_vlan_identifier o') of
        (Some service, None) \<Rightarrow> Err (ServiceVlanTagRequiresCustomerVlanTag (vid_as_u16 service))
      | _ \<Rightarrow> Ok ())"

definition ieee_8023_mac_client_data_octet_count :: "scan_wire_options \<Rightarrow> nat" where
  "ieee_8023_mac_client_data_octet_count o' =
     (let arp_and_padding = sat_add usize_max arp_ipv4_payload_length (length (wo_padding o')) in
      if wo_llc_snap o' then sat_add usize_max llc_snap_header_length arp_and_padding
      else arp_and_padding)"

definition validate_ieee_8023_mac_client_data :: "scan_wire_options \<Rightarrow> app_error + unit" where
  "validate_ieee_8023_mac_client_data o' =
     (let octet_count = ieee_8023_mac_client_data_octet_count o' in
      if unat ieee_8023_maximum_length < octet_count
      then Err (Ieee8023MacClientDataExceedsMaximum octet_count ieee_8023_maximum_length)
      else Ok ())"

section \<open>Padding\<close>

definition padding_hex_message :: string where
  "padding_hex_message = ''invalid --padding value: expected hexadecimal digits''"
definition padding_even_message :: string where
  "padding_even_message = ''invalid --padding value: expected an even number of hexadecimal digits''"

fun parse_padding_pairs :: "string \<Rightarrow> string + u8 list" where
  "parse_padding_pairs [] = Ok []"
| "parse_padding_pairs [c] = Err padding_hex_message"
| "parse_padding_pairs (c # d # rest) =
     and_then (ok_or (from_str_radix 16 255 [c, d]) padding_hex_message) (\<lambda>octet.
     and_then (parse_padding_pairs rest) (\<lambda>octets. Ok (word_of_nat octet # octets)))"

definition parse_ethernet_padding_hex :: "string \<Rightarrow> string + u8 list" where
  "parse_ethernet_padding_hex token =
     (let trimmed = str_trim token in
      if trimmed = [] then Err padding_even_message
      else if starts_with ''0x'' trimmed \<or> starts_with ''0X'' trimmed
      then Err ''invalid --padding value: hex digits must not include a 0x prefix''
      else if odd (length trimmed) then Err padding_even_message
      else if \<not> list_all is_ascii_hexdigit trimmed then Err padding_hex_message
      else
        let maximum_octets = maximum_arp_request_padding_octet_count False;
            octet_count = length trimmed div 2 in
        if maximum_octets < octet_count
        then Err (''invalid --padding value: '' @ show_nat octet_count
          @ '' octets exceeds the IEEE 802.3 MAC client data maximum after the 28-octet ARP payload (''
          @ show_nat maximum_octets @ '' octets)'')
        else parse_padding_pairs trimmed)"

section \<open>Rate limits\<close>

type_synonym f64 = nat

definition f64_exponent :: "f64 \<Rightarrow> nat" where "f64_exponent x = x div 2 ^ 52 mod 2 ^ 11"
definition f64_fraction :: "f64 \<Rightarrow> nat" where "f64_fraction x = x mod 2 ^ 52"
definition f64_negative :: "f64 \<Rightarrow> bool" where "f64_negative x \<longleftrightarrow> odd (x div 2 ^ 63)"
definition f64_is_finite :: "f64 \<Rightarrow> bool" where "f64_is_finite x \<longleftrightarrow> f64_exponent x \<noteq> 2047"
definition f64_one :: f64 where "f64_one = 1023 * 2 ^ 52"

text \<open>The comparison \<open>x < 1.0\<close>, false for a NaN.\<close>

definition f64_less_one :: "f64 \<Rightarrow> bool" where
  "f64_less_one x \<longleftrightarrow>
     (if f64_exponent x = 2047 \<and> f64_fraction x \<noteq> 0 then False
      else f64_negative x \<or> x < f64_one)"

definition default_retry_backoff_factor :: f64 where
  "default_retry_backoff_factor = 1023 * 2 ^ 52 + 2 ^ 51"

definition positive_duration_new :: "duration \<Rightarrow> app_error + duration" where
  "positive_duration_new d = (if d = 0 then Err InterTargetIntervalRejected else Ok d)"

definition retry_backoff_factor_new :: "f64 \<Rightarrow> app_error + f64" where
  "retry_backoff_factor_new factor =
     (if \<not> f64_is_finite factor \<or> f64_less_one factor then Err RetryBackoffFactorRejected
      else Ok factor)"

datatype inter_target_send_rate = Bandwidth nat | Interval duration

definition send_rate_bandwidth :: "nat \<Rightarrow> app_error + inter_target_send_rate" where
  "send_rate_bandwidth bits_per_second =
     (if bits_per_second = 0 then Err InterTargetBandwidthRejected
      else Ok (Bandwidth bits_per_second))"

definition send_rate_interval :: "duration \<Rightarrow> app_error + inter_target_send_rate" where
  "send_rate_interval interval =
     and_then (positive_duration_new interval) (\<lambda>d. Ok (Interval d))"

record rate_limited_scan_timing =
  timing_send_rate :: inter_target_send_rate
  timing_backoff_factor :: f64

definition bandwidth_expected :: string where
  "bandwidth_expected =
     '': expected a positive integer bit rate with an optional K or M decimal suffix''"

definition parse_bandwidth_bits_per_second :: "string \<Rightarrow> string + nat" where
  "parse_bandwidth_bits_per_second token =
     (let trimmed = str_trim token in
      if trimmed = [] then Err (''invalid --bandwidth value'' @ bandwidth_expected)
      else
        let byte = last trimmed in
        and_then
          (if byte = CHR ''K'' \<or> byte = CHR ''k'' then Ok (butlast trimmed, 1000)
           else if byte = CHR ''M'' \<or> byte = CHR ''m'' then Ok (butlast trimmed, 1000000)
           else if is_ascii_digit byte then Ok (trimmed, 1)
           else Err (''invalid --bandwidth value '' @ quoted token @ '': unknown suffix ''
                  @ quoted (show_latin1 byte)))
          (\<lambda>(digits, multiplier).
        if digits = [] \<or> \<not> list_all is_ascii_digit digits
        then Err (''invalid --bandwidth value '' @ quoted token @ bandwidth_expected)
        else
          let too_big = ''invalid --bandwidth value '' @ quoted token
                @ '': bit rate does not fit in a 64-bit integer'' in
          and_then (ok_or (from_str_radix 10 u64_max digits) too_big) (\<lambda>magnitude.
          and_then (ok_or (checked_mul u64_max magnitude multiplier) too_big) (\<lambda>bits_per_second.
          if bits_per_second = 0
          then Err (''invalid --bandwidth value '' @ quoted token
                 @ '': bandwidth must be greater than zero'')
          else Ok bits_per_second))))"

definition parse_retry_backoff_factor :: "(string \<Rightarrow> f64 option) \<Rightarrow> string \<Rightarrow> string + f64" where
  "parse_retry_backoff_factor parse_f64 token =
     (let trimmed = str_trim token;
          message = ''invalid --backoff value '' @ quoted token
            @ '': expected a finite factor greater than or equal to 1'' in
      and_then (ok_or (parse_f64 trimmed) message) (\<lambda>factor.
      map_err (\<lambda>_. message) (retry_backoff_factor_new factor)))"

section \<open>Commands\<close>

definition default_scan_timeout :: duration where "default_scan_timeout = from_secs 3"
definition default_scan_pacing :: duration where "default_scan_pacing = 0"
definition default_scan_attempts :: nat where "default_scan_attempts = 1"
definition default_monitor_timeout :: duration where "default_monitor_timeout = from_secs 30"

datatype application_command =
    Scan (scan_interface_name: "string option") (scan_target: "ipv4 option")
      (scan_timeout: duration) (scan_pacing: duration) (scan_attempts: nat)
      (scan_rate_limit: "rate_limited_scan_timing option") (scan_wire: scan_wire_options)
  | Monitor (monitor_interface_name: "string option") (monitor_timeout: duration)
  | UsableInterfacesList

section \<open>Facts\<close>

definition wire_options_wf :: "scan_wire_options \<Rightarrow> bool" where
  "wire_options_wf o' \<longleftrightarrow>
     pcp_wf (wo_vlan_priority_code_point o') \<and> pcp_wf (wo_service_vlan_priority_code_point o')
     \<and> (\<forall>v. wo_vlan_identifier o' = Some v \<longrightarrow> vid_wf v)
     \<and> (\<forall>v. wo_service_vlan_identifier o' = Some v \<longrightarrow> vid_wf v)"

lemma tag_stack_of_options_wf: "wire_options_wf o' \<Longrightarrow> opt_stack_wf (ieee_8021q_tag_stack o')"
  by (auto simp: wire_options_wf_def ieee_8021q_tag_stack_def opt_stack_wf_def tag_stack_wf_def
      tag_stack_new_def tci_new_def tci_wf_def Let_def split: option.splits)

lemma sat_add_greater_iff: "k < m \<Longrightarrow> k < sat_add m a b \<longleftrightarrow> k < a + b"
  by (auto simp: sat_add_def)

lemma mac_client_data_greater_iff:
  "1500 < ieee_8023_mac_client_data_octet_count o' \<longleftrightarrow>
     1500 < (if wo_llc_snap o' then 8 else 0) + 28 + length (wo_padding o')"
  by (auto simp: ieee_8023_mac_client_data_octet_count_def Let_def sat_add_def usize_max_def
      u64_max_def arp_ipv4_payload_length_def llc_snap_header_length_def)

lemma validate_mac_client_data_Ok_iff:
  "validate_ieee_8023_mac_client_data o' = Ok () \<longleftrightarrow>
     length (wo_padding o') \<le> maximum_arp_request_padding_octet_count (wo_llc_snap o')"
  by (auto simp: validate_ieee_8023_mac_client_data_def Let_def ieee_8023_maximum_length_def
      mac_client_data_greater_iff maximum_padding_value)

lemma layout_of_validated_options:
  assumes "wire_options_wf o'" and "validate_ieee_8023_mac_client_data o' = Ok ()"
  shows "layout_frameable (address_resolution_request_layout o' mac sender target)"
  using assms tag_stack_of_options_wf
  by (simp add: layout_frameable_def address_resolution_request_layout_def
      validate_mac_client_data_Ok_iff)

lemma service_tag_kept:
  assumes "validate_ieee_8021q_tag_stack o' = Ok ()"
  shows "(\<exists>s. wo_service_vlan_identifier o' = Some s) \<longleftrightarrow>
           (\<exists>st. ieee_8021q_tag_stack o' = Some st \<and> service_tag_control_information st \<noteq> None)"
  using assms
  by (auto simp: validate_ieee_8021q_tag_stack_def ieee_8021q_tag_stack_def tag_stack_new_def
      Let_def split: option.splits)

lemma default_layout_rfc_826:
  "address_resolution_request_layout default_wire_options mac sender target =
     rfc_826_ethernet_ii mac sender target"
  by (simp add: address_resolution_request_layout_def default_wire_options_def
      rfc_826_ethernet_ii_def unwrap_or_def ieee_8021q_tag_stack_def)

section \<open>The padding option\<close>

lemma hex_lower_of_value:
  assumes "hex_digit_value c = Some x"
  shows "to_ascii_lowercase c = hex_lower x" and "x < 16"
  using assms char_of_code [of c]
  by (auto simp: hex_digit_value_def Let_def to_ascii_lowercase_def hex_lower_def split: if_splits)

lemma hex_lower_inj: "x < 16 \<Longrightarrow> y < 16 \<Longrightarrow> hex_lower x = hex_lower y \<longleftrightarrow> x = y"
  using hex_digit_value_hex_lower [of x] hex_digit_value_hex_lower [of y] by (metis option.inject)

lemma two_hex_digits:
  assumes "hex_digit_value c = Some x" and "hex_digit_value d = Some y"
  shows "from_str_radix 16 255 [c, d] = Some (16 * x + y)"
proof -
  have "c \<noteq> CHR ''+''" using assms(1) by (auto simp: hex_digit_value_def code_def)
  moreover have "x < 16" "y < 16" using assms hex_lower_of_value(2) by blast+
  ultimately show ?thesis
    using assms by (simp add: from_str_radix_def digit_values_def digits_value_def Let_def)
qed

lemma hex02_lower_eq_iff:
  assumes "x < 16" and "y < 16"
  shows "hex02_lower b = [hex_lower x, hex_lower y] \<longleftrightarrow> b = word_of_nat (16 * x + y)"
proof -
  have lt: "unat b div 16 < 16" using unat_u8_lt [of b] by linarith
  have v: "unat (word_of_nat (16 * x + y) :: u8) = 16 * x + y"
    using assms by (simp only: unat_word_of_nat_small) simp
  have "hex02_lower b = [hex_lower x, hex_lower y] \<longleftrightarrow> unat b div 16 = x \<and> unat b mod 16 = y"
    using assms lt by (simp add: hex02_lower_def hex_lower_inj)
  also have "\<dots> \<longleftrightarrow> unat b = 16 * x + y" using assms by auto
  also have "\<dots> \<longleftrightarrow> b = word_of_nat (16 * x + y)" using v by (simp only: word_unat_eq_iff)
  finally show ?thesis .
qed

lemma parse_padding_pairs_Ok_iff:
  "list_all is_ascii_hexdigit t \<Longrightarrow> even (length t) \<Longrightarrow>
     parse_padding_pairs t = Ok bs \<longleftrightarrow> map to_ascii_lowercase t = concat (map hex02_lower bs)"
proof (induction t arbitrary: bs rule: parse_padding_pairs.induct)
  case 1
  then show ?case by (cases bs) (auto simp: hex02_lower_def)
next
  case (3 c d rest)
  then obtain x y where v: "hex_digit_value c = Some x" "hex_digit_value d = Some y"
    by (auto simp: is_ascii_hexdigit_def)
  note lower = hex_lower_of_value [OF v(1)] hex_lower_of_value [OF v(2)]
  have IH: "parse_padding_pairs rest = Ok bs' \<longleftrightarrow>
      map to_ascii_lowercase rest = concat (map hex02_lower bs')" for bs'
    using 3 by (simp add: two_hex_digits [OF v])
  have split: "hex_lower x # hex_lower y # ss = hex02_lower b @ us \<longleftrightarrow>
      b = word_of_nat (16 * x + y) \<and> ss = us" for b ss us
    using hex02_lower_eq_iff [OF lower(2,4), of b] by (auto simp: hex02_lower_def)
  show ?case
    using IH by (cases bs) (auto simp: two_hex_digits [OF v] lower split and_then_eq_Ok_iff
        simp del: of_nat_add of_nat_mult)
qed simp

section \<open>Properties\<close>

text \<open>
  The padding option accepts exactly the non-empty hexadecimal strings, in either case and with
  white space around them, of at most 1472 octets, and gives the octets they spell.
\<close>

theorem padding_accepted_exactly:
  "parse_ethernet_padding_hex t = Ok bs \<longleftrightarrow>
     bs \<noteq> [] \<and> length bs \<le> 1472 \<and> list_all is_ascii_hexdigit (str_trim t)
     \<and> map to_ascii_lowercase (str_trim t) = concat (map hex02_lower bs)"
  (is "?L \<longleftrightarrow> ?R")
proof -
  let ?s = "str_trim t"
  have len: "length (concat (map hex02_lower bs)) = 2 * length bs"
    by (induction bs) (simp_all add: hex02_lower_def)
  have "\<not> is_ascii_hexdigit (CHR ''x'')" "\<not> is_ascii_hexdigit (CHR ''X'')"
    by (simp_all add: is_ascii_hexdigit_def hex_digit_value_def code_def)
  then have no_prefix: "list_all is_ascii_hexdigit ?s \<Longrightarrow>
      \<not> starts_with ''0x'' ?s \<and> \<not> starts_with ''0X'' ?s"
    by (cases ?s rule: remdups_adj.cases) (auto simp: starts_with_def)
  have max: "maximum_arp_request_padding_octet_count False = 1472" by (simp add: maximum_padding_value)
  show ?thesis
  proof
    assume L: ?L
    then have s: "?s \<noteq> []" "even (length ?s)" "list_all is_ascii_hexdigit ?s" "length ?s div 2 \<le> 1472"
      and p: "parse_padding_pairs ?s = Ok bs"
      by (auto simp: parse_ethernet_padding_hex_def max Let_def not_less split: if_splits)
    have m: "map to_ascii_lowercase ?s = concat (map hex02_lower bs)"
      using parse_padding_pairs_Ok_iff [OF s(3,2)] p by blast
    then have "length ?s = 2 * length bs" using len by (metis length_map)
    then show ?R using s m by auto
  next
    assume R: ?R
    then have l: "length ?s = 2 * length bs" using len by (metis length_map)
    then have "parse_padding_pairs ?s = Ok bs" using R parse_padding_pairs_Ok_iff [of ?s bs] by simp
    moreover have "?s \<noteq> []" using R l by auto
    ultimately show ?L
      using R l no_prefix by (simp add: parse_ethernet_padding_hex_def max Let_def)
  qed
qed

text \<open>
  A bandwidth is a decimal number with an optional suffix for thousand or million; the product
  is exact, and zero or a product beyond 64 bits is an error.
\<close>

theorem bandwidth_text_value:
  assumes "(suffix, multiplier) \<in> {('''', 1), (''K'', 1000), (''k'', 1000), (''M'', 1000000), (''m'', 1000000)}"
  shows "parse_bandwidth_bits_per_second (show_nat n @ suffix) =
    (if u64_max < n * multiplier
     then Err (''invalid --bandwidth value '' @ quoted (show_nat n @ suffix)
            @ '': bit rate does not fit in a 64-bit integer'')
     else if n = 0
     then Err (''invalid --bandwidth value '' @ quoted (show_nat n @ suffix)
            @ '': bandwidth must be greater than zero'')
     else Ok (n * multiplier))"
proof -
  have plain: "\<forall>c \<in> set (show_nat n @ suffix). plain_char c"
    using assms show_nat_plain by (auto simp: plain_char_def code_def)
  have trim: "str_trim (show_nat n @ suffix) = show_nat n @ suffix"
    using hd_in_set [of "show_nat n @ suffix"] last_in_set [of "show_nat n @ suffix"] plain
    by (intro str_trim_plain) (simp, metis append_is_Nil_conv show_nat_ne, metis append_is_Nil_conv show_nat_ne)
  have digits: "list_all is_ascii_digit (show_nat n)" using show_nat_plain by (simp add: list_all_iff)
  have l: "is_ascii_digit (last (show_nat n))"
    using show_nat_plain [of n] last_in_set [OF show_nat_ne] by blast
  then have ends: "last (show_nat n) \<notin> {CHR ''K'', CHR ''k'', CHR ''M'', CHR ''m''}"
    by (auto simp: is_ascii_digit_def code_def)
  have radix: "from_str_radix 10 u64_max (show_nat n) = (if n \<le> u64_max then Some n else None)"
    by (rule from_str_radix_show_nat_exact)
  let ?tok = "show_nat n @ suffix"
  have head: "(if last ?tok = CHR ''K'' \<or> last ?tok = CHR ''k'' then Ok (butlast ?tok, 1000)
      else if last ?tok = CHR ''M'' \<or> last ?tok = CHR ''m'' then Ok (butlast ?tok, 1000000)
      else if is_ascii_digit (last ?tok) then Ok (?tok, 1)
      else Err e) = Ok (show_nat n, multiplier)" for e
    using assms l ends by (elim insertE) simp_all
  have m: "1 \<le> multiplier" using assms by auto
  then have "n * 1 \<le> n * multiplier" by (rule mult_le_mono2)
  then have big: "u64_max < n * multiplier" if "\<not> n \<le> u64_max" using that by linarith
  show ?thesis
    unfolding parse_bandwidth_bits_per_second_def trim Let_def head
    using digits big m by (auto simp: radix checked_mul_def)
qed

lemma bandwidth_text_value_witness:
  "parse_bandwidth_bits_per_second (show_nat 256 @ ''K'') = Ok 256000"
  using bandwidth_text_value [of "''K''" 1000 256] by (simp add: u64_max_def)

text \<open>
  Wire options are accepted exactly when a service VLAN comes with a customer VLAN and the
  padding leaves the MAC client data within 1500 octets; each refusal carries the offending value.
\<close>

theorem wire_options_accepted_exactly:
  "validate_ieee_8021q_tag_stack o' =
     (case wo_service_vlan_identifier o' of
        Some v \<Rightarrow> if wo_vlan_identifier o' = None
                  then Err (ServiceVlanTagRequiresCustomerVlanTag (vid_as_u16 v)) else Ok ()
      | None \<Rightarrow> Ok ())
   \<and> (let n = (if wo_llc_snap o' then 8 else 0) + 28 + length (wo_padding o') in
      (validate_ieee_8023_mac_client_data o' = Ok () \<longleftrightarrow> n \<le> 1500)
      \<and> (\<not> n \<le> 1500 \<and> n \<le> usize_max \<longrightarrow>
           validate_ieee_8023_mac_client_data o' = Err (Ieee8023MacClientDataExceedsMaximum n 1500)))"
proof -
  let ?n = "(if wo_llc_snap o' then 8 else 0) + 28 + length (wo_padding o')"
  have "validate_ieee_8023_mac_client_data o' = Ok () \<longleftrightarrow> ?n \<le> 1500"
    by (simp add: validate_mac_client_data_Ok_iff maximum_padding_value)
  moreover have "validate_ieee_8023_mac_client_data o' = Err (Ieee8023MacClientDataExceedsMaximum ?n 1500)"
    if "\<not> ?n \<le> 1500" "?n \<le> usize_max"
    using that by (cases "wo_llc_snap o'")
      (simp_all add: validate_ieee_8023_mac_client_data_def sat_add_def frame_constants
        ieee_8023_mac_client_data_octet_count_def arp_ipv4_payload_length_def Let_def)
  ultimately show ?thesis
    by (auto simp: validate_ieee_8021q_tag_stack_def Let_def split: option.split)
qed

lemma wire_options_accepted_exactly_witness:
  "validate_ieee_8023_mac_client_data (default_wire_options\<lparr>wo_padding := replicate 1473 0\<rparr>) =
     Err (Ieee8023MacClientDataExceedsMaximum 1501 1500)
   \<and> validate_ieee_8021q_tag_stack (default_wire_options\<lparr>wo_service_vlan_identifier := Some (vid_from_tci 7)\<rparr>)
     = Err (ServiceVlanTagRequiresCustomerVlanTag (vid_as_u16 (vid_from_tci 7)))"
  using wire_options_accepted_exactly [of "default_wire_options\<lparr>wo_padding := replicate 1473 0\<rparr>"]
    wire_options_accepted_exactly
      [of "default_wire_options\<lparr>wo_service_vlan_identifier := Some (vid_from_tci 7)\<rparr>"]
  by (simp add: default_wire_options_def usize_max_def u64_max_def)

text \<open>
  C31: the request built from accepted options is a frame that the parser of the program reads back
  with both tags as they were asked for, in the framing and between the addresses that were asked
  for, and with the padding right behind the ARP packet.
\<close>

theorem accepted_options_on_the_wire:
  assumes "wire_options_wf o'"
    and "validate_ieee_8021q_tag_stack o' = Ok ()"
    and "validate_ieee_8023_mac_client_data o' = Ok ()"
  shows "\<exists>f zeros.
    try_parse_ethernet_frame (encode_request_from_layout
      (address_resolution_request_layout o' mac sender target)) = Ok f
    \<and> pef_ether_type f = 0x0806
    \<and> pef_destination f = unwrap_or mac_broadcast (wo_ethernet_destination o')
    \<and> pef_source f = unwrap_or mac (wo_ethernet_source o')
    \<and> pef_vlan_tag f = map_option (tci_new (wo_vlan_priority_code_point o')
        (wo_vlan_drop_eligible_indicator o')) (wo_vlan_identifier o')
    \<and> pef_service_vlan_tag f = map_option (tci_new (wo_service_vlan_priority_code_point o')
        (wo_service_vlan_drop_eligible_indicator o')) (wo_service_vlan_identifier o')
    \<and> pef_framing f = (if wo_llc_snap o' then Ieee8023LlcSnap else EthernetIi)
    \<and> drop 28 (pef_payload f) = wo_padding o' @ replicate zeros 0"
proof -
  let ?l = "address_resolution_request_layout o' mac sender target"
  have "(\<exists>v. wo_vlan_identifier o' = Some v) \<or> wo_service_vlan_identifier o' = None"
    using assms(2) by (auto simp: validate_ieee_8021q_tag_stack_def split: option.splits)
  then have tags: "Option.bind (ieee_8021q_tag_stack o') service_tag_control_information =
      map_option (tci_new (wo_service_vlan_priority_code_point o')
        (wo_service_vlan_drop_eligible_indicator o')) (wo_service_vlan_identifier o')"
    "map_option customer_tag_control_information (ieee_8021q_tag_stack o') =
      map_option (tci_new (wo_vlan_priority_code_point o')
        (wo_vlan_drop_eligible_indicator o')) (wo_vlan_identifier o')"
    by (auto simp: ieee_8021q_tag_stack_def tag_stack_new_def Let_def split: option.split)
  show ?thesis
    using parse_ethernet_of_request [OF layout_of_validated_options [OF assms(1,3)], of mac sender target]
    by (auto simp: parsed_frame_def tags layout_framing_def protocol_arp_def
        address_resolution_request_layout_def)
qed

lemma accepted_options_on_the_wire_witness:
  "\<exists>f. try_parse_ethernet_frame (encode_request_from_layout (address_resolution_request_layout
      (default_wire_options\<lparr>wo_llc_snap := True, wo_padding := [1, 2]\<rparr>) mac_zero 0 1)) = Ok f
    \<and> pef_framing f = Ieee8023LlcSnap"
proof -
  let ?o = "default_wire_options\<lparr>wo_llc_snap := True, wo_padding := [1, 2]\<rparr>"
  have "wire_options_wf ?o" by (simp add: wire_options_wf_def default_wire_options_def pcp_wf_def pcp_zero_def)
  moreover have "validate_ieee_8021q_tag_stack ?o = Ok ()"
    by (simp add: validate_ieee_8021q_tag_stack_def default_wire_options_def)
  moreover have "validate_ieee_8023_mac_client_data ?o = Ok ()"
    by (simp add: validate_mac_client_data_Ok_iff maximum_padding_value default_wire_options_def)
  ultimately show ?thesis
    using accepted_options_on_the_wire [of ?o mac_zero 0 1] by auto
qed

end
