(* ===== verification/Scan_Timing.thy ===== *)
theory Scan_Timing
  imports Application_Command
begin

text \<open>
  \<^verbatim>\<open>src/scan_timing.rs\<close>: the interval derived from a bit rate, the receive window of a retry round
  and the checks made before a socket is opened. \<^verbatim>\<open>f64::powi\<close>, whose precision the standard
  library leaves open, is the parameter \<open>f64_powi\<close>; everything after it is integer arithmetic on
  the bit pattern it returns.
\<close>

section \<open>Bit rate to interval\<close>

definition ethernet_frame_check_sequence_octets :: nat where
  "ethernet_frame_check_sequence_octets = 4"
definition minimum_on_wire_octets :: nat where "minimum_on_wire_octets = 64"

record scheduled_rate_limit =
  srl_interval :: duration
  srl_backoff_factor :: f64

definition u128_max :: nat where "u128_max = u128_bound - 1"

definition on_wire_octets_for_send_rate :: "nat \<Rightarrow> nat" where
  "on_wire_octets_for_send_rate encoded_frame_len =
     max (sat_add usize_max encoded_frame_len ethernet_frame_check_sequence_octets)
       minimum_on_wire_octets"

definition duration_from_nanos_u128 :: "nat \<Rightarrow> duration option" where
  "duration_from_nanos_u128 nanos =
     (if nanos div nanos_per_sec \<le> u64_max
      then Some (nanos div nanos_per_sec * nanos_per_sec + nanos mod nanos_per_sec) else None)"

definition inter_send_interval_from_bandwidth :: "nat \<Rightarrow> nat \<Rightarrow> app_error + duration" where
  "inter_send_interval_from_bandwidth encoded_frame_len bits_per_second =
     (let octets = on_wire_octets_for_send_rate encoded_frame_len in
      and_then (ok_or (Option.bind (checked_mul u128_max octets 8)
          (\<lambda>bits. checked_mul u128_max bits nanos_per_sec))
        (ScanTimingExceedsLimit BandwidthInterval)) (\<lambda>nanos.
      ok_or (duration_from_nanos_u128 (div_ceil nanos bits_per_second))
        (ScanTimingExceedsLimit BandwidthInterval)))"

section \<open>Retry windows\<close>

definition binary64_significand_bits :: nat where "binary64_significand_bits = 53"

text \<open>\<^verbatim>\<open>u128::checked_shl\<close>: it rejects a shift of 128 or more and drops the bits shifted out.\<close>

definition u128_checked_shl :: "nat \<Rightarrow> nat \<Rightarrow> nat option" where
  "u128_checked_shl x n = (if n < 128 then Some (x * 2 ^ n mod u128_bound) else None)"

definition checked_mul_ceil_u128_f64 :: "nat \<Rightarrow> f64 \<Rightarrow> nat option" where
  "checked_mul_ceil_u128_f64 nanos_in factor =
     (if \<not> f64_is_finite factor \<or> f64_less_one factor then None
      else if nanos_in = 0 \<or> factor = f64_one then Some nanos_in
      else
        let bits = factor;
            exponent_field = bits div 2 ^ 52 mod 2 ^ 11 in
        if exponent_field = 0 \<or> exponent_field = 0x7ff then None
        else
          let fraction_field = bits mod 2 ^ (binary64_significand_bits - 1);
              significand = 2 ^ (binary64_significand_bits - 1) + fraction_field;
              shift = int exponent_field - 1023 - int (binary64_significand_bits - 1) in
          case checked_mul u128_max nanos_in significand of
            None \<Rightarrow> None
          | Some product \<Rightarrow>
              if 0 \<le> shift then u128_checked_shl product (nat shift)
              else
                let right_shift = nat (- shift) in
                if 128 \<le> right_shift then Some (if 0 < product then 1 else 0)
                else Some (div_ceil product (2 ^ right_shift)))"

definition scale_duration_by_backoff ::
    "(f64 \<Rightarrow> nat \<Rightarrow> f64) \<Rightarrow> duration \<Rightarrow> f64 \<Rightarrow> nat \<Rightarrow> duration option" where
  "scale_duration_by_backoff f64_powi duration backoff_factor exponent =
     (if exponent = 0 \<or> duration = 0 then Some duration
      else if backoff_factor = f64_one then Some duration
      else if c_int_max < exponent then None
      else
        let factor_power = f64_powi backoff_factor exponent in
        if \<not> f64_is_finite factor_power \<or> f64_less_one factor_power then None
        else Option.bind (checked_mul_ceil_u128_f64 duration factor_power) duration_from_nanos_u128)"

definition retry_receive_window ::
    "(f64 \<Rightarrow> nat \<Rightarrow> f64) \<Rightarrow> duration \<Rightarrow> f64 \<Rightarrow> nat \<Rightarrow> app_error + duration" where
  "retry_receive_window f64_powi timeout backoff_factor round_index =
     ok_or (scale_duration_by_backoff f64_powi timeout backoff_factor round_index)
       (ScanTimingExceedsLimit RetryReceiveWindow)"

section \<open>Validation\<close>

definition encoded_address_resolution_request_len :: "scan_wire_options \<Rightarrow> nat" where
  "encoded_address_resolution_request_len wire =
     length (encode_request_from_layout
       (address_resolution_request_layout wire mac_zero ipv4_unspecified ipv4_unspecified))"

definition validate_scan_timing_before_socket ::
    "(f64 \<Rightarrow> nat \<Rightarrow> f64) \<Rightarrow> duration \<Rightarrow> duration \<Rightarrow> nat \<Rightarrow> scan_wire_options
     \<Rightarrow> rate_limited_scan_timing option \<Rightarrow> app_error + scheduled_rate_limit option" where
  "validate_scan_timing_before_socket f64_powi timeout pacing attempts wire rate_limit =
     (case rate_limit of
        None \<Rightarrow> Ok None
      | Some rl \<Rightarrow>
          and_then
            (case timing_send_rate rl of
               Bandwidth bits_per_second \<Rightarrow>
                 inter_send_interval_from_bandwidth (encoded_address_resolution_request_len wire)
                   bits_per_second
             | Interval interval \<Rightarrow> Ok interval)
            (\<lambda>interval.
          if 1 < attempts \<and> duration_checked_add interval pacing = None
          then Err (ScanTimingExceedsLimit InterRoundGap)
          else
            let last_round_index = attempts - 1 in
            and_then (retry_receive_window f64_powi timeout (timing_backoff_factor rl) last_round_index) (\<lambda>_.
            Ok (Some \<lparr>srl_interval = interval, srl_backoff_factor = timing_backoff_factor rl\<rparr>))))"

section \<open>The interval is the exact ceiling\<close>

lemma duration_from_nanos_eq:
  "duration_from_nanos_u128 n = (if n \<le> duration_max then Some n else None)"
proof -
  have "n div 1000000000 < u64_max + 1 \<longleftrightarrow> n < (u64_max + 1) * 1000000000"
    by (rule div_less_iff_less_mult) simp
  then show ?thesis
    by (auto simp: duration_from_nanos_u128_def nanos_per_sec_def duration_max_def)
qed

lemma interval_value:
  assumes "encoded_frame_len \<le> u32_max" and "0 < bits_per_second"
  shows "inter_send_interval_from_bandwidth encoded_frame_len bits_per_second =
    Ok (div_ceil (max (encoded_frame_len + 4) 64 * 8 * 1000000000) bits_per_second)"
proof -
  define m where "m = max (encoded_frame_len + 4) 64"
  have oct: "on_wire_octets_for_send_rate encoded_frame_len = m"
    using assms(1)
    by (simp add: on_wire_octets_for_send_rate_def ethernet_frame_check_sequence_octets_def
        minimum_on_wire_octets_def sat_add_def usize_max_def u64_max_def u32_max_def m_def)
  have small: "m \<le> 4294967299" using assms(1) by (simp add: u32_max_def m_def)
  have "div_ceil (m * 8 * 1000000000) bits_per_second \<le> m * 8 * 1000000000"
  proof (rule div_ceil_least [OF assms(2)])
    show "n \<le> n * bits_per_second" for n :: nat using assms(2) by simp
  qed
  then have "div_ceil (m * 8 * 1000000000) bits_per_second \<le> duration_max"
    using small by (simp add: duration_max_def u64_max_def nanos_per_sec_def)
  then show ?thesis
    unfolding m_def [symmetric] using small
    by (simp add: inter_send_interval_from_bandwidth_def Let_def oct checked_mul_def u128_max_def
        u128_bound_def nanos_per_sec_def duration_from_nanos_eq)
qed

text \<open>An error can only be the one that names the bandwidth interval.\<close>

lemma interval_error:
  "inter_send_interval_from_bandwidth n b = Err e \<Longrightarrow> e = ScanTimingExceedsLimit BandwidthInterval"
  by (auto simp: inter_send_interval_from_bandwidth_def Let_def and_then_eq_Err_iff ok_or_def
      split: option.splits)

section \<open>The scaled window\<close>

definition f64_significand :: "f64 \<Rightarrow> nat" where "f64_significand x = 2 ^ 52 + x mod 2 ^ 52"

lemma not_less_one_exponent:
  assumes "x < 2 ^ 64" and "f64_is_finite x" and "\<not> f64_less_one x"
  shows "1023 \<le> f64_exponent x" and "f64_exponent x < 2047"
proof -
  have pos: "\<not> f64_negative x" and ge: "f64_one \<le> x"
    using assms by (auto simp: f64_less_one_def f64_is_finite_def)
  have "x div 2 ^ 63 < 2" using assms(1) by (simp add: less_mult_imp_div_less)
  then have "x div 2 ^ 63 = 0" using pos unfolding f64_negative_def by (cases "x div 2 ^ 63") auto
  then have "x < 2 ^ 63" by (simp add: div_eq_0_iff)
  then have "x div 2 ^ 52 < 2 ^ 11" by (simp add: less_mult_imp_div_less)
  then have "f64_exponent x = x div 2 ^ 52" by (simp add: f64_exponent_def)
  moreover have "1023 \<le> x div 2 ^ 52"
    using ge by (simp add: f64_one_def less_eq_div_iff_mult_less_eq)
  ultimately show "1023 \<le> f64_exponent x" by simp
  show "f64_exponent x < 2047"
    using assms(2) by (simp add: f64_is_finite_def f64_exponent_def)
qed

lemma mul_ceil_unfold:
  assumes "x < 2 ^ 64" and "f64_is_finite x" and "\<not> f64_less_one x" and "nanos_in \<noteq> 0"
    and "x \<noteq> f64_one"
  shows "checked_mul_ceil_u128_f64 nanos_in x =
    (if u128_max < nanos_in * f64_significand x then None
     else if 1075 \<le> f64_exponent x
     then u128_checked_shl (nanos_in * f64_significand x) (f64_exponent x - 1075)
     else Some (div_ceil (nanos_in * f64_significand x) (2 ^ (1075 - f64_exponent x))))"
proof -
  have e: "1023 \<le> f64_exponent x" "f64_exponent x < 2047"
    using not_less_one_exponent assms(1-3) by auto
  have b: "binary64_significand_bits - 1 = 52" by (simp add: binary64_significand_bits_def)
  have i: "int (f64_exponent x) - 1023 - int 52 = int (f64_exponent x) - 1075" by simp
  have shl: "1075 \<le> f64_exponent x \<Longrightarrow> nat (int (f64_exponent x) - 1075) = f64_exponent x - 1075"
    and shr: "nat (- (int (f64_exponent x) - 1075)) = 1075 - f64_exponent x" by auto
  have ne: "f64_exponent x \<noteq> 0" "f64_exponent x \<noteq> 2047" "\<not> 128 \<le> 1075 - f64_exponent x"
    using e by auto
  show ?thesis
    unfolding checked_mul_ceil_u128_f64_def Let_def b f64_exponent_def [symmetric]
      f64_significand_def [symmetric] i
    using assms(2-5) e ne shl shr
    by (cases "nanos_in * f64_significand x \<le> u128_max")
      (simp_all add: checked_mul_def not_le del: f64_less_one_def)
qed

lemma div_ceil_mult_cancel: "0 < b \<Longrightarrow> div_ceil (a * b) b = a"
  by (intro antisym div_ceil_least)
    (use div_ceil_ge [of b "a * b"] in simp_all)

text \<open>
  The value of a factor with exponent field \<open>e\<close> is \<open>significand * 2 ^ (e - 1075)\<close>. Where no bit
  is lost the code computes the product rounded up, exactly.
\<close>

definition exact_mul_ceil :: "nat \<Rightarrow> f64 \<Rightarrow> nat" where
  "exact_mul_ceil nanos_in x =
     (if 1075 \<le> f64_exponent x then nanos_in * f64_significand x * 2 ^ (f64_exponent x - 1075)
      else div_ceil (nanos_in * f64_significand x) (2 ^ (1075 - f64_exponent x)))"

lemma f64_one_parts: "f64_exponent f64_one = 1023" "f64_significand f64_one = 2 ^ 52"
  by (simp_all add: f64_exponent_def f64_significand_def f64_one_def)

lemma exact_mul_ceil_one: "exact_mul_ceil nanos_in f64_one = nanos_in"
  unfolding exact_mul_ceil_def f64_one_parts
  using div_ceil_mult_cancel [of "2 ^ 52" nanos_in] by simp

lemma checked_mul_ceil_exact:
  assumes "x < 2 ^ 64" and "f64_is_finite x" and "\<not> f64_less_one x"
    and fits: "nanos_in * f64_significand x < u128_bound" "exact_mul_ceil nanos_in x < u128_bound"
    and shift: "f64_exponent x < 1075 + 128"
  shows "checked_mul_ceil_u128_f64 nanos_in x = Some (exact_mul_ceil nanos_in x)"
proof -
  consider "nanos_in = 0" | "x = f64_one" | "nanos_in \<noteq> 0" "x \<noteq> f64_one" by blast
  then show ?thesis
  proof cases
    case 1
    then show ?thesis
      using assms(2,3) by (simp add: checked_mul_ceil_u128_f64_def exact_mul_ceil_def div_ceil_def)
  next
    case 2
    then show ?thesis
      using assms(2,3) exact_mul_ceil_one by (simp add: checked_mul_ceil_u128_f64_def)
  next
    case 3
    have "\<not> u128_max < nanos_in * f64_significand x" using fits(1) by (simp add: u128_max_def)
    moreover have "u128_checked_shl (nanos_in * f64_significand x) (f64_exponent x - 1075) =
        Some (nanos_in * f64_significand x * 2 ^ (f64_exponent x - 1075))" if "1075 \<le> f64_exponent x"
      using fits(2) shift that by (simp add: u128_checked_shl_def exact_mul_ceil_def)
    ultimately show ?thesis
      using mul_ceil_unfold [OF assms(1-3) 3] by (simp add: exact_mul_ceil_def)
  qed
qed

lemma significand_bounds: "2 ^ 52 \<le> f64_significand x" "f64_significand x < 2 ^ 53"
  by (simp_all add: f64_significand_def)

lemma exact_mul_ceil_ge:
  assumes "1023 \<le> f64_exponent x"
  shows "nanos_in \<le> exact_mul_ceil nanos_in x"
proof (cases "1075 \<le> f64_exponent x")
  case True
  have "nanos_in * 1 \<le> nanos_in * (f64_significand x * 2 ^ (f64_exponent x - 1075))"
    using significand_bounds(1) [of x] by (intro mult_le_mono2) (simp add: Suc_le_eq)
  then show ?thesis using True by (simp add: exact_mul_ceil_def mult.assoc)
next
  case False
  let ?k = "1075 - f64_exponent x"
  have "(2 :: nat) ^ ?k \<le> 2 ^ 52" using assms by (intro power_increasing) simp_all
  then have "nanos_in * 2 ^ ?k \<le> nanos_in * f64_significand x"
    using significand_bounds(1) [of x] by (intro mult_le_mono2) linarith
  also have "\<dots> \<le> div_ceil (nanos_in * f64_significand x) (2 ^ ?k) * 2 ^ ?k"
    by (rule div_ceil_ge) simp
  finally show ?thesis using False by (simp add: exact_mul_ceil_def)
qed

text \<open>
  A shift that pushes bits out: one millisecond times \<open>2 ^ 122\<close> gives a window of zero.
\<close>

definition f64_two_pow :: "nat \<Rightarrow> f64" where "f64_two_pow n = (1023 + n) * 2 ^ 52"

lemma window_wraps_to_zero: "checked_mul_ceil_u128_f64 1000000 (f64_two_pow 122) = Some 0"
  by (simp add: checked_mul_ceil_u128_f64_def f64_two_pow_def f64_is_finite_def f64_exponent_def
      f64_less_one_def f64_fraction_def f64_negative_def f64_one_def Let_def checked_mul_def
      u128_max_def u128_bound_def binary64_significand_bits_def u128_checked_shl_def)

section \<open>Properties\<close>

text \<open>
  The gap derived from a bandwidth is the least whole number of nanoseconds in which the link may
  carry the frame, its check sequence included and never less than 64 octets, at that rate; it is
  never an error for a frame of less than 4 GiB.
\<close>

theorem bandwidth_interval_least:
  assumes "encoded_frame_len \<le> u32_max" and "0 < bits_per_second"
  shows "\<exists>d. inter_send_interval_from_bandwidth encoded_frame_len bits_per_second = Ok d
    \<and> max (encoded_frame_len + 4) 64 * 8 * 1000000000 \<le> d * bits_per_second
    \<and> (\<forall>d'<d. d' * bits_per_second < max (encoded_frame_len + 4) 64 * 8 * 1000000000)"
proof -
  let ?n = "max (encoded_frame_len + 4) 64 * 8 * 1000000000"
  have "d' * bits_per_second < ?n" if "d' < div_ceil ?n bits_per_second" for d'
    using div_ceil_least [OF assms(2), of ?n d'] that by linarith
  then show ?thesis using interval_value [OF assms] div_ceil_ge [OF assms(2), of ?n] by simp
qed

lemma bandwidth_interval_least_witness:
  "\<exists>d. inter_send_interval_from_bandwidth 60 256000 = Ok d \<and> 512000000000 \<le> d * 256000
    \<and> (\<forall>d'<d. d' * 256000 < 512000000000)"
  using bandwidth_interval_least [of 60 256000] by (simp add: u32_max_def)


lemma two_pow_parts:
  assumes "n \<le> 900"
  shows "f64_exponent (f64_two_pow n) = 1023 + n" "f64_significand (f64_two_pow n) = 2 ^ 52"
    "f64_two_pow n < 2 ^ 64" "f64_is_finite (f64_two_pow n)" "\<not> f64_less_one (f64_two_pow n)"
proof -
  have b: "f64_two_pow n < 2048 * 2 ^ 52" using assms by (simp add: f64_two_pow_def)
  have d: "f64_two_pow n div 2 ^ 52 = 1023 + n" "f64_two_pow n mod 2 ^ 52 = 0"
    unfolding f64_two_pow_def by (simp_all only: nonzero_mult_div_cancel_right mod_mult_self2_is_0) simp
  then show e: "f64_exponent (f64_two_pow n) = 1023 + n" using assms by (simp add: f64_exponent_def)
  show "f64_significand (f64_two_pow n) = 2 ^ 52" using d by (simp add: f64_significand_def)
  show "f64_two_pow n < 2 ^ 64" using b by simp
  show "f64_is_finite (f64_two_pow n)" using e assms by (simp add: f64_is_finite_def)
  have "f64_two_pow n div 2 ^ 63 = 0" using assms by (simp add: f64_two_pow_def div_eq_0_iff)
  then show "\<not> f64_less_one (f64_two_pow n)"
    using e assms by (simp add: f64_less_one_def f64_negative_def f64_two_pow_def f64_one_def)
qed

definition powers_of_two :: "f64 \<Rightarrow> nat \<Rightarrow> f64" where
  "powers_of_two b n = f64_two_pow n"


lemma two_pow_window:
  assumes "f64_powi factor i = f64_two_pow n" and "0 < i" and "i \<le> c_int_max" and "factor \<noteq> f64_one"
    and "52 \<le> n" "n \<le> 170" "0 < timeout" "timeout < 2 ^ 75"
  shows "retry_receive_window f64_powi timeout factor i =
    (if timeout * 2 ^ n mod u128_bound \<le> duration_max then Ok (timeout * 2 ^ n mod u128_bound)
     else Err (ScanTimingExceedsLimit RetryReceiveWindow))"
proof -
  have p: "f64_exponent (f64_two_pow n) = 1023 + n" "f64_significand (f64_two_pow n) = 2 ^ 52"
    "f64_two_pow n < 2 ^ 64" "f64_is_finite (f64_two_pow n)" "\<not> f64_less_one (f64_two_pow n)"
    using two_pow_parts assms(6) by auto
  have e: "timeout * 2 ^ 52 * 2 ^ (n - 52) = timeout * 2 ^ n"
    unfolding mult.assoc power_add [symmetric] using assms(5) by simp
  have "f64_two_pow n \<noteq> f64_one" using assms(5) by (simp add: f64_two_pow_def f64_one_def)
  moreover have "timeout * 2 ^ 52 \<le> u128_max"
    using assms(8) by (simp add: u128_max_def u128_bound_def)
  ultimately have "checked_mul_ceil_u128_f64 timeout (f64_two_pow n) =
      Some (timeout * 2 ^ 52 * 2 ^ (n - 52) mod u128_bound)"
    using mul_ceil_unfold [OF p(3-5), of timeout] assms(5-7) by (simp add: p u128_checked_shl_def)
  then have "checked_mul_ceil_u128_f64 timeout (f64_two_pow n) = Some (timeout * 2 ^ n mod u128_bound)"
    unfolding e .
  then show ?thesis
    using assms(1-4,7) p by (simp add: retry_receive_window_def scale_duration_by_backoff_def
        duration_from_nanos_eq)
qed

text \<open>
  C33: the shift of the window computation drops the bits it pushes out. With a timeout of one
  millisecond and the factor 2, the window of round 122 is zero, far below the timeout; the check
  before the socket is opened, which looks at the last round only, therefore lets 123 attempts pass
  although the window of an earlier round, such as round 90, is an error.
\<close>

theorem backoff_window_loses_high_bits:
  assumes "\<forall>i\<in>{1..122}. f64_powi (f64_two_pow 1) i = f64_two_pow i"
  shows "retry_receive_window f64_powi (from_millis 1) (f64_two_pow 1) 122 = Ok 0
    \<and> retry_receive_window f64_powi (from_millis 1) (f64_two_pow 1) 90
        = Err (ScanTimingExceedsLimit RetryReceiveWindow)
    \<and> validate_scan_timing_before_socket f64_powi (from_millis 1) 0 123 wire
        (Some \<lparr>timing_send_rate = Interval 1, timing_backoff_factor = f64_two_pow 1\<rparr>)
      = Ok (Some \<lparr>srl_interval = 1, srl_backoff_factor = f64_two_pow 1\<rparr>)"
proof -
  have two: "f64_two_pow 1 \<noteq> f64_one" by (simp add: f64_two_pow_def f64_one_def)
  have pw: "f64_powi (f64_two_pow 1) 122 = f64_two_pow 122" "f64_powi (f64_two_pow 1) 90 = f64_two_pow 90"
    using assms by auto
  have "retry_receive_window f64_powi (from_millis 1) (f64_two_pow 1) 122 = Ok 0"
    by (subst two_pow_window [where f64_powi = f64_powi and factor = "f64_two_pow 1" and i = 122 and n = 122, OF pw(1)])
      (simp_all add: two [simplified] c_int_max_def from_millis_def u128_bound_def)
  moreover have "retry_receive_window f64_powi (from_millis 1) (f64_two_pow 1) 90
      = Err (ScanTimingExceedsLimit RetryReceiveWindow)"
    by (subst two_pow_window [where f64_powi = f64_powi and factor = "f64_two_pow 1" and i = 90 and n = 90, OF pw(2)])
      (simp_all add: two [simplified] c_int_max_def from_millis_def u128_bound_def duration_max_def u64_max_def nanos_per_sec_def)
  ultimately show ?thesis
    by (simp add: validate_scan_timing_before_socket_def duration_checked_add_def duration_max_def
        checked_add_def u64_max_def nanos_per_sec_def)
qed

lemma backoff_window_loses_high_bits_witness:
  "retry_receive_window powers_of_two (from_millis 1) (f64_two_pow 1) 122 = Ok 0"
  using backoff_window_loses_high_bits [of powers_of_two] by (simp add: powers_of_two_def)

end
