(* ===== verification/Ordered_Map.thy ===== *)
theory Ordered_Map
  imports Prelude
begin

text \<open>
  \<^verbatim>\<open>BTreeMap\<close> and \<^verbatim>\<open>BTreeSet\<close> as the source uses them: insertion, lookup and iteration in key
  order. The map is the list of its entries in strictly ascending key order; the locale
  \<open>ordered_map\<close> states the laws its clients rely on (the scanner's host map, the monitor's packet
  index and claimant sets), and is interpreted on that list.
\<close>

section \<open>The interface\<close>

locale ordered_map =
  fixes empty :: "'m"
    and get :: "'m \<Rightarrow> 'k :: linorder \<Rightarrow> 'v option"
    and put :: "'k \<Rightarrow> 'v \<Rightarrow> 'm \<Rightarrow> 'm"
    and entries :: "'m \<Rightarrow> ('k \<times> 'v) list"
    and wf :: "'m \<Rightarrow> bool"
  assumes wf_empty: "wf empty"
    and get_empty: "get empty k = None"
    and wf_put: "wf m \<Longrightarrow> wf (put k v m)"
    and get_put: "wf m \<Longrightarrow> get (put k v m) = (get m)(k \<mapsto> v)"
    and entries_sorted: "wf m \<Longrightarrow> sorted_wrt (<) (map fst (entries m))"
    and entries_get: "wf m \<Longrightarrow> map_of (entries m) = get m"
begin

lemma entries_distinct: "wf m \<Longrightarrow> distinct (map fst (entries m))"
  using entries_sorted strict_sorted_iff by blast

lemma entry_iff: "wf m \<Longrightarrow> (k, v) \<in> set (entries m) \<longleftrightarrow> get m k = Some v"
  using entries_distinct entries_get map_of_eq_Some_iff by metis

lemma keys_eq_dom: "wf m \<Longrightarrow> fst ` set (entries m) = dom (get m)"
  using entries_get dom_map_of_conv_image_fst by metis

text \<open>Iteration depends on the mapping alone.\<close>

lemma entries_unique:
  assumes "wf m" and "wf n" and "get m = get n"
  shows "entries m = entries n"
proof -
  have "sorted (map fst (entries m))" "distinct (map fst (entries m))"
    "sorted (map fst (entries n))" "distinct (map fst (entries n))"
    using assms(1,2) entries_sorted strict_sorted_iff by blast+
  moreover have "set (entries m) = set (entries n)"
    using assms entry_iff by auto
  ultimately show ?thesis
    by (metis map_sorted_distinct_set_unique distinct_map inj_on_Un sup.idem)
qed

text \<open>The \<^verbatim>\<open>entry\<close> interface: insert where vacant, keep what is there.\<close>

lemma keep_first:
  assumes "wf m"
  shows "wf (case get m k of None \<Rightarrow> put k v m | Some w \<Rightarrow> m)"
    and "get (case get m k of None \<Rightarrow> put k v m | Some w \<Rightarrow> m) =
           (get m)(k \<mapsto> (case get m k of None \<Rightarrow> v | Some w \<Rightarrow> w))"
  using assms by (auto simp: wf_put get_put split: option.splits)

lemma length_put_fresh:
  assumes "wf m" and "get m k = None"
  shows "length (entries (put k v m)) = Suc (length (entries m))"
proof -
  have "card (dom (get (put k v m))) = Suc (card (dom (get m)))"
    using assms keys_eq_dom [OF assms(1)] by (simp add: get_put domIff) (metis List.finite_set card_insert_disjoint domIff finite_imageI)
  moreover have "card (dom (get n)) = length (entries n)" if "wf n" for n
    using that keys_eq_dom [OF that] distinct_card [OF entries_distinct [OF that]] by simp
  ultimately show ?thesis using assms by (simp add: wf_put)
qed

end

section \<open>The sorted entry list\<close>

type_synonym ('k, 'v) btree = "('k \<times> 'v) list"

fun bt_get :: "('k :: linorder, 'v) btree \<Rightarrow> 'k \<Rightarrow> 'v option" where
  "bt_get [] k = None"
| "bt_get ((a, b) # m) k = (if k = a then Some b else bt_get m k)"

fun bt_put :: "'k :: linorder \<Rightarrow> 'v \<Rightarrow> ('k, 'v) btree \<Rightarrow> ('k, 'v) btree" where
  "bt_put k v [] = [(k, v)]"
| "bt_put k v ((a, b) # m) =
     (if k < a then (k, v) # (a, b) # m
      else if k = a then (k, v) # m
      else (a, b) # bt_put k v m)"

definition bt_entries :: "('k :: linorder, 'v) btree \<Rightarrow> ('k \<times> 'v) list" where
  "bt_entries m = m"

definition bt_wf :: "('k :: linorder, 'v) btree \<Rightarrow> bool" where
  "bt_wf m \<longleftrightarrow> sorted_wrt (<) (map fst m)"

lemma bt_get_map_of: "bt_get m = map_of m"
  by (induction m) auto

lemma fst_set_bt_put: "fst ` set (bt_put k v m) = insert k (fst ` set m)"
proof (induction m)
  case (Cons e m)
  then show ?case by (cases e) (simp add: insert_commute)
qed simp

lemma bt_wf_put: "bt_wf m \<Longrightarrow> bt_wf (bt_put k v m)"
proof (induction m)
  case (Cons e m)
  then show ?case
    using fst_set_bt_put [of k v m] by (cases e) (force simp: bt_wf_def)
qed (simp add: bt_wf_def)

lemma bt_get_put: "bt_get (bt_put k v m) = (bt_get m)(k \<mapsto> v)"
  by (induction m) auto

interpretation bt: ordered_map "[]" bt_get bt_put bt_entries bt_wf
proof unfold_locales
  show "bt_wf ([] :: ('a, 'b) btree)" by (simp add: bt_wf_def)
  show "map_of (bt_entries m) = bt_get m" if "bt_wf m" for m :: "('a, 'b) btree"
    by (simp add: bt_get_map_of bt_entries_def)
  show "sorted_wrt (<) (map fst (bt_entries m))" if "bt_wf m" for m :: "('a, 'b) btree"
    using that by (simp add: bt_wf_def bt_entries_def)
qed (simp_all add: bt_wf_put bt_get_put)

section \<open>Sets\<close>

text \<open>\<^verbatim>\<open>BTreeSet::insert\<close> is the library's insertion into a sorted list without repetition.\<close>

definition bset_insert :: "'a :: linorder \<Rightarrow> 'a list \<Rightarrow> 'a list" where
  "bset_insert x xs = insort_insert x xs"

definition bset_wf :: "'a :: linorder list \<Rightarrow> bool" where
  "bset_wf xs \<longleftrightarrow> sorted xs \<and> distinct xs"

definition bset_of_list :: "'a :: linorder list \<Rightarrow> 'a list" where
  "bset_of_list xs = fold bset_insert xs []"

lemma set_bset_insert [simp]: "set (bset_insert x xs) = insert x (set xs)"
  by (simp add: bset_insert_def set_insort_insert)

lemma bset_wf_Nil [simp]: "bset_wf []"
  by (simp add: bset_wf_def)

lemma bset_wf_insert: "bset_wf xs \<Longrightarrow> bset_wf (bset_insert x xs)"
  by (simp add: bset_wf_def bset_insert_def sorted_insort_insert distinct_insort_insert)

lemma bset_fold:
  "bset_wf ys \<Longrightarrow> bset_wf (fold bset_insert xs ys) \<and> set (fold bset_insert xs ys) = set xs \<union> set ys"
  by (induction xs arbitrary: ys) (auto simp: bset_wf_insert)

lemma bset_of_list: "bset_wf (bset_of_list xs)" "set (bset_of_list xs) = set xs"
  using bset_fold [of "[]" xs] by (simp_all add: bset_of_list_def)

lemma bset_wf_unique: "bset_wf xs \<Longrightarrow> bset_wf ys \<Longrightarrow> set xs = set ys \<Longrightarrow> xs = ys"
  by (simp add: bset_wf_def sorted_distinct_set_unique)

end
