(* ===== verification/Link_Layer.thy ===== *)
theory Link_Layer
  imports Scan_Timing Ordered_Map
begin

text \<open>
  \<^verbatim>\<open>src/link_layer_backend.rs\<close> and the \<^verbatim>\<open>ScanClock\<close> trait of \<^verbatim>\<open>src/scan_timing.rs\<close>: the value types of
  interface discovery and the two interfaces the scan engine and the monitor are written against.
  An implementation of a trait is a record of its methods over a world \<open>'w\<close> that holds everything
  outside the program; a method takes the world and returns it. The locales state what the engine
  relies on, and are interpreted on the scripted endpoint and the fake clock of the source here, and
  on the packet-socket endpoint in \<open>Linux_Backend\<close>.
\<close>

section \<open>Value types\<close>

record interface_scan_addresses =
  isa_source_ipv4_address :: ipv4
  isa_ipv4_netmask :: ipv4
  isa_source_mac_address :: mac_address

record monitor_interface_identity =
  mii_ipv4_addresses :: "ipv4 list"
  mii_source_mac_address :: mac_address

record arp_scan_interface_candidate =
  cand_interface_name :: string
  cand_interface_index :: nat
  cand_source_ipv4_address :: ipv4
  cand_ipv4_netmask :: ipv4
  cand_source_mac_address :: mac_address

definition sorted_unique_ipv4_addresses :: "ipv4 list \<Rightarrow> ipv4 list" where
  "sorted_unique_ipv4_addresses addresses = bset_of_list addresses"

definition identity_from_addresses :: "ipv4 list \<Rightarrow> mac_address \<Rightarrow> monitor_interface_identity" where
  "identity_from_addresses addresses mac =
     \<lparr>mii_ipv4_addresses = sorted_unique_ipv4_addresses addresses, mii_source_mac_address = mac\<rparr>"

text \<open>\<^verbatim>\<open>slice::binary_search\<close> on the addresses from index \<open>lo\<close> up to \<open>hi\<close>.\<close>

function binary_search :: "'a :: linorder list \<Rightarrow> 'a \<Rightarrow> nat \<Rightarrow> nat \<Rightarrow> nat option" where
  "binary_search xs x lo hi =
     (if hi \<le> lo then None
      else
        let mid = lo + (hi - lo) div 2 in
        if xs ! mid = x then Some mid
        else if xs ! mid < x then binary_search xs x (Suc mid) hi
        else binary_search xs x lo mid)"
  by pat_completeness auto
termination
  by (relation "measure (\<lambda>(xs, x, lo, hi). hi - lo)") (auto simp: Let_def)

declare binary_search.simps [simp del]

definition contains_ipv4 :: "monitor_interface_identity \<Rightarrow> ipv4 \<Rightarrow> bool" where
  "contains_ipv4 identity address \<longleftrightarrow>
     binary_search (mii_ipv4_addresses identity) address 0 (length (mii_ipv4_addresses identity))
       \<noteq> None"

lemma binary_search_iff:
  assumes "sorted xs" and "hi \<le> length xs"
  shows "binary_search xs x lo hi \<noteq> None \<longleftrightarrow> (\<exists>i. lo \<le> i \<and> i < hi \<and> xs ! i = x)"
  using assms
proof (induction xs x lo hi rule: binary_search.induct)
  case (1 xs x lo hi)
  let ?mid = "lo + (hi - lo) div 2"
  show ?case
  proof (cases "hi \<le> lo")
    case True
    then show ?thesis by (subst binary_search.simps) auto
  next
    case False
    then have mid: "lo \<le> ?mid" "?mid < hi" by auto
    have left: "xs ! i \<le> xs ! ?mid" if "i \<le> ?mid" for i
      using that mid 1(3,4) by (auto intro: sorted_nth_mono)
    have right: "xs ! ?mid \<le> xs ! i" if "?mid \<le> i" "i < hi" for i
      using that mid 1(3,4) by (auto intro: sorted_nth_mono)
    consider "xs ! ?mid = x" | "xs ! ?mid < x" | "x < xs ! ?mid" by (metis linorder_cases)
    then show ?thesis
    proof cases
      case 1
      then have "binary_search xs x lo hi = Some ?mid"
        using False by (subst binary_search.simps) (simp add: Let_def)
      moreover have "\<exists>i\<ge>lo. i < hi \<and> xs ! i = x" using mid 1 by (intro exI [of _ ?mid]) simp
      ultimately show ?thesis by simp
    next
      case 2
      then have "binary_search xs x lo hi = binary_search xs x (Suc ?mid) hi"
        using False by (subst binary_search.simps) (auto simp: Let_def)
      moreover have "lo \<le> i \<and> i < hi \<and> xs ! i = x \<longleftrightarrow> Suc ?mid \<le> i \<and> i < hi \<and> xs ! i = x" for i
        using left [of i] 2 mid(1) by (cases "i \<le> ?mid") auto
      ultimately show ?thesis using 1(1) [OF False refl] 1(3,4) 2 by simp
    next
      case 3
      then have "binary_search xs x lo hi = binary_search xs x lo ?mid"
        using False by (subst binary_search.simps) (auto simp: Let_def)
      moreover have "lo \<le> i \<and> i < hi \<and> xs ! i = x \<longleftrightarrow> lo \<le> i \<and> i < ?mid \<and> xs ! i = x" for i
        using right [of i] 3 mid(2) by (cases "?mid \<le> i") auto
      ultimately show ?thesis using 1(2) [OF False refl] 1(3,4) 3 mid(2) by simp
    qed
  qed
qed

lemma contains_ipv4_iff:
  "contains_ipv4 (identity_from_addresses addresses mac) a \<longleftrightarrow> a \<in> set addresses"
proof -
  let ?xs = "bset_of_list addresses"
  have "sorted ?xs" "set ?xs = set addresses"
    using bset_of_list [of addresses] by (simp_all add: bset_wf_def)
  then show ?thesis
    using binary_search_iff [of ?xs "length ?xs" a 0]
    by (simp add: contains_ipv4_def identity_from_addresses_def sorted_unique_ipv4_addresses_def)
      (metis in_set_conv_nth)
qed

section \<open>Endpoints and clocks\<close>

text \<open>
  How a computation that loops over the outside world stops early: with an error of the program,
  with a panic, or because the bound on the number of iterations ran out. The last is no behaviour
  of the code; each theorem about a result shows that enough fuel rules it out.
\<close>

datatype stop = Failed app_error | Panicked | OutOfFuel

text \<open>
  \<^verbatim>\<open>try_receive_ethernet_frame\<close> writes into the caller's buffer and reports how many octets; the
  engine then reads that prefix. A timestamp is a natural number of the clock's own scale.
\<close>

record 'w endpoint =
  ep_send :: "u8 list \<Rightarrow> 'w \<Rightarrow> (io_error + unit) \<times> 'w"
  ep_wait :: "nat \<Rightarrow> 'w \<Rightarrow> (app_error + bool) \<times> 'w"
  ep_receive :: "u8 list \<Rightarrow> 'w \<Rightarrow> (stop + nat option) \<times> u8 list \<times> 'w"

type_synonym timestamp = nat

record 'w clock =
  ck_now :: "'w \<Rightarrow> timestamp \<times> 'w"
  ck_add :: "timestamp \<Rightarrow> duration \<Rightarrow> timestamp option"
  ck_since :: "timestamp \<Rightarrow> timestamp \<Rightarrow> duration"
  ck_sleep_until :: "timestamp \<Rightarrow> 'w \<Rightarrow> 'w"
  ck_sleep_for :: "duration \<Rightarrow> 'w \<Rightarrow> 'w"
  ck_unreadable :: "duration \<Rightarrow> 'w \<Rightarrow> 'w"
  ck_after_send :: "'w \<Rightarrow> 'w"

section \<open>What the engine relies on\<close>

text \<open>
  \<open>pending w\<close> are the frames captured and not yet read. Reading takes the oldest, and reports
  nothing only when there is none.
\<close>

locale frame_source =
  fixes ep :: "'w endpoint"
    and pending :: "'w \<Rightarrow> u8 list list"
  assumes receive_none:
      "pending w = [] \<Longrightarrow> \<exists>buf' w'. ep_receive ep buf w = (Inr None, buf', w')
         \<and> length buf' = length buf \<and> pending w' = []"
    and receive_some:
      "pending w = f # fs \<Longrightarrow> length f \<le> length buf \<Longrightarrow>
         \<exists>buf' w'. ep_receive ep buf w = (Inr (Some (length f)), buf', w')
           \<and> take (length f) buf' = f \<and> length buf' = length buf \<and> pending w' = fs"

text \<open>
  The monotonic clock: a reading lies between the times before and after it, deadlines are exact
  sums, sleeping until a deadline within reach gets there, and no operation of the clock goes back.
\<close>

locale monotonic_clock =
  fixes ck :: "'w clock"
    and time :: "'w \<Rightarrow> timestamp"
  assumes now_between: "ck_now ck w = (n, w') \<Longrightarrow> time w \<le> n \<and> n \<le> time w'"
    and add_exact: "ck_add ck t d = Some u \<Longrightarrow> u = t + d"
    and since_zero: "ck_since ck t n = 0 \<Longrightarrow> t \<le> n"
    and sleep_until_mono: "time w \<le> time (ck_sleep_until ck t w)"
    and sleep_until_reaches:
      "ck_add ck t d = Some u \<Longrightarrow> u \<le> time w + duration_max \<Longrightarrow> u \<le> time (ck_sleep_until ck u w)"
    and sleep_for_mono: "time w \<le> time (ck_sleep_for ck d w)"
    and unreadable_mono: "time w \<le> time (ck_unreadable ck d w)"
    and after_send_mono: "time w \<le> time (ck_after_send ck w)"

text \<open>
  An endpoint beside a clock: its calls take time too, and \<open>events\<close> logs, in order, the frames it
  transmitted, with the time of the send, and the frames it handed over.
\<close>

datatype event = Sent timestamp "u8 list" | Read "u8 list"

fun sent_of :: "event list \<Rightarrow> (timestamp \<times> u8 list) list" where
  "sent_of [] = []"
| "sent_of (Sent t f # es) = (t, f) # sent_of es"
| "sent_of (Read f # es) = sent_of es"

fun reads_of :: "event list \<Rightarrow> u8 list list" where
  "reads_of [] = []"
| "reads_of (Sent t f # es) = reads_of es"
| "reads_of (Read f # es) = f # reads_of es"

lemma sent_of_append [simp]: "sent_of (xs @ ys) = sent_of xs @ sent_of ys"
  by (induction xs rule: sent_of.induct) auto

lemma reads_of_append [simp]: "reads_of (xs @ ys) = reads_of xs @ reads_of ys"
  by (induction xs rule: reads_of.induct) auto

lemma map_Read_of [simp]: "sent_of (map Read fs) = []" "reads_of (map Read fs) = fs"
  by (induction fs) auto

locale timed_endpoint = monotonic_clock ck time
  for ck :: "'w clock" and time :: "'w \<Rightarrow> timestamp" +
  fixes ep :: "'w endpoint"
    and events :: "'w \<Rightarrow> event list"
  assumes send_logs: "ep_send ep frame w = (r, w') \<Longrightarrow>
      \<exists>t. events w' = events w @ [Sent t frame] \<and> time w \<le> t \<and> t \<le> time w'"
    and wait_quiet: "ep_wait ep ms w = (r', w') \<Longrightarrow> time w \<le> time w' \<and> events w' = events w"
    and receive_logs: "ep_receive ep buf w = (r'', buf', w') \<Longrightarrow>
      time w \<le> time w'
      \<and> events w' = events w @ (case r'' of Inr (Some n) \<Rightarrow> [Read (take n buf')] | _ \<Rightarrow> [])"
    and now_quiet: "ck_now ck w = (n, w') \<Longrightarrow> events w' = events w"
    and sleep_until_quiet: "events (ck_sleep_until ck t w) = events w"
    and sleep_for_quiet: "events (ck_sleep_for ck d w) = events w"
    and unreadable_quiet: "events (ck_unreadable ck d w) = events w"
    and after_send_quiet: "events (ck_after_send ck w) = events w"

text \<open>
  A capture that has all its frames at the start, under a clock that moves only when it is told to,
  and a transmission that takes no time: the endpoint is readable exactly while frames are pending, and a wait that ends unreadable has
  used up the time to the deadline.
\<close>

locale scripted_capture = frame_source ep pending + timed_endpoint ck time ep events
  for ep :: "'w endpoint" and pending :: "'w \<Rightarrow> u8 list list" and ck :: "'w clock"
    and time :: "'w \<Rightarrow> timestamp" and events :: "'w \<Rightarrow> event list" +
  assumes wait_level:
      "\<exists>w'. ep_wait ep ms w = (Inr (pending w \<noteq> []), w') \<and> pending w' = pending w \<and> time w' = time w"
    and now_exact: "ck_now ck w = (time w, w)"
    and receive_instant: "ep_receive ep buf w = (r, buf', w') \<Longrightarrow> time w' = time w"
    and unreadable_pending: "pending (ck_unreadable ck d w) = pending w"
    and send_instant: "ep_send ep frame w = (r', w') \<Longrightarrow> pending w' = pending w \<and> time w' = time w"
    and sleep_for_pending: "pending (ck_sleep_for ck d w) = pending w"
    and sleep_until_pending: "pending (ck_sleep_until ck t w) = pending w"
    and after_send_pending: "pending (ck_after_send ck w) = pending w"
    and sleep_for_at_most: "time (ck_sleep_for ck d w) \<le> time w + d"
    and unreadable_reaches:
      "n \<le> time w \<Longrightarrow> t \<le> n + duration_max \<Longrightarrow> ck_add ck b c = Some t
         \<Longrightarrow> t \<le> time (ck_unreadable ck (ck_since ck t n) w)"

section \<open>Polling until a deadline\<close>

text \<open>
  The receive loop that the scan engine and the monitor share in form: wait for the endpoint while
  the deadline is ahead, and drain it when it is readable. What a drain does to the state \<open>'s\<close> of
  the caller is an argument.
\<close>

fun poll_loop ::
    "nat \<Rightarrow> (duration \<Rightarrow> nat) \<Rightarrow> 'w endpoint \<Rightarrow> 'w clock \<Rightarrow> timestamp
     \<Rightarrow> ('s \<Rightarrow> 'w \<Rightarrow> (stop + 's) \<times> 'w) \<Rightarrow> 's \<Rightarrow> 'w \<Rightarrow> (stop + 's) \<times> 'w" where
  "poll_loop 0 poll_ms ep ck deadline drain s w = (Inl OutOfFuel, w)"
| "poll_loop (Suc fuel) poll_ms ep ck deadline drain s w =
     (let (now, w) = ck_now ck w in
      if \<not> now < deadline then (Inr s, w)
      else
        let (now', w) = ck_now ck w; remaining = ck_since ck deadline now' in
        if remaining = 0 then (Inr s, w)
        else (case ep_wait ep (poll_ms remaining) w of
            (Inl e, w) \<Rightarrow> (Inl (Failed e), w)
          | (Inr readable, w) \<Rightarrow>
              if readable
              then (case drain s w of
                  (Inl e, w) \<Rightarrow> (Inl e, w)
                | (Inr s', w) \<Rightarrow> poll_loop fuel poll_ms ep ck deadline drain s' w)
              else poll_loop fuel poll_ms ep ck deadline drain s (ck_unreadable ck remaining w)))"

context timed_endpoint
begin

text \<open>What the loop reads are the frames of its drains, in order.\<close>

lemma poll_reads:
  assumes drain: "\<And>s w r w'. drain s w = (r, w') \<Longrightarrow>
      \<exists>fs. events w' = events w @ map Read fs \<and> time w \<le> time w' \<and> (\<forall>s'. r = Inr s' \<longrightarrow> R fs s s')"
    and R: "\<And>s. R [] s s" "\<And>fs gs s s' s''. R fs s s' \<Longrightarrow> R gs s' s'' \<Longrightarrow> R (fs @ gs) s s''"
  shows "poll_loop fuel poll_ms ep ck deadline drain s w = (r, w') \<Longrightarrow>
     \<exists>fs. events w' = events w @ map Read fs \<and> time w \<le> time w'
          \<and> (\<forall>s'. r = Inr s' \<longrightarrow> R fs s s' \<and> deadline \<le> time w')"
proof (induction fuel arbitrary: s w)
  case (Suc fuel)
  obtain n1 w1 where now1: "ck_now ck w = (n1, w1)" by (cases "ck_now ck w")
  obtain n2 w2 where now2: "ck_now ck w1 = (n2, w2)" by (cases "ck_now ck w1")
  note q1 = now_quiet [OF now1] now_between [OF now1] and q2 = now_quiet [OF now2] now_between [OF now2]
  let ?rem = "ck_since ck deadline n2"
  obtain rw w3 where wait: "ep_wait ep (poll_ms ?rem) w2 = (rw, w3)"
    by (cases "ep_wait ep (poll_ms ?rem) w2")
  note q3 = wait_quiet [OF wait]
  consider "\<not> n1 < deadline" | "n1 < deadline" "?rem = 0" | e where "n1 < deadline" "?rem \<noteq> 0" "rw = Inl e"
    | "n1 < deadline" "?rem \<noteq> 0" "rw = Inr False" | "n1 < deadline" "?rem \<noteq> 0" "rw = Inr True"
    by (metis (full_types) sum.exhaust)
  then show ?case
  proof cases
    case 1
    then have "r = Inr s" "w' = w1" using Suc.prems now1 by simp_all
    then show ?thesis using q1 1 R(1) by (intro exI [of _ "[]"]) auto
  next
    case 2
    then have "r = Inr s" "w' = w2" using Suc.prems now1 now2 by simp_all
    moreover have "deadline \<le> n2" using 2 by (intro since_zero)
    ultimately show ?thesis using q1 q2 R(1) by (intro exI [of _ "[]"]) auto
  next
    case 3
    then show ?thesis
      using Suc.prems now1 now2 wait q1 q2 q3 by (intro exI [of _ "[]"]) auto
  next
    case 4
    then have "poll_loop fuel poll_ms ep ck deadline drain s (ck_unreadable ck ?rem w3) = (r, w')"
      using Suc.prems now1 now2 wait by simp
    from Suc.IH [OF this] obtain fs where
      "events w' = events (ck_unreadable ck ?rem w3) @ map Read fs"
      "time (ck_unreadable ck ?rem w3) \<le> time w'"
      "\<forall>s'. r = Inr s' \<longrightarrow> R fs s s' \<and> deadline \<le> time w'"
      by blast
    then show ?thesis
      using q1 q2 q3 unreadable_quiet [of ?rem w3] unreadable_mono [of w3 ?rem]
      by (intro exI [of _ fs]) auto
  next
    case 5
    obtain rd w4 where rd: "drain s w3 = (rd, w4)" by (cases "drain s w3")
    from drain [OF rd] obtain fs1 where
      d: "events w4 = events w3 @ map Read fs1" "time w3 \<le> time w4" "\<forall>s'. rd = Inr s' \<longrightarrow> R fs1 s s'"
      by blast
    show ?thesis
    proof (cases rd)
      case (Inl e)
      then show ?thesis
        using Suc.prems 5 now1 now2 wait rd q1 q2 q3 d by (intro exI [of _ fs1]) auto
    next
      case (Inr s1)
      have "poll_loop fuel poll_ms ep ck deadline drain s1 w4 = (r, w')"
        using Suc.prems 5 now1 now2 wait rd Inr by simp
      from Suc.IH [OF this] obtain fs2 where
        "events w' = events w4 @ map Read fs2" "time w4 \<le> time w'"
        "\<forall>s'. r = Inr s' \<longrightarrow> R fs2 s1 s' \<and> deadline \<le> time w'"
        by blast
      then show ?thesis
        using q1 q2 q3 d Inr R(2) [of fs1 s s1 fs2] by (intro exI [of _ "fs1 @ fs2"]) auto
    qed
  qed
qed auto

end

context scripted_capture
begin

text \<open>
  A capture that is complete at the start is drained in the first turn; two more turns are enough to
  reach the deadline.
\<close>

lemma poll_all:
  assumes drain: "\<And>v. pending v = pending w \<Longrightarrow> time v = time w \<Longrightarrow> time w < deadline \<Longrightarrow>
      \<exists>s' u. drain s v = (Inr s', u) \<and> pending u = [] \<and> time u = time v \<and> P s'"
    and deadline: "ck_add ck b c = Some deadline" "deadline \<le> time w + duration_max"
    and fuel: "3 \<le> fuel"
  shows "\<exists>s' w'. poll_loop fuel poll_ms ep ck deadline drain s w = (Inr s', w')
    \<and> (if time w < deadline \<and> pending w \<noteq> [] then P s' else s' = s)
    \<and> pending w' = (if time w < deadline then [] else pending w)"
proof -
  note loop = poll_loop.simps(2) [of _ poll_ms ep ck deadline drain]
  have since: "ck_since ck deadline (time v) \<noteq> 0" if "time v < deadline" for v
    using since_zero that leD by blast
  have last: "\<exists>w'. poll_loop (Suc k) poll_ms ep ck deadline drain s v = (Inr s, w') \<and> pending w' = pending v"
    if "\<not> time v < deadline" for k s v
    using that by (simp add: now_exact)
  have idle: "\<exists>w'. poll_loop (Suc (Suc k)) poll_ms ep ck deadline drain s v = (Inr s, w') \<and> pending w' = []"
    if pend: "pending v = []" and reach: "deadline \<le> time v + duration_max" for k s v
  proof (cases "time v < deadline")
    case True
    let ?rem = "ck_since ck deadline (time v)"
    obtain v' where wait: "ep_wait ep (poll_ms ?rem) v = (Inr False, v')"
      and v': "time v' = time v" "pending v' = []"
      using wait_level [of "poll_ms ?rem" v] pend by auto
    have "\<not> time (ck_unreadable ck ?rem v') < deadline"
      using unreadable_reaches [of "time v" v' deadline b c] deadline(1) reach v' by simp
    then show ?thesis
      using loop [of "Suc k" s v] True since [OF True] wait v' last unreadable_pending
      by (simp add: now_exact)
  qed (use last [of v "Suc k" s] pend in simp)
  obtain k where k: "fuel = Suc (Suc (Suc k))" using fuel by (metis Suc_le_D numeral_3_eq_3 Suc_le_mono)
  show ?thesis
  proof (cases "pending w = [] \<or> \<not> time w < deadline")
    case True
    then show ?thesis
      using idle [of w "Suc k" s] last [of w "Suc (Suc k)" s] deadline(2) k by auto
  next
    case False
    let ?rem = "ck_since ck deadline (time w)"
    obtain v where wait: "ep_wait ep (poll_ms ?rem) w = (Inr True, v)"
      and v: "pending v = pending w" "time v = time w"
      using wait_level [of "poll_ms ?rem" w] False by auto
    obtain s1 u where rd: "drain s v = (Inr s1, u)" and u: "pending u = []" "time u = time w" "P s1"
      using drain [OF v] False v by auto
    have "poll_loop fuel poll_ms ep ck deadline drain s w =
        poll_loop (Suc (Suc k)) poll_ms ep ck deadline drain s1 u"
      unfolding k loop using False since [of w] wait rd
      by (simp add: now_exact Let_def del: poll_loop.simps)
    then show ?thesis using idle [OF u(1), of k s1] deadline(2) False u by auto
  qed
qed

end

section \<open>The scripted endpoint and the fake clock of the source\<close>

text \<open>
  \<^verbatim>\<open>ScriptedEndpoint\<close> of \<^verbatim>\<open>src/scanner.rs\<close> and \<^verbatim>\<open>FakeScanClock\<close> of \<^verbatim>\<open>src/scan_timing.rs\<close>, whose
  fields make up one world. A log of the events is kept
  beside the fields of the source.
\<close>

record scripted_world =
  fc_now_ns :: "128 word"
  fc_sleeps :: "duration list"
  fc_unreadable_waits :: "duration list"
  fc_stall_after_next_send :: duration
  se_sent :: "u8 list list"
  se_inbound :: "u8 list list"
  se_fail_sends :: bool
  se_events :: "event list"

definition fc_time :: "scripted_world \<Rightarrow> timestamp" where
  "fc_time w = unat (fc_now_ns w)"

definition fc_set :: "nat \<Rightarrow> scripted_world \<Rightarrow> scripted_world" where
  "fc_set n w = w\<lparr>fc_now_ns := word_of_nat (min u128_max n)\<rparr>"

definition fc_sleep_until :: "timestamp \<Rightarrow> scripted_world \<Rightarrow> scripted_world" where
  "fc_sleep_until deadline w =
     (if fc_time w < deadline
      then (case duration_from_nanos_u128 (deadline - fc_time w) of
              None \<Rightarrow> w
            | Some d \<Rightarrow> fc_set deadline (w\<lparr>fc_sleeps := fc_sleeps w @ [d]\<rparr>))
      else w)"

definition fc_sleep_for :: "duration \<Rightarrow> scripted_world \<Rightarrow> scripted_world" where
  "fc_sleep_for d w =
     (if d = 0 then w else fc_set (fc_time w + d) (w\<lparr>fc_sleeps := fc_sleeps w @ [d]\<rparr>))"

definition fc_unreadable :: "duration \<Rightarrow> scripted_world \<Rightarrow> scripted_world" where
  "fc_unreadable d w =
     (if d = 0 then w
      else fc_set (fc_time w + d) (w\<lparr>fc_unreadable_waits := fc_unreadable_waits w @ [d]\<rparr>))"

definition fc_after_send :: "scripted_world \<Rightarrow> scripted_world" where
  "fc_after_send w =
     (let stall = fc_stall_after_next_send w; w = w\<lparr>fc_stall_after_next_send := 0\<rparr> in
      if stall = 0 then w else fc_set (fc_time w + stall) w)"

definition fake_scan_clock :: "scripted_world clock" where
  "fake_scan_clock =
     \<lparr>ck_now = (\<lambda>w. (fc_time w, w)),
      ck_add = checked_add u128_max,
      ck_since = (\<lambda>later earlier. case duration_from_nanos_u128 (later - earlier) of
                    None \<Rightarrow> duration_max | Some d \<Rightarrow> d),
      ck_sleep_until = fc_sleep_until,
      ck_sleep_for = fc_sleep_for,
      ck_unreadable = fc_unreadable,
      ck_after_send = fc_after_send\<rparr>"

definition injected_send_failure :: io_error where
  "injected_send_failure =
     \<lparr>io_kind = OtherKind, io_errno = None, io_text = ''injected send failure''\<rparr>"

definition se_send :: "u8 list \<Rightarrow> scripted_world \<Rightarrow> (io_error + unit) \<times> scripted_world" where
  "se_send frame w =
     (let w' = w\<lparr>se_sent := se_sent w @ [frame], se_events := se_events w @ [Sent (fc_time w) frame]\<rparr> in
      if se_fail_sends w then (Inl injected_send_failure, w') else (Inr (), w'))"

definition se_wait :: "nat \<Rightarrow> scripted_world \<Rightarrow> (app_error + bool) \<times> scripted_world" where
  "se_wait ms w = (Inr (se_inbound w \<noteq> []), w)"

text \<open>\<^verbatim>\<open>buffer[..frame.len()].copy_from_slice(&frame)\<close>; the frames of a script fit the buffer.\<close>

definition se_receive ::
    "u8 list \<Rightarrow> scripted_world \<Rightarrow> (stop + nat option) \<times> u8 list \<times> scripted_world" where
  "se_receive buf w =
     (case se_inbound w of
        [] \<Rightarrow> (Inr None, buf, w)
      | frame # rest \<Rightarrow>
          (let buf' = write_slice 0 frame buf in
           (Inr (Some (length frame)), buf',
            w\<lparr>se_inbound := rest, se_events := se_events w @ [Read (take (length frame) buf')]\<rparr>)))"

definition scripted_endpoint :: "scripted_world endpoint" where
  "scripted_endpoint = \<lparr>ep_send = se_send, ep_wait = se_wait, ep_receive = se_receive\<rparr>"

lemma unat_word128: "n \<le> u128_max \<Longrightarrow> unat (word_of_nat n :: 128 word) = n"
  by (simp add: unat_of_nat u128_max_def u128_bound_def)

lemma fc_time_le: "fc_time w \<le> u128_max"
proof -
  have "unat (fc_now_ns w) < 2 ^ 128" using unsigned_less [of "fc_now_ns w", where ?'a = nat] by simp
  then show ?thesis by (simp add: fc_time_def u128_max_def u128_bound_def)
qed

lemma fc_time_set [simp]: "fc_time (fc_set n w) = min u128_max n"
  by (simp add: fc_time_def fc_set_def unat_word128)

lemma fc_set_simps [simp]:
  "se_events (fc_set n w) = se_events w" "se_inbound (fc_set n w) = se_inbound w"
  by (simp_all add: fc_set_def)

lemma fc_time_update [simp]:
  "fc_time (w\<lparr>fc_sleeps := x\<rparr>) = fc_time w" "fc_time (w\<lparr>fc_unreadable_waits := x\<rparr>) = fc_time w"
  "fc_time (w\<lparr>fc_stall_after_next_send := d\<rparr>) = fc_time w" "fc_time (w\<lparr>se_sent := s\<rparr>) = fc_time w"
  "fc_time (w\<lparr>se_inbound := i\<rparr>) = fc_time w" "fc_time (w\<lparr>se_events := r\<rparr>) = fc_time w"
  by (simp_all add: fc_time_def)

lemmas scripted_defs =
  fake_scan_clock_def scripted_endpoint_def fc_sleep_until_def fc_sleep_for_def fc_unreadable_def
  fc_after_send_def se_send_def se_wait_def se_receive_def

interpretation scripted: scripted_capture scripted_endpoint se_inbound fake_scan_clock fc_time
  se_events
proof unfold_locales
  show "u \<le> fc_time (ck_sleep_until fake_scan_clock u w)"
    if "ck_add fake_scan_clock t d = Some u" "u \<le> fc_time w + duration_max" for t d u w
    using that
    by (auto simp: scripted_defs rust_arith duration_from_nanos_eq split: option.splits)
  show "t \<le> fc_time (ck_unreadable fake_scan_clock (ck_since fake_scan_clock t n) w)"
    if "n \<le> fc_time w" "t \<le> n + duration_max" "ck_add fake_scan_clock b c = Some t" for n w t b c
    using that
    by (auto simp: scripted_defs rust_arith duration_from_nanos_eq split: option.splits)
qed (use fc_time_le in
      \<open>auto simp: scripted_defs rust_arith Let_def min_def duration_from_nanos_eq duration_max_def
         u64_max_def nanos_per_sec_def write_slice_def
         split: option.splits if_splits list.splits\<close>)

end
