(* ===== verification/Interface_Validation.thy ===== *)
theory Interface_Validation
  imports App_Error
begin

text \<open>
  \<^verbatim>\<open>src/interface_validation.rs\<close>: the check of an interface name and its copy into the
  sixteen octets of \<^verbatim>\<open>ifreq.ifr_name\<close>.
\<close>

definition interface_name_buffer_size :: nat where "interface_name_buffer_size = 16"
definition interface_name_maximum_bytes :: nat where
  "interface_name_maximum_bytes = interface_name_buffer_size - 1"

definition validate_interface_name_for_linux_packet_socket :: "string \<Rightarrow> app_error + unit" where
  "validate_interface_name_for_linux_packet_socket name =
     (if name = [] then Err (InvalidInterfaceName ''interface name must not be empty'')
      else if interface_name_maximum_bytes < length name
      then Err (InvalidInterfaceName (''interface name must be at most ''
             @ show_nat interface_name_maximum_bytes @ '' bytes, got '' @ show_nat (length name)))
      else if CHR ''/'' \<in> set name
      then Err (InvalidInterfaceName (''interface name must not contain '' @ [CHR 0x27] @ ''/''
             @ [CHR 0x27]))
      else if CHR 0x00 \<in> set name
      then Err (InvalidInterfaceName ''interface name must not contain a NUL byte'')
      else Ok ())"

text \<open>The name field of the request after the copy; the rest of \<^verbatim>\<open>ifreq\<close> is left as it is.\<close>

definition copy_interface_name_to_ifreq :: "string \<Rightarrow> app_error + string" where
  "copy_interface_name_to_ifreq name =
     (if interface_name_buffer_size \<le> length name
      then Err (InvalidInterfaceName (''interface name must be shorter than ''
             @ show_nat interface_name_buffer_size @ '' bytes''))
      else Ok (name @ replicate (interface_name_buffer_size - length name) (CHR 0x00)))"

text \<open>What the kernel reads back: the octets before the first NUL.\<close>

definition c_string :: "string \<Rightarrow> string" where
  "c_string buffer = takeWhile (\<lambda>c. c \<noteq> CHR 0x00) buffer"

lemma validate_interface_name_Ok_iff:
  "validate_interface_name_for_linux_packet_socket name = Ok () \<longleftrightarrow>
     name \<noteq> [] \<and> length name \<le> 15 \<and> CHR ''/'' \<notin> set name \<and> CHR 0x00 \<notin> set name"
  by (simp add: validate_interface_name_for_linux_packet_socket_def interface_name_maximum_bytes_def
      interface_name_buffer_size_def)

lemma takeWhile_padded:
  "z \<notin> set xs \<Longrightarrow> takeWhile (\<lambda>c. c \<noteq> z) (xs @ replicate n z) = xs"
  by (induction xs) (auto simp: takeWhile_replicate)

lemma validated_name_copied:
  assumes "validate_interface_name_for_linux_packet_socket name = Ok ()"
  shows "\<exists>buffer. copy_interface_name_to_ifreq name = Ok buffer \<and> length buffer = 16
           \<and> c_string buffer = name"
  using assms
  by (auto simp: validate_interface_name_Ok_iff copy_interface_name_to_ifreq_def
      interface_name_buffer_size_def c_string_def takeWhile_padded)

section \<open>Properties\<close>

text \<open>
  The validated interface names are the non-empty ones of at most 15 octets without a slash or
  a NUL, and each of them is copied whole into the 16 octets of the request, where reading up to the
  first NUL gives the name back.
\<close>

theorem validated_interface_name_fits_request:
  "validate_interface_name_for_linux_packet_socket name = Ok () \<longleftrightarrow>
     name \<noteq> [] \<and> length name \<le> 15 \<and> CHR ''/'' \<notin> set name
     \<and> (\<exists>buffer. copy_interface_name_to_ifreq name = Ok buffer \<and> length buffer = 16
          \<and> c_string buffer = name)"
  (is "?L \<longleftrightarrow> ?R")
proof
  assume ?L
  then show ?R using validated_name_copied validate_interface_name_Ok_iff by blast
next
  assume R: ?R
  then have "CHR 0x00 \<notin> set name" by (metis c_string_def set_takeWhileD)
  then show ?L using R validate_interface_name_Ok_iff by blast
qed

end
