(* ===== verification/Linux_Socket.thy ===== *)
theory Linux_Socket
  imports Link_Layer Interface_Validation
begin

text \<open>
  \<^verbatim>\<open>src/linux_packet.rs\<close>, \<^verbatim>\<open>src/linux_socket.rs\<close>: the packet socket of the Linux backend as an
  endpoint of the engine. The kernel is a record of its calls, the wrappers of
  \<^verbatim>\<open>src/linux_system_call.rs\<close>; an \<^verbatim>\<open>ioctl\<close> yields the octets of the request's union.
  The numbers in them are little-endian, as on the targets of the release.
\<close>

section \<open>Operations on the world\<close>

text \<open>A fallible call that acts on the world, its sequencing by \<^verbatim>\<open>?\<close>, and \<^verbatim>\<open>map_err\<close>.\<close>

type_synonym ('w, 'e, 'a) op = "'w \<Rightarrow> ('e + 'a) \<times> 'w"

definition op_lift :: "'e + 'a \<Rightarrow> ('w, 'e, 'a) op" where
  "op_lift r w = (r, w)"

definition op_return :: "'a \<Rightarrow> ('w, 'e, 'a) op" where
  "op_return x w = (Inr x, w)"

definition op_then :: "('w, 'e, 'a) op \<Rightarrow> ('a \<Rightarrow> ('w, 'e, 'b) op) \<Rightarrow> ('w, 'e, 'b) op" where
  "op_then m f w = (case m w of (Inl e, w) \<Rightarrow> (Inl e, w) | (Inr x, w) \<Rightarrow> f x w)"

definition op_map_err :: "('e \<Rightarrow> 'd) \<Rightarrow> ('w, 'e, 'a) op \<Rightarrow> ('w, 'd, 'a) op" where
  "op_map_err g m w = (case m w of (r, w) \<Rightarrow> (map_err g r, w))"

lemma op_then_lift [simp]:
  "op_then (op_lift (Inl e)) f w = (Inl e, w)" "op_then (op_lift (Inr x)) f w = f x w"
  "op_then (op_return x) f w = f x w"
  by (simp_all add: op_then_def op_lift_def op_return_def)

lemma op_then_eq_Ok:
  "op_then m f w = (Inr y, w') \<longleftrightarrow> (\<exists>x w1. m w = (Inr x, w1) \<and> f x w1 = (Inr y, w'))"
  by (auto simp: op_then_def split: prod.splits sum.splits)

lemma op_map_err_eq_Ok [simp]: "op_map_err g m w = (Inr y, w') \<longleftrightarrow> m w = (Inr y, w')"
  by (cases "m w"; cases "fst (m w)") (auto simp: op_map_err_def)

section \<open>The kernel's interface\<close>

definition socket_address_family_packet :: u16 where "socket_address_family_packet = 17"
definition ethernet_protocol_arp :: u16 where "ethernet_protocol_arp = 0x0806"
definition ethernet_protocol_all :: u16 where "ethernet_protocol_all = 0x0003"
definition ethernet_protocol_ieee_802_2 :: u16 where "ethernet_protocol_ieee_802_2 = 0x0004"
definition interface_flag_up :: "32 word" where "interface_flag_up = 0x0001"
definition interface_flag_loopback :: "32 word" where "interface_flag_loopback = 0x0008"
definition interface_flag_no_arp :: "32 word" where "interface_flag_no_arp = 0x0080"

record sock_address_link_layer =
  sll_socket_address_family :: u16
  sll_link_layer_protocol :: u16
  sll_interface_index :: nat
  sll_hardware_type :: u16
  sll_packet_type :: u8
  sll_hardware_address_length :: u8
  sll_hardware_address :: "u8 list"

text \<open>\<^verbatim>\<open>u16::to_be\<close> on a little-endian target.\<close>

definition ethernet_protocol_host_to_network_order :: "u16 \<Rightarrow> u16" where
  "ethernet_protocol_host_to_network_order p = u16_from_be (u16_to_be p ! 1) (u16_to_be p ! 0)"

definition siocgifflags_request :: nat where "siocgifflags_request = 0x8913"
definition siocgifaddr_request :: nat where "siocgifaddr_request = 0x8915"
definition siocgifnetmask_request :: nat where "siocgifnetmask_request = 0x891b"
definition siocgifhwaddr_request :: nat where "siocgifhwaddr_request = 0x8927"

definition errno_eagain :: int where "errno_eagain = 11"
definition errno_ewouldblock :: int where "errno_ewouldblock = 11"

record 'w linux_kernel =
  lk_interface_index :: "string \<Rightarrow> ('w, io_error, nat) op"
  lk_open_inet_datagram_socket :: "('w, io_error, nat) op"
  lk_ioctl_ifreq :: "nat \<Rightarrow> nat \<Rightarrow> string \<Rightarrow> ('w, io_error, u8 list) op"
  lk_if_nameindex :: "('w, io_error, (string \<times> nat) list) op"
  lk_list_interface_ipv4_addresses :: "('w, io_error, (string \<times> ipv4) list) op"
  lk_open_packet_raw_socket :: "u16 \<Rightarrow> ('w, io_error, nat) op"
  lk_bind :: "nat \<Rightarrow> sock_address_link_layer \<Rightarrow> ('w, io_error, unit) op"
  lk_sendto :: "nat \<Rightarrow> u8 list \<Rightarrow> sock_address_link_layer \<Rightarrow> ('w, io_error, nat) op"
  lk_recvfrom :: "nat \<Rightarrow> nat \<Rightarrow> ('w, io_error, u8 list) op"
  lk_poll :: "nat \<Rightarrow> nat \<Rightarrow> ('w, io_error, nat) op"

section \<open>The interface to scan on\<close>

text \<open>\<^verbatim>\<open>CString::new\<close> refuses an interior NUL.\<close>

definition interface_index_from_name :: "'w linux_kernel \<Rightarrow> string \<Rightarrow> ('w, app_error, nat) op" where
  "interface_index_from_name k name =
     (if CHR 0x00 \<in> set name
      then op_lift (Inl (InvalidInterfaceName ''interface name contains an interior NUL byte''))
      else op_map_err (InterfaceLookupFailed name) (lk_interface_index k name))"

text \<open>\<^verbatim>\<open>i32::from\<close> of the two octets of \<^verbatim>\<open>ifru_flags\<close>.\<close>

definition ifru_flags :: "u8 list \<Rightarrow> 32 word" where
  "ifru_flags ifru = scast (u16_from_be (ifru ! 1) (ifru ! 0))"

definition query_interface ::
    "'w linux_kernel \<Rightarrow> nat \<Rightarrow> nat \<Rightarrow> (io_error \<Rightarrow> app_error) \<Rightarrow> string \<Rightarrow> ('w, app_error, u8 list) op" where
  "query_interface k control_socket request_code failure name =
     op_then (op_lift (copy_interface_name_to_ifreq name)) (\<lambda>request.
     op_map_err failure (lk_ioctl_ifreq k control_socket request_code request))"

definition read_interface_flags_with_control_socket ::
    "'w linux_kernel \<Rightarrow> nat \<Rightarrow> string \<Rightarrow> ('w, app_error, 32 word) op" where
  "read_interface_flags_with_control_socket k control_socket name =
     op_then (query_interface k control_socket siocgifflags_request (InterfaceFlagsQueryFailed name) name)
       (\<lambda>ifru. op_return (ifru_flags ifru))"

definition read_interface_flags :: "'w linux_kernel \<Rightarrow> string \<Rightarrow> ('w, app_error, 32 word) op" where
  "read_interface_flags k name =
     op_then (op_map_err Io (lk_open_inet_datagram_socket k)) (\<lambda>control_socket.
     read_interface_flags_with_control_socket k control_socket name)"

definition validate_interface_flags_for_arp_scanning :: "string \<Rightarrow> 32 word \<Rightarrow> app_error + unit" where
  "validate_interface_flags_for_arp_scanning name flags =
     (if and flags interface_flag_loopback \<noteq> 0
      then Err (InterfaceRejectedForScanning name ''loopback interface'')
      else if and flags interface_flag_no_arp \<noteq> 0
      then Err (InterfaceRejectedForScanning name ''interface has NOARP set'')
      else if and flags interface_flag_up = 0
      then Err (InterfaceRejectedForScanning name ''interface is not UP'')
      else Ok ())"

definition validated_interface_index_for_arp_scanning ::
    "'w linux_kernel \<Rightarrow> string \<Rightarrow> ('w, app_error, nat) op" where
  "validated_interface_index_for_arp_scanning k name =
     op_then (op_lift (validate_interface_name_for_linux_packet_socket name)) (\<lambda>_.
     op_then (interface_index_from_name k name) (\<lambda>index.
     op_then (read_interface_flags k name) (\<lambda>flags.
     op_then (op_lift (validate_interface_flags_for_arp_scanning name flags)) (\<lambda>_.
     op_return index))))"

section \<open>Opening the socket\<close>

definition packet_socket_protocol_for_wire_options :: "scan_wire_options \<Rightarrow> u16" where
  "packet_socket_protocol_for_wire_options wire =
     (if wo_vlan_identifier wire \<noteq> None \<or> wo_service_vlan_identifier wire \<noteq> None \<or> wo_llc_snap wire
      then ethernet_protocol_all else ethernet_protocol_arp)"

definition link_layer_send_protocol_for_wire_options :: "scan_wire_options \<Rightarrow> u16" where
  "link_layer_send_protocol_for_wire_options wire =
     (case ieee_8021q_tag_stack wire of
        Some vlan_tag \<Rightarrow> outer_tag_protocol_identifier vlan_tag
      | None \<Rightarrow> if wo_llc_snap wire then ethernet_protocol_ieee_802_2 else ethernet_protocol_arp)"

definition open_raw_packet_socket :: "'w linux_kernel \<Rightarrow> u16 \<Rightarrow> ('w, app_error, nat) op" where
  "open_raw_packet_socket k protocol =
     op_map_err (\<lambda>source. if io_kind source = PermissionDenied then RawSocketCapabilityRequired source
        else RawSocketOpenFailed source)
       (lk_open_packet_raw_socket k protocol)"

definition index_does_not_fit :: "string \<Rightarrow> nat \<Rightarrow> app_error" where
  "index_does_not_fit name index = InterfaceLookupFailed name
     \<lparr>io_kind = InvalidData, io_errno = None,
      io_text = ''interface index '' @ show_nat index @ '' does not fit sockaddr_ll''\<rparr>"

definition bind_packet_socket_to_interface ::
    "'w linux_kernel \<Rightarrow> nat \<Rightarrow> string \<Rightarrow> nat \<Rightarrow> u16 \<Rightarrow> ('w, app_error, unit) op" where
  "bind_packet_socket_to_interface k packet_socket name index protocol =
     (if c_int_max < index then op_lift (Inl (index_does_not_fit name index))
      else op_map_err SocketBindFailed (lk_bind k packet_socket
        \<lparr>sll_socket_address_family = socket_address_family_packet,
         sll_link_layer_protocol = ethernet_protocol_host_to_network_order protocol,
         sll_interface_index = index, sll_hardware_type = arp_hardware_type_ethernet,
         sll_packet_type = 0, sll_hardware_address_length = 0,
         sll_hardware_address = replicate 8 0\<rparr>))"

definition link_layer_broadcast_destination_for_scan ::
    "string \<Rightarrow> nat \<Rightarrow> u16 \<Rightarrow> app_error + sock_address_link_layer" where
  "link_layer_broadcast_destination_for_scan name index protocol =
     (if c_int_max < index then Err (index_does_not_fit name index)
      else Ok \<lparr>sll_socket_address_family = socket_address_family_packet,
         sll_link_layer_protocol = ethernet_protocol_host_to_network_order protocol,
         sll_interface_index = index, sll_hardware_type = arp_hardware_type_ethernet,
         sll_packet_type = 0, sll_hardware_address_length = 6,
         sll_hardware_address = replicate 6 0xFF @ replicate 2 0\<rparr>)"

record linux_link_layer_endpoint =
  lle_packet_socket :: nat
  lle_link_layer_destination :: sock_address_link_layer

definition open_endpoint_with_protocols ::
    "'w linux_kernel \<Rightarrow> string \<Rightarrow> u16 \<Rightarrow> u16 \<Rightarrow> ('w, app_error, linux_link_layer_endpoint) op" where
  "open_endpoint_with_protocols k name capture_protocol send_protocol =
     op_then (validated_interface_index_for_arp_scanning k name) (\<lambda>index.
     op_then (open_raw_packet_socket k capture_protocol) (\<lambda>packet_socket.
     op_then (bind_packet_socket_to_interface k packet_socket name index capture_protocol) (\<lambda>_.
     op_then (op_lift (link_layer_broadcast_destination_for_scan name index send_protocol))
       (\<lambda>destination.
     op_return \<lparr>lle_packet_socket = packet_socket, lle_link_layer_destination = destination\<rparr>))))"

definition open_linux_link_layer_endpoint ::
    "'w linux_kernel \<Rightarrow> string \<Rightarrow> scan_wire_options \<Rightarrow> ('w, app_error, linux_link_layer_endpoint) op" where
  "open_linux_link_layer_endpoint k name wire =
     open_endpoint_with_protocols k name (packet_socket_protocol_for_wire_options wire)
       (link_layer_send_protocol_for_wire_options wire)"

definition monitor_packet_capture_protocol :: u16 where
  "monitor_packet_capture_protocol = ethernet_protocol_all"

definition open_linux_monitor_link_layer_endpoint ::
    "'w linux_kernel \<Rightarrow> string \<Rightarrow> ('w, app_error, linux_link_layer_endpoint) op" where
  "open_linux_monitor_link_layer_endpoint k name =
     open_endpoint_with_protocols k name monitor_packet_capture_protocol ethernet_protocol_arp"

section \<open>The endpoint\<close>

definition linux_send ::
    "'w linux_kernel \<Rightarrow> linux_link_layer_endpoint \<Rightarrow> u8 list \<Rightarrow> 'w \<Rightarrow> (io_error + unit) \<times> 'w" where
  "linux_send k e frame w =
     (case lk_sendto k (lle_packet_socket e) frame (lle_link_layer_destination e) w of
        (Inl x, w) \<Rightarrow> (Inl x, w) | (Inr sent, w) \<Rightarrow> (Inr (), w))"

definition linux_wait ::
    "'w linux_kernel \<Rightarrow> linux_link_layer_endpoint \<Rightarrow> nat \<Rightarrow> 'w \<Rightarrow> (app_error + bool) \<times> 'w" where
  "linux_wait k e timeout_milliseconds w =
     (case lk_poll k (lle_packet_socket e) timeout_milliseconds w of
        (Inr ready, w) \<Rightarrow> (Inr (ready \<noteq> 0), w)
      | (Inl source, w) \<Rightarrow> if io_kind source = Interrupted then (Inr False, w)
          else (Inl (PollWaitFailed source), w))"

text \<open>\<^verbatim>\<open>recvfrom\<close> fills the buffer from its start; an interrupted call is repeated.\<close>

fun linux_receive ::
    "nat \<Rightarrow> 'w linux_kernel \<Rightarrow> linux_link_layer_endpoint \<Rightarrow> u8 list \<Rightarrow> 'w
     \<Rightarrow> (stop + nat option) \<times> u8 list \<times> 'w" where
  "linux_receive 0 k e buffer w = (Inl OutOfFuel, buffer, w)"
| "linux_receive (Suc fuel) k e buffer w =
     (case lk_recvfrom k (lle_packet_socket e) (length buffer) w of
        (Inr received, w) \<Rightarrow>
          if received = [] then (Inr None, buffer, w)
          else (Inr (Some (length received)), write_slice 0 received buffer, w)
      | (Inl source, w) \<Rightarrow>
          if io_errno source = Some errno_eagain \<or> io_errno source = Some errno_ewouldblock
          then (Inr None, buffer, w)
          else if io_kind source = Interrupted then linux_receive fuel k e buffer w
          else (Inl (Failed (RawPacketReceiveFailed source)), buffer, w))"

definition linux_endpoint ::
    "nat \<Rightarrow> 'w linux_kernel \<Rightarrow> linux_link_layer_endpoint \<Rightarrow> 'w endpoint" where
  "linux_endpoint fuel k e =
     \<lparr>ep_send = linux_send k e, ep_wait = linux_wait k e, ep_receive = linux_receive fuel k e\<rparr>"

section \<open>The kernel's documented behaviour\<close>

text \<open>
  \<^verbatim>\<open>recvfrom\<close> with \<^verbatim>\<open>MSG_DONTWAIT\<close>, as \<^verbatim>\<open>packet(7)\<close> and \<^verbatim>\<open>signal(7)\<close> document it: a call that a
  signal interrupts reports \<^verbatim>\<open>EINTR\<close> and leaves the queue of the socket as it is; otherwise the call
  takes the oldest frame, cut to the buffer, or reports \<^verbatim>\<open>EAGAIN\<close> when there is none.
  \<open>signals w\<close> counts the signals that are still to arrive during calls.
\<close>

definition recvfrom_documented ::
    "'w linux_kernel \<Rightarrow> nat \<Rightarrow> ('w \<Rightarrow> u8 list list) \<Rightarrow> ('w \<Rightarrow> nat) \<Rightarrow> bool" where
  "recvfrom_documented k sock queue signals \<longleftrightarrow>
     (\<forall>w n. \<exists>r w'. lk_recvfrom k sock n w = (r, w')
       \<and> (if 0 < signals w
          then (\<exists>e. r = Inl e \<and> io_kind e = Interrupted \<and> io_errno e = Some 4)
               \<and> signals w' < signals w \<and> queue w' = queue w
          else signals w' = 0 \<and> (case queue w of
            [] \<Rightarrow> (\<exists>e. r = Inl e \<and> io_errno e = Some errno_eagain) \<and> queue w' = []
          | f # fs \<Rightarrow> r = Inr (take n f) \<and> queue w' = fs)))"

lemma linux_receive_settles:
  assumes "recvfrom_documented k (lle_packet_socket e) queue signals" and "signals w < fuel"
  shows "\<exists>w'. case queue w of
      [] \<Rightarrow> linux_receive fuel k e buf w = (Inr None, buf, w') \<and> queue w' = []
    | f # fs \<Rightarrow> queue w' = fs \<and> (take (length buf) f \<noteq> [] \<longrightarrow> linux_receive fuel k e buf w =
        (Inr (Some (length (take (length buf) f))), write_slice 0 (take (length buf) f) buf, w'))"
  using assms(2)
proof (induction fuel arbitrary: w)
  case (Suc fuel)
  obtain r w1 where run: "lk_recvfrom k (lle_packet_socket e) (length buf) w = (r, w1)"
    and law: "if 0 < signals w
      then (\<exists>x. r = Inl x \<and> io_kind x = Interrupted \<and> io_errno x = Some 4)
           \<and> signals w1 < signals w \<and> queue w1 = queue w
      else signals w1 = 0 \<and> (case queue w of
        [] \<Rightarrow> (\<exists>x. r = Inl x \<and> io_errno x = Some errno_eagain) \<and> queue w1 = []
      | f # fs \<Rightarrow> r = Inr (take (length buf) f) \<and> queue w1 = fs)"
    using assms(1) unfolding recvfrom_documented_def by blast
  show ?case
  proof (cases "0 < signals w")
    case True
    then obtain x where x: "r = Inl x" "io_kind x = Interrupted" "io_errno x = Some 4"
      and w1: "signals w1 < signals w" "queue w1 = queue w"
      using law by auto
    have "linux_receive (Suc fuel) k e buf w = linux_receive fuel k e buf w1"
      using run x by (simp add: errno_eagain_def errno_ewouldblock_def)
    moreover obtain w2 where "case queue w1 of
        [] \<Rightarrow> linux_receive fuel k e buf w1 = (Inr None, buf, w2) \<and> queue w2 = []
      | f # fs \<Rightarrow> queue w2 = fs \<and> (take (length buf) f \<noteq> [] \<longrightarrow> linux_receive fuel k e buf w1 =
          (Inr (Some (length (take (length buf) f))), write_slice 0 (take (length buf) f) buf, w2))"
      using Suc.IH [of w1] w1 Suc.prems by auto
    ultimately show ?thesis using w1 by (intro exI [of _ w2]) (simp split: list.splits)
  next
    case False
    then show ?thesis
      using law run by (intro exI [of _ w1]) (auto split: list.splits)
  qed
qed simp

lemma linux_frame_source:
  assumes "recvfrom_documented k (lle_packet_socket e) queue signals"
    and "\<And>w. signals w < fuel" and "\<And>w. [] \<notin> set (queue w)"
  shows "frame_source (linux_endpoint fuel k e) queue"
proof
  fix w :: 'a and buf :: "u8 list"
  assume "queue w = []"
  then show "\<exists>buf' w'. ep_receive (linux_endpoint fuel k e) buf w = (Inr None, buf', w')
      \<and> length buf' = length buf \<and> queue w' = []"
    using linux_receive_settles [OF assms(1,2), where w = w and buf = buf] by (auto simp: linux_endpoint_def)
next
  fix w :: 'a and f fs and buf :: "u8 list"
  assume q: "queue w = f # fs" and fits: "length f \<le> length buf"
  have "f \<noteq> []" using assms(3) [of w] q by auto
  then show "\<exists>buf' w'. ep_receive (linux_endpoint fuel k e) buf w = (Inr (Some (length f)), buf', w')
      \<and> take (length f) buf' = f \<and> length buf' = length buf \<and> queue w' = fs"
    using linux_receive_settles [OF assms(1,2), where w = w and buf = buf] q fits
    by (auto simp: linux_endpoint_def write_slice_def)
qed

text \<open>
  The kernel's calls beside a clock and a log of the frames: only \<^verbatim>\<open>sendto\<close> transmits, and
  \<^verbatim>\<open>recvfrom\<close> hands over what it reports, never more than the buffer holds.
\<close>

definition quiet_call :: "('w \<Rightarrow> timestamp) \<Rightarrow> ('w \<Rightarrow> event list) \<Rightarrow> ('w, 'e, 'a) op \<Rightarrow> bool" where
  "quiet_call time events m \<longleftrightarrow>
     (\<forall>w r w'. m w = (r, w') \<longrightarrow> time w \<le> time w' \<and> events w' = events w)"

definition kernel_logs :: "'w linux_kernel \<Rightarrow> ('w \<Rightarrow> timestamp) \<Rightarrow> ('w \<Rightarrow> event list) \<Rightarrow> bool" where
  "kernel_logs k time events \<longleftrightarrow>
     (\<forall>name. quiet_call time events (lk_interface_index k name))
     \<and> quiet_call time events (lk_open_inet_datagram_socket k)
     \<and> (\<forall>s c name. quiet_call time events (lk_ioctl_ifreq k s c name))
     \<and> quiet_call time events (lk_if_nameindex k)
     \<and> quiet_call time events (lk_list_interface_ipv4_addresses k)
     \<and> (\<forall>p. quiet_call time events (lk_open_packet_raw_socket k p))
     \<and> (\<forall>s a. quiet_call time events (lk_bind k s a))
     \<and> (\<forall>s t. quiet_call time events (lk_poll k s t))
     \<and> (\<forall>s f a w r w'. lk_sendto k s f a w = (r, w') \<longrightarrow>
          (\<exists>t. events w' = events w @ [Sent t f] \<and> time w \<le> t \<and> t \<le> time w'))
     \<and> (\<forall>s n w r w'. lk_recvfrom k s n w = (r, w') \<longrightarrow> time w \<le> time w' \<and>
          (case r of Inl _ \<Rightarrow> events w' = events w
           | Inr f \<Rightarrow> length f \<le> n
               \<and> events w' = (if f = [] then events w else events w @ [Read f])))"

definition clock_logs :: "'w clock \<Rightarrow> ('w \<Rightarrow> timestamp) \<Rightarrow> ('w \<Rightarrow> event list) \<Rightarrow> bool" where
  "clock_logs ck time events \<longleftrightarrow>
     monotonic_clock ck time
     \<and> (\<forall>w n w'. ck_now ck w = (n, w') \<longrightarrow> events w' = events w)
     \<and> (\<forall>t w. events (ck_sleep_until ck t w) = events w) \<and> (\<forall>d w. events (ck_sleep_for ck d w) = events w)
     \<and> (\<forall>d w. events (ck_unreadable ck d w) = events w) \<and> (\<forall>w. events (ck_after_send ck w) = events w)"

lemma linux_receive_logs:
  assumes "kernel_logs k time events"
  shows "linux_receive fuel k e buf w = (r, buf', w') \<Longrightarrow>
    time w \<le> time w' \<and> events w' = events w @ (case r of Inr (Some n) \<Rightarrow> [Read (take n buf')] | _ \<Rightarrow> [])"
proof (induction fuel arbitrary: w)
  case (Suc fuel)
  obtain q w1 where run: "lk_recvfrom k (lle_packet_socket e) (length buf) w = (q, w1)" by fastforce
  then have log: "time w \<le> time w1" "case q of Inl _ \<Rightarrow> events w1 = events w
      | Inr f \<Rightarrow> length f \<le> length buf \<and> events w1 = (if f = [] then events w else events w @ [Read f])"
    using assms unfolding kernel_logs_def by blast+
  show ?case
  proof (cases q)
    case (Inr f)
    then show ?thesis
      using Suc.prems run log by (auto simp: write_slice_def split: if_splits)
  next
    case (Inl x)
    then show ?thesis
      using Suc.prems run log Suc.IH [of w1] by (auto split: if_splits)
  qed
qed auto

lemma linux_timed_endpoint:
  assumes k: "kernel_logs k time events" and ck: "clock_logs ck time events"
  shows "timed_endpoint ck time (linux_endpoint fuel k e) events"
proof (intro timed_endpoint.intro timed_endpoint_axioms.intro)
  show "monotonic_clock ck time" using ck by (simp add: clock_logs_def)
  show "\<exists>t. events w' = events w @ [Sent t frame] \<and> time w \<le> t \<and> t \<le> time w'"
    if "ep_send (linux_endpoint fuel k e) frame w = (r, w')" for frame w r w'
  proof -
    obtain q w1 where send: "lk_sendto k (lle_packet_socket e) frame (lle_link_layer_destination e) w = (q, w1)"
      by fastforce
    moreover have "w1 = w'"
      using that send by (auto simp: linux_endpoint_def linux_send_def split: sum.splits)
    ultimately show ?thesis using k unfolding kernel_logs_def by blast
  qed
  show "time w \<le> time w' \<and> events w' = events w"
    if "ep_wait (linux_endpoint fuel k e) ms w = (r', w')" for ms w r' w'
  proof -
    obtain q w1 where poll: "lk_poll k (lle_packet_socket e) ms w = (q, w1)" by fastforce
    moreover have "w1 = w'"
      using that poll by (auto simp: linux_endpoint_def linux_wait_def split: sum.splits if_splits)
    ultimately show ?thesis using k unfolding kernel_logs_def quiet_call_def by blast
  qed
  show "time w \<le> time w' \<and> events w' = events w @ (case r of Inr (Some n) \<Rightarrow> [Read (take n buf')] | _ \<Rightarrow> [])"
    if "ep_receive (linux_endpoint fuel k e) buf w = (r, buf', w')" for buf w r buf' w'
    using linux_receive_logs [OF k] that by (simp add: linux_endpoint_def)
qed (use ck in \<open>auto simp: clock_logs_def\<close>)

text \<open>Every other call of the backend is quiet.\<close>

named_theorems quiet

lemma quiet_basic [quiet]:
  "quiet_call time events (op_lift r)" "quiet_call time events (op_return x)"
  by (auto simp: quiet_call_def op_lift_def op_return_def)

lemma quiet_then [quiet]:
  assumes "quiet_call time events m" and "\<And>x. quiet_call time events (f x)"
  shows "quiet_call time events (op_then m f)"
  unfolding quiet_call_def
proof (intro allI impI)
  fix w r w'
  assume run: "op_then m f w = (r, w')"
  obtain q w1 where m: "m w = (q, w1)" by fastforce
  then have 1: "time w \<le> time w1 \<and> events w1 = events w" using assms(1) unfolding quiet_call_def by blast
  show "time w \<le> time w' \<and> events w' = events w"
  proof (cases q)
    case (Inr x)
    then have "f x w1 = (r, w')" using run m by (simp add: op_then_def)
    then have "time w1 \<le> time w' \<and> events w' = events w1" using assms(2) unfolding quiet_call_def by blast
    then show ?thesis using 1 by auto
  qed (use run m 1 in \<open>simp add: op_then_def\<close>)
qed

lemma quiet_map_err [quiet]:
  "quiet_call time events m \<Longrightarrow> quiet_call time events (op_map_err g m)"
  unfolding quiet_call_def op_map_err_def by (auto split: prod.splits)

lemma quiet_if [quiet]:
  "quiet_call time events m \<Longrightarrow> quiet_call time events n \<Longrightarrow> quiet_call time events (if b then m else n)"
  by simp

lemma kernel_quiet [quiet]:
  assumes "kernel_logs k time events"
  shows "quiet_call time events (lk_interface_index k name)"
    "quiet_call time events (lk_open_inet_datagram_socket k)"
    "quiet_call time events (lk_ioctl_ifreq k s c name)"
    "quiet_call time events (lk_if_nameindex k)"
    "quiet_call time events (lk_list_interface_ipv4_addresses k)"
    "quiet_call time events (lk_open_packet_raw_socket k p)"
    "quiet_call time events (lk_bind k s a)"
    "quiet_call time events (lk_poll k s t)"
  using assms by (simp_all add: kernel_logs_def)

lemma socket_quiet [quiet]:
  assumes "kernel_logs k time events"
  shows "quiet_call time events (query_interface k s c failure name)"
    and "quiet_call time events (interface_index_from_name k name)"
    and "quiet_call time events (read_interface_flags_with_control_socket k s name)"
    and "quiet_call time events (read_interface_flags k name)"
    and "quiet_call time events (open_raw_packet_socket k p)"
    and "quiet_call time events (bind_packet_socket_to_interface k s name i p)"
  unfolding query_interface_def interface_index_from_name_def
    read_interface_flags_with_control_socket_def read_interface_flags_def open_raw_packet_socket_def
    bind_packet_socket_to_interface_def
  by (intro quiet assms)+

section \<open>The protocols of the socket\<close>

lemma request_type_field:
  assumes "l = address_resolution_request_layout wire mac ip target"
  shows "\<exists>rest. encode_request_from_layout l =
    octets (rl_ethernet_destination l) @ octets (rl_ethernet_source l)
    @ u16_to_be (case ieee_8021q_tag_stack wire of
        Some st \<Rightarrow> outer_tag_protocol_identifier st | None \<Rightarrow> layout_type_field l) @ rest"
proof -
  have tag: "rl_vlan_tag l = ieee_8021q_tag_stack wire"
    by (simp add: assms address_resolution_request_layout_def Let_def split: arp_sender_protocol_address.splits)
  show ?thesis
    unfolding encode_request_body layout_body_def tag
    by (cases "ieee_8021q_tag_stack wire") (simp_all add: tag_octets_def append_ieee_8021q_tag_stack_def)
qed

text \<open>
  C28: a transmitted request carries, as its outermost length/type value, the protocol that the
  packet socket is told to send, except that an untagged LLC/SNAP request carries its length and is
  sent as \<^verbatim>\<open>ETH_P_802_2\<close>; and the socket captures only \<^verbatim>\<open>ETH_P_ARP\<close> exactly when that value is ARP.
\<close>

theorem send_protocol_on_the_wire:
  assumes "validate_ieee_8021q_tag_stack wire = Ok ()"
    and "validate_ieee_8023_mac_client_data wire = Ok ()"
  shows "\<exists>type_field rest.
    encode_request_from_layout (address_resolution_request_layout wire mac ip target) =
      octets (rl_ethernet_destination (address_resolution_request_layout wire mac ip target))
      @ octets (rl_ethernet_source (address_resolution_request_layout wire mac ip target))
      @ u16_to_be type_field @ rest
    \<and> (if wo_llc_snap wire \<and> wo_vlan_identifier wire = None
       then type_field \<le> 1500 \<and> link_layer_send_protocol_for_wire_options wire = 0x0004
       else type_field = link_layer_send_protocol_for_wire_options wire)
    \<and> (packet_socket_protocol_for_wire_options wire = 0x0806 \<longleftrightarrow> type_field = 0x0806)"
proof -
  let ?l = "address_resolution_request_layout wire mac ip target"
  let ?tf = "case ieee_8021q_tag_stack wire of Some st \<Rightarrow> outer_tag_protocol_identifier st
    | None \<Rightarrow> layout_type_field ?l"
  have "(if wo_llc_snap wire \<and> wo_vlan_identifier wire = None
       then ?tf \<le> 1500 \<and> link_layer_send_protocol_for_wire_options wire = 0x0004
       else ?tf = link_layer_send_protocol_for_wire_options wire)
    \<and> (packet_socket_protocol_for_wire_options wire = 0x0806 \<longleftrightarrow> ?tf = 0x0806)"
  proof (cases "wo_vlan_identifier wire")
    case (Some vid)
    then obtain st where st: "ieee_8021q_tag_stack wire = Some st"
      by (simp add: ieee_8021q_tag_stack_def Let_def)
    have "outer_tag_protocol_identifier st \<noteq> 0x0806"
      by (cases st) (simp_all add: frame_constants)
    then show ?thesis
      using Some st by (simp add: link_layer_send_protocol_for_wire_options_def
          packet_socket_protocol_for_wire_options_def ethernet_protocol_all_def)
  next
    case None
    then have stack: "ieee_8021q_tag_stack wire = None" "wo_service_vlan_identifier wire = None"
      using assms(1) by (auto simp: ieee_8021q_tag_stack_def validate_ieee_8021q_tag_stack_def
          split: option.splits)
    have tf: "?tf = (if wo_llc_snap wire then snap_length_field (encode_arp_header ?l @ rl_padding ?l)
        else protocol_arp)"
      by (simp add: stack layout_type_field_def address_resolution_request_layout_def)
    have "snap_length_field (encode_arp_header ?l @ rl_padding ?l) \<le> 1500" if "wo_llc_snap wire"
      by (rule snap_length_field_small(1))
        (use assms(2) that in \<open>simp add: validate_mac_client_data_Ok_iff maximum_padding_value
          address_resolution_request_layout_def\<close>)
    moreover have "(2054 :: u16) \<le> 1500 \<Longrightarrow> False" by (simp add: word_le_nat_alt)
    ultimately show ?thesis
      unfolding tf using None stack
      by (auto simp: link_layer_send_protocol_for_wire_options_def protocol_arp_def
          packet_socket_protocol_for_wire_options_def ethernet_protocol_all_def
          ethernet_protocol_arp_def ethernet_protocol_ieee_802_2_def)
  qed
  then show ?thesis using request_type_field [OF refl, of wire mac ip target] by blast
qed

lemma send_protocol_on_the_wire_witness:
  "\<exists>type_field rest.
    encode_request_from_layout (address_resolution_request_layout default_wire_options mac_zero 1 2) =
      octets mac_broadcast @ octets mac_zero @ u16_to_be type_field @ rest
    \<and> type_field = link_layer_send_protocol_for_wire_options default_wire_options"
  using send_protocol_on_the_wire [of default_wire_options mac_zero 1 2]
  by (auto simp: validate_ieee_8021q_tag_stack_def default_wire_options_def
      validate_mac_client_data_Ok_iff address_resolution_request_layout_def unwrap_or_def)

end
