(* ===== verification/Linux_Discovery.thy ===== *)
theory Linux_Discovery
  imports Linux_Socket "HOL-Library.Product_Lexorder" "HOL-Library.List_Lexorder" "HOL-Library.Char_ord"
    "HOL-Library.Multiset"
begin

text \<open>
  \<^verbatim>\<open>src/linux_interface_discovery.rs\<close>: the addresses of an interface, the interfaces that can be
  scanned, and the choice of one. A \<^verbatim>\<open>sockaddr\<close> is its octets: a little-endian family and fourteen
  octets of data.
\<close>

section \<open>Socket addresses\<close>

definition af_inet :: nat where "af_inet = 2"
definition arphrd_ether :: nat where "arphrd_ether = 1"

definition sa_family :: "u8 list \<Rightarrow> nat" where
  "sa_family sockaddr = unat (u16_from_be (sockaddr ! 1) (sockaddr ! 0))"

definition sa_data :: "u8 list \<Rightarrow> u8 list" where
  "sa_data sockaddr = take 14 (drop 2 sockaddr)"

text \<open>In \<^verbatim>\<open>sockaddr_in\<close> the address follows the family and the port.\<close>

definition read_ipv4_from_sockaddr :: "u8 list \<Rightarrow> (nat \<Rightarrow> app_error) \<Rightarrow> app_error + ipv4" where
  "read_ipv4_from_sockaddr sockaddr wrong_family_error =
     (if sa_family sockaddr \<noteq> af_inet then Err (wrong_family_error (sa_family sockaddr))
      else Ok (ipv4_new (sockaddr ! 4) (sockaddr ! 5) (sockaddr ! 6) (sockaddr ! 7)))"

definition read_hardware_address_from_sockaddr :: "string \<Rightarrow> u8 list \<Rightarrow> app_error + mac_address" where
  "read_hardware_address_from_sockaddr name sockaddr =
     (if sa_family sockaddr \<noteq> arphrd_ether
      then Err (InterfaceHardwareAddressUnsupported name
        (''hardware address family is not Ethernet (expected '' @ show_nat arphrd_ether @ '', got ''
         @ show_nat (sa_family sockaddr) @ '')''))
      else
        let address = from_octets (take 6 (sa_data sockaddr)) in
        if is_zero address
        then Err (InterfaceHardwareAddressUnsupported name ''hardware address is all zero'')
        else Ok address)"

section \<open>Queries\<close>

definition read_interface_ipv4_address_with_control_socket ::
    "'w linux_kernel \<Rightarrow> nat \<Rightarrow> string \<Rightarrow> ('w, app_error, ipv4) op" where
  "read_interface_ipv4_address_with_control_socket k s name =
     op_then (query_interface k s siocgifaddr_request (InterfaceIpv4AddressQueryFailed name) name)
       (\<lambda>ifru. op_lift (read_ipv4_from_sockaddr ifru InterfaceIpv4AddressInvalidFamily))"

definition read_interface_ipv4_netmask_with_control_socket ::
    "'w linux_kernel \<Rightarrow> nat \<Rightarrow> string \<Rightarrow> ('w, app_error, ipv4) op" where
  "read_interface_ipv4_netmask_with_control_socket k s name =
     op_then (query_interface k s siocgifnetmask_request (InterfaceIpv4NetmaskQueryFailed name) name)
       (\<lambda>ifru. op_lift (read_ipv4_from_sockaddr ifru (InterfaceIpv4NetmaskInvalidFamily name)))"

definition read_interface_hardware_address_with_control_socket ::
    "'w linux_kernel \<Rightarrow> nat \<Rightarrow> string \<Rightarrow> ('w, app_error, mac_address) op" where
  "read_interface_hardware_address_with_control_socket k s name =
     op_then (query_interface k s siocgifhwaddr_request (InterfaceHardwareAddressQueryFailed name) name)
       (\<lambda>ifru. op_lift (read_hardware_address_from_sockaddr name ifru))"

definition interface_flags_allow_arp_scanning :: "32 word \<Rightarrow> bool" where
  "interface_flags_allow_arp_scanning flags \<longleftrightarrow>
     and flags interface_flag_loopback = 0 \<and> and flags interface_flag_no_arp = 0
     \<and> and flags interface_flag_up \<noteq> 0"

text \<open>Every failure of a query makes the interface unusable: \<^verbatim>\<open>.ok()?\<close>.\<close>

definition op_ok :: "('w, 'e, 'a) op \<Rightarrow> ('a \<Rightarrow> 'w \<Rightarrow> 'b option \<times> 'w) \<Rightarrow> 'w \<Rightarrow> 'b option \<times> 'w" where
  "op_ok m f w = (case m w of (Inl e, w) \<Rightarrow> (None, w) | (Inr x, w) \<Rightarrow> f x w)"

definition try_build_arp_scan_interface_candidate ::
    "'w linux_kernel \<Rightarrow> nat \<Rightarrow> string \<Rightarrow> nat \<Rightarrow> 'w \<Rightarrow> arp_scan_interface_candidate option \<times> 'w" where
  "try_build_arp_scan_interface_candidate k s name index =
     op_ok (op_lift (validate_interface_name_for_linux_packet_socket name)) (\<lambda>_.
     op_ok (read_interface_flags_with_control_socket k s name) (\<lambda>flags w.
     if \<not> interface_flags_allow_arp_scanning flags then (None, w)
     else
       op_ok (read_interface_ipv4_address_with_control_socket k s name) (\<lambda>source.
       op_ok (read_interface_ipv4_netmask_with_control_socket k s name) (\<lambda>netmask.
       op_ok (read_interface_hardware_address_with_control_socket k s name) (\<lambda>mac w.
       (Some \<lparr>cand_interface_name = name, cand_interface_index = index,
          cand_source_ipv4_address = source, cand_ipv4_netmask = netmask,
          cand_source_mac_address = mac\<rparr>, w)))) w))"

fun collect_candidates ::
    "'w linux_kernel \<Rightarrow> nat \<Rightarrow> (string \<times> nat) list \<Rightarrow> 'w \<Rightarrow> arp_scan_interface_candidate list \<times> 'w" where
  "collect_candidates k s [] w = ([], w)"
| "collect_candidates k s ((name, index) # pairs) w =
     (let (found, w) = try_build_arp_scan_interface_candidate k s name index w;
          (rest, w) = collect_candidates k s pairs w in
      ((case found of None \<Rightarrow> rest | Some c \<Rightarrow> c # rest), w))"

text \<open>\<^verbatim>\<open>sort_by_key\<close> of the wrapper, and the stable sort by index and then name.\<close>

definition list_interface_name_and_index_pairs ::
    "'w linux_kernel \<Rightarrow> ('w, io_error, (string \<times> nat) list) op" where
  "list_interface_name_and_index_pairs k =
     op_then (lk_if_nameindex k) (\<lambda>pairs. op_return (sort_key snd pairs))"

definition candidate_key :: "arp_scan_interface_candidate \<Rightarrow> nat \<times> string" where
  "candidate_key c = (cand_interface_index c, cand_interface_name c)"

definition enumerate_usable_arp_scan_interface_candidates ::
    "'w linux_kernel \<Rightarrow> ('w, app_error, arp_scan_interface_candidate list) op" where
  "enumerate_usable_arp_scan_interface_candidates k =
     op_then (op_map_err InterfaceEnumerationFailed (list_interface_name_and_index_pairs k)) (\<lambda>pairs.
     op_then (op_map_err Io (lk_open_inet_datagram_socket k)) (\<lambda>s w.
     case collect_candidates k s pairs w of (candidates, w) \<Rightarrow>
       (Inr (sort_key candidate_key candidates), w)))"

definition discover_interface_scan_addresses ::
    "'w linux_kernel \<Rightarrow> string \<Rightarrow> ('w, app_error, interface_scan_addresses) op" where
  "discover_interface_scan_addresses k name =
     op_then (op_lift (validate_interface_name_for_linux_packet_socket name)) (\<lambda>_.
     op_then (op_map_err Io (lk_open_inet_datagram_socket k)) (\<lambda>s.
     op_then (read_interface_ipv4_address_with_control_socket k s name) (\<lambda>source.
     op_then (read_interface_ipv4_netmask_with_control_socket k s name) (\<lambda>netmask.
     op_then (read_interface_hardware_address_with_control_socket k s name) (\<lambda>mac.
     op_return \<lparr>isa_source_ipv4_address = source, isa_ipv4_netmask = netmask,
       isa_source_mac_address = mac\<rparr>)))))"

definition resolve_scan_interface_name ::
    "'w linux_kernel \<Rightarrow> string option \<Rightarrow> ('w, app_error, string) op" where
  "resolve_scan_interface_name k explicit_interface_name =
     (case explicit_interface_name of
        Some name \<Rightarrow>
          op_then (op_lift (validate_interface_name_for_linux_packet_socket name)) (\<lambda>_.
          op_then (validated_interface_index_for_arp_scanning k name) (\<lambda>_.
          op_then (discover_interface_scan_addresses k name) (\<lambda>_.
          op_return name)))
      | None \<Rightarrow>
          op_then (enumerate_usable_arp_scan_interface_candidates k) (\<lambda>candidates.
          op_lift (case candidates of
              [] \<Rightarrow> Err AutomaticInterfaceSelectionNoneFound
            | [c] \<Rightarrow> Ok (cand_interface_name c)
            | _ \<Rightarrow> Err (AutomaticInterfaceSelectionAmbiguous (map cand_interface_name candidates)))))"

definition configured_ipv4_addresses :: "string \<Rightarrow> ipv4 \<Rightarrow> (string \<times> ipv4) list \<Rightarrow> ipv4 list" where
  "configured_ipv4_addresses name primary records =
     primary # map snd (filter (\<lambda>r. fst r = name) records)"

definition discover_monitor_interface_identity ::
    "'w linux_kernel \<Rightarrow> string \<Rightarrow> ('w, app_error, monitor_interface_identity) op" where
  "discover_monitor_interface_identity k name =
     op_then (op_lift (validate_interface_name_for_linux_packet_socket name)) (\<lambda>_.
     op_then (validated_interface_index_for_arp_scanning k name) (\<lambda>_.
     op_then (discover_interface_scan_addresses k name) (\<lambda>primary.
     op_then (op_map_err InterfaceEnumerationFailed (lk_list_interface_ipv4_addresses k)) (\<lambda>records.
     let identity = identity_from_addresses
           (configured_ipv4_addresses name (isa_source_ipv4_address primary) records)
           (isa_source_mac_address primary) in
     op_lift (if mii_ipv4_addresses identity = []
       then Err (InterfaceRejectedForScanning name ''interface has no IPv4 address'')
       else Ok identity)))))"

section \<open>Discovery is quiet\<close>

lemma interface_reads_quiet [quiet]:
  assumes "kernel_logs k time events"
  shows "quiet_call time events (read_interface_ipv4_address_with_control_socket k s name)"
    and "quiet_call time events (read_interface_ipv4_netmask_with_control_socket k s name)"
    and "quiet_call time events (read_interface_hardware_address_with_control_socket k s name)"
  unfolding read_interface_ipv4_address_with_control_socket_def
    read_interface_ipv4_netmask_with_control_socket_def
    read_interface_hardware_address_with_control_socket_def
  by (intro quiet assms)+

lemma validated_index_quiet [quiet]:
  "kernel_logs k time events \<Longrightarrow> quiet_call time events (validated_interface_index_for_arp_scanning k name)"
  unfolding validated_interface_index_for_arp_scanning_def by (intro quiet)

lemma discover_quiet [quiet]:
  "kernel_logs k time events \<Longrightarrow> quiet_call time events (discover_interface_scan_addresses k name)"
  unfolding discover_interface_scan_addresses_def by (intro quiet)

lemma monitor_identity_quiet [quiet]:
  "kernel_logs k time events \<Longrightarrow> quiet_call time events (discover_monitor_interface_identity k name)"
  unfolding discover_monitor_interface_identity_def Let_def by (intro quiet)

lemma open_endpoint_quiet [quiet]:
  "kernel_logs k time events \<Longrightarrow> quiet_call time events (open_linux_link_layer_endpoint k name wire)"
  "kernel_logs k time events \<Longrightarrow> quiet_call time events (open_linux_monitor_link_layer_endpoint k name)"
  unfolding open_linux_link_layer_endpoint_def open_linux_monitor_link_layer_endpoint_def
    open_endpoint_with_protocols_def by (intro quiet; assumption)+

text \<open>The candidates are collected through \<^verbatim>\<open>.ok()?\<close>, which keeps the world of a failed query.\<close>

definition quiet_step :: "('w \<Rightarrow> timestamp) \<Rightarrow> ('w \<Rightarrow> event list) \<Rightarrow> ('w \<Rightarrow> 'a \<times> 'w) \<Rightarrow> bool" where
  "quiet_step time events m \<longleftrightarrow>
     (\<forall>w x w'. m w = (x, w') \<longrightarrow> time w \<le> time w' \<and> events w' = events w)"

lemma quiet_step_ok:
  assumes "quiet_call time events m" and "\<And>x. quiet_step time events (f x)"
  shows "quiet_step time events (op_ok m f)"
  unfolding quiet_step_def
proof (intro allI impI)
  fix w y w'
  assume run: "op_ok m f w = (y, w')"
  obtain q w1 where m: "m w = (q, w1)" by fastforce
  then have 1: "time w \<le> time w1 \<and> events w1 = events w" using assms(1) unfolding quiet_call_def by blast
  show "time w \<le> time w' \<and> events w' = events w"
  proof (cases q)
    case (Inr x)
    then have "f x w1 = (y, w')" using run m by (simp add: op_ok_def)
    then have "time w1 \<le> time w' \<and> events w' = events w1" using assms(2) unfolding quiet_step_def by blast
    then show ?thesis using 1 by auto
  qed (use run m 1 in \<open>simp add: op_ok_def\<close>)
qed

lemma quiet_step_pure:
  "quiet_step time events (\<lambda>w. (x, w))"
  "quiet_step time events m \<Longrightarrow> quiet_step time events n \<Longrightarrow> quiet_step time events (\<lambda>w. if b then m w else n w)"
  by (simp_all add: quiet_step_def)

lemma candidate_quiet:
  assumes "kernel_logs k time events"
  shows "quiet_step time events (try_build_arp_scan_interface_candidate k s name index)"
  unfolding try_build_arp_scan_interface_candidate_def
  by (intro quiet_step_ok quiet_step_pure quiet assms)

lemma candidates_quiet:
  assumes "kernel_logs k time events"
  shows "quiet_step time events (collect_candidates k s pairs)"
proof (induction pairs)
  case (Cons p pairs)
  obtain name index where p: "p = (name, index)" by (cases p)
  show ?case
    unfolding quiet_step_def
  proof (intro allI impI)
    fix w x w'
    assume run: "collect_candidates k s (p # pairs) w = (x, w')"
    obtain c w1 where c: "try_build_arp_scan_interface_candidate k s name index w = (c, w1)" by fastforce
    obtain cs w2 where cs: "collect_candidates k s pairs w1 = (cs, w2)" by fastforce
    have "time w \<le> time w1 \<and> events w1 = events w"
      using candidate_quiet [OF assms] c unfolding quiet_step_def by blast
    moreover have "time w1 \<le> time w2 \<and> events w2 = events w1"
      using Cons.IH cs unfolding quiet_step_def by blast
    moreover have "w' = w2" using run p c cs by simp
    ultimately show "time w \<le> time w' \<and> events w' = events w" by auto
  qed
qed (simp add: quiet_step_def)

lemma enumerate_quiet [quiet]:
  assumes "kernel_logs k time events"
  shows "quiet_call time events (enumerate_usable_arp_scan_interface_candidates k)"
proof -
  have "quiet_call time events (\<lambda>w. case collect_candidates k s pairs w of (candidates, w) \<Rightarrow>
      (Inr (sort_key candidate_key candidates), w))" for s pairs
    unfolding quiet_call_def
    using candidates_quiet [OF assms, of s pairs] by (auto simp: quiet_step_def split: prod.splits)
  then show ?thesis
    unfolding enumerate_usable_arp_scan_interface_candidates_def list_interface_name_and_index_pairs_def
    by (intro quiet assms)
qed

lemma resolve_quiet [quiet]:
  assumes "kernel_logs k time events"
  shows "quiet_call time events (resolve_scan_interface_name k name)"
  unfolding resolve_scan_interface_name_def
  by (cases name; simp only: option.case; intro quiet assms)

section \<open>A host at rest\<close>

text \<open>
  A host whose interfaces do not change while they are queried: the requests for a name have fixed
  answers, and \<open>pairs\<close> are its interfaces.
\<close>

definition quiescent_kernel ::
    "'w linux_kernel \<Rightarrow> (nat \<Rightarrow> string \<Rightarrow> io_error + u8 list) \<Rightarrow> (string \<Rightarrow> io_error + nat)
     \<Rightarrow> (string \<times> nat) list \<Rightarrow> bool" where
  "quiescent_kernel k ioctl indexes pairs \<longleftrightarrow>
     (\<forall>w. \<exists>s. lk_open_inet_datagram_socket k w = (Inr s, w))
     \<and> (\<forall>s c r w. lk_ioctl_ifreq k s c r w = (ioctl c (c_string r), w))
     \<and> (\<forall>name w. lk_interface_index k name w = (indexes name, w))
     \<and> (\<forall>w. lk_if_nameindex k w = (Inr pairs, w))"

definition usable_interface :: "(nat \<Rightarrow> string \<Rightarrow> io_error + u8 list) \<Rightarrow> string \<Rightarrow> bool" where
  "usable_interface ioctl name \<longleftrightarrow>
     name \<noteq> [] \<and> length name \<le> 15 \<and> CHR ''/'' \<notin> set name \<and> CHR 0x00 \<notin> set name
     \<and> (case ioctl siocgifflags_request name of Inl _ \<Rightarrow> False
        | Inr f \<Rightarrow> interface_flags_allow_arp_scanning (ifru_flags f))
     \<and> (case ioctl siocgifaddr_request name of Inl _ \<Rightarrow> False | Inr a \<Rightarrow> sa_family a = 2)
     \<and> (case ioctl siocgifnetmask_request name of Inl _ \<Rightarrow> False | Inr a \<Rightarrow> sa_family a = 2)
     \<and> (case ioctl siocgifhwaddr_request name of Inl _ \<Rightarrow> False
        | Inr a \<Rightarrow> sa_family a = 1 \<and> \<not> is_zero (from_octets (take 6 (sa_data a))))"

lemma flags_checks_agree:
  "validate_interface_flags_for_arp_scanning name flags = Ok () \<longleftrightarrow>
     interface_flags_allow_arp_scanning flags"
  by (simp add: validate_interface_flags_for_arp_scanning_def interface_flags_allow_arp_scanning_def)

lemma query_quiescent:
  assumes "quiescent_kernel k ioctl indexes pairs"
    and "validate_interface_name_for_linux_packet_socket name = Ok ()"
  shows "query_interface k s c failure name w = (map_err failure (ioctl c name), w)"
proof -
  obtain buffer where "copy_interface_name_to_ifreq name = Ok buffer" "c_string buffer = name"
    using validated_name_copied [OF assms(2)] by blast
  then show ?thesis
    using assms(1) by (simp add: query_interface_def op_map_err_def quiescent_kernel_def)
qed

definition candidate_of ::
    "(nat \<Rightarrow> string \<Rightarrow> io_error + u8 list) \<Rightarrow> string \<times> nat \<Rightarrow> arp_scan_interface_candidate" where
  "candidate_of ioctl p =
     (let ipv4 = (\<lambda>c. case ioctl c (fst p) of Inr a \<Rightarrow> ipv4_new (a ! 4) (a ! 5) (a ! 6) (a ! 7) | Inl _ \<Rightarrow> 0) in
      \<lparr>cand_interface_name = fst p, cand_interface_index = snd p,
       cand_source_ipv4_address = ipv4 siocgifaddr_request,
       cand_ipv4_netmask = ipv4 siocgifnetmask_request,
       cand_source_mac_address = (case ioctl siocgifhwaddr_request (fst p) of
          Inr a \<Rightarrow> from_octets (take 6 (sa_data a)) | Inl _ \<Rightarrow> mac_zero)\<rparr>)"

lemmas interface_reads =
  read_interface_flags_with_control_socket_def read_interface_ipv4_address_with_control_socket_def
  read_interface_ipv4_netmask_with_control_socket_def
  read_interface_hardware_address_with_control_socket_def read_ipv4_from_sockaddr_def
  read_hardware_address_from_sockaddr_def af_inet_def arphrd_ether_def

lemma try_build_quiescent:
  assumes "quiescent_kernel k ioctl indexes pairs"
  shows "try_build_arp_scan_interface_candidate k s name index w =
    (if usable_interface ioctl name then Some (candidate_of ioctl (name, index)) else None, w)"
proof (cases "validate_interface_name_for_linux_packet_socket name")
  case (Inl e)
  then have "\<not> usable_interface ioctl name"
    using validate_interface_name_Ok_iff [of name] by (auto simp: usable_interface_def)
  then show ?thesis
    using Inl by (simp add: try_build_arp_scan_interface_candidate_def op_ok_def op_lift_def)
next
  case (Inr u)
  note q = query_quiescent [OF assms, of name]
  have ok: "validate_interface_name_for_linux_packet_socket name = Ok ()" using Inr by simp
  note q' = q [OF ok] and name = ok [unfolded validate_interface_name_Ok_iff]
  show ?thesis
    unfolding try_build_arp_scan_interface_candidate_def op_ok_def interface_reads op_then_def q' ok
    using name
    by (auto simp: op_lift_def op_return_def usable_interface_def candidate_of_def Let_def
        split: sum.split)
qed

lemma collect_quiescent:
  assumes "quiescent_kernel k ioctl indexes pairs"
  shows "collect_candidates k s ps w =
    (map (candidate_of ioctl) (filter (\<lambda>p. usable_interface ioctl (fst p)) ps), w)"
  by (induction ps) (auto simp: try_build_quiescent [OF assms])

definition by_index :: "(string \<times> nat) list \<Rightarrow> (string \<times> nat) list" where
  "by_index pairs = sort_key (\<lambda>p. (snd p, fst p)) pairs"

lemma sort_key_swap: "mset xs = mset ys \<Longrightarrow> by_index xs = by_index ys"
proof -
  assume same: "mset xs = mset ys"
  let ?f = "\<lambda>p :: string \<times> nat. (snd p, fst p)"
  have "inj_on ?f (set xs)" by (auto intro: inj_onI)
  then show ?thesis
    unfolding by_index_def by (intro sort_key_inj_key_eq) (use same in simp_all)
qed

lemma insort_map: "(\<And>x. f (g x) = h x) \<Longrightarrow> insort_key f (g y) (map g xs) = map g (insort_key h y xs)"
  by (induction xs) simp_all

lemma sorted_candidates:
  "sort_key candidate_key (map (candidate_of ioctl) ps) = map (candidate_of ioctl) (by_index ps)"
proof -
  have key: "candidate_key (candidate_of ioctl p) = (snd p, fst p)" for p
    by (simp add: candidate_key_def candidate_of_def Let_def)
  show ?thesis
    unfolding by_index_def by (induction ps) (simp_all add: insort_map [where f = candidate_key and g = "candidate_of ioctl"
        and h = "\<lambda>p. (snd p, fst p)", OF key])
qed

lemma enumerate_quiescent:
  assumes "quiescent_kernel k ioctl indexes pairs"
  shows "enumerate_usable_arp_scan_interface_candidates k w =
    (Inr (map (candidate_of ioctl) (by_index (filter (\<lambda>p. usable_interface ioctl (fst p)) pairs))), w)"
proof -
  have list: "op_map_err InterfaceEnumerationFailed (list_interface_name_and_index_pairs k) w =
      (Inr (sort_key snd pairs), w)"
    using assms by (simp add: op_map_err_def list_interface_name_and_index_pairs_def op_then_def
        op_return_def quiescent_kernel_def)
  obtain s where "lk_open_inet_datagram_socket k w = (Inr s, w)"
    using assms unfolding quiescent_kernel_def by blast
  then have s: "op_map_err Io (lk_open_inet_datagram_socket k) w = (Inr s, w)"
    by (simp add: op_map_err_def)
  have "by_index (filter (\<lambda>p. usable_interface ioctl (fst p)) (sort_key snd pairs)) =
      by_index (filter (\<lambda>p. usable_interface ioctl (fst p)) pairs)"
    by (rule sort_key_swap) (simp add: mset_filter)
  then show ?thesis
    unfolding enumerate_usable_arp_scan_interface_candidates_def op_then_def list
    by (simp add: s collect_quiescent [OF assms] sorted_candidates)
qed

text \<open>The steps of an explicit request, over a host at rest and a valid name.\<close>

lemma explicit_reads:
  assumes "quiescent_kernel k ioctl indexes pairs"
    and "validate_interface_name_for_linux_packet_socket name = Ok ()"
  shows "read_interface_flags_with_control_socket k s name w = (Inr x, w') \<longleftrightarrow>
      w' = w \<and> (\<exists>f. ioctl siocgifflags_request name = Inr f \<and> x = ifru_flags f)"
    and "read_interface_ipv4_address_with_control_socket k s name w = (Inr y, w') \<longleftrightarrow>
      w' = w \<and> (\<exists>a. ioctl siocgifaddr_request name = Inr a \<and> sa_family a = 2
        \<and> y = ipv4_new (a ! 4) (a ! 5) (a ! 6) (a ! 7))"
    and "read_interface_ipv4_netmask_with_control_socket k s name w = (Inr y, w') \<longleftrightarrow>
      w' = w \<and> (\<exists>a. ioctl siocgifnetmask_request name = Inr a \<and> sa_family a = 2
        \<and> y = ipv4_new (a ! 4) (a ! 5) (a ! 6) (a ! 7))"
    and "read_interface_hardware_address_with_control_socket k s name w = (Inr z, w') \<longleftrightarrow>
      w' = w \<and> (\<exists>a. ioctl siocgifhwaddr_request name = Inr a \<and> sa_family a = 1
        \<and> z = from_octets (take 6 (sa_data a)) \<and> \<not> is_zero z)"
  using query_quiescent [OF assms]
  by (auto simp: interface_reads op_then_eq_Ok op_lift_def op_return_def Let_def)

lemma open_inet_quiescent:
  assumes "quiescent_kernel k ioctl indexes pairs"
  obtains s where "lk_open_inet_datagram_socket k w = (Inr s, w)"
  using assms unfolding quiescent_kernel_def by blast

lemma validated_index_quiescent:
  assumes "quiescent_kernel k ioctl indexes pairs"
    and "validate_interface_name_for_linux_packet_socket name = Ok ()"
  shows "validated_interface_index_for_arp_scanning k name w = (Inr i, w') \<longleftrightarrow>
    w' = w \<and> indexes name = Inr i
    \<and> (\<exists>f. ioctl siocgifflags_request name = Inr f \<and> interface_flags_allow_arp_scanning (ifru_flags f))"
proof -
  have index: "interface_index_from_name k name v = (Inr i, w1) \<longleftrightarrow> w1 = v \<and> indexes name = Inr i" for i v w1
    using assms validate_interface_name_Ok_iff [of name]
    by (auto simp: interface_index_from_name_def quiescent_kernel_def)
  have flags: "read_interface_flags k name v = (Inr x, w1) \<longleftrightarrow>
      w1 = v \<and> (\<exists>f. ioctl siocgifflags_request name = Inr f \<and> x = ifru_flags f)" for x v w1
  proof -
    obtain s where "lk_open_inet_datagram_socket k v = (Inr s, v)"
      by (rule open_inet_quiescent [OF assms(1)])
    then show ?thesis
      by (simp add: read_interface_flags_def op_then_eq_Ok explicit_reads [OF assms])
  qed
  show ?thesis
    unfolding validated_interface_index_for_arp_scanning_def op_then_eq_Ok index flags
    by (auto simp: op_lift_def op_return_def assms(2) flags_checks_agree)
qed

lemma discover_quiescent:
  assumes "quiescent_kernel k ioctl indexes pairs"
    and "validate_interface_name_for_linux_packet_socket name = Ok ()"
  shows "(\<exists>x. discover_interface_scan_addresses k name w = (Inr x, w')) \<longleftrightarrow>
    w' = w
    \<and> (\<exists>a. ioctl siocgifaddr_request name = Inr a \<and> sa_family a = 2)
    \<and> (\<exists>a. ioctl siocgifnetmask_request name = Inr a \<and> sa_family a = 2)
    \<and> (\<exists>a. ioctl siocgifhwaddr_request name = Inr a \<and> sa_family a = 1
         \<and> \<not> is_zero (from_octets (take 6 (sa_data a))))"
proof -
  obtain s where "lk_open_inet_datagram_socket k w = (Inr s, w)"
    by (rule open_inet_quiescent [OF assms(1)])
  then show ?thesis
    by (auto simp: discover_interface_scan_addresses_def op_then_eq_Ok explicit_reads [OF assms]
        assms(2) op_lift_def op_return_def)
qed

lemma usable_interface_iff:
  "usable_interface ioctl name \<longleftrightarrow>
     validate_interface_name_for_linux_packet_socket name = Ok ()
     \<and> (\<exists>f. ioctl siocgifflags_request name = Inr f \<and> interface_flags_allow_arp_scanning (ifru_flags f))
     \<and> (\<exists>a. ioctl siocgifaddr_request name = Inr a \<and> sa_family a = 2)
     \<and> (\<exists>a. ioctl siocgifnetmask_request name = Inr a \<and> sa_family a = 2)
     \<and> (\<exists>a. ioctl siocgifhwaddr_request name = Inr a \<and> sa_family a = 1
         \<and> \<not> is_zero (from_octets (take 6 (sa_data a))))"
  unfolding usable_interface_def validate_interface_name_Ok_iff
  by (simp split: sum.split)

section \<open>Properties\<close>

text \<open>
  C20: on a host at rest, the choice without a name returns the one usable interface, and otherwise
  fails: with no candidate, or with the names of all of them in the order of their indexes. Usable
  means: a valid name, up, neither loopback nor \<^verbatim>\<open>NOARP\<close>, with an IPv4 address, a netmask and a
  non-zero Ethernet address; and the interfaces an explicit request accepts are exactly the usable
  ones that have an index.
\<close>

theorem interface_selection_exact:
  assumes "quiescent_kernel k ioctl indexes pairs"
  shows "resolve_scan_interface_name k None w =
      (case map fst (by_index (filter (\<lambda>p. usable_interface ioctl (fst p)) pairs)) of
         [] \<Rightarrow> Inl AutomaticInterfaceSelectionNoneFound
       | [name] \<Rightarrow> Inr name
       | names \<Rightarrow> Inl (AutomaticInterfaceSelectionAmbiguous names), w)
    \<and> (resolve_scan_interface_name k (Some name) w = (Inr name, w) \<longleftrightarrow>
         usable_interface ioctl name \<and> (\<exists>i. indexes name = Inr i))"
proof
  let ?ps = "by_index (filter (\<lambda>p. usable_interface ioctl (fst p)) pairs)"
  have names: "map cand_interface_name (map (candidate_of ioctl) ?ps) = map fst ?ps"
    by (simp add: candidate_of_def Let_def)
  have one: "cand_interface_name (candidate_of ioctl p) = fst p" for p
    by (simp add: candidate_of_def Let_def)
  show "resolve_scan_interface_name k None w =
      (case map fst ?ps of [] \<Rightarrow> Inl AutomaticInterfaceSelectionNoneFound | [name] \<Rightarrow> Inr name
       | names \<Rightarrow> Inl (AutomaticInterfaceSelectionAmbiguous names), w)"
    unfolding resolve_scan_interface_name_def op_then_def
    by (cases ?ps rule: list.exhaust; cases "tl ?ps")
      (simp_all add: enumerate_quiescent [OF assms] op_lift_def one comp_def)
  show "resolve_scan_interface_name k (Some name) w = (Inr name, w) \<longleftrightarrow>
      usable_interface ioctl name \<and> (\<exists>i. indexes name = Inr i)"
  proof (cases "validate_interface_name_for_linux_packet_socket name = Ok ()")
    case False
    then have "validate_interface_name_for_linux_packet_socket name \<noteq> Inr x" for x by simp
    then show ?thesis
      using False by (simp add: resolve_scan_interface_name_def usable_interface_iff op_then_eq_Ok op_lift_def)
  next
    case True
    have "resolve_scan_interface_name k (Some name) w = (Inr name, w) \<longleftrightarrow>
        (\<exists>i w1. validated_interface_index_for_arp_scanning k name w = (Inr i, w1)
          \<and> (\<exists>x. discover_interface_scan_addresses k name w1 = (Inr x, w)))"
      by (simp add: resolve_scan_interface_name_def op_then_eq_Ok op_lift_def op_return_def True)
    then show ?thesis
      by (auto simp: validated_index_quiescent [OF assms True] discover_quiescent [OF assms True]
          usable_interface_iff True)
  qed
qed

end
