(* ===== verification/Ipv4_Subnet.thy ===== *)
theory Ipv4_Subnet
  imports App_Error
begin

text \<open>
  \<^verbatim>\<open>src/ipv4_subnet.rs\<close>: the prefix length of a netmask, the usable host range of a subnet and the
  check of a single scan target. Addresses and netmasks are their 32 bits.
\<close>

section \<open>Operations on \<^verbatim>\<open>u32\<close>\<close>

definition leading_ones :: "u32 \<Rightarrow> nat" where
  "leading_ones w = length (takeWhile (bit w) (rev [0..<32]))"

definition u32_checked_add :: "u32 \<Rightarrow> u32 \<Rightarrow> u32 option" where
  "u32_checked_add a b = (if unat a + unat b \<le> u32_max then Some (a + b) else None)"

definition u32_checked_sub :: "u32 \<Rightarrow> u32 \<Rightarrow> u32 option" where
  "u32_checked_sub a b = (if b \<le> a then Some (a - b) else None)"

section \<open>The functions of the module\<close>

definition prefix_length_from_contiguous_netmask :: "ipv4 \<Rightarrow> app_error + nat" where
  "prefix_length_from_contiguous_netmask netmask =
     (let mask_bits = netmask; inverted = NOT mask_bits in
      if inverted = 0 then Ok 32
      else
        let power_of_two_host_space = inverted + 1 in
        if inverted AND power_of_two_host_space \<noteq> 0
        then Err (Ipv4NetmaskInvalid (show_ipv4 netmask))
        else
          let prefix_bits = leading_ones mask_bits in
          if prefix_bits < 256 then Ok prefix_bits
          else Err (Ipv4NetmaskInvalid (show_ipv4 netmask)))"

definition inclusive_host_address_range_excluding_edges ::
    "ipv4 \<Rightarrow> ipv4 \<Rightarrow> app_error + (u32 \<times> u32)" where
  "inclusive_host_address_range_excluding_edges interface_address netmask =
     and_then (prefix_length_from_contiguous_netmask netmask) (\<lambda>prefix_length.
     if 31 \<le> prefix_length
     then Err (Ipv4SubnetUnsupported (''IPv4 subnets with prefix length '' @ show_nat prefix_length
            @ '' are not supported for scanning''))
     else
       let mask_bits = netmask;
           network_bits = interface_address AND mask_bits;
           broadcast_bits = network_bits OR NOT mask_bits
       in
       and_then (ok_or (u32_checked_add network_bits 1)
         (Ipv4SubnetUnsupported ''subnet arithmetic overflow when computing first host address''))
         (\<lambda>first_host_bits.
       and_then (ok_or (u32_checked_sub broadcast_bits 1)
         (Ipv4SubnetUnsupported ''subnet arithmetic overflow when computing last host address''))
         (\<lambda>last_host_bits.
       if last_host_bits < first_host_bits
       then Err (Ipv4SubnetUnsupported
              ''no usable host addresses exist between network and broadcast addresses'')
       else Ok (first_host_bits, last_host_bits))))"

definition ipv4_address_is_strictly_inside_subnet :: "ipv4 \<Rightarrow> u32 \<Rightarrow> u32 \<Rightarrow> bool" where
  "ipv4_address_is_strictly_inside_subnet candidate network_bits broadcast_bits \<longleftrightarrow>
     network_bits < candidate \<and> candidate < broadcast_bits"

definition validate_strict_interior_scan_target_ipv4_address ::
    "string \<Rightarrow> ipv4 \<Rightarrow> ipv4 \<Rightarrow> ipv4 \<Rightarrow> app_error + unit" where
  "validate_strict_interior_scan_target_ipv4_address interface_name target interface_address netmask =
     and_then (inclusive_host_address_range_excluding_edges interface_address netmask)
       (\<lambda>(first_host_bits, last_host_bits).
     if target < first_host_bits \<or> last_host_bits < target
     then Err (SingleScanTargetRejected target interface_name
            ''not a strictly interior host on the interface subnet'')
     else Ok ())"

section \<open>Contiguous netmasks\<close>

text \<open>The netmask with \<open>32 - h\<close> leading ones leaves \<open>h\<close> host bits.\<close>

abbreviation netmask_of_host_bits :: "nat \<Rightarrow> u32" where
  "netmask_of_host_bits h \<equiv> NOT (mask h)"

lemma nat_and_Suc_zero: "(n :: nat) AND (n + 1) = 0 \<Longrightarrow> \<exists>k. n = 2 ^ k - 1"
proof (induction n rule: less_induct)
  case (less n)
  show ?case
  proof (cases "even n")
    case True
    then have "n AND (n + 1) = n" by (subst and_rec) simp
    then show ?thesis using less.prems by (intro exI [of _ 0]) simp
  next
    case False
    then obtain m where n: "n = 2 * m + 1" by (elim oddE)
    have "n AND (n + 1) = 2 * (m AND (m + 1))"
      unfolding n by (subst and_rec) simp
    then have "m AND (m + 1) = 0" using less.prems by simp
    then obtain k where "m = 2 ^ k - 1" using less.IH [of m] n by auto
    moreover have "1 \<le> (2 :: nat) ^ k" by simp
    ultimately have "n = 2 ^ Suc k - 1" unfolding n power_Suc by linarith
    then show ?thesis by blast
  qed
qed

lemma unsigned_mask_u32: "k \<le> 32 \<Longrightarrow> unat (mask k :: u32) = mask k"
  by (rule bit_eqI) (auto simp: bit_simps)

lemma low_mask_iff:
  fixes x :: u32
  shows "x AND (x + 1) = 0 \<longleftrightarrow> (\<exists>k\<le>32. x = mask k)"
proof
  assume z: "x AND (x + 1) = 0"
  show "\<exists>k\<le>32. x = mask k"
  proof (cases "unat x + 1 < 2 ^ 32")
    case True
    then have "unat (x + 1) = unat x + 1" by (simp add: unat_word_ariths)
    then have "unat x AND (unat x + 1) = 0" using z by (metis unsigned_and_eq unsigned_0)
    then obtain k where k: "unat x = 2 ^ k - 1" using nat_and_Suc_zero by blast
    then have "(2 :: nat) ^ k < 2 ^ 32" using True by simp
    then have "k < 32" by (simp only: power_strict_increasing_iff)
    moreover have "x = mask k"
      by (rule word_unat_eq_iff [THEN iffD2]) (use k \<open>k < 32\<close> in \<open>simp add: unsigned_mask_u32 mask_nat_def\<close>)
    ultimately show ?thesis by (intro exI [of _ k]) simp
  next
    case False
    moreover have "(2 :: nat) ^ 32 = 4294967296" by simp
    ultimately have "unat x = 2 ^ 32 - 1" using unat_u32_lt [of x] by linarith
    then have "x = mask 32"
      by (intro word_unat_eq_iff [THEN iffD2]) (simp add: unsigned_mask_u32 mask_nat_def)
    then show ?thesis by blast
  qed
next
  assume "\<exists>k\<le>32. x = mask k"
  then obtain k where "x = mask k" by blast
  then have "x + 1 = 2 ^ k" by (simp add: mask_eq_exp_minus_1)
  moreover have "mask k AND (2 ^ k :: u32) = 0" by (rule bit_word_eqI) (auto simp: bit_simps)
  ultimately show "x AND (x + 1) = 0" using \<open>x = mask k\<close> by metis
qed

lemma leading_ones_netmask: "h \<le> 32 \<Longrightarrow> leading_ones (netmask_of_host_bits h) = 32 - h"
proof -
  assume h: "h \<le> 32"
  have split: "rev [0..<32] = rev [h..<32] @ rev [0..<h]"
    using h by (metis rev_append upt_add_eq_append [of 0 h "32 - h"] le_add_diff_inverse zero_le)
  have "takeWhile (bit (netmask_of_host_bits h)) (rev [h..<32]) = rev [h..<32]"
    by (auto simp: takeWhile_eq_all_conv bit_simps)
  moreover have "takeWhile (bit (netmask_of_host_bits h)) (rev [0..<h]) = []"
    by (cases h) (simp_all add: bit_simps)
  ultimately show ?thesis
    unfolding leading_ones_def split
    by (subst takeWhile_append2) (auto simp: bit_simps)
qed

lemma prefix_of_netmask:
  assumes "h \<le> 32"
  shows "prefix_length_from_contiguous_netmask (netmask_of_host_bits h) = Ok (32 - h)"
proof (cases "h = 0")
  case False
  have "(mask h :: u32) \<noteq> 0"
    using assms False by (metis unsigned_mask_u32 unsigned_0 mask_nat_def bot_nat_0.not_eq_extremum
        mask_eq_0_iff)
  moreover have "(mask h :: u32) AND (mask h + 1) = 0"
    using assms low_mask_iff by blast
  ultimately show ?thesis
    using assms by (simp add: prefix_length_from_contiguous_netmask_def leading_ones_netmask Let_def)
qed (simp add: prefix_length_from_contiguous_netmask_def)

lemma prefix_length_Ok_iff:
  "prefix_length_from_contiguous_netmask m = Ok p \<longleftrightarrow> p \<le> 32 \<and> m = netmask_of_host_bits (32 - p)"
proof
  assume r: "prefix_length_from_contiguous_netmask m = Ok p"
  have "\<exists>h\<le>32. m = netmask_of_host_bits h"
  proof (cases "NOT m = 0")
    case True
    then have "m = netmask_of_host_bits 0" by (metis bit.double_compl mask_0)
    then show ?thesis by blast
  next
    case False
    then have "NOT m AND (NOT m + 1) = 0"
      using r by (auto simp: prefix_length_from_contiguous_netmask_def Let_def split: if_splits)
    then show ?thesis using low_mask_iff [of "NOT m"] by (metis bit.double_compl)
  qed
  then obtain h where "h \<le> 32" "m = netmask_of_host_bits h" by blast
  then show "p \<le> 32 \<and> m = netmask_of_host_bits (32 - p)"
    using r prefix_of_netmask [of h] by auto
next
  assume "p \<le> 32 \<and> m = netmask_of_host_bits (32 - p)"
  then show "prefix_length_from_contiguous_netmask m = Ok p"
    using prefix_of_netmask [of "32 - p"] by simp
qed

lemma prefix_length_Err:
  "prefix_length_from_contiguous_netmask m = Err e \<Longrightarrow> e = Ipv4NetmaskInvalid (show_ipv4 m)"
  by (auto simp: prefix_length_from_contiguous_netmask_def Let_def split: if_splits)

section \<open>The host range\<close>

lemma network_bits_value:
  fixes a :: u32
  shows "unat (a AND netmask_of_host_bits h) = unat a div 2 ^ h * 2 ^ h"
proof -
  have "a AND netmask_of_host_bits h = push_bit h (drop_bit h a)"
    by (rule bit_word_eqI) (auto simp: bit_simps)
  moreover have "unat (push_bit h (drop_bit h a)) = take_bit 32 (push_bit h (drop_bit h (unat a)))"
    by (simp only: unsigned_push_bit_eq unsigned_drop_bit_eq) (simp add: take_bit_nat_eq_self)
  moreover have "push_bit h (drop_bit h (unat a)) < 2 ^ 32"
  proof -
    have "push_bit h (drop_bit h (unat a)) \<le> unat a"
      by (simp add: push_bit_eq_mult drop_bit_eq_div)
    moreover have "unat a < 2 ^ 32" by simp
    ultimately show ?thesis by (rule le_less_trans)
  qed
  ultimately show ?thesis
    by (simp add: take_bit_nat_eq_self push_bit_eq_mult drop_bit_eq_div del: unsigned_and_eq)
qed

lemma broadcast_bits_value:
  fixes a :: u32
  assumes "h \<le> 32"
  shows "unat ((a AND netmask_of_host_bits h) OR mask h) = unat a div 2 ^ h * 2 ^ h + (2 ^ h - 1)"
proof -
  have "push_bit h q OR mask h = q * 2 ^ h + (2 ^ h - 1)" for q :: nat
  proof -
    have "push_bit h q AND mask h = 0" by (rule bit_eqI) (auto simp: bit_simps)
    then have "push_bit h q OR mask h = push_bit h q + mask h" by (rule disjunctive_add_eq_or [symmetric])
    then show ?thesis by (simp only: push_bit_eq_mult mask_nat_def)
  qed
  then show ?thesis
    by (simp only: unsigned_or_eq network_bits_value unsigned_mask_u32 [OF assms] push_bit_eq_mult)
qed

lemma network_block_le:
  fixes a :: u32
  assumes "h \<le> 32"
  shows "unat a div 2 ^ h * 2 ^ h + 2 ^ h \<le> 2 ^ 32"
proof -
  have "unat a div 2 ^ h < 2 ^ (32 - h)"
    using assms by (intro less_mult_imp_div_less) (simp add: power_add [symmetric])
  then have "(unat a div 2 ^ h + 1) * 2 ^ h \<le> 2 ^ (32 - h) * 2 ^ h" by (intro mult_le_mono1) simp
  also have "\<dots> = 2 ^ 32" using assms by (simp add: power_add [symmetric])
  finally show ?thesis by (simp add: algebra_simps)
qed

lemma host_range_netmask:
  fixes a :: u32
  assumes "2 \<le> h" and "h \<le> 32"
  defines "base \<equiv> unat a div 2 ^ h * 2 ^ h"
  shows "\<exists>f l. inclusive_host_address_range_excluding_edges a (netmask_of_host_bits h) = Ok (f, l)
           \<and> unat f = base + 1 \<and> unat l = base + (2 ^ h - 2)"
proof -
  let ?n = "a AND netmask_of_host_bits h" let ?b = "?n OR mask h"
  have four: "4 \<le> (2 :: nat) ^ h" using power_increasing [OF assms(1), of "2 :: nat"] by simp
  have n: "unat ?n = base" unfolding base_def by (rule network_bits_value)
  have b: "unat ?b = base + (2 ^ h - 1)" unfolding base_def by (rule broadcast_bits_value [OF assms(2)])
  have top: "base + 2 ^ h \<le> 4294967296"
    using network_block_le [OF assms(2), of a] by (simp add: base_def)
  have f: "unat (?n + 1) = base + 1"
    using n top four by (simp add: unat_word_ariths del: unsigned_and_eq)
  have l1: "1 \<le> ?b"
    using b four by (simp add: word_le_nat_alt del: unsigned_or_eq unsigned_and_eq)
  have l: "unat (?b - 1) = base + (2 ^ h - 2)"
    using b four l1 by (simp add: unat_sub word_le_nat_alt del: unsigned_or_eq unsigned_and_eq)
  have "?n + 1 \<le> ?b - 1"
    using f l four by (simp add: word_le_nat_alt del: unsigned_or_eq unsigned_and_eq)
  then have "inclusive_host_address_range_excluding_edges a (netmask_of_host_bits h) = Ok (?n + 1, ?b - 1)"
    using prefix_of_netmask [OF assms(2)] assms l1 n top four
    by (simp add: inclusive_host_address_range_excluding_edges_def Let_def u32_checked_add_def
        u32_checked_sub_def u32_max_def not_less del: unsigned_or_eq unsigned_and_eq)
  then show ?thesis using f l by blast
qed

lemma host_range_Ok_iff:
  "inclusive_host_address_range_excluding_edges a m = Ok (f, l) \<longleftrightarrow>
     (\<exists>h\<in>{2..32}. m = netmask_of_host_bits h
        \<and> unat f = unat a div 2 ^ h * 2 ^ h + 1 \<and> unat l = unat a div 2 ^ h * 2 ^ h + (2 ^ h - 2))"
  (is "?L \<longleftrightarrow> ?R")
proof
  assume L: ?L
  then obtain p where p: "prefix_length_from_contiguous_netmask m = Ok p" "\<not> 31 \<le> p"
    by (auto simp: inclusive_host_address_range_excluding_edges_def and_then_eq_Ok_iff split: if_splits)
  then have h: "2 \<le> 32 - p" "32 - p \<le> 32" "m = netmask_of_host_bits (32 - p)"
    using prefix_length_Ok_iff by auto
  with L host_range_netmask [OF h(1,2), of a] show ?R by (intro bexI [of _ "32 - p"]) auto
next
  assume ?R
  then obtain h where h: "2 \<le> h" "h \<le> 32" "m = netmask_of_host_bits h"
    and fl: "unat f = unat a div 2 ^ h * 2 ^ h + 1" "unat l = unat a div 2 ^ h * 2 ^ h + (2 ^ h - 2)"
    by auto
  with host_range_netmask [OF h(1,2), of a] show ?L by (metis word_unat_eq_iff)
qed

lemma host_range_Err:
  assumes "inclusive_host_address_range_excluding_edges a m = Err e"
  shows "e = Ipv4NetmaskInvalid (show_ipv4 m) \<or>
    (\<exists>p\<in>{31, 32}. m = netmask_of_host_bits (32 - p) \<and>
       e = Ipv4SubnetUnsupported (''IPv4 subnets with prefix length '' @ show_nat p
             @ '' are not supported for scanning''))"
proof (cases "prefix_length_from_contiguous_netmask m")
  case (Inl e')
  then show ?thesis
    using assms prefix_length_Err [OF Inl]
    by (simp add: inclusive_host_address_range_excluding_edges_def)
next
  case (Inr p)
  then have m: "p \<le> 32" "m = netmask_of_host_bits (32 - p)" using prefix_length_Ok_iff by auto
  have "31 \<le> p"
  proof (rule ccontr)
    assume "\<not> 31 \<le> p"
    then have "2 \<le> 32 - p" "32 - p \<le> 32" using m by auto
    then show False using host_range_netmask [of "32 - p" a] assms m by auto
  qed
  then have "p \<in> {31, 32}" using m by auto
  then show ?thesis
    using assms Inr m by (auto simp: inclusive_host_address_range_excluding_edges_def)
qed

section \<open>The single scan target\<close>

lemma validate_target_Ok_iff:
  "validate_strict_interior_scan_target_ipv4_address name t a m = Ok () \<longleftrightarrow>
     (\<exists>h\<in>{2..32}. m = netmask_of_host_bits h
        \<and> unat a div 2 ^ h * 2 ^ h < unat t \<and> unat t < unat a div 2 ^ h * 2 ^ h + (2 ^ h - 1))"
  (is "?L \<longleftrightarrow> ?R")
proof -
  have "?L \<longleftrightarrow> (\<exists>f l. inclusive_host_address_range_excluding_edges a m = Ok (f, l) \<and> f \<le> t \<and> t \<le> l)"
    by (cases "inclusive_host_address_range_excluding_edges a m")
      (auto simp: validate_strict_interior_scan_target_ipv4_address_def not_less split: if_splits)
  also have "\<dots> \<longleftrightarrow> ?R"
  proof
    assume ?R
    then obtain h where h: "2 \<le> h" "h \<le> 32" "m = netmask_of_host_bits h"
      "unat a div 2 ^ h * 2 ^ h < unat t" "unat t < unat a div 2 ^ h * 2 ^ h + (2 ^ h - 1)"
      by auto
    then show "\<exists>f l. inclusive_host_address_range_excluding_edges a m = Ok (f, l) \<and> f \<le> t \<and> t \<le> l"
      using host_range_netmask [OF h(1,2), of a] by (fastforce simp: word_le_nat_alt)
  next
    assume "\<exists>f l. inclusive_host_address_range_excluding_edges a m = Ok (f, l) \<and> f \<le> t \<and> t \<le> l"
    then obtain f l h where "f \<le> t" "t \<le> l" and h: "h \<in> {2..32}" "m = netmask_of_host_bits h"
      "unat f = unat a div 2 ^ h * 2 ^ h + 1" "unat l = unat a div 2 ^ h * 2 ^ h + (2 ^ h - 2)"
      unfolding host_range_Ok_iff by blast
    moreover have "4 \<le> (2 :: nat) ^ h" using h(1) power_increasing [of 2 h "2 :: nat"] by simp
    ultimately show ?R by (intro bexI [of _ h]) (auto simp: word_le_nat_alt)
  qed
  finally show ?thesis .
qed

section \<open>Properties\<close>

text \<open>
  A netmask has a prefix length exactly when it is that many ones followed by zeros; every
  other netmask is rejected, and the error names it.
\<close>

theorem netmask_prefix_exact:
  "(prefix_length_from_contiguous_netmask m = Ok p \<longleftrightarrow> p \<le> 32 \<and> m = NOT (mask (32 - p)))
   \<and> ((\<nexists>q. q \<le> 32 \<and> m = NOT (mask (32 - q))) \<longleftrightarrow>
        prefix_length_from_contiguous_netmask m = Err (Ipv4NetmaskInvalid (show_ipv4 m)))"
proof -
  have "(\<nexists>q. q \<le> 32 \<and> m = NOT (mask (32 - q))) \<longleftrightarrow>
      (\<nexists>q. prefix_length_from_contiguous_netmask m = Ok q)"
    by (simp add: prefix_length_Ok_iff)
  also have "\<dots> \<longleftrightarrow> prefix_length_from_contiguous_netmask m = Err (Ipv4NetmaskInvalid (show_ipv4 m))"
    using prefix_length_Err by (cases "prefix_length_from_contiguous_netmask m") auto
  finally show ?thesis using prefix_length_Ok_iff by blast
qed

text \<open>
  The host range of an interface is the addresses strictly between the network and the broadcast
  address of its block, for every contiguous netmask with at least two host bits; the only errors
  are an invalid netmask and the prefix lengths 31 and 32, so no arithmetic of it overflows.
\<close>

theorem host_range_exact:
  "case inclusive_host_address_range_excluding_edges a m of
     Inr (f, l) \<Rightarrow>
       (\<exists>h\<in>{2..32}. m = NOT (mask h)
          \<and> unat f = unat a div 2 ^ h * 2 ^ h + 1
          \<and> unat l = unat a div 2 ^ h * 2 ^ h + (2 ^ h - 2))
   | Inl e \<Rightarrow>
       e = Ipv4NetmaskInvalid (show_ipv4 m)
         \<and> (\<nexists>h. h \<le> 32 \<and> m = NOT (mask h))
       \<or> (\<exists>p\<in>{31, 32}. m = NOT (mask (32 - p))
            \<and> e = Ipv4SubnetUnsupported (''IPv4 subnets with prefix length '' @ show_nat p
                     @ '' are not supported for scanning''))"
proof (cases "inclusive_host_address_range_excluding_edges a m")
  case (Inr r)
  then obtain f l where "inclusive_host_address_range_excluding_edges a m = Ok (f, l)"
    by (cases r) auto
  then show ?thesis using iffD1 [OF host_range_Ok_iff [of a m f l]] by simp
next
  case (Inl e)
  have "\<nexists>h. h \<le> 32 \<and> m = NOT (mask h)" if e: "e = Ipv4NetmaskInvalid (show_ipv4 m)"
  proof
    assume "\<exists>h. h \<le> 32 \<and> m = NOT (mask h)"
    then obtain h where "h \<le> 32" "m = NOT (mask h)" by blast
    then have "prefix_length_from_contiguous_netmask m = Ok (32 - h)" using prefix_of_netmask by simp
    then show False
      using Inl e by (auto simp: inclusive_host_address_range_excluding_edges_def and_then_eq_Err_iff
          Let_def ok_or_def split: if_splits option.splits)
  qed
  then show ?thesis using host_range_Err [OF Inl] Inl by auto
qed

text \<open>
  A single target is accepted exactly when it lies strictly inside the subnet of the interface,
  and the subnet has a usable interior.
\<close>

theorem single_target_accepted_exactly:
  "validate_strict_interior_scan_target_ipv4_address name t a m = Ok () \<longleftrightarrow>
     (\<exists>h\<in>{2..32}. m = NOT (mask h)
        \<and> ipv4_address_is_strictly_inside_subnet t (a AND m) ((a AND m) OR NOT m))"
proof -
  have "(unat a div 2 ^ h * 2 ^ h < unat t \<and> unat t < unat a div 2 ^ h * 2 ^ h + (2 ^ h - 1))
      \<longleftrightarrow> ipv4_address_is_strictly_inside_subnet t (a AND NOT (mask h))
            ((a AND NOT (mask h)) OR NOT (NOT (mask h)))"
    if "h \<in> {2..32}" for h
    using that broadcast_bits_value [of h a] network_bits_value [of a h]
    by (simp only: ipv4_address_is_strictly_inside_subnet_def word_less_nat_alt bit.double_compl) simp
  then show ?thesis unfolding validate_target_Ok_iff by (metis (no_types, lifting))
qed

end
