(* ===== verification/Ipv4_Cidr.thy ===== *)
theory Ipv4_Cidr
  imports Ipv4_Subnet
begin

text \<open>
  \<^verbatim>\<open>src/ipv4_cidr.rs\<close>: the parser of \<^verbatim>\<open>a.b.c.d/len\<close> and the lazy iterator over the usable hosts.
  A prefix length is the \<^verbatim>\<open>u8\<close> of the source as a natural number.
\<close>

record ipv4_cidr =
  cidr_address :: ipv4
  prefix_length :: nat

record host_iterator =
  next_host_bits :: "u32 option"
  last_host_bits :: u32

section \<open>Parsing\<close>

definition parse_decimal_prefix_length :: "string \<Rightarrow> string \<Rightarrow> app_error + nat" where
  "parse_decimal_prefix_length raw diagnostic_source =
     (let trimmed = str_trim_ascii raw in
      if trimmed = []
      then Err (Ipv4CidrStringInvalid diagnostic_source ''prefix length segment is empty'')
      else if \<not> list_all is_ascii_digit trimmed
      then Err (Ipv4CidrStringInvalid diagnostic_source
             (''prefix length `'' @ trimmed @ ''` must contain only ASCII decimal digits''))
      else and_then (ok_or (from_str_radix 10 u32_max trimmed)
             (Ipv4CidrStringInvalid diagnostic_source
               (''prefix length `'' @ trimmed @ ''` is not a valid decimal number'')))
             (\<lambda>parsed.
           if 32 < parsed
           then Err (Ipv4CidrStringInvalid diagnostic_source
                  (''prefix length '' @ show_nat parsed @ '' is greater than 32''))
           else Ok parsed))"

definition cidr_try_from :: "string \<Rightarrow> app_error + ipv4_cidr" where
  "cidr_try_from value =
     (let trimmed = str_trim_ascii value in
      if trimmed = []
      then Err (Ipv4CidrStringInvalid value
             ''input is empty after trimming leading and trailing ASCII whitespace only'')
      else and_then (ok_or (split_once (CHR ''/'') trimmed)
             (Ipv4CidrStringInvalid trimmed
               (''expected a '' @ [CHR 0x27] @ ''/'' @ [CHR 0x27]
                @ '' separating the IPv4 address and prefix length'')))
             (\<lambda>(before_slash, after_slash).
           if CHR ''/'' \<in> set after_slash
           then Err (Ipv4CidrStringInvalid trimmed
                  (''expected exactly one '' @ [CHR 0x27] @ ''/'' @ [CHR 0x27]
                   @ '' in the classless inter-domain routing notation''))
           else
             let address_part = str_trim_ascii before_slash;
                 prefix_part = str_trim_ascii after_slash in
             and_then (ok_or (parse_ipv4 address_part)
               (Ipv4CidrStringInvalid trimmed
                 (''could not parse `'' @ address_part @ ''` as an IPv4 address''))) (\<lambda>address.
             and_then (parse_decimal_prefix_length prefix_part trimmed) (\<lambda>len.
             Ok \<lparr>cidr_address = address, prefix_length = len\<rparr>))))"

definition show_cidr :: "ipv4_cidr \<Rightarrow> string" where
  "show_cidr c = show_ipv4 (cidr_address c) @ ''/'' @ show_nat (prefix_length c)"

section \<open>The host iterator\<close>

definition contiguous_ipv4_netmask_from_prefix_length :: "nat \<Rightarrow> ipv4" where
  "contiguous_ipv4_netmask_from_prefix_length p =
     (if p = 0 then ipv4_unspecified
      else if p = 32 then ipv4_broadcast
      else let host_bit_count = 32 - p in push_bit host_bit_count 0xFFFFFFFF)"

definition try_from_ipv4_address_on_subnet :: "ipv4 \<Rightarrow> ipv4 \<Rightarrow> app_error + host_iterator" where
  "try_from_ipv4_address_on_subnet address netmask =
     and_then (inclusive_host_address_range_excluding_edges address netmask) (\<lambda>(first, final).
       Ok \<lparr>next_host_bits = Some first, last_host_bits = final\<rparr>)"

definition host_address_iterator :: "ipv4_cidr \<Rightarrow> app_error + host_iterator" where
  "host_address_iterator c =
     try_from_ipv4_address_on_subnet (cidr_address c)
       (contiguous_ipv4_netmask_from_prefix_length (prefix_length c))"

definition iterator_next :: "host_iterator \<Rightarrow> ipv4 option \<times> host_iterator" where
  "iterator_next it =
     (case next_host_bits it of
        None \<Rightarrow> (None, it)
      | Some current \<Rightarrow>
          (Some current,
           it\<lparr>next_host_bits := (if current = last_host_bits it then None else Some (current + 1))\<rparr>))"

definition size_hint :: "host_iterator \<Rightarrow> nat \<times> nat option" where
  "size_hint it =
     (case next_host_bits it of
        None \<Rightarrow> (0, Some 0)
      | Some first \<Rightarrow>
          let span = sat_add u64_max (unat (last_host_bits it - first)) 1 in
          if span \<le> usize_max then (span, Some span) else (0, None))"

text \<open>Draining the iterator: \<open>None\<close> when it has not ended after \<open>fuel\<close> calls of \<^verbatim>\<open>next\<close>.\<close>

fun collect_hosts :: "nat \<Rightarrow> host_iterator \<Rightarrow> ipv4 list option" where
  "collect_hosts 0 it = None"
| "collect_hosts (Suc fuel) it =
     (case iterator_next it of
        (None, it') \<Rightarrow> Some []
      | (Some a, it') \<Rightarrow> map_option (Cons a) (collect_hosts fuel it'))"

section \<open>Facts\<close>

lemma contiguous_netmask_value:
  "p \<le> 32 \<Longrightarrow> contiguous_ipv4_netmask_from_prefix_length p = netmask_of_host_bits (32 - p)"
proof -
  assume p: "p \<le> 32"
  consider "p = 0" | "p = 32" | "0 < p" "p < 32" using p by linarith
  then show ?thesis
  proof cases
    case 1
    have "NOT (mask 32) = (0 :: u32)" by (rule bit_word_eqI) (auto simp: bit_simps)
    then show ?thesis
      using 1 by (simp add: contiguous_ipv4_netmask_from_prefix_length_def ipv4_unspecified_def)
  next
    case 3
    have ones: "(0xFFFFFFFF :: u32) = - 1" by simp
    have "push_bit (32 - p) (0xFFFFFFFF :: u32) = NOT (mask (32 - p))"
      unfolding ones by (rule bit_word_eqI) (auto simp: bit_simps)
    then show ?thesis using 3 by (simp add: contiguous_ipv4_netmask_from_prefix_length_def Let_def)
  qed (simp add: contiguous_ipv4_netmask_from_prefix_length_def ipv4_broadcast_def)
qed

text \<open>Every prefix length the parser produces gives a netmask the subnet helper accepts.\<close>

lemma prefix_of_contiguous_netmask:
  "p \<le> 32 \<Longrightarrow>
     prefix_length_from_contiguous_netmask (contiguous_ipv4_netmask_from_prefix_length p) = Ok p"
  by (simp add: contiguous_netmask_value prefix_length_Ok_iff)

lemma collect_hosts_range:
  assumes "unat f + n = unat l" and "n < fuel"
  shows "collect_hosts (Suc fuel) \<lparr>next_host_bits = Some f, last_host_bits = l\<rparr> =
           Some (map word_of_nat [unat f..<Suc (unat l)])"
  using assms
proof (induction n arbitrary: f fuel)
  case 0
  then have "f = l" by (simp add: word_unat_eq_iff)
  moreover obtain k where "fuel = Suc k" using 0 by (cases fuel) auto
  ultimately show ?case by (simp add: iterator_next_def)
next
  case (Suc n)
  then obtain k where k: "fuel = Suc k" by (cases fuel) auto
  have ne: "f \<noteq> l" using Suc.prems by auto
  have "unat f + 1 < 4294967296" using Suc.prems unat_u32_lt [of l] by linarith
  then have f1: "unat (f + 1) = unat f + 1" by (simp add: unat_word_ariths)
  have "[unat f..<Suc (unat l)] = unat f # [unat (f + 1)..<Suc (unat l)]"
    unfolding f1 using Suc.prems by (simp add: upt_conv_Cons del: upt_Suc)
  moreover have "collect_hosts (Suc k) \<lparr>next_host_bits = Some (f + 1), last_host_bits = l\<rparr> =
      Some (map word_of_nat [unat (f + 1)..<Suc (unat l)])"
    using Suc.prems k f1 by (intro Suc.IH) simp_all
  ultimately show ?case using ne k by (simp add: iterator_next_def del: upt_Suc)
qed

lemma size_hint_range:
  assumes "unat f + n = unat l"
  shows "size_hint \<lparr>next_host_bits = Some f, last_host_bits = l\<rparr> = (Suc n, Some (Suc n))"
proof -
  have "unat (l - f) = n" using assms by (simp add: unat_sub word_le_nat_alt)
  moreover have "n < 4294967296" using assms unat_u32_lt [of l] by linarith
  ultimately show ?thesis
    by (simp add: size_hint_def sat_add_def u64_max_def usize_max_def)
qed

section \<open>Properties\<close>

lemma str_trim_ascii_padded:
  assumes "list_all is_ascii_whitespace u" and "list_all is_ascii_whitespace v"
    and "\<forall>c \<in> set s. plain_char c" and "s \<noteq> []"
  shows "str_trim_ascii (u @ s @ v) = s"
proof -
  have plain: "\<not> is_ascii_whitespace c" if "c \<in> set s" for c
    using that assms(3) by (auto simp: plain_char_def is_ascii_whitespace_def)
  have "dropWhile is_ascii_whitespace (u @ s @ v) = s @ v"
    using assms plain [of "hd s"] by (simp add: list_all_iff dropWhile_append2 dropWhile_eq_self_iff)
  moreover have "dropWhile is_ascii_whitespace (rev v @ rev s) = rev s"
    using assms plain [of "last s"]
    by (subst dropWhile_append2) (auto simp: list_all_iff dropWhile_eq_self_iff hd_rev)
  ultimately show ?thesis by (simp add: str_trim_ascii_def)
qed

lemma parse_decimal_show: "p \<le> 32 \<Longrightarrow> parse_decimal_prefix_length (show_nat p) s = Ok p"
  using from_str_radix_show_nat [of p u32_max] show_nat_plain [of p]
  by (simp add: parse_decimal_prefix_length_def str_trim_ascii_plain list_all_iff u32_max_def
      del: show_nat.simps)

lemma slash_not_in: "CHR ''/'' \<notin> set (show_ipv4 a)" "CHR ''/'' \<notin> set (show_nat n)"
  using show_ipv4_chars [of "CHR ''/''" a] show_nat_no [of "CHR ''/''" n]
  by (auto simp: is_ascii_digit_def code_def)

lemma show_cidr_plain: "\<forall>c \<in> set (show_cidr x). plain_char c"
  using show_ipv4_chars show_nat_plain
  by (auto simp: show_cidr_def plain_char_def code_def simp del: show_nat.simps)

text \<open>
  The classless notation of an address and a prefix length parses back to them, whatever ASCII
  white space surrounds it.
\<close>

theorem cidr_round_trip:
  assumes "prefix_length c \<le> 32"
    and "list_all is_ascii_whitespace u" and "list_all is_ascii_whitespace v"
  shows "cidr_try_from (u @ show_cidr c @ v) = Ok c"
proof -
  have trim: "str_trim_ascii (u @ show_cidr c @ v) = show_cidr c"
    using str_trim_ascii_padded [OF assms(2,3) show_cidr_plain] by (simp add: show_cidr_def)
  have "str_trim_ascii (show_ipv4 (cidr_address c)) = show_ipv4 (cidr_address c)"
    "str_trim_ascii (show_nat (prefix_length c)) = show_nat (prefix_length c)"
    using show_ipv4_chars show_nat_plain by (simp_all add: str_trim_ascii_plain del: show_nat.simps)
  moreover have "split_once (CHR ''/'') (show_cidr c) =
      Some (show_ipv4 (cidr_address c), show_nat (prefix_length c))"
    using slash_not_in by (simp add: show_cidr_def split_once_append del: show_nat.simps)
  moreover have "show_cidr c \<noteq> []" by (simp add: show_cidr_def)
  ultimately show ?thesis
    using assms(1) slash_not_in
    by (simp add: cidr_try_from_def trim parse_decimal_show del: show_nat.simps)
qed

lemma cidr_round_trip_witness:
  "cidr_try_from ([CHR '' ''] @ show_cidr \<lparr>cidr_address = ipv4_new 192 168 1 7, prefix_length = 24\<rparr>
     @ [CHR '' '']) = Ok \<lparr>cidr_address = ipv4_new 192 168 1 7, prefix_length = 24\<rparr>"
  by (rule cidr_round_trip) (simp_all add: is_ascii_whitespace_def code_def)

text \<open>
  C37: for a prefix length from 0 to 30 the host iterator is built, ends after one call of \<^verbatim>\<open>next\<close>
  more than its size hint, has yielded exactly the addresses strictly inside the block, in order,
  and its size hint was exact.
\<close>

theorem host_iterator_enumerates:
  assumes "prefix_length c \<le> 30"
  defines "h \<equiv> 32 - prefix_length c"
  defines "base \<equiv> unat (cidr_address c) div 2 ^ h * 2 ^ h"
  shows "\<exists>it. host_address_iterator c = Ok it
    \<and> size_hint it = (2 ^ h - 2, Some (2 ^ h - 2))
    \<and> collect_hosts (Suc (2 ^ h - 2)) it = Some (map word_of_nat [base + 1..<base + (2 ^ h - 1)])"
proof -
  have h: "2 \<le> h" "h \<le> 32" using assms(1) by (simp_all add: h_def)
  have four: "4 \<le> (2 :: nat) ^ h" using power_increasing [OF h(1), of "2 :: nat"] by simp
  obtain f l where range: "inclusive_host_address_range_excluding_edges (cidr_address c)
      (netmask_of_host_bits h) = Ok (f, l)" and f: "unat f = base + 1" and l: "unat l = base + (2 ^ h - 2)"
    using host_range_netmask [OF h, of "cidr_address c"] unfolding base_def by blast
  let ?it = "\<lparr>next_host_bits = Some f, last_host_bits = l\<rparr>"
  have "contiguous_ipv4_netmask_from_prefix_length (prefix_length c) = netmask_of_host_bits h"
    using assms(1) by (simp add: contiguous_netmask_value h_def)
  then have it: "host_address_iterator c = Ok ?it"
    using range by (simp add: host_address_iterator_def try_from_ipv4_address_on_subnet_def)
  have n: "unat f + (2 ^ h - 3) = unat l" using f l four by linarith
  have s: "Suc (2 ^ h - 3) = 2 ^ h - (2 :: nat)" using four by linarith
  have "size_hint ?it = (2 ^ h - 2, Some (2 ^ h - 2))" using size_hint_range [OF n] s by simp
  moreover have "collect_hosts (Suc (2 ^ h - 2)) ?it = Some (map word_of_nat [unat f..<Suc (unat l)])"
    using four by (intro collect_hosts_range [OF n]) linarith
  moreover have "Suc (unat l) = base + (2 ^ h - 1)" using l four by linarith
  ultimately show ?thesis using it f by (intro exI [of _ ?it]) simp
qed

lemma host_iterator_enumerates_witness:
  "\<exists>it. host_address_iterator \<lparr>cidr_address = 0x0A000005, prefix_length = 29\<rparr> = Ok it
    \<and> size_hint it = (6, Some 6)
    \<and> collect_hosts 7 it = Some (map word_of_nat [167772161..<167772167])"
  using host_iterator_enumerates [of "\<lparr>cidr_address = 0x0A000005, prefix_length = 29\<rparr>"]
  by simp

end
