(* ===== verification/Scanner.thy ===== *)
theory Scanner
  imports Link_Layer Ipv4_Cidr
begin

text \<open>
  \<^verbatim>\<open>src/scanner.rs\<close>: target expansion, the send rounds of the burst path and of the rate-limited
  path, the receive phase and the merging of replies; the outcome record is from
  \<^verbatim>\<open>src/application_outcome.rs\<close>. A function that talks to the endpoint or the clock takes their
  records and the world; the warnings and the discovered hosts are threaded through. The two loops
  whose end depends on the outside world, the receive loop and the drain inside it, take fuel.
\<close>

section \<open>Data\<close>

record discovered_host =
  dh_ipv4_address :: ipv4
  dh_mac_address :: mac_address

record scan_timing_summary =
  sts_network_interface_name :: string
  sts_elapsed_wall_time :: duration
  sts_scan_round_count :: nat
  sts_discovered_host_count :: nat

record scan_outcome =
  so_discovered_hosts :: "discovered_host list"
  so_warnings :: "string list"
  so_timing_summary :: "scan_timing_summary option"

datatype arp_reply_acceptance =
    SubnetScope ipv4 u32 u32
  | ExactTarget ipv4

record scan_transmit_context =
  stc_source_mac_address :: mac_address
  stc_interface_ipv4_address :: ipv4
  stc_wire :: scan_wire_options

record subnet_scan_plan =
  plan_targets :: "ipv4 list"
  plan_acceptance :: arp_reply_acceptance

record endpoint_scan_request =
  esr_targets :: "ipv4 list"
  esr_transmit :: scan_transmit_context
  esr_acceptance :: arp_reply_acceptance
  esr_receive_timeout :: duration
  esr_pacing :: duration
  esr_scan_round_count :: nat
  esr_rate_limit :: "rate_limited_scan_timing option"

type_synonym hosts = "(ipv4, mac_address) btree"
type_synonym warnings = "string list"

section \<open>Targets\<close>

definition poll_timeout_milliseconds_for_receive_wait :: "duration \<Rightarrow> nat" where
  "poll_timeout_milliseconds_for_receive_wait remaining =
     (let milliseconds = as_millis remaining in
      if milliseconds \<le> c_int_max then milliseconds else c_int_max)"

definition ipv4_scan_target_address_sequence ::
    "ipv4 list \<Rightarrow> ipv4 \<Rightarrow> u32 \<Rightarrow> u32 \<Rightarrow> ipv4 list" where
  "ipv4_scan_target_address_sequence interior source network broadcast =
     (if \<not> ipv4_address_is_strictly_inside_subnet source network broadcast
      then interior @ [source] else interior)"

definition should_apply_pacing_after_scan_round :: "nat \<Rightarrow> nat \<Rightarrow> duration \<Rightarrow> bool" where
  "should_apply_pacing_after_scan_round round_index total_rounds pacing \<longleftrightarrow>
     pacing \<noteq> 0 \<and> sat_add u64_max round_index 1 < total_rounds"

definition ipv4_sender_is_probed_target :: "ipv4 \<Rightarrow> ipv4 \<Rightarrow> u32 \<Rightarrow> u32 \<Rightarrow> bool" where
  "ipv4_sender_is_probed_target sender source network broadcast \<longleftrightarrow>
     sender = source \<or> ipv4_address_is_strictly_inside_subnet sender network broadcast"

fun accepts_sender_ipv4_address :: "arp_reply_acceptance \<Rightarrow> ipv4 \<Rightarrow> bool" where
  "accepts_sender_ipv4_address (SubnetScope source network broadcast) sender =
     ipv4_sender_is_probed_target sender source network broadcast"
| "accepts_sender_ipv4_address (ExactTarget target) sender = (sender = target)"

text \<open>
  The iterator is drained with more calls of \<^verbatim>\<open>next\<close> than there are 32-bit addresses;
  \<open>plan_targets_eq\<close> below shows that it has always ended by then.
\<close>

definition full_subnet_scan_plan :: "interface_scan_addresses \<Rightarrow> app_error + subnet_scan_plan" where
  "full_subnet_scan_plan addresses =
     and_then (try_from_ipv4_address_on_subnet (isa_source_ipv4_address addresses)
         (isa_ipv4_netmask addresses)) (\<lambda>iterator.
       let mask_bits = isa_ipv4_netmask addresses;
           network_bits = isa_source_ipv4_address addresses AND mask_bits;
           broadcast_bits = network_bits OR NOT mask_bits;
           interior = (case collect_hosts (Suc (unat (last_host_bits iterator) + 1)) iterator of
             None \<Rightarrow> [] | Some hs \<Rightarrow> hs) in
       Ok \<lparr>plan_targets = ipv4_scan_target_address_sequence interior
              (isa_source_ipv4_address addresses) network_bits broadcast_bits,
           plan_acceptance = SubnetScope (isa_source_ipv4_address addresses) network_bits
              broadcast_bits\<rparr>)"

section \<open>Replies\<close>

definition conflict_warning :: "ipv4 \<Rightarrow> mac_address \<Rightarrow> mac_address \<Rightarrow> string" where
  "conflict_warning ip stored mac =
     ''conflicting address resolution reply for '' @ show_ipv4 ip @ '': keeping '' @ show_mac stored
     @ '', ignoring '' @ show_mac mac"

definition merge_reply ::
    "hosts \<Rightarrow> ipv4 \<Rightarrow> mac_address \<Rightarrow> warnings \<Rightarrow> hosts \<times> warnings" where
  "merge_reply discovered ip mac warnings =
     (case bt_get discovered ip of
        None \<Rightarrow> (bt_put ip mac discovered, warnings)
      | Some stored \<Rightarrow>
          if stored \<noteq> mac then (discovered, warnings @ [conflict_warning ip stored mac])
          else (discovered, warnings))"

definition ethernet_frame_is_not_arp :: "u8 list \<Rightarrow> bool" where
  "ethernet_frame_is_not_arp frame =
     (case try_parse_ethernet_frame frame of
        Inr parsed \<Rightarrow> pef_ether_type parsed \<noteq> protocol_arp
      | Inl _ \<Rightarrow> True)"

text \<open>The body of the drain loop for one received frame.\<close>

definition process_reply_frame ::
    "arp_reply_acceptance \<Rightarrow> u8 list \<Rightarrow> hosts \<times> warnings \<Rightarrow> hosts \<times> warnings" where
  "process_reply_frame acceptance frame = (\<lambda>(discovered, warnings).
     if ethernet_frame_is_not_arp frame then (discovered, warnings)
     else (case try_parse_arp frame of
       Inr parsed \<Rightarrow>
         if pa_opcode parsed = arp_operation_reply
         then (if accepts_sender_ipv4_address acceptance (pa_sender_protocol parsed)
               then merge_reply discovered (pa_sender_protocol parsed) (pa_sender_hardware parsed)
                      warnings
               else (discovered, warnings))
         else (discovered, warnings)
     | Inl reason \<Rightarrow>
         (discovered, warnings @ [''received malformed Ethernet/ARP frame: '' @ reason])))"

fun drain_buffered_reply_frames ::
    "nat \<Rightarrow> 'w endpoint \<Rightarrow> arp_reply_acceptance \<Rightarrow> u8 list \<Rightarrow> hosts \<times> warnings \<Rightarrow> 'w
     \<Rightarrow> (stop + u8 list \<times> hosts \<times> warnings) \<times> 'w" where
  "drain_buffered_reply_frames 0 ep acceptance buffer acc w = (Inl OutOfFuel, w)"
| "drain_buffered_reply_frames (Suc fuel) ep acceptance buffer acc w =
     (case ep_receive ep buffer w of
        (Inl e, buffer', w') \<Rightarrow> (Inl e, w')
      | (Inr None, buffer', w') \<Rightarrow> (Inr (buffer', acc), w')
      | (Inr (Some bytes_received), buffer', w') \<Rightarrow>
          if length buffer' < bytes_received then (Inl Panicked, w')
          else drain_buffered_reply_frames fuel ep acceptance buffer'
                 (process_reply_frame acceptance (take bytes_received buffer') acc) w')"

definition collect_replies_loop ::
    "nat \<Rightarrow> nat \<Rightarrow> 'w endpoint \<Rightarrow> 'w clock \<Rightarrow> timestamp \<Rightarrow> arp_reply_acceptance \<Rightarrow> u8 list
     \<Rightarrow> hosts \<times> warnings \<Rightarrow> 'w \<Rightarrow> (stop + u8 list \<times> hosts \<times> warnings) \<times> 'w" where
  "collect_replies_loop fuel drain_fuel ep ck deadline acceptance buffer acc w =
     poll_loop fuel poll_timeout_milliseconds_for_receive_wait ep ck deadline
       (\<lambda>(buffer, acc). drain_buffered_reply_frames drain_fuel ep acceptance buffer acc)
       (buffer, acc) w"

text \<open>The loop starts from an empty host map of its own.\<close>

definition collect_replies_until_deadline ::
    "nat \<Rightarrow> nat \<Rightarrow> 'w endpoint \<Rightarrow> 'w clock \<Rightarrow> timestamp \<Rightarrow> arp_reply_acceptance \<Rightarrow> u8 list
     \<Rightarrow> warnings \<Rightarrow> 'w \<Rightarrow> (stop + u8 list \<times> hosts \<times> warnings) \<times> 'w" where
  "collect_replies_until_deadline fuel drain_fuel ep ck deadline acceptance buffer warnings w =
     collect_replies_loop fuel drain_fuel ep ck deadline acceptance buffer ([], warnings) w"

section \<open>Sending\<close>

definition request_frame :: "scan_transmit_context \<Rightarrow> ipv4 \<Rightarrow> u8 list" where
  "request_frame transmit target =
     (let sender = ipv4_address_for_target (wo_sender_protocol_address (stc_wire transmit))
            (stc_interface_ipv4_address transmit) target;
          layout = address_resolution_request_layout (stc_wire transmit)
            (stc_source_mac_address transmit) sender target in
      encode_request_from_layout layout)"

definition send_one_request ::
    "'w endpoint \<Rightarrow> scan_transmit_context \<Rightarrow> ipv4 \<Rightarrow> warnings \<Rightarrow> 'w \<Rightarrow> warnings \<times> 'w" where
  "send_one_request ep transmit target warnings w =
     (case ep_send ep (request_frame transmit target) w of
        (Inl e, w') \<Rightarrow>
          (warnings @ [''failed to send ARP request to '' @ show_ipv4 target @ '': '' @ io_text e], w')
      | (Inr _, w') \<Rightarrow> (warnings, w'))"

fun send_requests ::
    "'w endpoint \<Rightarrow> scan_transmit_context \<Rightarrow> ipv4 list \<Rightarrow> warnings \<Rightarrow> 'w \<Rightarrow> warnings \<times> 'w" where
  "send_requests ep transmit [] warnings w = (warnings, w)"
| "send_requests ep transmit (target # targets) warnings w =
     (let (warnings, w) = send_one_request ep transmit target warnings w in
      send_requests ep transmit targets warnings w)"

text \<open>The rounds from \<open>round_index\<close> on; the first argument counts those still to run.\<close>

fun request_rounds ::
    "nat \<Rightarrow> 'w endpoint \<Rightarrow> 'w clock \<Rightarrow> ipv4 list \<Rightarrow> scan_transmit_context \<Rightarrow> nat \<Rightarrow> nat \<Rightarrow> duration
     \<Rightarrow> warnings \<Rightarrow> 'w \<Rightarrow> warnings \<times> 'w" where
  "request_rounds 0 ep ck targets transmit round_index total_rounds pacing warnings w = (warnings, w)"
| "request_rounds (Suc left) ep ck targets transmit round_index total_rounds pacing warnings w =
     (let (warnings, w) = send_requests ep transmit targets warnings w;
          w = (if should_apply_pacing_after_scan_round round_index total_rounds pacing
               then ck_sleep_for ck pacing w else w) in
      request_rounds left ep ck targets transmit (Suc round_index) total_rounds pacing warnings w)"

definition run_address_resolution_request_rounds ::
    "'w endpoint \<Rightarrow> 'w clock \<Rightarrow> ipv4 list \<Rightarrow> scan_transmit_context \<Rightarrow> nat \<Rightarrow> duration
     \<Rightarrow> warnings \<Rightarrow> 'w \<Rightarrow> warnings \<times> 'w" where
  "run_address_resolution_request_rounds ep ck targets transmit total_rounds pacing warnings w =
     request_rounds total_rounds ep ck targets transmit 0 total_rounds pacing warnings w"

section \<open>Deadlines\<close>

definition monotonic_deadline_from :: "'w clock \<Rightarrow> timestamp \<Rightarrow> duration \<Rightarrow> app_error + timestamp" where
  "monotonic_deadline_from ck t d = ok_or (ck_add ck t d) (ScanTimingExceedsLimit MonotonicDeadline)"

definition monotonic_deadline :: "'w clock \<Rightarrow> duration \<Rightarrow> 'w \<Rightarrow> (app_error + timestamp) \<times> 'w" where
  "monotonic_deadline ck d w = (let (now, w) = ck_now ck w in (monotonic_deadline_from ck now d, w))"

definition wait_until_interval_after_last_send ::
    "'w clock \<Rightarrow> timestamp option \<Rightarrow> duration \<Rightarrow> 'w \<Rightarrow> (app_error + unit) \<times> 'w" where
  "wait_until_interval_after_last_send ck last_send interval w =
     (case last_send of
        None \<Rightarrow> (Inr (), w)
      | Some t \<Rightarrow>
          (case monotonic_deadline_from ck t interval of
             Inl e \<Rightarrow> (Inl e, w)
           | Inr earliest \<Rightarrow> (Inr (), ck_sleep_until ck earliest w)))"

definition wait_until_next_round ::
    "'w clock \<Rightarrow> timestamp option \<Rightarrow> duration \<Rightarrow> duration \<Rightarrow> 'w \<Rightarrow> (app_error + unit) \<times> 'w" where
  "wait_until_next_round ck last_send interval pacing w =
     (case last_send of
        None \<Rightarrow> (Inr (), w)
      | Some t \<Rightarrow>
          (case monotonic_deadline_from ck t interval of
             Inl e \<Rightarrow> (Inl e, w)
           | Inr inter_send_deadline \<Rightarrow>
               let (now, w) = ck_now ck w; baseline = max inter_send_deadline now in
               (case monotonic_deadline_from ck baseline pacing of
                  Inl e \<Rightarrow> (Inl e, w)
                | Inr next_round \<Rightarrow> (Inr (), ck_sleep_until ck next_round w))))"

section \<open>The rate-limited path\<close>

definition merge_discovered_host_maps :: "hosts \<Rightarrow> hosts \<Rightarrow> warnings \<Rightarrow> hosts \<times> warnings" where
  "merge_discovered_host_maps discovered additional warnings =
     foldl (\<lambda>(d, ws) (ip, mac). merge_reply d ip mac ws) (discovered, warnings)
       (bt_entries additional)"

text \<open>One send round; \<open>first\<close> holds for index zero, which does not wait.\<close>

fun rate_limited_sends ::
    "'w endpoint \<Rightarrow> 'w clock \<Rightarrow> scan_transmit_context \<Rightarrow> duration \<Rightarrow> bool \<Rightarrow> ipv4 list
     \<Rightarrow> timestamp option \<Rightarrow> warnings \<Rightarrow> 'w \<Rightarrow> (app_error + timestamp option \<times> warnings) \<times> 'w" where
  "rate_limited_sends ep ck transmit interval first [] last_send warnings w =
     (Inr (last_send, warnings), w)"
| "rate_limited_sends ep ck transmit interval first (target # targets) last_send warnings w =
     (case (if first then (Inr (), w)
            else wait_until_interval_after_last_send ck last_send interval w) of
        (Inl e, w) \<Rightarrow> (Inl e, w)
      | (Inr _, w) \<Rightarrow>
          let (warnings, w) = send_one_request ep transmit target warnings w;
              w = ck_after_send ck w;
              (now, w) = ck_now ck w in
          rate_limited_sends ep ck transmit interval False targets (Some now) warnings w)"

text \<open>The body of one round: the sends, then the receive window of the round.\<close>

definition rate_limited_round ::
    "nat \<Rightarrow> nat \<Rightarrow> (f64 \<Rightarrow> nat \<Rightarrow> f64) \<Rightarrow> 'w endpoint \<Rightarrow> 'w clock \<Rightarrow> endpoint_scan_request
     \<Rightarrow> scheduled_rate_limit \<Rightarrow> nat \<Rightarrow> ipv4 list \<Rightarrow> timestamp option \<Rightarrow> u8 list \<Rightarrow> hosts \<times> warnings
     \<Rightarrow> 'w \<Rightarrow> (stop + timestamp option \<times> u8 list \<times> hosts \<times> warnings) \<times> 'w" where
  "rate_limited_round fuel drain_fuel pw ep ck request rate round_index unanswered last_send
     buffer acc w =
     (case rate_limited_sends ep ck (esr_transmit request) (srl_interval rate) True unanswered
             last_send (snd acc) w of
        (Inl e, w) \<Rightarrow> (Inl (Failed e), w)
      | (Inr (last_send, warnings), w) \<Rightarrow>
      (case retry_receive_window pw (esr_receive_timeout request) (srl_backoff_factor rate)
             round_index of
        Inl e \<Rightarrow> (Inl (Failed e), w)
      | Inr receive_window \<Rightarrow>
      (case monotonic_deadline ck receive_window w of
        (Inl e, w) \<Rightarrow> (Inl (Failed e), w)
      | (Inr receive_deadline, w) \<Rightarrow>
      (case collect_replies_until_deadline fuel drain_fuel ep ck receive_deadline
             (esr_acceptance request) buffer warnings w of
        (Inl s, w) \<Rightarrow> (Inl s, w)
      | (Inr (buffer, round_hosts, warnings), w) \<Rightarrow>
          (Inr (last_send, buffer, merge_discovered_host_maps (fst acc) round_hosts warnings), w)))))"

fun rate_limited_rounds ::
    "nat \<Rightarrow> nat \<Rightarrow> nat \<Rightarrow> (f64 \<Rightarrow> nat \<Rightarrow> f64) \<Rightarrow> 'w endpoint \<Rightarrow> 'w clock \<Rightarrow> endpoint_scan_request
     \<Rightarrow> scheduled_rate_limit \<Rightarrow> nat \<Rightarrow> ipv4 list \<Rightarrow> timestamp option \<Rightarrow> u8 list \<Rightarrow> hosts \<times> warnings
     \<Rightarrow> 'w \<Rightarrow> (stop + hosts \<times> warnings) \<times> 'w" where
  "rate_limited_rounds 0 fuel drain_fuel pw ep ck request rate round_index unanswered last_send
     buffer acc w = (Inr acc, w)"
| "rate_limited_rounds (Suc left) fuel drain_fuel pw ep ck request rate round_index unanswered
     last_send buffer acc w =
     (if unanswered = [] then (Inr acc, w)
      else (case rate_limited_round fuel drain_fuel pw ep ck request rate round_index unanswered
               last_send buffer acc w of
          (Inl s, w) \<Rightarrow> (Inl s, w)
        | (Inr (last_send, buffer, acc), w) \<Rightarrow>
          let unanswered = filter (\<lambda>t. bt_get (fst acc) t = None) unanswered in
          if unanswered = [] then (Inr acc, w)
          else if sat_add u64_max round_index 1 < esr_scan_round_count request
          then (case wait_until_next_round ck last_send (srl_interval rate) (esr_pacing request) w of
              (Inl e, w) \<Rightarrow> (Inl (Failed e), w)
            | (Inr _, w) \<Rightarrow>
                rate_limited_rounds left fuel drain_fuel pw ep ck request rate (Suc round_index)
                  unanswered last_send buffer acc w)
          else rate_limited_rounds left fuel drain_fuel pw ep ck request rate (Suc round_index)
                 unanswered last_send buffer acc w))"

definition run_rate_limited_rounds ::
    "nat \<Rightarrow> nat \<Rightarrow> (f64 \<Rightarrow> nat \<Rightarrow> f64) \<Rightarrow> 'w endpoint \<Rightarrow> 'w clock \<Rightarrow> endpoint_scan_request
     \<Rightarrow> scheduled_rate_limit \<Rightarrow> u8 list \<Rightarrow> warnings \<Rightarrow> 'w \<Rightarrow> (stop + hosts \<times> warnings) \<times> 'w" where
  "run_rate_limited_rounds fuel drain_fuel pw ep ck request rate buffer warnings w =
     (if esr_targets request = []
      then (case monotonic_deadline ck (esr_receive_timeout request) w of
          (Inl e, w) \<Rightarrow> (Inl (Failed e), w)
        | (Inr deadline, w) \<Rightarrow>
            (case collect_replies_until_deadline fuel drain_fuel ep ck deadline
                    (esr_acceptance request) buffer warnings w of
               (Inl s, w) \<Rightarrow> (Inl s, w)
             | (Inr (buffer, acc), w) \<Rightarrow> (Inr acc, w)))
      else rate_limited_rounds (esr_scan_round_count request) fuel drain_fuel pw ep ck request rate 0
             (esr_targets request) None buffer ([], warnings) w)"

section \<open>A whole scan over an open endpoint\<close>

definition receive_buffer_length :: nat where "receive_buffer_length = 4096"

definition hosts_outcome :: "hosts \<times> warnings \<Rightarrow> scan_outcome" where
  "hosts_outcome = (\<lambda>(discovered, warnings).
     \<lparr>so_discovered_hosts =
        map (\<lambda>(ip, mac). \<lparr>dh_ipv4_address = ip, dh_mac_address = mac\<rparr>) (bt_entries discovered),
      so_warnings = warnings, so_timing_summary = None\<rparr>)"

definition collect_scan_over_endpoint ::
    "nat \<Rightarrow> nat \<Rightarrow> (f64 \<Rightarrow> nat \<Rightarrow> f64) \<Rightarrow> 'w endpoint \<Rightarrow> 'w clock \<Rightarrow> endpoint_scan_request \<Rightarrow> 'w
     \<Rightarrow> (stop + scan_outcome) \<times> 'w" where
  "collect_scan_over_endpoint fuel drain_fuel pw ep ck request w =
     (case and_then (validate_ieee_8021q_tag_stack (stc_wire (esr_transmit request))) (\<lambda>_.
           and_then (validate_ieee_8023_mac_client_data (stc_wire (esr_transmit request))) (\<lambda>_.
           validate_scan_timing_before_socket pw (esr_receive_timeout request) (esr_pacing request)
             (esr_scan_round_count request) (stc_wire (esr_transmit request))
             (esr_rate_limit request))) of
        Inl e \<Rightarrow> (Inl (Failed e), w)
      | Inr scheduled_rate \<Rightarrow>
          let receive_buffer = replicate receive_buffer_length 0;
              (result, w) =
                (case scheduled_rate of
                   Some rate \<Rightarrow>
                     run_rate_limited_rounds fuel drain_fuel pw ep ck request rate receive_buffer [] w
                 | None \<Rightarrow>
                     let (warnings, w) = run_address_resolution_request_rounds ep ck
                           (esr_targets request) (esr_transmit request)
                           (esr_scan_round_count request) (esr_pacing request) [] w;
                         (now, w) = ck_now ck w in
                     (case ck_add ck now (esr_receive_timeout request) of
                        None \<Rightarrow> (Inl (Failed (ScanTimingExceedsLimit MonotonicDeadline)), w)
                      | Some deadline \<Rightarrow>
                          (case collect_replies_until_deadline fuel drain_fuel ep ck deadline
                                  (esr_acceptance request) receive_buffer warnings w of
                             (Inl s, w) \<Rightarrow> (Inl s, w)
                           | (Inr (buffer, acc), w) \<Rightarrow> (Inr acc, w)))) in
          (case result of
             Inl s \<Rightarrow> (Inl s, w)
           | Inr acc \<Rightarrow> (Inr (hosts_outcome acc), w)))"

section \<open>Merging replies\<close>

lemma ipv4_btree_put: "bt_wf m \<Longrightarrow> bt_wf (bt_put k v m)"
  by (rule bt.wf_put)

text \<open>The sender a frame reports, when it is a reply the scan records.\<close>

definition accepted_reply :: "arp_reply_acceptance \<Rightarrow> u8 list \<Rightarrow> (ipv4 \<times> mac_address) option" where
  "accepted_reply acceptance frame =
     (case try_parse_arp frame of
        Inr p \<Rightarrow>
          if pa_opcode p = arp_operation_reply
             \<and> accepts_sender_ipv4_address acceptance (pa_sender_protocol p)
          then Some (pa_sender_protocol p, pa_sender_hardware p) else None
      | Inl _ \<Rightarrow> None)"

definition malformed_reply :: "u8 list \<Rightarrow> string list" where
  "malformed_reply frame =
     (case try_parse_arp frame of
        Inl reason \<Rightarrow>
          if ethernet_frame_is_not_arp frame then []
          else [''received malformed Ethernet/ARP frame: '' @ reason]
      | Inr _ \<Rightarrow> [])"

lemma parsed_arp_is_arp: "try_parse_arp frame = Ok p \<Longrightarrow> \<not> ethernet_frame_is_not_arp frame"
  by (auto simp: try_parse_arp_def and_then_eq_Ok_iff ethernet_frame_is_not_arp_def split: if_splits)

lemma process_reply_frame_eq:
  "process_reply_frame acceptance frame (d, ws) =
     (case accepted_reply acceptance frame of
        None \<Rightarrow> (d, ws @ malformed_reply frame)
      | Some (ip, mac) \<Rightarrow> merge_reply d ip mac ws)"
  using parsed_arp_is_arp [of frame]
  by (auto simp: process_reply_frame_def accepted_reply_def malformed_reply_def split: sum.splits)

lemma merge_reply_wf: "bt_wf d \<Longrightarrow> bt_wf (fst (merge_reply d ip mac ws))"
  by (auto simp: merge_reply_def bt.wf_put split: option.splits)

lemma merge_reply_get:
  assumes "bt_wf d"
  shows "bt_get (fst (merge_reply d ip mac ws)) =
    (bt_get d)(ip \<mapsto> (case bt_get d ip of None \<Rightarrow> mac | Some stored \<Rightarrow> stored))"
  using bt.get_put [OF assms] by (auto simp: merge_reply_def split: option.splits)

lemma process_frames_wf:
  "bt_wf (fst a) \<Longrightarrow> bt_wf (fst (foldl (\<lambda>a f. process_reply_frame acceptance f a) a frames))"
proof (induction frames arbitrary: a)
  case (Cons f frames)
  then show ?case
    by (cases a) (auto simp: process_reply_frame_eq merge_reply_wf split: option.splits)
qed simp

fun accepted_replies :: "arp_reply_acceptance \<Rightarrow> u8 list list \<Rightarrow> (ipv4 \<times> mac_address) list" where
  "accepted_replies acceptance [] = []"
| "accepted_replies acceptance (f # fs) =
     (case accepted_reply acceptance f of
        None \<Rightarrow> accepted_replies acceptance fs
      | Some e \<Rightarrow> e # accepted_replies acceptance fs)"

abbreviation process_frames ::
    "arp_reply_acceptance \<Rightarrow> hosts \<times> warnings \<Rightarrow> u8 list list \<Rightarrow> hosts \<times> warnings" where
  "process_frames acceptance a fs \<equiv> foldl (\<lambda>a f. process_reply_frame acceptance f a) a fs"

text \<open>A reply is recorded for the first frame that reports its sender; later ones change nothing.\<close>

lemma process_frames_get:
  "bt_wf (fst a) \<Longrightarrow>
     bt_get (fst (process_frames acceptance a frames)) =
       map_of (accepted_replies acceptance frames) ++ bt_get (fst a)"
proof (induction frames arbitrary: a)
  case (Cons f frames)
  obtain d ws where a: "a = (d, ws)" by (cases a)
  have wf: "bt_wf (fst (process_reply_frame acceptance f a))"
    using process_frames_wf [of a acceptance "[f]"] Cons.prems by simp
  have IH: "bt_get (fst (process_frames acceptance a (f # frames))) =
      map_of (accepted_replies acceptance frames) ++ bt_get (fst (process_reply_frame acceptance f a))"
    using Cons.IH [OF wf] by simp
  show ?case
  proof (cases "accepted_reply acceptance f")
    case None
    then show ?thesis using IH by (simp add: a process_reply_frame_eq)
  next
    case (Some e)
    obtain ip mac where e: "e = (ip, mac)" by (cases e)
    have "bt_get (fst (process_reply_frame acceptance f a)) =
        (bt_get d)(ip \<mapsto> (case bt_get d ip of None \<Rightarrow> mac | Some stored \<Rightarrow> stored))"
      using merge_reply_get [of d] Cons.prems Some e by (simp add: a process_reply_frame_eq)
    then show ?thesis
      using IH Some e by (auto simp: a map_add_def fun_eq_iff split: option.splits)
  qed
qed simp

section \<open>The receive phase\<close>

context timed_endpoint
begin

text \<open>Whatever arrives, the result is the fold over the frames that were read, in order.\<close>

lemma drain_reads:
  "drain_buffered_reply_frames fuel ep acceptance buf a w = (r, w') \<Longrightarrow>
     \<exists>fs. events w' = events w @ map Read fs \<and> time w \<le> time w'
          \<and> (\<forall>buf' a'. r = Inr (buf', a') \<longrightarrow> a' = process_frames acceptance a fs)"
proof (induction fuel arbitrary: buf a w)
  case (Suc fuel)
  obtain r1 b1 w1 where recv: "ep_receive ep buf w = (r1, b1, w1)" by (cases "ep_receive ep buf w") auto
  note log = receive_logs [OF recv]
  consider e where "r1 = Inl e" | "r1 = Inr None" | k where "r1 = Inr (Some k)" "length b1 < k"
    | k where "r1 = Inr (Some k)" "\<not> length b1 < k"
    by (metis option.exhaust sum.exhaust)
  then show ?case
  proof cases
    case 3
    then show ?thesis using Suc.prems recv log by (intro exI [of _ "[take k b1]"]) auto
  next
    case 4
    then have "drain_buffered_reply_frames fuel ep acceptance b1
        (process_reply_frame acceptance (take k b1) a) w1 = (r, w')"
      using Suc.prems recv by simp
    from Suc.IH [OF this] obtain fs where "events w' = events w1 @ map Read fs" "time w1 \<le> time w'"
      "\<forall>buf' a'. r = Inr (buf', a') \<longrightarrow>
         a' = process_frames acceptance (process_reply_frame acceptance (take k b1) a) fs"
      by blast
    then show ?thesis
      using log 4 by (intro exI [of _ "take k b1 # fs"]) auto
  qed (use Suc.prems recv log in \<open>auto intro: exI [of _ "[]"]\<close>)
qed auto

lemma collect_reads:
  assumes "collect_replies_loop fuel dfuel ep ck deadline acceptance buf a w = (r, w')"
  shows "\<exists>fs. events w' = events w @ map Read fs \<and> time w \<le> time w'
          \<and> (\<forall>buf' a'. r = Inr (buf', a') \<longrightarrow>
               a' = process_frames acceptance a fs \<and> deadline \<le> time w')"
proof -
  let ?R = "\<lambda>fs s s'. snd s' = process_frames acceptance (snd s) fs"
  have "\<exists>fs. events w' = events w @ map Read fs \<and> time w \<le> time w'
      \<and> (\<forall>s'. r = Inr s' \<longrightarrow> ?R fs (buf, a) s' \<and> deadline \<le> time w')"
    by (rule poll_reads [where R = ?R, OF _ _ _ assms [unfolded collect_replies_loop_def]])
      (use drain_reads in \<open>fastforce split: prod.splits\<close>)+
  then show ?thesis by auto
qed

end

text \<open>A bounded capture is drained completely, and no bound on the iterations is met.\<close>

context frame_source
begin

lemma drain_all:
  "\<forall>f \<in> set (pending w). length f \<le> length buf \<Longrightarrow> length (pending w) < fuel \<Longrightarrow>
     \<exists>buf' w'. drain_buffered_reply_frames fuel ep acceptance buf a w =
         (Inr (buf', process_frames acceptance a (pending w)), w')
       \<and> length buf' = length buf \<and> pending w' = []"
proof (induction fuel arbitrary: buf a w)
  case (Suc fuel)
  show ?case
  proof (cases "pending w")
    case Nil
    then show ?thesis using receive_none [OF Nil, of buf] by auto
  next
    case (Cons f fs)
    then obtain b1 w1 where recv: "ep_receive ep buf w = (Inr (Some (length f)), b1, w1)"
      and b1: "take (length f) b1 = f" "length b1 = length buf" "pending w1 = fs"
      using receive_some [OF Cons, of buf] Suc.prems by auto
    have "length f \<le> length b1" using Suc.prems Cons b1 by simp
    moreover have "\<forall>f \<in> set (pending w1). length f \<le> length b1" "length (pending w1) < fuel"
      using Suc.prems Cons b1 by auto
    from Suc.IH [OF this, of "process_reply_frame acceptance f a"] obtain b2 w2 where
      "drain_buffered_reply_frames fuel ep acceptance b1 (process_reply_frame acceptance f a) w1 =
         (Inr (b2, process_frames acceptance (process_reply_frame acceptance f a) (pending w1)), w2)"
      "length b2 = length b1" "pending w2 = []" by blast
    ultimately show ?thesis using recv b1 Cons by simp
  qed
qed simp

end

context scripted_capture
begin

lemma drain_instant:
  "drain_buffered_reply_frames fuel ep acceptance buf a w = (r, w') \<Longrightarrow> time w' = time w"
proof (induction fuel arbitrary: buf a w)
  case (Suc fuel)
  obtain r1 b1 w1 where recv: "ep_receive ep buf w = (r1, b1, w1)" by (cases "ep_receive ep buf w") auto
  then show ?case
    using Suc receive_instant [OF recv] by (auto split: sum.splits option.splits if_splits)
qed simp

lemma collect_all:
  assumes fits: "\<forall>f \<in> set (pending w). length f \<le> length buf"
    and dfuel: "length (pending w) < dfuel"
    and deadline: "ck_add ck b c = Some deadline" "deadline \<le> time w + duration_max"
    and fuel: "3 \<le> fuel"
  shows "\<exists>buf' w'. collect_replies_loop fuel dfuel ep ck deadline acceptance buf a w =
    (Inr (buf', if time w < deadline then process_frames acceptance a (pending w) else a), w')
    \<and> pending w' = (if time w < deadline then [] else pending w) \<and> length buf' = length buf"
proof -
  let ?P = "\<lambda>s'. snd s' = process_frames acceptance a (pending w) \<and> length (fst s') = length buf"
  let ?drain = "\<lambda>(buffer, acc). drain_buffered_reply_frames dfuel ep acceptance buffer acc"
  have "\<exists>s' u. ?drain (buf, a) v = (Inr s', u) \<and> pending u = [] \<and> time u = time v \<and> ?P s'"
    if "pending v = pending w" for v
    using drain_all [of v buf dfuel acceptance a] drain_instant fits dfuel that by fastforce
  from poll_all [where drain = ?drain and P = ?P, OF this deadline fuel] show ?thesis
    unfolding collect_replies_loop_def by (fastforce split: if_splits)
qed

end

section \<open>Requests on the wire\<close>

context timed_endpoint
begin

lemma send_one_logs:
  assumes "send_one_request ep transmit target ws w = (ws', w')"
  shows "\<exists>t. events w' = events w @ [Sent t (request_frame transmit target)]
           \<and> time w \<le> t \<and> t \<le> time w'"
proof -
  obtain r w1 where "ep_send ep (request_frame transmit target) w = (r, w1)"
    by (cases "ep_send ep (request_frame transmit target) w")
  then show ?thesis
    using assms send_logs by (auto simp: send_one_request_def split: sum.splits)
qed

lemma send_requests_log:
  "send_requests ep transmit targets ws w = (ws', w') \<Longrightarrow>
     \<exists>ts. events w' = events w @ map2 Sent ts (map (request_frame transmit) targets)
       \<and> length ts = length targets \<and> time w \<le> time w'"
proof (induction targets arbitrary: ws w)
  case (Cons target targets)
  obtain ws1 w1 where one: "send_one_request ep transmit target ws w = (ws1, w1)"
    by (cases "send_one_request ep transmit target ws w")
  obtain t where t: "events w1 = events w @ [Sent t (request_frame transmit target)]"
    "time w \<le> time w1" using send_one_logs [OF one] by auto
  have "send_requests ep transmit targets ws1 w1 = (ws', w')" using Cons.prems one by simp
  from Cons.IH [OF this] obtain ts where
    "events w' = events w1 @ map2 Sent ts (map (request_frame transmit) targets)"
    "length ts = length targets" "time w1 \<le> time w'" by blast
  then show ?case using t by (intro exI [of _ "t # ts"]) simp
qed simp

lemma sent_of_map2 [simp]: "length ts = length fs \<Longrightarrow> sent_of (map2 Sent ts fs) = zip ts fs"
  by (induction ts fs rule: list_induct2) auto

lemma reads_of_map2 [simp]: "reads_of (map2 Sent ts fs) = []"
  by (induction ts fs rule: list_induct2') auto

lemma request_rounds_log:
  "request_rounds left ep ck targets transmit i n pacing ws w = (ws', w') \<Longrightarrow>
     map snd (sent_of (events w')) =
       map snd (sent_of (events w)) @ concat (replicate left (map (request_frame transmit) targets))
     \<and> time w \<le> time w' \<and> reads_of (events w') = reads_of (events w)"
proof (induction left arbitrary: i ws w)
  case (Suc left)
  obtain ws1 w1 where one: "send_requests ep transmit targets ws w = (ws1, w1)"
    by (cases "send_requests ep transmit targets ws w")
  define w2 where "w2 = (if should_apply_pacing_after_scan_round i n pacing
      then ck_sleep_for ck pacing w1 else w1)"
  have "events w2 = events w1" "time w1 \<le> time w2"
    using sleep_for_quiet sleep_for_mono by (simp_all add: w2_def)
  then show ?case
    using Suc.IH [of "Suc i" ws1 w2] Suc.prems send_requests_log [OF one]
    by (auto simp: one Let_def w2_def [symmetric])
qed simp

end

section \<open>The rate-limited path\<close>

lemma accepted_replies_append [simp]:
  "accepted_replies acceptance (xs @ ys) =
     accepted_replies acceptance xs @ accepted_replies acceptance ys"
  by (induction xs) (auto split: option.splits)

lemma merge_maps_get:
  assumes "bt_wf d" and "bt_wf additional"
  shows "bt_wf (fst (merge_discovered_host_maps d additional ws))"
    and "bt_get (fst (merge_discovered_host_maps d additional ws)) = bt_get additional ++ bt_get d"
proof -
  let ?step = "\<lambda>(d, ws) (ip, mac). merge_reply d ip mac ws"
  have "bt_wf (fst (foldl ?step a es)) \<and> bt_get (fst (foldl ?step a es)) = map_of es ++ bt_get (fst a)"
    if "bt_wf (fst a)" for a es
    using that
  proof (induction es arbitrary: a)
    case (Cons e es)
    obtain d ws ip mac where [simp]: "a = (d, ws)" "e = (ip, mac)" by (cases a, cases e)
    have "bt_wf (fst (merge_reply d ip mac ws))" using Cons.prems merge_reply_wf by simp
    moreover have "bt_get (fst (merge_reply d ip mac ws)) =
        (bt_get d)(ip \<mapsto> (case bt_get d ip of None \<Rightarrow> mac | Some stored \<Rightarrow> stored))"
      using Cons.prems merge_reply_get by simp
    ultimately show ?case
      using Cons.IH [of "merge_reply d ip mac ws"]
      by (auto simp: map_add_def fun_eq_iff split: option.splits)
  qed simp
  from this [of "(d, ws)" "bt_entries additional"]
  show "bt_wf (fst (merge_discovered_host_maps d additional ws))"
    "bt_get (fst (merge_discovered_host_maps d additional ws)) = bt_get additional ++ bt_get d"
    using assms bt.entries_get [OF assms(2)] by (simp_all add: merge_discovered_host_maps_def)
qed

text \<open>Requests are at least the interval apart.\<close>

definition paced :: "duration \<Rightarrow> event list \<Rightarrow> bool" where
  "paced interval es \<longleftrightarrow> sorted_wrt (\<lambda>a b. a + interval \<le> b) (map fst (sent_of es))"

text \<open>A request goes to a target that none of the frames read before it has answered.\<close>

definition asks_unanswered ::
    "scan_transmit_context \<Rightarrow> arp_reply_acceptance \<Rightarrow> ipv4 list \<Rightarrow> event list \<Rightarrow> bool" where
  "asks_unanswered transmit acceptance targets es \<longleftrightarrow>
     (\<forall>pre t f post. es = pre @ Sent t f # post \<longrightarrow>
       (\<exists>target \<in> set targets. f = request_frame transmit target
          \<and> map_of (accepted_replies acceptance (reads_of pre)) target = None))"

lemma asks_unanswered_Nil [simp]: "asks_unanswered transmit acceptance targets []"
  by (simp add: asks_unanswered_def)

lemma asks_unanswered_snoc:
  "asks_unanswered transmit acceptance targets (es @ [e]) \<longleftrightarrow>
     asks_unanswered transmit acceptance targets es
     \<and> (\<forall>t f. e = Sent t f \<longrightarrow> (\<exists>target \<in> set targets. f = request_frame transmit target
          \<and> map_of (accepted_replies acceptance (reads_of es)) target = None))"
  (is "?L \<longleftrightarrow> ?R")
proof
  assume L: ?L
  have "asks_unanswered transmit acceptance targets es"
    unfolding asks_unanswered_def
  proof (intro allI impI)
    fix pre t f post
    assume "es = pre @ Sent t f # post"
    then have "es @ [e] = pre @ Sent t f # (post @ [e])" by simp
    then show "\<exists>target \<in> set targets. f = request_frame transmit target
          \<and> map_of (accepted_replies acceptance (reads_of pre)) target = None"
      using L unfolding asks_unanswered_def by blast
  qed
  then show ?R using L unfolding asks_unanswered_def by blast
next
  assume R: ?R
  show ?L
    unfolding asks_unanswered_def
  proof (intro allI impI)
    fix pre t f post
    assume eq: "es @ [e] = pre @ Sent t f # post"
    show "\<exists>target \<in> set targets. f = request_frame transmit target
          \<and> map_of (accepted_replies acceptance (reads_of pre)) target = None"
    proof (cases post rule: rev_cases)
      case Nil
      then show ?thesis using eq R by simp
    next
      case (snoc post' e')
      then show ?thesis using eq R by (simp add: asks_unanswered_def)
    qed
  qed
qed

lemma asks_unanswered_reads:
  "asks_unanswered transmit acceptance targets (es @ map Read fs) \<longleftrightarrow>
     asks_unanswered transmit acceptance targets es"
proof (induction fs rule: rev_induct)
  case (snoc f fs)
  then show ?case
    using asks_unanswered_snoc [of transmit acceptance targets "es @ map Read fs" "Read f"] by simp
qed simp

lemma paced_snoc:
  "paced interval (es @ [Sent t f]) \<longleftrightarrow>
     paced interval es \<and> (\<forall>t' \<in> fst ` set (sent_of es). t' + interval \<le> t)"
  by (auto simp: paced_def sorted_wrt_append)

lemma paced_reads [simp]: "paced interval (es @ map Read fs) \<longleftrightarrow> paced interval es"
  by (simp add: paced_def)

context timed_endpoint
begin

text \<open>The last send and the clock bound the times of the log.\<close>

definition send_state :: "timestamp option \<Rightarrow> 'w \<Rightarrow> bool" where
  "send_state last_send w \<longleftrightarrow>
     (\<forall>t \<in> fst ` set (sent_of (events w)). \<exists>l. last_send = Some l \<and> t \<le> l)
     \<and> (\<forall>l. last_send = Some l \<longrightarrow> l \<le> time w)"

lemma send_state_later:
  "send_state last_send w \<Longrightarrow> sent_of (events w') = sent_of (events w) \<Longrightarrow> time w \<le> time w' \<Longrightarrow>
     send_state last_send w'"
  by (fastforce simp: send_state_def)

definition ready_to_send :: "duration \<Rightarrow> timestamp option \<Rightarrow> 'w \<Rightarrow> bool" where
  "ready_to_send interval last_send w \<longleftrightarrow> (\<forall>l. last_send = Some l \<longrightarrow> l + interval \<le> time w)"

lemma wait_interval_ready:
  assumes "wait_until_interval_after_last_send ck last_send interval w = (Inr (), w')"
    and "send_state last_send w" and "interval \<le> duration_max"
  shows "ready_to_send interval last_send w' \<and> events w' = events w \<and> time w \<le> time w'"
proof (cases last_send)
  case (Some l)
  then obtain u where u: "ck_add ck l interval = Some u" "w' = ck_sleep_until ck u w"
    using assms(1)
    by (auto simp: wait_until_interval_after_last_send_def monotonic_deadline_from_def ok_or_def
        split: sum.splits option.splits)
  moreover have "u = l + interval" using u by (intro add_exact)
  moreover have "l \<le> time w" using assms(2) Some by (simp add: send_state_def)
  ultimately show ?thesis
    using Some sleep_until_reaches [OF u(1), of w] sleep_until_mono sleep_until_quiet assms(3)
    by (simp add: ready_to_send_def)
qed (use assms(1) in \<open>simp add: wait_until_interval_after_last_send_def ready_to_send_def\<close>)

lemma wait_interval_events:
  "wait_until_interval_after_last_send ck last_send interval w = (r, w') \<Longrightarrow> events w' = events w"
  using sleep_until_quiet
  by (auto simp: wait_until_interval_after_last_send_def split: option.splits sum.splits)

lemma wait_round_ready:
  assumes "wait_until_next_round ck last_send interval pacing w = (Inr (), w')"
    and "send_state last_send w" and "interval + pacing \<le> duration_max"
  shows "ready_to_send interval last_send w' \<and> events w' = events w \<and> time w \<le> time w'"
proof (cases last_send)
  case (Some l)
  obtain n w1 where now: "ck_now ck w = (n, w1)" by (cases "ck_now ck w")
  note q = now_quiet [OF now] now_between [OF now]
  obtain u where "ck_add ck l interval = Some u"
    using assms(1) Some
    by (auto simp: wait_until_next_round_def monotonic_deadline_from_def ok_or_def
        split: sum.splits option.splits)
  then have u: "ck_add ck l interval = Some (l + interval)" using add_exact by blast
  then obtain v where v: "ck_add ck (max (l + interval) n) pacing = Some v" "w' = ck_sleep_until ck v w1"
    using assms(1) Some now
    by (auto simp: wait_until_next_round_def monotonic_deadline_from_def ok_or_def Let_def
        split: sum.splits option.splits)
  have "v = max (l + interval) n + pacing" using v(1) by (intro add_exact)
  moreover have "l \<le> time w" using assms(2) Some by (simp add: send_state_def)
  moreover have "v \<le> time w1 + duration_max" using calculation q assms(3) by auto
  ultimately show ?thesis
    using Some v sleep_until_reaches [OF v(1), of w1] sleep_until_mono [of w1 v]
      sleep_until_quiet [of v w1] q
    by (auto simp: ready_to_send_def)
qed (use assms(1) in \<open>simp add: wait_until_next_round_def ready_to_send_def\<close>)

lemma wait_round_events:
  "wait_until_next_round ck last_send interval pacing w = (r, w') \<Longrightarrow> events w' = events w"
  using sleep_until_quiet now_quiet
  by (auto simp: wait_until_next_round_def Let_def split: option.splits sum.splits prod.splits)

text \<open>One round of sends keeps the spacing, asks only what is unanswered, and reads nothing.\<close>

lemma rate_limited_sends_events:
  assumes "rate_limited_sends ep ck transmit interval first targets last_send ws w = (r, w')"
    and "send_state last_send w" and "first \<longrightarrow> ready_to_send interval last_send w"
    and "interval \<le> duration_max" and "paced interval (events w)"
    and "asks_unanswered transmit acceptance all (events w)"
    and "\<forall>t \<in> set targets. t \<in> set all
           \<and> map_of (accepted_replies acceptance (reads_of (events w))) t = None"
  shows "paced interval (events w') \<and> asks_unanswered transmit acceptance all (events w')
    \<and> reads_of (events w') = reads_of (events w)
    \<and> (\<forall>last' ws'. r = Inr (last', ws') \<longrightarrow> send_state last' w')"
  using assms
proof (induction targets arbitrary: first last_send ws w)
  case (Cons target targets)
  define wait where "wait =
    (if first then (Inr (), w) else wait_until_interval_after_last_send ck last_send interval w)"
  obtain r0 w0 where wait0: "wait = (r0, w0)" by (cases wait)
  have step: "rate_limited_sends ep ck transmit interval first (target # targets) last_send ws w =
    (case wait of
        (Inl e, w) \<Rightarrow> (Inl e, w)
      | (Inr _, w) \<Rightarrow>
          let (ws, w) = send_one_request ep transmit target ws w;
              w = ck_after_send ck w;
              (now, w) = ck_now ck w in
          rate_limited_sends ep ck transmit interval False targets (Some now) ws w)"
    by (simp only: rate_limited_sends.simps(2) wait_def)
  show ?case
  proof (cases r0)
    case (Inl e)
    then have "r = Inl e" "w' = w0" using Cons.prems(1) step wait0 by simp_all
    moreover have "events w0 = events w"
      using wait0 wait_interval_events by (auto simp: wait_def split: if_splits)
    ultimately show ?thesis using Cons.prems by simp
  next
    case (Inr x)
    then have ready: "ready_to_send interval last_send w0" "events w0 = events w" "time w \<le> time w0"
      using wait0 wait_interval_ready [OF _ Cons.prems(2,4), of w0] Cons.prems(3)
      by (auto simp: wait_def split: if_splits)
    obtain ws1 w1 where one: "send_one_request ep transmit target ws w0 = (ws1, w1)"
      by (cases "send_one_request ep transmit target ws w0")
    obtain t where t: "events w1 = events w0 @ [Sent t (request_frame transmit target)]"
      "time w0 \<le> t" "t \<le> time w1" using send_one_logs [OF one] by auto
    define w2 where "w2 = ck_after_send ck w1"
    obtain n w3 where now: "ck_now ck w2 = (n, w3)" by (cases "ck_now ck w2")
    have w3: "events w3 = events w1" "t \<le> n" "n \<le> time w3"
      using now_quiet [OF now] now_between [OF now] after_send_quiet [of w1] after_send_mono [of w1] t
      by (auto simp: w2_def)
    have rest: "rate_limited_sends ep ck transmit interval False targets (Some n) ws1 w3 = (r, w')"
      using Cons.prems(1) step wait0 Inr one now by (simp add: w2_def Let_def)
    have before: "t' + interval \<le> t" if "t' \<in> fst ` set (sent_of (events w))" for t'
      using that Cons.prems(2) ready t(2) by (fastforce simp: send_state_def ready_to_send_def)
    have "send_state (Some n) w3"
      using before w3 t ready by (fastforce simp: send_state_def)
    moreover have "paced interval (events w3)"
      using before w3 t ready Cons.prems(5) by (simp add: paced_snoc)
    moreover have "asks_unanswered transmit acceptance all (events w3)"
      using w3 t ready Cons.prems(6,7) by (auto simp: asks_unanswered_snoc)
    moreover have "reads_of (events w3) = reads_of (events w)" using w3 t ready by simp
    ultimately show ?thesis
      using Cons.IH [OF rest] Cons.prems(4,7) by simp
  qed
qed auto

lemma process_from_empty:
  "bt_wf (fst (process_frames acceptance ([], ws) fs))
   \<and> bt_get (fst (process_frames acceptance ([], ws) fs)) = map_of (accepted_replies acceptance fs)"
proof -
  have "bt_wf ([] :: hosts)" by (rule bt.wf_empty)
  then show ?thesis
    using process_frames_wf [of "([], ws)" acceptance fs] process_frames_get [of "([], ws)" acceptance fs]
    by (simp add: fun_eq_iff map_add_def split: option.splits)
qed

text \<open>The map a scan keeps: for each sender, the first accepted reply among the frames read.\<close>

definition hosts_of_reads :: "arp_reply_acceptance \<Rightarrow> hosts \<Rightarrow> 'w \<Rightarrow> bool" where
  "hosts_of_reads acceptance d w \<longleftrightarrow>
     bt_wf d \<and> bt_get d = map_of (accepted_replies acceptance (reads_of (events w)))"

lemma hosts_of_reads_merge:
  assumes "hosts_of_reads acceptance d w" and "events w' = events w @ map Read fs"
    and "(h, ws') = process_frames acceptance ([], ws) fs"
    and "(d', ws'') = merge_discovered_host_maps d h ws'"
  shows "hosts_of_reads acceptance d' w'" "bt_get d' t = None \<Longrightarrow> bt_get d t = None"
proof -
  have h: "bt_wf h" "bt_get h = map_of (accepted_replies acceptance fs)"
    using process_from_empty [of acceptance ws fs] assms(3) by (metis fst_conv)+
  have d: "bt_wf d" using assms(1) by (simp add: hosts_of_reads_def)
  have d': "bt_wf d'" "bt_get d' = bt_get h ++ bt_get d"
    using merge_maps_get [OF d h(1), of ws'] assms(4) by (metis fst_conv)+
  then show "hosts_of_reads acceptance d' w'"
    using assms(1,2) h by (simp add: hosts_of_reads_def)
  show "bt_get d' t = None \<Longrightarrow> bt_get d t = None" using d'(2) by simp
qed

lemma monotonic_deadline_events:
  "monotonic_deadline ck d w = (r, w') \<Longrightarrow> events w' = events w \<and> time w \<le> time w'"
  using now_quiet now_between
  by (auto simp: monotonic_deadline_def split: prod.splits) (meson le_trans)

text \<open>
  One round: the spacing is kept, only unanswered targets are asked, and the host map is again that
  of the frames read so far.
\<close>

lemma rate_limited_round_events:
  assumes run: "rate_limited_round fuel dfuel pw ep ck request rate i unanswered last_send buf acc w = (r, w')"
    and hosts: "hosts_of_reads (esr_acceptance request) (fst acc) w"
    and un: "unanswered = filter (\<lambda>t. bt_get (fst acc) t = None) (esr_targets request)"
    and st: "send_state last_send w" "ready_to_send (srl_interval rate) last_send w"
    and int: "srl_interval rate \<le> duration_max"
    and pre: "paced (srl_interval rate) (events w)"
      "asks_unanswered (esr_transmit request) (esr_acceptance request) (esr_targets request) (events w)"
  shows "paced (srl_interval rate) (events w')
    \<and> asks_unanswered (esr_transmit request) (esr_acceptance request) (esr_targets request) (events w')
    \<and> (\<forall>last' buf' acc'. r = Inr (last', buf', acc') \<longrightarrow>
         hosts_of_reads (esr_acceptance request) (fst acc') w' \<and> send_state last' w'
         \<and> (\<forall>t. bt_get (fst acc') t = None \<longrightarrow> bt_get (fst acc) t = None))"
proof -
  let ?A = "esr_acceptance request" and ?I = "srl_interval rate"
  obtain rs w1 where sends: "rate_limited_sends ep ck (esr_transmit request) ?I True unanswered
      last_send (snd acc) w = (rs, w1)" by fastforce
  have "\<forall>t \<in> set unanswered. t \<in> set (esr_targets request)
      \<and> map_of (accepted_replies ?A (reads_of (events w))) t = None"
    using hosts un by (auto simp: hosts_of_reads_def)
  then have s: "paced ?I (events w1)"
    "asks_unanswered (esr_transmit request) ?A (esr_targets request) (events w1)"
    "reads_of (events w1) = reads_of (events w)"
    "\<forall>last' ws'. rs = Inr (last', ws') \<longrightarrow> send_state last' w1"
    using rate_limited_sends_events [OF sends st(1) _ int pre] st(2) by blast+
  consider e where "rs = Inl e" | l ws1 e where "rs = Inr (l, ws1)"
      "retry_receive_window pw (esr_receive_timeout request) (srl_backoff_factor rate) i = Inl e"
    | l ws1 x where "rs = Inr (l, ws1)"
      "retry_receive_window pw (esr_receive_timeout request) (srl_backoff_factor rate) i = Inr x"
    by (metis sum.exhaust prod.exhaust)
  then show ?thesis
  proof cases
    case (3 l ws1 x)
    obtain rd w2 where dl: "monotonic_deadline ck x w1 = (rd, w2)" by fastforce
    note w2 = monotonic_deadline_events [OF dl]
    show ?thesis
    proof (cases rd)
      case (Inr deadline)
      obtain rc w3 where col:
        "collect_replies_until_deadline fuel dfuel ep ck deadline ?A buf ws1 w2 = (rc, w3)" by fastforce
      then obtain fs where fs: "events w3 = events w2 @ map Read fs" "time w2 \<le> time w3"
        "\<forall>b a. rc = Inr (b, a) \<longrightarrow> a = process_frames ?A ([], ws1) fs"
        using collect_reads by (fastforce simp: collect_replies_until_deadline_def)
      have s3: "paced ?I (events w3)"
        "asks_unanswered (esr_transmit request) ?A (esr_targets request) (events w3)"
        using s fs w2 by (simp_all add: asks_unanswered_reads)
      have "send_state l w3"
        using s(4) 3 send_state_later [of l w1 w3] fs w2 by auto
      moreover have "hosts_of_reads ?A (fst acc) w1" using hosts s(3) by (simp add: hosts_of_reads_def)
      then have "hosts_of_reads ?A (fst (merge_discovered_host_maps (fst acc) h ws2)) w3
          \<and> (\<forall>t. bt_get (fst (merge_discovered_host_maps (fst acc) h ws2)) t = None
               \<longrightarrow> bt_get (fst acc) t = None)" if "rc = Inr (b, h, ws2)" for b h ws2
        using hosts_of_reads_merge [of ?A "fst acc" w1 w3 fs h ws2 ws1] fs w2 that
        by (metis prod.collapse)
      ultimately show ?thesis
        using run sends 3 dl Inr col s3
        by (auto simp: rate_limited_round_def split: sum.splits)
    qed (use run sends 3 dl s w2 in \<open>auto simp: rate_limited_round_def\<close>)
  qed (use run sends s in \<open>auto simp: rate_limited_round_def\<close>)
qed

lemma rate_limited_rounds_events:
  assumes "rate_limited_rounds left fuel dfuel pw ep ck request rate i unanswered last_send buf acc w = (r, w')"
    and "hosts_of_reads (esr_acceptance request) (fst acc) w"
    and "unanswered = filter (\<lambda>t. bt_get (fst acc) t = None) (esr_targets request)"
    and "send_state last_send w" and "ready_to_send (srl_interval rate) last_send w"
    and "srl_interval rate \<le> duration_max"
    and "esr_scan_round_count request \<noteq> 1 \<longrightarrow> srl_interval rate + esr_pacing request \<le> duration_max"
    and "i + left = esr_scan_round_count request" "esr_scan_round_count request \<le> u64_max"
    and "paced (srl_interval rate) (events w)"
    and "asks_unanswered (esr_transmit request) (esr_acceptance request) (esr_targets request) (events w)"
  shows "paced (srl_interval rate) (events w')
    \<and> asks_unanswered (esr_transmit request) (esr_acceptance request) (esr_targets request) (events w')
    \<and> (\<forall>acc'. r = Inr acc' \<longrightarrow> hosts_of_reads (esr_acceptance request) (fst acc') w')"
  using assms
proof (induction left arbitrary: i unanswered last_send buf acc w)
  case (Suc left)
  let ?I = "srl_interval rate"
  note prems = Suc.prems
  obtain rr w1 where round:
    "rate_limited_round fuel dfuel pw ep ck request rate i unanswered last_send buf acc w = (rr, w1)"
    by fastforce
  note s = rate_limited_round_events [OF round prems(2-6) prems(10,11)]
  consider "unanswered = []" | e where "unanswered \<noteq> []" "rr = Inl e"
    | l b a where "unanswered \<noteq> []" "rr = Inr (l, b, a)"
    by (metis sum.exhaust prod.exhaust)
  then show ?case
  proof cases
    case (3 l b a)
    then have a: "hosts_of_reads (esr_acceptance request) (fst a) w1" "send_state l w1"
      using s by (cases a; simp)+
    define un where "un = filter (\<lambda>t. bt_get (fst a) t = None) unanswered"
    have un: "un = filter (\<lambda>t. bt_get (fst a) t = None) (esr_targets request)"
    proof -
      have "\<And>t. bt_get (fst a) t = None \<Longrightarrow> bt_get (fst acc) t = None" using s 3 by (cases a) auto
      then show ?thesis by (auto simp: un_def prems(3) intro: filter_cong)
    qed
    obtain rw w2 where wt: "wait_until_next_round ck l ?I (esr_pacing request) w1 = (rw, w2)" by fastforce
    have i1: "sat_add u64_max i 1 = Suc i" using prems(8,9) by simp
    have step: "(r, w') =
      (if un = [] then (Inr a, w1)
       else if Suc i < esr_scan_round_count request
       then (case (rw, w2) of
           (Inl e, w) \<Rightarrow> (Inl (Failed e), w)
         | (Inr _, w) \<Rightarrow> rate_limited_rounds left fuel dfuel pw ep ck request rate (Suc i) un l b a w)
       else rate_limited_rounds left fuel dfuel pw ep ck request rate (Suc i) un l b a w1)"
      unfolding un_def using prems(1) 3 round i1 wt by (simp add: Let_def split: if_splits)
    have ends: "\<not> Suc i < esr_scan_round_count request \<Longrightarrow> left = 0" using prems(8) by auto
    show ?thesis
    proof (cases "un \<noteq> [] \<and> Suc i < esr_scan_round_count request \<and> rw = Inr ()")
      case True
      have "?I + esr_pacing request \<le> duration_max" using prems(7) True by simp
      with wait_round_ready [of l ?I "esr_pacing request" w1 w2] wt True s 3
      have w2: "ready_to_send ?I l w2" "events w2 = events w1" "time w1 \<le> time w2" by auto
      have rest: "rate_limited_rounds left fuel dfuel pw ep ck request rate (Suc i) un l b a w2 = (r, w')"
        using step True by simp
      have "send_state l w2" using send_state_later [OF a(2), of w2] w2 by simp
      moreover have "hosts_of_reads (esr_acceptance request) (fst a) w2"
        using a(1) w2 by (simp add: hosts_of_reads_def)
      ultimately show ?thesis using Suc.IH [OF rest] un w2 s prems(6-9) by simp
    next
      case False
      then show ?thesis
        using step s a 3 ends wait_round_events [OF wt] by (cases rw) (auto split: if_splits)
    qed
  qed (use prems round s in auto)
qed auto

end

section \<open>Whole scans\<close>

definition host_pairs :: "scan_outcome \<Rightarrow> (ipv4 \<times> mac_address) list" where
  "host_pairs outcome = map (\<lambda>h. (dh_ipv4_address h, dh_mac_address h)) (so_discovered_hosts outcome)"

lemma host_pairs_outcome: "host_pairs (hosts_outcome acc) = fst acc"
  by (auto simp: host_pairs_def hosts_outcome_def bt_entries_def comp_def split_def map_idI)

text \<open>The values of the source's types: a \<^verbatim>\<open>Duration\<close> and a \<^verbatim>\<open>NonZeroU64\<close>.\<close>

definition send_rate_wf :: "inter_target_send_rate \<Rightarrow> bool" where
  "send_rate_wf r \<longleftrightarrow>
     (case r of Bandwidth b \<Rightarrow> 0 < b \<and> b \<le> u64_max | Interval d \<Rightarrow> 0 < d \<and> d \<le> duration_max)"

definition scan_request_wf :: "endpoint_scan_request \<Rightarrow> bool" where
  "scan_request_wf request \<longleftrightarrow>
     esr_receive_timeout request \<le> duration_max \<and> esr_pacing request \<le> duration_max
     \<and> 0 < esr_scan_round_count request \<and> esr_scan_round_count request \<le> u64_max
     \<and> (case esr_rate_limit request of None \<Rightarrow> True | Some t \<Rightarrow> send_rate_wf (timing_send_rate t))"

lemma bandwidth_interval_le: "inter_send_interval_from_bandwidth n b = Ok d \<Longrightarrow> d \<le> duration_max"
  by (auto simp: inter_send_interval_from_bandwidth_def Let_def and_then_eq_Ok_iff
      duration_from_nanos_eq split: if_splits)

lemma validated_rate:
  assumes "validate_scan_timing_before_socket pw timeout pacing attempts wire (Some t) = Ok (Some rate)"
    and "send_rate_wf (timing_send_rate t)"
  shows "srl_interval rate \<le> duration_max"
    and "1 < attempts \<Longrightarrow> srl_interval rate + pacing \<le> duration_max"
proof -
  obtain interval where rate: "srl_interval rate = interval"
    and i: "(case timing_send_rate t of
               Bandwidth b \<Rightarrow> inter_send_interval_from_bandwidth (encoded_address_resolution_request_len wire) b
             | Interval x \<Rightarrow> Ok x) = Ok interval"
    and gap: "\<not> (1 < attempts \<and> duration_checked_add interval pacing = None)"
    using assms(1)
    by (auto simp: validate_scan_timing_before_socket_def and_then_eq_Ok_iff Let_def
        split: option.splits if_splits)
  show "1 < attempts \<Longrightarrow> srl_interval rate + pacing \<le> duration_max"
    using gap rate by (auto simp: duration_checked_add_def rust_arith)
  show "srl_interval rate \<le> duration_max"
    using i rate assms(2) bandwidth_interval_le
    by (auto simp: send_rate_wf_def split: inter_target_send_rate.splits)
qed

lemma validate_rate_None:
  "validate_scan_timing_before_socket pw timeout pacing attempts wire rl = Ok None \<longleftrightarrow> rl = None"
  by (auto simp: validate_scan_timing_before_socket_def and_then_eq_Ok_iff Let_def
      split: option.splits if_splits inter_target_send_rate.splits)

text \<open>What a scan that ends with an outcome has gone through.\<close>

lemma scan_scheduled:
  assumes "collect_scan_over_endpoint fuel dfuel pw ep ck request w = (Inr outcome, w')"
  obtains scheduled where
    "validate_ieee_8021q_tag_stack (stc_wire (esr_transmit request)) = Ok ()"
    "validate_ieee_8023_mac_client_data (stc_wire (esr_transmit request)) = Ok ()"
    "validate_scan_timing_before_socket pw (esr_receive_timeout request) (esr_pacing request)
       (esr_scan_round_count request) (stc_wire (esr_transmit request)) (esr_rate_limit request)
     = Ok scheduled"
proof -
  have "\<exists>s. validate_ieee_8021q_tag_stack (stc_wire (esr_transmit request)) = Ok ()
    \<and> validate_ieee_8023_mac_client_data (stc_wire (esr_transmit request)) = Ok ()
    \<and> validate_scan_timing_before_socket pw (esr_receive_timeout request) (esr_pacing request)
       (esr_scan_round_count request) (stc_wire (esr_transmit request)) (esr_rate_limit request) = Ok s"
    using assms unfolding collect_scan_over_endpoint_def
    by (cases "validate_ieee_8021q_tag_stack (stc_wire (esr_transmit request))";
        cases "validate_ieee_8023_mac_client_data (stc_wire (esr_transmit request))";
        cases "validate_scan_timing_before_socket pw (esr_receive_timeout request) (esr_pacing request)
          (esr_scan_round_count request) (stc_wire (esr_transmit request)) (esr_rate_limit request)")
      simp_all
  then show thesis using that by blast
qed

lemma burst_scan_phases:
  assumes "collect_scan_over_endpoint fuel dfuel pw ep ck request w = (Inr outcome, w')"
    and "esr_rate_limit request = None"
  obtains ws w1 n w2 dl b acc where
    "run_address_resolution_request_rounds ep ck (esr_targets request) (esr_transmit request)
       (esr_scan_round_count request) (esr_pacing request) [] w = (ws, w1)"
    "ck_now ck w1 = (n, w2)" "ck_add ck n (esr_receive_timeout request) = Some dl"
    "collect_replies_until_deadline fuel dfuel ep ck dl (esr_acceptance request)
       (replicate receive_buffer_length 0) ws w2 = (Inr (b, acc), w')"
    "outcome = hosts_outcome acc"
proof -
  obtain ws w1 where sends: "run_address_resolution_request_rounds ep ck (esr_targets request)
      (esr_transmit request) (esr_scan_round_count request) (esr_pacing request) [] w = (ws, w1)"
    by fastforce
  obtain n w2 where now: "ck_now ck w1 = (n, w2)" by fastforce
  have run: "(case ck_add ck n (esr_receive_timeout request) of
        None \<Rightarrow> (Inl (Failed (ScanTimingExceedsLimit MonotonicDeadline)), w2)
      | Some dl \<Rightarrow>
          (case collect_replies_until_deadline fuel dfuel ep ck dl (esr_acceptance request)
                  (replicate receive_buffer_length 0) ws w2 of
             (Inl s, w) \<Rightarrow> (Inl s, w)
           | (Inr (buffer, acc), w) \<Rightarrow> (Inr (hosts_outcome acc), w))) = (Inr outcome, w')"
  proof (rule scan_scheduled [OF assms(1)])
    fix s assume v: "validate_ieee_8021q_tag_stack (stc_wire (esr_transmit request)) = Ok ()"
      "validate_ieee_8023_mac_client_data (stc_wire (esr_transmit request)) = Ok ()"
      "validate_scan_timing_before_socket pw (esr_receive_timeout request) (esr_pacing request)
       (esr_scan_round_count request) (stc_wire (esr_transmit request)) (esr_rate_limit request) = Ok s"
    then have s: "s = None" using assms(2)
      by (simp add: validate_scan_timing_before_socket_def and_then_eq_Ok_iff split: if_splits)
    show ?thesis using assms(1) v(1,2) v(3) [unfolded s] sends now
      unfolding collect_scan_over_endpoint_def
      by (auto simp: Let_def split: option.splits sum.splits prod.splits)
  qed
  then obtain dl where dl: "ck_add ck n (esr_receive_timeout request) = Some dl"
    by (cases "ck_add ck n (esr_receive_timeout request)") auto
  obtain rc w3 where col: "collect_replies_until_deadline fuel dfuel ep ck dl
      (esr_acceptance request) (replicate receive_buffer_length 0) ws w2 = (rc, w3)"
    by fastforce
  obtain b acc where "rc = Inr (b, acc)" "w3 = w'" "outcome = hosts_outcome acc"
    using run dl col by (cases rc) (auto simp: split_def)
  then show thesis using that sends now dl col by blast
qed

text \<open>The rate-limited scan of a non-empty target list.\<close>

lemma rate_limited_scan_phases:
  assumes "collect_scan_over_endpoint fuel dfuel pw ep ck request w = (Inr outcome, w')"
    and "esr_rate_limit request = Some timing" and "esr_targets request \<noteq> []"
  obtains rate acc where
    "validate_scan_timing_before_socket pw (esr_receive_timeout request) (esr_pacing request)
       (esr_scan_round_count request) (stc_wire (esr_transmit request)) (Some timing) = Ok (Some rate)"
    "rate_limited_rounds (esr_scan_round_count request) fuel dfuel pw ep ck request rate 0
       (esr_targets request) None (replicate receive_buffer_length 0) ([], []) w = (Inr acc, w')"
    "outcome = hosts_outcome acc"
proof (rule scan_scheduled [OF assms(1)])
  fix s assume v: "validate_ieee_8021q_tag_stack (stc_wire (esr_transmit request)) = Ok ()"
    "validate_ieee_8023_mac_client_data (stc_wire (esr_transmit request)) = Ok ()"
    "validate_scan_timing_before_socket pw (esr_receive_timeout request) (esr_pacing request)
     (esr_scan_round_count request) (stc_wire (esr_transmit request)) (esr_rate_limit request) = Ok s"
  then obtain rate where s: "s = Some rate" using validate_rate_None assms(2) by (cases s) auto
  obtain rr w1 where rounds: "rate_limited_rounds (esr_scan_round_count request) fuel dfuel pw ep ck
      request rate 0 (esr_targets request) None (replicate receive_buffer_length 0) ([], []) w = (rr, w1)"
    by fastforce
  have "(case rr of Inl s \<Rightarrow> (Inl s, w1) | Inr acc \<Rightarrow> (Inr (hosts_outcome acc), w1)) = (Inr outcome, w')"
    using assms(1) v(1,2) v(3) [unfolded s] rounds assms(3)
    unfolding collect_scan_over_endpoint_def run_rate_limited_rounds_def by (simp add: Let_def)
  then obtain acc where "rr = Inr acc" "w1 = w'" "outcome = hosts_outcome acc"
    by (cases rr) auto
  then show thesis using that [of rate acc] rounds v(3) s assms(2) by simp
qed

context timed_endpoint
begin

lemma burst_scan_events:
  assumes "collect_scan_over_endpoint fuel dfuel pw ep ck request w = (Inr outcome, w')"
    and "esr_rate_limit request = None" and "events w = []"
  shows "map snd (sent_of (events w')) =
      concat (replicate (esr_scan_round_count request)
        (map (request_frame (esr_transmit request)) (esr_targets request)))"
    and "bt_wf (host_pairs outcome)"
    and "bt_get (host_pairs outcome) =
      map_of (accepted_replies (esr_acceptance request) (reads_of (events w')))"
proof -
  obtain ws w1 n w2 dl b acc where sends: "run_address_resolution_request_rounds ep ck
      (esr_targets request) (esr_transmit request) (esr_scan_round_count request)
      (esr_pacing request) [] w = (ws, w1)"
    and now: "ck_now ck w1 = (n, w2)"
    and col: "collect_replies_until_deadline fuel dfuel ep ck dl (esr_acceptance request)
      (replicate receive_buffer_length 0) ws w2 = (Inr (b, acc), w')"
    and out: "outcome = hosts_outcome acc"
    by (rule burst_scan_phases [OF assms(1,2)]) blast
  obtain fs where fs: "events w' = events w2 @ map Read fs"
    "acc = process_frames (esr_acceptance request) ([], ws) fs"
    using collect_reads [OF col [unfolded collect_replies_until_deadline_def]] by blast
  have ev: "events w2 = events w1" using now_quiet [OF now] by simp
  have log: "map snd (sent_of (events w1)) = concat (replicate (esr_scan_round_count request)
        (map (request_frame (esr_transmit request)) (esr_targets request)))" "reads_of (events w1) = []"
    using request_rounds_log [OF sends [unfolded run_address_resolution_request_rounds_def]] assms(3)
    by auto
  show "map snd (sent_of (events w')) = concat (replicate (esr_scan_round_count request)
        (map (request_frame (esr_transmit request)) (esr_targets request)))"
    using fs ev log by simp
  show "bt_wf (host_pairs outcome)" "bt_get (host_pairs outcome) =
      map_of (accepted_replies (esr_acceptance request) (reads_of (events w')))"
    using process_from_empty [of "esr_acceptance request" ws fs] fs ev log out
    by (simp_all add: host_pairs_outcome)
qed

lemma rate_limited_scan_events:
  assumes "collect_scan_over_endpoint fuel dfuel pw ep ck request w = (Inr outcome, w')"
    and "esr_rate_limit request = Some timing" and "esr_targets request \<noteq> []"
    and "scan_request_wf request" and "events w = []"
  shows "\<exists>rate. validate_scan_timing_before_socket pw (esr_receive_timeout request)
        (esr_pacing request) (esr_scan_round_count request) (stc_wire (esr_transmit request))
        (Some timing) = Ok (Some rate)
      \<and> paced (srl_interval rate) (events w')"
    and "asks_unanswered (esr_transmit request) (esr_acceptance request) (esr_targets request)
      (events w')"
    and "bt_wf (host_pairs outcome)"
    and "bt_get (host_pairs outcome) =
      map_of (accepted_replies (esr_acceptance request) (reads_of (events w')))"
proof -
  obtain rate acc where v: "validate_scan_timing_before_socket pw (esr_receive_timeout request)
      (esr_pacing request) (esr_scan_round_count request) (stc_wire (esr_transmit request))
      (Some timing) = Ok (Some rate)"
    and run: "rate_limited_rounds (esr_scan_round_count request) fuel dfuel pw ep ck request rate 0
       (esr_targets request) None (replicate receive_buffer_length 0) ([], []) w = (Inr acc, w')"
    and out: "outcome = hosts_outcome acc"
    by (rule rate_limited_scan_phases [OF assms(1-3)]) blast
  have wf: "send_rate_wf (timing_send_rate timing)" "0 < esr_scan_round_count request"
      "esr_scan_round_count request \<le> u64_max"
    using assms(2,4) by (auto simp: scan_request_wf_def)
  have int: "srl_interval rate \<le> duration_max"
    "esr_scan_round_count request \<noteq> 1 \<longrightarrow> srl_interval rate + esr_pacing request \<le> duration_max"
    using validated_rate [OF v wf(1)] wf(2) by auto
  have start: "hosts_of_reads (esr_acceptance request) [] w" "send_state None w"
    "ready_to_send (srl_interval rate) None w" "paced (srl_interval rate) (events w)"
    "esr_targets request = filter (\<lambda>t. bt_get ([] :: hosts) t = None) (esr_targets request)"
    using assms(5) bt.get_empty
    by (simp_all add: hosts_of_reads_def bt.wf_empty send_state_def ready_to_send_def paced_def fun_eq_iff)
  have all: "paced (srl_interval rate) (events w')
    \<and> asks_unanswered (esr_transmit request) (esr_acceptance request) (esr_targets request) (events w')
    \<and> (\<forall>acc'. Inr acc = (Inr acc' :: stop + hosts \<times> warnings) \<longrightarrow>
         hosts_of_reads (esr_acceptance request) (fst acc') w')"
    by (rule rate_limited_rounds_events [OF run]) (use start int wf assms(5) in simp_all)
  show "\<exists>rate. validate_scan_timing_before_socket pw (esr_receive_timeout request)
        (esr_pacing request) (esr_scan_round_count request) (stc_wire (esr_transmit request))
        (Some timing) = Ok (Some rate) \<and> paced (srl_interval rate) (events w')"
    using v all by blast
  show "asks_unanswered (esr_transmit request) (esr_acceptance request) (esr_targets request) (events w')"
    using all by blast
  show "bt_wf (host_pairs outcome)" "bt_get (host_pairs outcome) =
      map_of (accepted_replies (esr_acceptance request) (reads_of (events w')))"
    using all out by (simp_all add: host_pairs_outcome hosts_of_reads_def)
qed

end

section \<open>A burst scan ends\<close>

text \<open>What a transmission and a sleep leave alone, the rounds of requests leave alone.\<close>

lemma send_requests_keep:
  assumes "\<And>frame v r v'. ep_send ep frame v = (r, v') \<Longrightarrow> P v' = P v"
  shows "send_requests ep transmit targets ws w = (ws', w') \<Longrightarrow> P w' = P w"
proof (induction targets arbitrary: ws w)
  case (Cons target targets)
  obtain r w1 where send: "ep_send ep (request_frame transmit target) w = (r, w1)"
    by (cases "ep_send ep (request_frame transmit target) w")
  obtain ws1 where one: "send_one_request ep transmit target ws w = (ws1, w1)"
    using send by (cases r) (auto simp: send_one_request_def)
  then show ?case using Cons assms [OF send] by simp
qed simp

lemma request_rounds_keep:
  assumes "\<And>frame v r v'. ep_send ep frame v = (r, v') \<Longrightarrow> P v' = P v"
    and "\<And>v. P (ck_sleep_for ck pacing v) = P v"
  shows "request_rounds left ep ck targets transmit i n pacing ws w = (ws', w') \<Longrightarrow> P w' = P w"
proof (induction left arbitrary: i ws w)
  case (Suc left)
  obtain ws1 w1 where one: "send_requests ep transmit targets ws w = (ws1, w1)" by fastforce
  define w2 where "w2 = (if should_apply_pacing_after_scan_round i n pacing
      then ck_sleep_for ck pacing w1 else w1)"
  have "P w2 = P w" using send_requests_keep [OF assms(1) one] assms(2) by (simp add: w2_def)
  moreover have "request_rounds left ep ck targets transmit (Suc i) n pacing ws1 w2 = (ws', w')"
    using Suc.prems one by (simp add: w2_def)
  ultimately show ?case using Suc.IH by metis
qed simp

context scripted_capture
begin

lemma send_requests_instant:
  "send_requests ep transmit targets ws w = (ws', w') \<Longrightarrow> pending w' = pending w \<and> time w' = time w"
  using send_requests_keep [where P = "\<lambda>v. (pending v, time v)"] send_instant by (metis prod.inject)

lemma request_rounds_time:
  "request_rounds left ep ck targets transmit i n pacing ws w = (ws', w') \<Longrightarrow>
     pending w' = pending w \<and> time w' \<le> time w + left * pacing"
proof (induction left arbitrary: i ws w)
  case (Suc left)
  obtain ws1 w1 where one: "send_requests ep transmit targets ws w = (ws1, w1)"
    by (cases "send_requests ep transmit targets ws w")
  define w2 where "w2 = (if should_apply_pacing_after_scan_round i n pacing
      then ck_sleep_for ck pacing w1 else w1)"
  have "pending w2 = pending w" "time w2 \<le> time w + pacing"
    using send_requests_instant [OF one] sleep_for_pending sleep_for_at_most [of pacing w1]
    by (simp_all add: w2_def)
  moreover have "request_rounds left ep ck targets transmit (Suc i) n pacing ws1 w2 = (ws', w')"
    using Suc.prems one by (simp add: w2_def)
  ultimately show ?case using Suc.IH [of "Suc i" ws1 w2] by simp
qed simp

lemma burst_scan_ends:
  assumes "esr_rate_limit request = None"
    and valid: "validate_ieee_8021q_tag_stack (stc_wire (esr_transmit request)) = Ok ()"
      "validate_ieee_8023_mac_client_data (stc_wire (esr_transmit request)) = Ok ()"
    and fits: "\<forall>f \<in> set (pending w). length f \<le> receive_buffer_length"
      "length (pending w) < dfuel" "3 \<le> fuel"
    and timeout: "0 < esr_receive_timeout request" "esr_receive_timeout request \<le> duration_max"
    and reach: "\<And>t. t \<le> time w + esr_scan_round_count request * esr_pacing request \<Longrightarrow>
      ck_add ck t (esr_receive_timeout request) \<noteq> None"
  shows "\<exists>outcome w'. collect_scan_over_endpoint fuel dfuel pw ep ck request w = (Inr outcome, w')
    \<and> bt_get (host_pairs outcome) = map_of (accepted_replies (esr_acceptance request) (pending w))"
proof -
  obtain ws w1 where sends: "run_address_resolution_request_rounds ep ck (esr_targets request)
      (esr_transmit request) (esr_scan_round_count request) (esr_pacing request) [] w = (ws, w1)"
    by fastforce
  have w1: "pending w1 = pending w"
    "time w1 \<le> time w + esr_scan_round_count request * esr_pacing request"
    using request_rounds_time [OF sends [unfolded run_address_resolution_request_rounds_def]] by auto
  obtain dl where dl: "ck_add ck (time w1) (esr_receive_timeout request) = Some dl"
    using reach [OF w1(2)] by auto
  then have at: "dl = time w1 + esr_receive_timeout request" by (rule add_exact)
  obtain b w2 where col: "collect_replies_loop fuel dfuel ep ck dl (esr_acceptance request)
      (replicate receive_buffer_length 0) ([], ws) w1 =
    (Inr (b, process_frames (esr_acceptance request) ([], ws) (pending w)), w2)"
    using collect_all [of w1 "replicate receive_buffer_length 0" dfuel "time w1"
        "esr_receive_timeout request" dl fuel "esr_acceptance request" "([], ws)"]
      fits dl at timeout w1(1) by auto
  let ?acc = "process_frames (esr_acceptance request) ([], ws) (pending w)"
  have v: "validate_scan_timing_before_socket pw timeout pacing attempts wire None = Ok None"
    for timeout pacing attempts wire using validate_rate_None by blast
  have "collect_scan_over_endpoint fuel dfuel pw ep ck request w = (Inr (hosts_outcome ?acc), w2)"
    unfolding collect_scan_over_endpoint_def
    using assms(1) valid sends dl col
    by (cases ?acc) (simp add: v now_exact collect_replies_until_deadline_def Let_def)
  then show ?thesis
    using process_from_empty [of "esr_acceptance request" ws "pending w"]
    by (simp add: host_pairs_outcome)
qed

end

section \<open>A scan never gets stuck\<close>

definition readable :: "('w \<Rightarrow> u8 list list) \<Rightarrow> nat \<Rightarrow> nat \<Rightarrow> 'w \<Rightarrow> bool" where
  "readable pending n dfuel w \<longleftrightarrow> (\<forall>f \<in> set (pending w). length f \<le> n) \<and> length (pending w) < dfuel"

definition not_stuck :: "stop + 'a \<Rightarrow> bool" where
  "not_stuck r \<longleftrightarrow> r \<noteq> Inl OutOfFuel \<and> r \<noteq> Inl Panicked"

lemma not_stuck_simps [simp]: "not_stuck (Inr a)" "not_stuck (Inl (Failed e))"
  "\<not> not_stuck (Inl OutOfFuel)" "\<not> not_stuck (Inl Panicked)"
  by (simp_all add: not_stuck_def)

lemma retry_window_le:
  assumes "retry_receive_window pw timeout factor i = Ok d" and "timeout \<le> duration_max"
  shows "d \<le> duration_max"
  using assms by (auto simp: retry_receive_window_def scale_duration_by_backoff_def duration_from_nanos_eq
      bind_eq_Some_conv Let_def split: if_splits)

text \<open>
  A capture that settles: no operation but a read takes a frame away, and a receive loop over at most
  \<open>longest\<close> comes to its end within \<open>fuel\<close> turns. This is all that a scan needs in order to come to an
  end.
\<close>

locale settling_capture = timed_endpoint ck time ep events
  for ck :: "'w clock" and time :: "'w \<Rightarrow> timestamp" and ep :: "'w endpoint"
    and events :: "'w \<Rightarrow> event list" +
  fixes pending :: "'w \<Rightarrow> u8 list list" and fuel :: nat and longest :: duration
  assumes now_pending: "ck_now ck w = (n, w') \<Longrightarrow> pending w' = pending w"
    and sleep_for_pending: "pending (ck_sleep_for ck d w) = pending w"
    and sleep_until_pending: "pending (ck_sleep_until ck t w) = pending w"
    and after_send_pending: "pending (ck_after_send ck w) = pending w"
    and send_pending: "ep_send ep frame w = (r', w') \<Longrightarrow> pending w' = pending w"
    and collect_settles:
      "readable pending (length buf) dfuel w \<Longrightarrow> ck_add ck b c = Some dl \<Longrightarrow> dl \<le> time w + longest \<Longrightarrow>
         \<exists>buf' a' w'. collect_replies_loop fuel dfuel ep ck dl acceptance buf a w = (Inr (buf', a'), w')
           \<and> length buf' = length buf \<and> readable pending (length buf) dfuel w'"
begin

lemma wait_pending:
  "wait_until_interval_after_last_send ck l i w = (r, w') \<Longrightarrow> pending w' = pending w"
  "wait_until_next_round ck l i p w = (r', w') \<Longrightarrow> pending w' = pending w"
  using sleep_until_pending now_pending
  by (auto simp: wait_until_interval_after_last_send_def wait_until_next_round_def Let_def
      split: option.splits sum.splits prod.splits)

lemma send_one_pending:
  "send_one_request ep transmit target ws w = (ws', w') \<Longrightarrow> pending w' = pending w"
  using send_requests_keep [of ep pending transmit "[target]" ws w ws' w'] send_pending by simp

lemma rounds_pending:
  "run_address_resolution_request_rounds ep ck targets transmit n pacing ws w = (ws', w') \<Longrightarrow>
     pending w' = pending w"
  using request_rounds_keep [where P = pending] send_pending sleep_for_pending
  unfolding run_address_resolution_request_rounds_def by metis

lemma rate_limited_sends_pending:
  "rate_limited_sends ep ck transmit interval first targets last_send ws w = (r, w') \<Longrightarrow>
     pending w' = pending w"
proof (induction targets arbitrary: first last_send ws w)
  case (Cons target targets)
  define wait where "wait =
    (if first then (Inr (), w) else wait_until_interval_after_last_send ck last_send interval w)"
  obtain rw w1 where wait: "wait = (rw, w1)" by fastforce
  have w1: "pending w1 = pending w"
    using wait wait_pending(1) by (auto simp: wait_def split: if_splits)
  obtain ws2 w2 where send: "send_one_request ep transmit target ws w1 = (ws2, w2)" by fastforce
  obtain n w3 where now: "ck_now ck (ck_after_send ck w2) = (n, w3)" by fastforce
  show ?case
  proof (cases rw)
    case (Inl e)
    then show ?thesis using Cons.prems wait w1 by (auto simp: wait_def)
  next
    case (Inr u)
    then have "rate_limited_sends ep ck transmit interval False targets (Some n) ws2 w3 = (r, w')"
      using Cons.prems wait send now by (auto simp: wait_def Let_def)
    then show ?thesis
      using Cons.IH w1 send_one_pending [OF send] now_pending [OF now] after_send_pending by simp
  qed
qed simp

text \<open>A receive window that starts at a reading of the clock is within its reach.\<close>

lemma window_settles:
  assumes "readable pending (length buf) dfuel w" and "d \<le> longest"
    and now: "ck_now ck w = (n, w1)" and dl: "ck_add ck n d = Some dl"
  obtains buf' acc w' where "collect_replies_until_deadline fuel dfuel ep ck dl acceptance buf ws w1 =
      (Inr (buf', acc), w')"
    "length buf' = length buf" "readable pending (length buf) dfuel w'"
proof -
  have "readable pending (length buf) dfuel w1"
    using assms(1) now_pending [OF now] by (simp add: readable_def)
  moreover have "dl \<le> time w1 + longest"
    using add_exact [OF dl] assms(2) now_between [OF now] by simp
  ultimately show thesis
    using that collect_settles [OF _ dl] unfolding collect_replies_until_deadline_def by blast
qed

lemma rate_limited_round_not_stuck:
  assumes run: "rate_limited_round fuel dfuel pw ep ck request rate i un l buf acc w = (r, w')"
    and fits: "readable pending (length buf) dfuel w" "esr_receive_timeout request \<le> duration_max"
      "duration_max \<le> longest"
  shows "not_stuck r \<and> (\<forall>l' buf' acc'. r = Inr (l', buf', acc') \<longrightarrow>
    length buf' = length buf \<and> readable pending (length buf) dfuel w')"
proof -
  obtain rs w1 where sends: "rate_limited_sends ep ck (esr_transmit request) (srl_interval rate) True un
      l (snd acc) w = (rs, w1)" by fastforce
  have p: "readable pending (length buf) dfuel w1"
    using rate_limited_sends_pending [OF sends] fits(1) by (simp add: readable_def)
  obtain n w2 where now: "ck_now ck w1 = (n, w2)" by fastforce
  consider e where "rs = Inl e"
    | lw e where "rs = Inr lw" "retry_receive_window pw (esr_receive_timeout request) (srl_backoff_factor rate) i = Inl e"
    | lw window where "rs = Inr lw"
        "retry_receive_window pw (esr_receive_timeout request) (srl_backoff_factor rate) i = Inr window"
    by (metis sum.exhaust)
  then show ?thesis
  proof cases
    case (3 lw window)
    obtain l' ws where lw: "lw = (l', ws)" by fastforce
    show ?thesis
    proof (cases "ck_add ck n window")
      case None
      then show ?thesis using run sends 3 lw now
        by (auto simp: rate_limited_round_def monotonic_deadline_def monotonic_deadline_from_def)
    next
      case (Some dl)
      have "window \<le> longest" using retry_window_le [OF 3(2) fits(2)] fits(3) by simp
      from window_settles [OF p this now Some]
      obtain b2 acc2 w3 where col: "collect_replies_until_deadline fuel dfuel ep ck dl (esr_acceptance request)
          buf ws w2 = (Inr (b2, acc2), w3)" "length b2 = length buf" "readable pending (length buf) dfuel w3"
        by blast
      then show ?thesis using run sends 3 lw now Some
        by (auto simp: rate_limited_round_def monotonic_deadline_def monotonic_deadline_from_def
            split: prod.splits)
    qed
  qed (use run sends in \<open>auto simp: rate_limited_round_def\<close>)
qed

lemma rate_limited_rounds_not_stuck:
  "rate_limited_rounds left fuel dfuel pw ep ck request rate i un l buf acc w = (r, w') \<Longrightarrow>
     readable pending (length buf) dfuel w \<Longrightarrow> esr_receive_timeout request \<le> duration_max \<Longrightarrow>
     duration_max \<le> longest \<Longrightarrow> not_stuck r"
proof (induction left arbitrary: i un l buf acc w)
  case (Suc left)
  obtain r1 w1 where round: "rate_limited_round fuel dfuel pw ep ck request rate i un l buf acc w = (r1, w1)"
    by fastforce
  note ok = rate_limited_round_not_stuck [OF round Suc.prems(2-4)]
  show ?case
  proof (cases "un = [] \<or> (\<exists>s. r1 = Inl s)")
    case True
    then show ?thesis using Suc.prems(1) round ok by (auto simp: not_stuck_def split: if_splits)
  next
    case False
    then obtain l1 b1 a1 where r1: "r1 = Inr (l1, b1, a1)" by (cases r1) auto
    define un1 where "un1 = filter (\<lambda>t. bt_get (fst a1) t = None) un"
    obtain rw w2 where wt: "wait_until_next_round ck l1 (srl_interval rate) (esr_pacing request) w1 = (rw, w2)"
      by fastforce
    have w2: "readable pending (length b1) dfuel w2" "readable pending (length b1) dfuel w1"
      using ok r1 wait_pending(2) [OF wt] by (simp_all add: readable_def)
    have "(r, w') =
      (if un1 = [] then (Inr a1, w1)
       else if sat_add u64_max i 1 < esr_scan_round_count request
       then (case (rw, w2) of
           (Inl e, w) \<Rightarrow> (Inl (Failed e), w)
         | (Inr _, w) \<Rightarrow> rate_limited_rounds left fuel dfuel pw ep ck request rate (Suc i) un1 l1 b1 a1 w)
       else rate_limited_rounds left fuel dfuel pw ep ck request rate (Suc i) un1 l1 b1 a1 w1)"
      unfolding un1_def using Suc.prems(1) False round r1 wt by (simp add: Let_def split: if_splits)
    moreover have "not_stuck r" if "(r, w') = rate_limited_rounds left fuel dfuel pw ep ck request rate
        (Suc i) un1 l1 b1 a1 v" "readable pending (length b1) dfuel v" for v
      using Suc.IH that Suc.prems(3,4) by metis
    ultimately show ?thesis using w2 by (cases rw; simp split: if_split_asm)
  qed
qed auto

lemma scan_not_stuck:
  assumes fits: "readable pending receive_buffer_length dfuel w"
    and timeout: "esr_receive_timeout request \<le> duration_max" "duration_max \<le> longest"
  shows "not_stuck (fst (collect_scan_over_endpoint fuel dfuel pw ep ck request w))"
proof -
  let ?buf = "replicate receive_buffer_length 0 :: u8 list"
  have burst: "not_stuck (fst (case ck_add ck n (esr_receive_timeout request) of
        None \<Rightarrow> (Inl (Failed (ScanTimingExceedsLimit MonotonicDeadline)), w2)
      | Some dl \<Rightarrow>
          (case collect_replies_until_deadline fuel dfuel ep ck dl (esr_acceptance request) ?buf ws w2 of
             (Inl s, w) \<Rightarrow> (Inl s, w) | (Inr (buffer, acc), w) \<Rightarrow> (Inr acc, w))))"
    if r: "readable pending receive_buffer_length dfuel w1" "ck_now ck w1 = (n, w2)" for w1 w2 :: 'w and n ws
  proof (cases "ck_add ck n (esr_receive_timeout request)")
    case (Some dl)
    have "readable pending (length ?buf) dfuel w1" using r(1) by simp
    from window_settles [OF this order_trans [OF timeout] r(2) Some]
    obtain b acc w' where "collect_replies_until_deadline fuel dfuel ep ck dl (esr_acceptance request)
        ?buf ws w2 = (Inr (b, acc), w')" by blast
    then show ?thesis using Some by simp
  qed simp
  obtain ws w1 where sends: "run_address_resolution_request_rounds ep ck (esr_targets request)
      (esr_transmit request) (esr_scan_round_count request) (esr_pacing request) [] w = (ws, w1)"
    by fastforce
  have w1: "readable pending receive_buffer_length dfuel w1"
    using rounds_pending [OF sends] fits by (simp add: readable_def)
  obtain n w2 n' w3 where now: "ck_now ck w1 = (n, w2)" "ck_now ck w = (n', w3)" by fastforce
  have rated: "not_stuck (fst (run_rate_limited_rounds fuel dfuel pw ep ck request rate ?buf [] w))" for rate
  proof (cases "esr_targets request = []")
    case True
    then show ?thesis using burst [OF fits now(2), of "[]"] now(2)
      by (simp add: run_rate_limited_rounds_def monotonic_deadline_def monotonic_deadline_from_def
          ok_or_def split: option.splits)
  next
    case False
    obtain r w' where "rate_limited_rounds (esr_scan_round_count request) fuel dfuel pw ep ck request rate 0
        (esr_targets request) None ?buf ([], []) w = (r, w')" by fastforce
    then show ?thesis
      using False rate_limited_rounds_not_stuck fits timeout by (fastforce simp: run_rate_limited_rounds_def)
  qed
  have lift: "not_stuck (fst (let (result, w) = x in
      case result of Inl s \<Rightarrow> (Inl s, w) | Inr acc \<Rightarrow> (Inr (hosts_outcome acc), w)))"
    if "not_stuck (fst x)" for x :: "(stop + hosts \<times> warnings) \<times> 'w"
    using that by (cases x; cases "fst x") (auto simp: not_stuck_def)
  show ?thesis
    unfolding collect_scan_over_endpoint_def
    using burst [OF w1 now(1), of ws] rated sends now(1)
    by (auto simp: Let_def intro!: lift [unfolded Let_def] split: sum.split option.split)
qed

text \<open>A burst scan returns an outcome unless its deadline is beyond what the clock can represent.\<close>

lemma burst_scan_returns:
  assumes "esr_rate_limit request = None"
    and valid: "validate_ieee_8021q_tag_stack (stc_wire (esr_transmit request)) = Ok ()"
      "validate_ieee_8023_mac_client_data (stc_wire (esr_transmit request)) = Ok ()"
    and fits: "readable pending receive_buffer_length dfuel w"
    and timeout: "esr_receive_timeout request \<le> longest"
    and sends: "run_address_resolution_request_rounds ep ck (esr_targets request)
      (esr_transmit request) (esr_scan_round_count request) (esr_pacing request) [] w = (ws, w1)"
    and now: "ck_now ck w1 = (n, w2)"
  shows "if ck_add ck n (esr_receive_timeout request) = None
    then collect_scan_over_endpoint fuel dfuel pw ep ck request w =
      (Inl (Failed (ScanTimingExceedsLimit MonotonicDeadline)), w2)
    else \<exists>outcome w'. collect_scan_over_endpoint fuel dfuel pw ep ck request w = (Inr outcome, w')"
proof -
  have v: "validate_scan_timing_before_socket pw timeout pacing attempts wire None = Ok None"
    for timeout pacing attempts wire using validate_rate_None by blast
  have w1: "readable pending receive_buffer_length dfuel w1"
    using rounds_pending [OF sends] fits by (simp add: readable_def)
  show ?thesis
  proof (cases "ck_add ck n (esr_receive_timeout request)")
    case None
    then show ?thesis
      unfolding collect_scan_over_endpoint_def using assms(1) valid sends now by (simp add: v Let_def)
  next
    case (Some dl)
    let ?buf = "replicate receive_buffer_length 0 :: u8 list"
    have "readable pending (length ?buf) dfuel w1" using w1 by simp
    from window_settles [OF this timeout now Some]
    obtain b acc w' where "collect_replies_until_deadline fuel dfuel ep ck dl (esr_acceptance request)
        ?buf ws w2 = (Inr (b, acc), w')" by blast
    then show ?thesis
      unfolding collect_scan_over_endpoint_def
      using assms(1) valid sends now Some by (cases acc) (simp add: v Let_def)
  qed
qed

end

text \<open>A capture that is complete at the start settles within three turns.\<close>

sublocale scripted_capture \<subseteq> settles: settling_capture ck time ep events pending "Suc (Suc (Suc k))" duration_max for k
proof (unfold_locales, goal_cases)
  case (6 buf dfuel w b c dl acceptance a)
  then show ?case
    using collect_all [of w buf dfuel b c dl "Suc (Suc (Suc k))" acceptance a]
    by (auto simp: readable_def split: if_splits)
qed (use now_exact sleep_for_pending sleep_until_pending after_send_pending send_instant in auto)

section \<open>The scan plan\<close>

lemma plan_targets_eq:
  fixes a :: ipv4
  assumes h: "2 \<le> h" "h \<le> 32" and m: "isa_ipv4_netmask addresses = NOT (mask h)"
    and a: "isa_source_ipv4_address addresses = a"
  defines "base \<equiv> unat a div 2 ^ h * 2 ^ h"
  defines "network \<equiv> a AND NOT (mask h)" and "broadcast \<equiv> (a AND NOT (mask h)) OR mask h"
  shows "full_subnet_scan_plan addresses =
    Ok \<lparr>plan_targets = map word_of_nat [base + 1..<base + (2 ^ h - 1)]
          @ (if ipv4_address_is_strictly_inside_subnet a network broadcast then [] else [a]),
        plan_acceptance = SubnetScope a network broadcast\<rparr>"
proof -
  have four: "4 \<le> (2 :: nat) ^ h" using power_increasing [OF h(1), of "2 :: nat"] by simp
  obtain f l where range: "inclusive_host_address_range_excluding_edges a (netmask_of_host_bits h) = Ok (f, l)"
    and f: "unat f = base + 1" and l: "unat l = base + (2 ^ h - 2)"
    using host_range_netmask [OF h, of a] unfolding base_def by blast
  have "unat f + (2 ^ h - 3) = unat l" using f l four by linarith
  then have "collect_hosts (Suc (unat l + 1)) \<lparr>next_host_bits = Some f, last_host_bits = l\<rparr> =
      Some (map word_of_nat [unat f..<Suc (unat l)])"
    by (rule collect_hosts_range) (use l in simp)
  moreover have "Suc (unat l) = base + (2 ^ h - 1)" using l four by linarith
  ultimately have "collect_hosts (Suc (unat l + 1)) \<lparr>next_host_bits = Some f, last_host_bits = l\<rparr> =
      Some (map word_of_nat [base + 1..<base + (2 ^ h - 1)])"
    by (simp only: f)
  then show ?thesis
    using range by (simp add: full_subnet_scan_plan_def try_from_ipv4_address_on_subnet_def m a Let_def
        ipv4_scan_target_address_sequence_def network_def broadcast_def del: collect_hosts.simps upt_Suc)
qed

lemma word_of_nat_upt:
  assumes "n \<le> 2 ^ 32"
  shows "distinct (map (word_of_nat :: nat \<Rightarrow> u32) [k..<n])"
    and "(x :: u32) \<in> set (map word_of_nat [k..<n]) \<longleftrightarrow> k \<le> unat x \<and> unat x < n"
proof -
  have small: "unat (word_of_nat i :: u32) = i" if "i < n" for i
    using that assms by (simp add: unat_of_nat)
  then show "distinct (map (word_of_nat :: nat \<Rightarrow> u32) [k..<n])"
    by (auto simp: distinct_map inj_on_def) (metis small)
  show "(x :: u32) \<in> set (map word_of_nat [k..<n]) \<longleftrightarrow> k \<le> unat x \<and> unat x < n"
    using small by (auto simp: image_iff intro!: bexI [of _ "unat x"])
qed

section \<open>Properties\<close>

text \<open>
  C36: the full-subnet plan probes every address strictly inside the block of the interface, in
  ascending order and once, and the interface's own address last when that is the network or the
  broadcast address; a reply counts exactly when its sender is one of the probed addresses.
\<close>

theorem scan_plan_covers_subnet:
  assumes "2 \<le> h" and "h \<le> 32" and "isa_ipv4_netmask addresses = NOT (mask h)"
  shows "\<exists>plan. full_subnet_scan_plan addresses = Ok plan
    \<and> distinct (plan_targets plan)
    \<and> (\<forall>x. x \<in> set (plan_targets plan) \<longleftrightarrow>
         x = isa_source_ipv4_address addresses
         \<or> unat (isa_source_ipv4_address addresses) div 2 ^ h * 2 ^ h < unat x
           \<and> unat x < unat (isa_source_ipv4_address addresses) div 2 ^ h * 2 ^ h + (2 ^ h - 1))
    \<and> (\<forall>x. accepts_sender_ipv4_address (plan_acceptance plan) x \<longleftrightarrow> x \<in> set (plan_targets plan))"
proof -
  define a where "a = isa_source_ipv4_address addresses"
  define base where "base = unat a div 2 ^ h * 2 ^ h"
  let ?n = "a AND NOT (mask h) :: ipv4" let ?b = "(a AND NOT (mask h)) OR mask h :: ipv4"
  have n: "unat ?n = base" and b: "unat ?b = base + (2 ^ h - 1)"
    unfolding base_def by (rule network_bits_value, rule broadcast_bits_value [OF assms(2)])
  have top: "base + (2 ^ h - 1) \<le> 2 ^ 32"
    using network_block_le [OF assms(2), of a] by (simp add: base_def)
  note range = word_of_nat_upt [where k = "base + 1", OF top]
  have inside: "ipv4_address_is_strictly_inside_subnet x ?n ?b \<longleftrightarrow> base < unat x \<and> unat x < base + (2 ^ h - 1)"
    for x by (simp only: ipv4_address_is_strictly_inside_subnet_def word_less_nat_alt n b)
  note plan = plan_targets_eq [OF assms a_def [symmetric], folded base_def]
  show ?thesis
    unfolding plan a_def [symmetric] base_def [symmetric]
    using range inside by (auto simp: ipv4_sender_is_probed_target_def simp del: upt_Suc)
qed

lemma scan_plan_covers_subnet_witness:
  "\<exists>plan. full_subnet_scan_plan \<lparr>isa_source_ipv4_address = 0xC0A80101,
      isa_ipv4_netmask = NOT (mask 8), isa_source_mac_address = mac_zero\<rparr> = Ok plan
    \<and> distinct (plan_targets plan)"
  using scan_plan_covers_subnet [of 8 "\<lparr>isa_source_ipv4_address = 0xC0A80101,
      isa_ipv4_netmask = NOT (mask 8), isa_source_mac_address = mac_zero\<rparr>"]
  by auto

text \<open>
  C2: whatever the endpoint and the clock do, a burst scan that returns an outcome has transmitted,
  round after round, the request of each target in order, and nothing else; its hosts are in
  ascending order of address, and the address recorded for a host is that of its first accepted
  reply among all the frames read.
\<close>

theorem burst_scan_result:
  assumes "timed_endpoint ck time ep events"
    and "collect_scan_over_endpoint fuel dfuel pw ep ck request w = (Inr outcome, w')"
    and "esr_rate_limit request = None" and "events w = []"
  shows "map snd (sent_of (events w')) =
      concat (replicate (esr_scan_round_count request)
        (map (request_frame (esr_transmit request)) (esr_targets request)))
    \<and> sorted_wrt (<) (map fst (host_pairs outcome))
    \<and> map_of (host_pairs outcome) =
        map_of (accepted_replies (esr_acceptance request) (reads_of (events w')))"
  using timed_endpoint.burst_scan_events [OF assms] by (simp add: bt_wf_def bt_get_map_of)

definition example_request :: endpoint_scan_request where
  "example_request =
     \<lparr>esr_targets = [0x0A000002, 0x0A000003],
      esr_transmit = \<lparr>stc_source_mac_address = MacAddress 2 0 0 0 0 1,
        stc_interface_ipv4_address = 0x0A000001, stc_wire = default_wire_options\<rparr>,
      esr_acceptance = SubnetScope 0x0A000001 0x0A000000 0x0A0000FF,
      esr_receive_timeout = from_millis 5, esr_pacing = 0, esr_scan_round_count = 2,
      esr_rate_limit = None\<rparr>"

definition example_world :: scripted_world where
  "example_world =
     \<lparr>fc_now_ns = 0, fc_sleeps = [], fc_unreadable_waits = [], fc_stall_after_next_send = 0,
      se_sent = [],
      se_inbound = [encode_request_from_layout
        ((rfc_826_ethernet_ii (MacAddress 2 0 0 0 0 9) 0x0A000003 0x0A000001)\<lparr>rl_opcode := 2\<rparr>)],
      se_fail_sends = False, se_events = []\<rparr>"

lemma example_valid:
  "validate_ieee_8021q_tag_stack (stc_wire (esr_transmit example_request)) = Ok ()"
  "validate_ieee_8023_mac_client_data (stc_wire (esr_transmit example_request)) = Ok ()"
  by (simp_all add: example_request_def validate_ieee_8021q_tag_stack_def default_wire_options_def
      validate_mac_client_data_Ok_iff)

lemma example_fits: "\<forall>f \<in> set (se_inbound example_world). length f \<le> receive_buffer_length"
  by (simp add: example_world_def length_encode_request layout_length_def rfc_826_ethernet_ii_def
      receive_buffer_length_def)

text \<open>
  Over the scripted endpoint and the fake clock of the source a burst scan always returns its
  outcome, in at most three turns of the receive loop: it neither fails, nor panics, nor loops, and
  it has read every frame of the script.
\<close>

theorem scripted_burst_scan_completes:
  assumes "esr_rate_limit request = None"
    and "validate_ieee_8021q_tag_stack (stc_wire (esr_transmit request)) = Ok ()"
    and "validate_ieee_8023_mac_client_data (stc_wire (esr_transmit request)) = Ok ()"
    and "\<forall>f \<in> set (se_inbound w). length f \<le> receive_buffer_length"
    and "length (se_inbound w) < dfuel" and "3 \<le> fuel"
    and "0 < esr_receive_timeout request" and "esr_receive_timeout request \<le> duration_max"
    and "fc_time w + esr_scan_round_count request * esr_pacing request + esr_receive_timeout request
      \<le> u128_max"
  shows "\<exists>outcome w'.
    collect_scan_over_endpoint fuel dfuel pw scripted_endpoint fake_scan_clock request w = (Inr outcome, w')
    \<and> map_of (host_pairs outcome) = map_of (accepted_replies (esr_acceptance request) (se_inbound w))"
proof -
  have "ck_add fake_scan_clock t (esr_receive_timeout request) \<noteq> None"
    if "t \<le> fc_time w + esr_scan_round_count request * esr_pacing request" for t
    using that assms(9) by (simp add: fake_scan_clock_def rust_arith)
  from scripted.burst_scan_ends [OF assms(1-8) this] show ?thesis
    by (simp add: bt_get_map_of)
qed

lemma scripted_burst_scan_completes_witness:
  "\<exists>outcome w'. collect_scan_over_endpoint 3 2 powers_of_two scripted_endpoint fake_scan_clock
     example_request example_world = (Inr outcome, w')"
proof -
  have "esr_rate_limit example_request = None" by (simp add: example_request_def)
  from scripted_burst_scan_completes [OF this example_valid example_fits, of 2 3 powers_of_two]
  show ?thesis
    by (auto simp: example_request_def example_world_def fc_time_def from_millis_def duration_max_def
        u64_max_def nanos_per_sec_def u128_max_def u128_bound_def)
qed

lemma burst_scan_result_witness:
  "\<exists>outcome w'. collect_scan_over_endpoint 3 2 powers_of_two scripted_endpoint fake_scan_clock
       example_request example_world = (Inr outcome, w')
     \<and> map snd (sent_of (se_events w')) =
         concat (replicate 2 (map (request_frame (esr_transmit example_request)) [0x0A000002, 0x0A000003]))"
proof -
  have none: "esr_rate_limit example_request = None" by (simp add: example_request_def)
  have "ck_add fake_scan_clock t (esr_receive_timeout example_request) \<noteq> None"
    if "t \<le> fc_time example_world + esr_scan_round_count example_request * esr_pacing example_request" for t
    using that by (simp add: fake_scan_clock_def example_world_def example_request_def fc_time_def
        from_millis_def u128_max_def u128_bound_def rust_arith)
  then obtain outcome w' where run: "collect_scan_over_endpoint 3 2 powers_of_two scripted_endpoint
      fake_scan_clock example_request example_world = (Inr outcome, w')"
    using scripted.burst_scan_ends [OF none example_valid example_fits, of 2 3 powers_of_two]
    by (auto simp: example_request_def example_world_def from_millis_def duration_max_def
        u64_max_def nanos_per_sec_def)
  have "se_events example_world = []" by (simp add: example_world_def)
  from burst_scan_result [OF scripted.timed_endpoint_axioms run none this] run
  show ?thesis by (simp add: example_request_def)
qed

text \<open>
  C3: whatever the endpoint and the clock do, a rate-limited scan that returns an outcome has kept
  the scheduled interval between any two transmissions, within a round and across rounds; every frame
  it sent was the request of a target that had not answered among the frames read until then; and the
  hosts are those of the first accepted reply of each sender, in ascending order.
\<close>

theorem rate_limited_scan_result:
  assumes "timed_endpoint ck time ep events"
    and "collect_scan_over_endpoint fuel dfuel pw ep ck request w = (Inr outcome, w')"
    and "esr_rate_limit request = Some timing" and "esr_targets request \<noteq> []"
    and "scan_request_wf request" and "events w = []"
  shows "\<exists>rate. validate_scan_timing_before_socket pw (esr_receive_timeout request)
        (esr_pacing request) (esr_scan_round_count request) (stc_wire (esr_transmit request))
        (Some timing) = Ok (Some rate)
      \<and> sorted_wrt (\<lambda>a b. fst a + srl_interval rate \<le> fst b) (sent_of (events w'))
      \<and> asks_unanswered (esr_transmit request) (esr_acceptance request) (esr_targets request) (events w')
      \<and> sorted_wrt (<) (map fst (host_pairs outcome))
      \<and> map_of (host_pairs outcome) =
          map_of (accepted_replies (esr_acceptance request) (reads_of (events w')))"
  using timed_endpoint.rate_limited_scan_events [OF assms] by (auto simp: bt_wf_def bt_get_map_of paced_def sorted_wrt_map)

definition rated_request :: endpoint_scan_request where
  "rated_request = example_request
     \<lparr>esr_rate_limit := Some \<lparr>timing_send_rate = Interval (from_millis 2), timing_backoff_factor = f64_one\<rparr>,
      esr_scan_round_count := 1\<rparr>"

lemma rated_timing:
  "validate_scan_timing_before_socket pw (esr_receive_timeout rated_request) (esr_pacing rated_request)
     (esr_scan_round_count rated_request) wire (esr_rate_limit rated_request) =
   Ok (Some \<lparr>srl_interval = from_millis 2, srl_backoff_factor = f64_one\<rparr>)"
  "retry_receive_window pw (esr_receive_timeout rated_request) f64_one 0 = Ok (from_millis 5)"
  by (simp_all add: rated_request_def example_request_def validate_scan_timing_before_socket_def
      retry_receive_window_def scale_duration_by_backoff_def)

lemma rated_sends:
  "\<exists>ws w1. rate_limited_sends scripted_endpoint fake_scan_clock (esr_transmit rated_request)
     (from_millis 2) True (esr_targets rated_request) None [] example_world = (Inr (Some (from_millis 2), ws), w1)
   \<and> fc_time w1 = from_millis 2 \<and> se_inbound w1 = se_inbound example_world"
  by (simp add: rated_request_def example_request_def example_world_def scripted_defs send_one_request_def Let_def
    wait_until_interval_after_last_send_def monotonic_deadline_from_def checked_add_def fc_time_def from_millis_def
   u128_max_def u128_bound_def duration_from_nanos_eq duration_max_def u64_max_def nanos_per_sec_def fc_set_def)
lemma rated_scan_runs:
  "\<exists>outcome w'. collect_scan_over_endpoint 3 2 pw scripted_endpoint fake_scan_clock
     rated_request example_world = (Inr outcome, w')"
proof -
  let ?Q = rated_request and ?buf = "replicate receive_buffer_length 0 :: u8 list"
  obtain ws w1 where sends: "rate_limited_sends scripted_endpoint fake_scan_clock (esr_transmit ?Q)
     (from_millis 2) True (esr_targets ?Q) None [] example_world = (Inr (Some (from_millis 2), ws), w1)"
    and w1: "fc_time w1 = from_millis 2" "se_inbound w1 = se_inbound example_world"
    using rated_sends by blast
  have add: "ck_add fake_scan_clock (fc_time w1) (from_millis 5) = Some (from_millis 7)"
    by (simp add: w1 fake_scan_clock_def checked_add_def from_millis_def u128_max_def u128_bound_def)
  have read: "readable se_inbound (length ?buf) 2 w1"
    using example_fits w1 by (simp add: readable_def example_world_def)
  have short: "from_millis 5 \<le> duration_max"
    by (simp add: from_millis_def duration_max_def u64_max_def nanos_per_sec_def)
  from scripted.settles.window_settles [where k = 0, OF read short scripted.now_exact add]
  obtain b acc w2 where col: "collect_replies_until_deadline 3 2 scripted_endpoint fake_scan_clock (from_millis 7)
      (esr_acceptance ?Q) ?buf ws w1 = (Inr (b, acc), w2)"
    unfolding numeral_3_eq_3 [symmetric] by blast
  have round: "rate_limited_round 3 2 pw scripted_endpoint fake_scan_clock ?Q
      \<lparr>srl_interval = from_millis 2, srl_backoff_factor = f64_one\<rparr> 0 (esr_targets ?Q) None ?buf ([], []) example_world
    = (Inr (Some (from_millis 2), b, merge_discovered_host_maps [] (fst acc) (snd acc)), w2)"
    using sends col add by (cases acc) (simp add: rate_limited_round_def rated_timing monotonic_deadline_def
        monotonic_deadline_from_def scripted.now_exact)
  have one: "esr_scan_round_count ?Q = Suc 0" "esr_targets ?Q \<noteq> []" "stc_wire (esr_transmit ?Q) = stc_wire (esr_transmit example_request)"
    by (simp_all add: rated_request_def example_request_def)
  have "\<exists>acc'. run_rate_limited_rounds 3 2 pw scripted_endpoint fake_scan_clock ?Q
      \<lparr>srl_interval = from_millis 2, srl_backoff_factor = f64_one\<rparr> ?buf [] example_world = (Inr acc', w2)"
    using round one by (auto simp: run_rate_limited_rounds_def Let_def sat_add_def u64_max_def)
  then show ?thesis
    unfolding collect_scan_over_endpoint_def
    by (auto simp: one(3) example_valid rated_timing Let_def)
qed

lemma rate_limited_scan_result_witness:
  "\<exists>outcome w'. collect_scan_over_endpoint 3 2 powers_of_two scripted_endpoint fake_scan_clock
       rated_request example_world = (Inr outcome, w')
     \<and> sorted_wrt (\<lambda>a b. fst a + from_millis 2 \<le> fst b) (sent_of (se_events w'))"
proof -
  obtain outcome w' where run: "collect_scan_over_endpoint 3 2 powers_of_two scripted_endpoint
      fake_scan_clock rated_request example_world = (Inr outcome, w')"
    using rated_scan_runs by blast
  let ?timing = "\<lparr>timing_send_rate = Interval (from_millis 2), timing_backoff_factor = f64_one\<rparr>"
  have rate: "esr_rate_limit rated_request = Some ?timing" "esr_targets rated_request \<noteq> []"
    by (simp_all add: rated_request_def example_request_def)
  have "scan_request_wf rated_request"
    by (simp add: scan_request_wf_def rated_request_def example_request_def send_rate_wf_def
        from_millis_def duration_max_def u64_max_def nanos_per_sec_def)
  moreover have "se_events example_world = []" by (simp add: example_world_def)
  ultimately show ?thesis
    using rate_limited_scan_result [OF scripted.timed_endpoint_axioms run rate] run
      rated_timing(1) [of powers_of_two] rate by auto
qed

text \<open>
  Whatever the request, a scan over the scripted endpoint and the fake clock of the source ends:
  with three turns of the receive loop in each receive phase, and one more read than the script has
  frames, the bounds on the iterations are never met, and nothing panics.
\<close>

theorem scan_never_stuck:
  assumes "\<forall>f \<in> set (se_inbound w). length f \<le> 4096"
    and "length (se_inbound w) < dfuel" and "3 \<le> fuel"
    and "esr_receive_timeout request \<le> duration_max"
    and "collect_scan_over_endpoint fuel dfuel pw scripted_endpoint fake_scan_clock request w = (r, w')"
  shows "(\<exists>outcome. r = Inr outcome) \<or> (\<exists>e. r = Inl (Failed e))"
proof -
  obtain k where "fuel = Suc (Suc (Suc k))" using assms(3) by (metis Suc_le_D numeral_3_eq_3 Suc_le_mono)
  then have "not_stuck r"
    using scripted.settles.scan_not_stuck [of dfuel w request k pw] assms
    by (simp add: readable_def receive_buffer_length_def)
  then show ?thesis
    by (cases r; cases "projl r") (auto simp: not_stuck_def)
qed

lemma scan_never_stuck_witness:
  "\<exists>r w'. collect_scan_over_endpoint 3 2 powers_of_two scripted_endpoint fake_scan_clock
      (rated_request\<lparr>esr_scan_round_count := 100\<rparr>) example_world = (r, w')
    \<and> ((\<exists>outcome. r = Inr outcome) \<or> (\<exists>e. r = Inl (Failed e)))"
proof -
  obtain r w' where run: "collect_scan_over_endpoint 3 2 powers_of_two scripted_endpoint fake_scan_clock
      (rated_request\<lparr>esr_scan_round_count := 100\<rparr>) example_world = (r, w')" by fastforce
  have "\<forall>f \<in> set (se_inbound example_world). length f \<le> 4096" "length (se_inbound example_world) < 2"
    using example_fits by (simp_all add: receive_buffer_length_def example_world_def)
  then show ?thesis
    using scan_never_stuck [OF _ _ order_refl _ run] run
    by (simp add: rated_request_def example_request_def from_millis_def duration_max_def u64_max_def
        nanos_per_sec_def)
qed

end
