(* ===== verification/Monitor.thy ===== *)
theory Monitor
  imports Scanner "HOL-Library.Product_Lexorder"
begin

text \<open>
  \<^verbatim>\<open>src/monitor.rs\<close>: the passive listen. A frame that carries ARP is classified against the local
  addresses and aggregated; the listen loop polls like the scan engine, but reads the clock again
  before every frame, and never sends. The aggregator is proved to compute, from the frames it has
  observed, the outcome that \<open>expected_outcome\<close> states without any of its tables.
\<close>

section \<open>Data\<close>

definition monitor_distinct_record_limit :: nat where "monitor_distinct_record_limit = 4096"
definition monitor_receive_buffer_length :: nat where "monitor_receive_buffer_length = 4096"

definition passive_monitor_truncation_warning :: string where
  "passive_monitor_truncation_warning = ''passive monitor record limit reached; additional distinct ARP packets were not recorded, and duplicate-ip claims were not updated for those packets''"

record monitor_listen_request =
  mlr_local_ipv4_addresses :: "ipv4 list"
  mlr_local_mac_address :: mac_address
  mlr_timeout :: duration

datatype passive_arp_class = Conflict | Observed

record passive_arp_record =
  par_classification :: passive_arp_class
  par_opcode :: u16
  par_sender_hardware :: mac_address
  par_sender_protocol :: ipv4
  par_target_hardware :: mac_address
  par_target_protocol :: ipv4
  par_count :: nat

record duplicate_ip_claim =
  dic_protocol_address :: ipv4
  dic_hardware_addresses :: "mac_address list"

record monitor_listen_outcome =
  mlo_records :: "passive_arp_record list"
  mlo_duplicate_ip_claims :: "duplicate_ip_claim list"
  mlo_warnings :: "string list"

text \<open>The derived order of a \<^verbatim>\<open>PacketIdentity\<close> compares its fields one after the other.\<close>

datatype packet_identity = PacketIdentity
  (pid_opcode: u16) (pid_sender_hardware: mac_address) (pid_sender_protocol: ipv4)
  (pid_target_hardware: mac_address) (pid_target_protocol: ipv4)

definition identity_fields ::
    "packet_identity \<Rightarrow> u16 \<times> mac_address \<times> ipv4 \<times> mac_address \<times> ipv4" where
  "identity_fields i = (pid_opcode i, pid_sender_hardware i, pid_sender_protocol i,
     pid_target_hardware i, pid_target_protocol i)"

lemma identity_fields_inject [simp]: "identity_fields a = identity_fields b \<longleftrightarrow> a = b"
  by (cases a; cases b) (simp add: identity_fields_def)

instantiation packet_identity :: linorder
begin

definition less_eq_packet_identity :: "packet_identity \<Rightarrow> packet_identity \<Rightarrow> bool" where
  "less_eq_packet_identity a b \<longleftrightarrow> identity_fields a \<le> identity_fields b"

definition less_packet_identity :: "packet_identity \<Rightarrow> packet_identity \<Rightarrow> bool" where
  "less_packet_identity a b \<longleftrightarrow> identity_fields a < identity_fields b"

instance
proof
  fix a b :: packet_identity
  show "a \<le> b \<Longrightarrow> b \<le> a \<Longrightarrow> a = b"
    unfolding less_eq_packet_identity_def by (metis antisym identity_fields_inject)
qed (auto simp: less_eq_packet_identity_def less_packet_identity_def less_le_not_le)

end

record malformed_warning =
  mw_reason :: string
  mw_count :: nat

record passive_arp_aggregator =
  agg_local_mac_address :: mac_address
  agg_local_ipv4_addresses :: "ipv4 list"
  agg_record_limit :: nat
  agg_records :: "passive_arp_record list"
  agg_indexes :: "(packet_identity, nat) btree"
  agg_claimants :: "(ipv4, mac_address list) btree"
  agg_claim_order :: "ipv4 list"
  agg_malformed :: "malformed_warning list"
  agg_truncated :: bool

section \<open>The aggregator\<close>

definition frame_is_unrelated_to_address_resolution :: "u8 list \<Rightarrow> bool" where
  "frame_is_unrelated_to_address_resolution frame =
     (case try_parse_ethernet_frame frame of
        Inr parsed \<Rightarrow> pef_ether_type parsed \<noteq> protocol_arp
      | Inl _ \<Rightarrow> True)"

definition classify_passive_arp ::
    "u16 \<Rightarrow> mac_address \<Rightarrow> ipv4 \<Rightarrow> mac_address \<Rightarrow> ipv4 list \<Rightarrow> passive_arp_class option" where
  "classify_passive_arp opcode sender_hardware sender_protocol local_mac local_ipv4 =
     (let sender_protocol_is_local = (sender_protocol \<in> set local_ipv4) in
      if sender_hardware = local_mac \<and> sender_protocol_is_local then None
      else if sender_protocol_is_local
              \<and> (opcode = arp_operation_request \<or> opcode = arp_operation_reply)
      then Some Conflict
      else Some Observed)"

definition aggregator_new :: "mac_address \<Rightarrow> ipv4 list \<Rightarrow> nat \<Rightarrow> passive_arp_aggregator" where
  "aggregator_new local_mac local_ipv4 limit =
     \<lparr>agg_local_mac_address = local_mac,
      agg_local_ipv4_addresses = bset_of_list local_ipv4,
      agg_record_limit = limit,
      agg_records = [], agg_indexes = [], agg_claimants = [], agg_claim_order = [],
      agg_malformed = [], agg_truncated = False\<rparr>"

definition remember_packet ::
    "passive_arp_class \<Rightarrow> packet_identity \<Rightarrow> passive_arp_aggregator
     \<Rightarrow> bool \<times> passive_arp_aggregator" where
  "remember_packet classification identity s =
     (case bt_get (agg_indexes s) identity of
        Some index \<Rightarrow>
          (True,
           if index < length (agg_records s)
           then s\<lparr>agg_records := (agg_records s)[index :=
                  (agg_records s ! index)\<lparr>par_count :=
                    sat_add u64_max (par_count (agg_records s ! index)) 1\<rparr>]\<rparr>
           else s)
      | None \<Rightarrow>
          if agg_record_limit s \<le> length (agg_records s)
          then (False, s\<lparr>agg_truncated := True\<rparr>)
          else
            let index = length (agg_records s) in
            (True, s\<lparr>agg_indexes := bt_put identity index (agg_indexes s),
               agg_records := agg_records s @
                 [\<lparr>par_classification = classification,
                   par_opcode = pid_opcode identity,
                   par_sender_hardware = pid_sender_hardware identity,
                   par_sender_protocol = pid_sender_protocol identity,
                   par_target_hardware = pid_target_hardware identity,
                   par_target_protocol = pid_target_protocol identity,
                   par_count = 1\<rparr>]\<rparr>))"

text \<open>\<^verbatim>\<open>entry(..).or_default()\<close> leaves an empty set behind before the insertion.\<close>

definition note_third_party_sender ::
    "ipv4 \<Rightarrow> mac_address \<Rightarrow> passive_arp_aggregator \<Rightarrow> passive_arp_aggregator" where
  "note_third_party_sender sender_protocol sender_hardware s =
     (if sender_protocol = ipv4_unspecified \<or> sender_protocol \<in> set (agg_local_ipv4_addresses s)
      then s
      else
        let claimants = (case bt_get (agg_claimants s) sender_protocol of
               None \<Rightarrow> [] | Some ms \<Rightarrow> ms);
            s = (if claimants = []
                 then s\<lparr>agg_claim_order := agg_claim_order s @ [sender_protocol]\<rparr> else s) in
        s\<lparr>agg_claimants :=
            bt_put sender_protocol (bset_insert sender_hardware claimants) (agg_claimants s)\<rparr>)"

fun count_malformed :: "string \<Rightarrow> malformed_warning list \<Rightarrow> malformed_warning list" where
  "count_malformed reason [] = [\<lparr>mw_reason = reason, mw_count = 1\<rparr>]"
| "count_malformed reason (w # ws) =
     (if mw_reason w = reason then w\<lparr>mw_count := sat_add u64_max (mw_count w) 1\<rparr> # ws
      else w # count_malformed reason ws)"

definition record_malformed :: "string \<Rightarrow> passive_arp_aggregator \<Rightarrow> passive_arp_aggregator" where
  "record_malformed reason s = s\<lparr>agg_malformed := count_malformed reason (agg_malformed s)\<rparr>"

definition observe_parsed :: "parsed_arp \<Rightarrow> passive_arp_aggregator \<Rightarrow> passive_arp_aggregator" where
  "observe_parsed parsed s =
     (case classify_passive_arp (pa_opcode parsed) (pa_sender_hardware parsed)
            (pa_sender_protocol parsed) (agg_local_mac_address s) (agg_local_ipv4_addresses s) of
        None \<Rightarrow> s
      | Some classification \<Rightarrow>
          let identity = PacketIdentity (pa_opcode parsed) (pa_sender_hardware parsed)
                (pa_sender_protocol parsed) (pa_target_hardware parsed) (pa_target_protocol parsed);
              (remembered, s) = remember_packet classification identity s in
          if \<not> remembered then s
          else if classification = Observed
          then note_third_party_sender (pa_sender_protocol parsed) (pa_sender_hardware parsed) s
          else s)"

definition observe :: "u8 list \<Rightarrow> passive_arp_aggregator \<Rightarrow> passive_arp_aggregator" where
  "observe frame s =
     (if frame_is_unrelated_to_address_resolution frame then s
      else (case try_parse_arp frame of
        Inr parsed \<Rightarrow> observe_parsed parsed s
      | Inl reason \<Rightarrow> record_malformed reason s))"

definition malformed_warning_line :: "string \<Rightarrow> nat \<Rightarrow> string" where
  "malformed_warning_line reason count =
     (if count = 1 then ''received malformed Ethernet/ARP frame: '' @ reason
      else ''received malformed Ethernet/ARP frame: '' @ reason @ '' ('' @ show_nat count
        @ '' occurrences)'')"

definition aggregator_finish :: "passive_arp_aggregator \<Rightarrow> monitor_listen_outcome" where
  "aggregator_finish s =
     \<lparr>mlo_records = agg_records s,
      mlo_duplicate_ip_claims = concat (map (\<lambda>p.
        case bt_get (agg_claimants s) p of
          None \<Rightarrow> []
        | Some ms \<Rightarrow> if length ms < 2 then []
                     else [\<lparr>dic_protocol_address = p, dic_hardware_addresses = ms\<rparr>])
        (agg_claim_order s)),
      mlo_warnings = map (\<lambda>m. malformed_warning_line (mw_reason m) (mw_count m)) (agg_malformed s)
        @ (if agg_truncated s then [passive_monitor_truncation_warning] else [])\<rparr>"

section \<open>Listening\<close>

definition monitor_deadline :: "'w clock \<Rightarrow> duration \<Rightarrow> 'w \<Rightarrow> (app_error + timestamp) \<times> 'w" where
  "monitor_deadline ck timeout w =
     (if timeout = 0 then (Inl MonitorTimeoutRejected, w)
      else
        let (now, w) = ck_now ck w in
        (ok_or (ck_add ck now timeout) (ScanTimingExceedsLimit MonotonicDeadline), w))"

definition receive_length_error :: app_error where
  "receive_length_error = RawPacketReceiveFailed
     \<lparr>io_kind = InvalidData, io_errno = None, io_text = ''receive length exceeds the monitor buffer''\<rparr>"

fun drain_until_deadline ::
    "nat \<Rightarrow> 'w endpoint \<Rightarrow> 'w clock \<Rightarrow> timestamp \<Rightarrow> u8 list \<Rightarrow> passive_arp_aggregator \<Rightarrow> 'w
     \<Rightarrow> (stop + u8 list \<times> passive_arp_aggregator) \<times> 'w" where
  "drain_until_deadline 0 ep ck deadline buffer s w = (Inl OutOfFuel, w)"
| "drain_until_deadline (Suc fuel) ep ck deadline buffer s w =
     (let (now, w) = ck_now ck w in
      if deadline \<le> now then (Inr (buffer, s), w)
      else (case ep_receive ep buffer w of
          (Inl e, buffer', w) \<Rightarrow> (Inl e, w)
        | (Inr None, buffer', w) \<Rightarrow> (Inr (buffer', s), w)
        | (Inr (Some n), buffer', w) \<Rightarrow>
            if length buffer' < n then (Inl (Failed receive_length_error), w)
            else drain_until_deadline fuel ep ck deadline buffer' (observe (take n buffer') s) w))"

definition monitor_poll_timeout_milliseconds :: "duration \<Rightarrow> nat" where
  "monitor_poll_timeout_milliseconds remaining =
     (let milliseconds = as_millis remaining in
      if milliseconds \<le> c_int_max then milliseconds else c_int_max)"

definition listen_for_passive_arp ::
    "nat \<Rightarrow> nat \<Rightarrow> 'w endpoint \<Rightarrow> 'w clock \<Rightarrow> monitor_listen_request \<Rightarrow> 'w
     \<Rightarrow> (stop + monitor_listen_outcome) \<times> 'w" where
  "listen_for_passive_arp fuel drain_fuel ep ck request w =
     (case monitor_deadline ck (mlr_timeout request) w of
        (Inl e, w) \<Rightarrow> (Inl (Failed e), w)
      | (Inr deadline, w) \<Rightarrow>
          (case poll_loop fuel monitor_poll_timeout_milliseconds ep ck deadline
                  (\<lambda>(buffer, s). drain_until_deadline drain_fuel ep ck deadline buffer s)
                  (replicate monitor_receive_buffer_length 0,
                   aggregator_new (mlr_local_mac_address request) (mlr_local_ipv4_addresses request)
                     monitor_distinct_record_limit) w of
             (Inl e, w) \<Rightarrow> (Inl e, w)
           | (Inr (buffer, s), w) \<Rightarrow> (Inr (aggregator_finish s), w)))"

section \<open>What the aggregator computes\<close>

text \<open>The elements of a list in the order of their first occurrence.\<close>

definition firsts :: "'a list \<Rightarrow> 'a list" where
  "firsts xs = rev (remdups (rev xs))"

lemma firsts_Nil [simp]: "firsts [] = []"
  by (simp add: firsts_def)

lemma firsts_snoc [simp]: "firsts (xs @ [x]) = (if x \<in> set xs then firsts xs else firsts xs @ [x])"
  by (simp add: firsts_def)

lemma set_firsts [simp]: "set (firsts xs) = set xs"
  by (simp add: firsts_def)

lemma distinct_firsts [simp]: "distinct (firsts xs)"
  by (simp add: firsts_def)

lemma firsts_eq_Nil [simp]: "firsts xs = [] \<longleftrightarrow> xs = []"
  by (metis firsts_Nil set_empty set_firsts)

text \<open>The identity of a frame that is aggregated, and the reason of one that is malformed.\<close>

definition frame_identity :: "mac_address \<Rightarrow> ipv4 set \<Rightarrow> u8 list \<Rightarrow> packet_identity option" where
  "frame_identity local_mac local_ipv4 frame =
     (case try_parse_arp frame of
        Inr p \<Rightarrow>
          if pa_sender_hardware p = local_mac \<and> pa_sender_protocol p \<in> local_ipv4 then None
          else Some (PacketIdentity (pa_opcode p) (pa_sender_hardware p) (pa_sender_protocol p)
                 (pa_target_hardware p) (pa_target_protocol p))
      | Inl _ \<Rightarrow> None)"

definition frame_malformation :: "u8 list \<Rightarrow> string option" where
  "frame_malformation frame =
     (case try_parse_arp frame of
        Inl reason \<Rightarrow> if frame_is_unrelated_to_address_resolution frame then None else Some reason
      | Inr _ \<Rightarrow> None)"

definition identity_class :: "ipv4 set \<Rightarrow> packet_identity \<Rightarrow> passive_arp_class" where
  "identity_class local_ipv4 i =
     (if pid_sender_protocol i \<in> local_ipv4 \<and> (pid_opcode i = 1 \<or> pid_opcode i = 2)
      then Conflict else Observed)"

text \<open>A claim counts for an address that is neither local nor zero.\<close>

definition claims_address :: "ipv4 set \<Rightarrow> packet_identity \<Rightarrow> bool" where
  "claims_address local_ipv4 i \<longleftrightarrow>
     pid_sender_protocol i \<noteq> 0 \<and> pid_sender_protocol i \<notin> local_ipv4"

definition expected_record :: "ipv4 set \<Rightarrow> packet_identity list \<Rightarrow> packet_identity \<Rightarrow> passive_arp_record" where
  "expected_record local_ipv4 ids i =
     \<lparr>par_classification = identity_class local_ipv4 i,
      par_opcode = pid_opcode i,
      par_sender_hardware = pid_sender_hardware i,
      par_sender_protocol = pid_sender_protocol i,
      par_target_hardware = pid_target_hardware i,
      par_target_protocol = pid_target_protocol i,
      par_count = min u64_max (count_list ids i)\<rparr>"

definition hardware_of :: "packet_identity list \<Rightarrow> ipv4 \<Rightarrow> mac_address list" where
  "hardware_of claiming p =
     bset_of_list (map pid_sender_hardware (filter (\<lambda>i. pid_sender_protocol i = p) claiming))"

definition expected_claims :: "ipv4 set \<Rightarrow> packet_identity list \<Rightarrow> duplicate_ip_claim list" where
  "expected_claims local_ipv4 kept =
     (let claiming = filter (claims_address local_ipv4) kept in
      map (\<lambda>p. \<lparr>dic_protocol_address = p, dic_hardware_addresses = hardware_of claiming p\<rparr>)
        (filter (\<lambda>p. 2 \<le> length (hardware_of claiming p))
          (firsts (map pid_sender_protocol claiming))))"

definition expected_outcome ::
    "mac_address \<Rightarrow> ipv4 set \<Rightarrow> nat \<Rightarrow> u8 list list \<Rightarrow> monitor_listen_outcome" where
  "expected_outcome local_mac local_ipv4 limit frames =
     (let ids = List.map_filter (frame_identity local_mac local_ipv4) frames;
          reasons = List.map_filter frame_malformation frames;
          kept = take limit (firsts ids) in
      \<lparr>mlo_records = map (expected_record local_ipv4 ids) kept,
       mlo_duplicate_ip_claims = expected_claims local_ipv4 kept,
       mlo_warnings =
         map (\<lambda>r. malformed_warning_line r (min u64_max (count_list reasons r))) (firsts reasons)
         @ (if limit < length (firsts ids) then [passive_monitor_truncation_warning] else [])\<rparr>)"

section \<open>The invariant\<close>

definition records_track ::
    "ipv4 set \<Rightarrow> nat \<Rightarrow> packet_identity list \<Rightarrow> passive_arp_aggregator \<Rightarrow> bool" where
  "records_track local_ipv4 limit ids s \<longleftrightarrow>
     agg_record_limit s = limit
     \<and> agg_records s = map (expected_record local_ipv4 ids) (take limit (firsts ids))
     \<and> (\<forall>i k. bt_get (agg_indexes s) i = Some k \<longleftrightarrow>
          k < length (take limit (firsts ids)) \<and> take limit (firsts ids) ! k = i)
     \<and> (agg_truncated s \<longleftrightarrow> limit < length (firsts ids))"

definition claims_track :: "packet_identity list \<Rightarrow> passive_arp_aggregator \<Rightarrow> bool" where
  "claims_track claiming s \<longleftrightarrow>
     agg_claim_order s = firsts (map pid_sender_protocol claiming)
     \<and> (\<forall>p. bt_get (agg_claimants s) p =
          (if p \<in> pid_sender_protocol ` set claiming then Some (hardware_of claiming p) else None))"

lemma expected_record_snoc:
  "expected_record L (ids @ [i]) j =
     (if j = i then (expected_record L ids i)\<lparr>par_count := sat_add u64_max (par_count (expected_record L ids i)) 1\<rparr>
      else expected_record L ids j)"
  by (auto simp: expected_record_def sat_add_def)

lemma take_firsts_snoc:
  "take n (firsts (ids @ [i])) =
     (if i \<in> set (take n (firsts ids)) \<or> n \<le> length (take n (firsts ids)) then take n (firsts ids)
      else take n (firsts ids) @ [i])"
proof -
  have "i \<in> set (take n (firsts ids)) \<Longrightarrow> i \<in> set ids" by (metis in_set_takeD set_firsts)
  then show ?thesis by (auto simp: not_le min_def split: if_splits)
qed

definition records_are ::
    "ipv4 set \<Rightarrow> nat \<Rightarrow> packet_identity list \<Rightarrow> packet_identity list \<Rightarrow> passive_arp_aggregator \<Rightarrow> bool" where
  "records_are local_ipv4 limit ids kept s \<longleftrightarrow>
     agg_record_limit s = limit
     \<and> agg_records s = map (expected_record local_ipv4 ids) kept
     \<and> (\<forall>i k. bt_get (agg_indexes s) i = Some k \<longleftrightarrow> k < length kept \<and> kept ! k = i)"

lemma records_track_are:
  "records_track L limit ids s \<longleftrightarrow>
     records_are L limit ids (take limit (firsts ids)) s
     \<and> (agg_truncated s \<longleftrightarrow> limit < length (firsts ids))"
  by (auto simp: records_track_def records_are_def)

lemma remember_known:
  assumes "records_are L limit ids kept s" and "distinct kept" and "i \<in> set kept"
  shows "\<exists>s'. remember_packet c i s = (True, s') \<and> records_are L limit (ids @ [i]) kept s'
           \<and> agg_truncated s' = agg_truncated s"
proof -
  obtain k where k: "k < length kept" "kept ! k = i" using assms(3) by (auto simp: in_set_conv_nth)
  then have get: "bt_get (agg_indexes s) i = Some k" using assms(1) by (simp add: records_are_def)
  have "map (expected_record L (ids @ [i])) kept =
      (map (expected_record L ids) kept)[k := (expected_record L ids i)
         \<lparr>par_count := sat_add u64_max (par_count (expected_record L ids i)) 1\<rparr>]"
    using k nth_eq_iff_index_eq [OF assms(2)]
    by (intro nth_equalityI) (auto simp: expected_record_snoc nth_list_update)
  moreover have "remember_packet c i s = (True, s\<lparr>agg_records := (map (expected_record L ids) kept)[k :=
      (expected_record L ids i)\<lparr>par_count := sat_add u64_max (par_count (expected_record L ids i)) 1\<rparr>]\<rparr>)"
  proof -
    have "agg_records s = map (expected_record L ids) kept" using assms(1) by (simp add: records_are_def)
    then show ?thesis using k by (simp add: remember_packet_def get)
  qed
  ultimately show ?thesis using assms(1) by (simp add: records_are_def)
qed

lemma expected_records_fresh:
  "i \<notin> set kept \<Longrightarrow> map (expected_record L (ids @ [i])) kept = map (expected_record L ids) kept"
  by (auto simp: expected_record_snoc)

lemma remember_dropped:
  assumes "records_are L limit ids kept s" and "i \<notin> set kept" and "limit \<le> length kept"
  shows "\<exists>s'. remember_packet c i s = (False, s') \<and> records_are L limit (ids @ [i]) kept s'
           \<and> agg_truncated s'"
proof -
  have get: "bt_get (agg_indexes s) i = None"
    using assms(1,2) unfolding records_are_def by (metis not_None_eq nth_mem)
  moreover have "length (agg_records s) = length kept" "agg_record_limit s = limit"
    using assms(1) by (simp_all add: records_are_def)
  ultimately have "remember_packet c i s = (False, s\<lparr>agg_truncated := True\<rparr>)"
    using assms(3) by (simp add: remember_packet_def)
  then show ?thesis
    using assms(1) expected_records_fresh [OF assms(2)] by (simp add: records_are_def)
qed

lemma remember_new:
  assumes "records_are L limit ids kept s" and "i \<notin> set kept" and "length kept < limit"
    and "i \<notin> set ids"
  shows "\<exists>s'. remember_packet (identity_class L i) i s = (True, s')
           \<and> records_are L limit (ids @ [i]) (kept @ [i]) s' \<and> agg_truncated s' = agg_truncated s"
proof -
  have get: "bt_get (agg_indexes s) i = None"
    using assms(1,2) unfolding records_are_def by (metis not_None_eq nth_mem)
  have one: "expected_record L (ids @ [i]) i =
      \<lparr>par_classification = identity_class L i, par_opcode = pid_opcode i,
       par_sender_hardware = pid_sender_hardware i, par_sender_protocol = pid_sender_protocol i,
       par_target_hardware = pid_target_hardware i, par_target_protocol = pid_target_protocol i,
       par_count = 1\<rparr>"
    using assms(4) count_list_0_iff [of ids i] by (simp add: expected_record_def u64_max_def)
  have "length (agg_records s) = length kept" "agg_record_limit s = limit"
    using assms(1) by (simp_all add: records_are_def)
  then have step: "remember_packet (identity_class L i) i s =
      (True, s\<lparr>agg_indexes := bt_put i (length kept) (agg_indexes s),
         agg_records := agg_records s @ [expected_record L (ids @ [i]) i]\<rparr>)"
    using assms(3) by (simp add: remember_packet_def get one Let_def)
  have index: "((bt_get (agg_indexes s))(i \<mapsto> length kept)) j = Some k \<longleftrightarrow>
      k < length (kept @ [i]) \<and> (kept @ [i]) ! k = j" for j k
    using assms(1,2) by (auto simp: records_are_def nth_append less_Suc_eq)
  show ?thesis
    using assms(1) expected_records_fresh [OF assms(2)] index unfolding step
    by (simp add: records_are_def bt_get_put del: fun_upd_apply)
qed

text \<open>
  \<open>remember_packet\<close> keeps the records in step with the identities seen, and says whether the
  identity is among the retained ones.
\<close>

lemma remember_packet_tracks:
  assumes "records_track L limit ids s" and "remember_packet (identity_class L i) i s = (kept, s')"
  shows "records_track L limit (ids @ [i]) s'
    \<and> (kept \<longleftrightarrow> i \<in> set (take limit (firsts (ids @ [i]))))"
proof -
  define K where "K = take limit (firsts ids)"
  have inv: "records_are L limit ids K s" "agg_truncated s \<longleftrightarrow> limit < length (firsts ids)"
    using assms(1) by (simp_all add: records_track_are K_def)
  have dist: "distinct K" by (simp add: K_def)
  have snoc: "take limit (firsts (ids @ [i])) = (if i \<in> set K \<or> limit \<le> length K then K else K @ [i])"
    unfolding K_def by (rule take_firsts_snoc)
  consider "i \<in> set K" | "i \<notin> set K" "limit \<le> length K" | "i \<notin> set K" "length K < limit" by fastforce
  then show ?thesis
  proof cases
    case 1
    then have "i \<in> set ids" unfolding K_def by (metis in_set_takeD set_firsts)
    then show ?thesis
      using remember_known [OF inv(1) dist 1, of "identity_class L i"] assms(2) inv(2) snoc 1
      by (auto simp: records_track_are)
  next
    case 2
    then have "limit < length (firsts (ids @ [i]))"
      by (cases "i \<in> set ids") (metis K_def set_firsts take_all not_less firsts_snoc,
        simp add: K_def min_def split: if_splits)
    then show ?thesis
      using remember_dropped [OF inv(1) 2, of "identity_class L i"] assms(2) snoc 2
      by (auto simp: records_track_are)
  next
    case 3
    then have "K = firsts ids" by (auto simp: K_def min_def split: if_splits)
    moreover from this have "i \<notin> set ids" using 3 by simp
    ultimately show ?thesis
      using remember_new [OF inv(1) 3] assms(2) inv(2) snoc 3
      by (auto simp: records_track_are)
  qed
qed

lemma remember_packet_keeps:
  assumes "remember_packet c i s = (kept, s')"
  shows "agg_claimants s' = agg_claimants s" "agg_claim_order s' = agg_claim_order s"
    "agg_malformed s' = agg_malformed s" "agg_local_mac_address s' = agg_local_mac_address s"
    "agg_local_ipv4_addresses s' = agg_local_ipv4_addresses s"
  using assms by (auto simp: remember_packet_def Let_def split: option.splits if_splits)

lemma hardware_of_snoc:
  "hardware_of (ids @ [i]) p =
     (if pid_sender_protocol i = p then bset_insert (pid_sender_hardware i) (hardware_of ids p)
      else hardware_of ids p)"
  by (simp add: hardware_of_def bset_of_list_def)

lemma set_hardware_of:
  "set (hardware_of ids p) = pid_sender_hardware ` {i \<in> set ids. pid_sender_protocol i = p}"
  by (auto simp: hardware_of_def bset_of_list)

lemma hardware_of_eq_Nil: "hardware_of ids p = [] \<longleftrightarrow> p \<notin> pid_sender_protocol ` set ids"
  unfolding set_empty [symmetric] set_hardware_of by auto

lemma hardware_of_absent: "p \<notin> pid_sender_protocol ` set ids \<Longrightarrow> hardware_of ids p = []"
  by (simp add: hardware_of_eq_Nil)

lemma bset_insert_present: "x \<in> set xs \<Longrightarrow> bset_insert x xs = xs"
  by (simp add: bset_insert_def insort_insert_triv)

lemma claimants_found:
  "claims_track claiming s \<Longrightarrow>
     (case bt_get (agg_claimants s) p of None \<Rightarrow> [] | Some ms \<Rightarrow> ms) = hardware_of claiming p"
  by (simp add: claims_track_def hardware_of_absent)

text \<open>What the insertion does to an address that is neither local nor zero.\<close>

lemma note_step:
  assumes "claims_track claiming s" and "p \<noteq> 0" and "p \<notin> set (agg_local_ipv4_addresses s)"
  shows "agg_claim_order (note_third_party_sender p h s) =
           (if hardware_of claiming p = [] then agg_claim_order s @ [p] else agg_claim_order s)"
    and "bt_get (agg_claimants (note_third_party_sender p h s)) =
           (bt_get (agg_claimants s))(p \<mapsto> bset_insert h (hardware_of claiming p))"
proof -
  have "note_third_party_sender p h s =
      (let s = (if hardware_of claiming p = [] then s\<lparr>agg_claim_order := agg_claim_order s @ [p]\<rparr> else s)
       in s\<lparr>agg_claimants := bt_put p (bset_insert h (hardware_of claiming p)) (agg_claimants s)\<rparr>)"
    using assms(2,3) unfolding note_third_party_sender_def claimants_found [OF assms(1)]
    by (simp add: ipv4_unspecified_def)
  then show "agg_claim_order (note_third_party_sender p h s) =
      (if hardware_of claiming p = [] then agg_claim_order s @ [p] else agg_claim_order s)"
    and "bt_get (agg_claimants (note_third_party_sender p h s)) =
      (bt_get (agg_claimants s))(p \<mapsto> bset_insert h (hardware_of claiming p))"
    by (simp_all add: bt_get_put)
qed

lemma note_new_claim:
  assumes track: "claims_track claiming s" and "claims_address (set (agg_local_ipv4_addresses s)) i"
  shows "claims_track (claiming @ [i])
           (note_third_party_sender (pid_sender_protocol i) (pid_sender_hardware i) s)"
proof -
  let ?p = "pid_sender_protocol i"
  have p: "?p \<noteq> 0" "?p \<notin> set (agg_local_ipv4_addresses s)"
    using assms(2) by (simp_all add: claims_address_def)
  have order: "agg_claim_order s = firsts (map pid_sender_protocol claiming)"
    and get: "bt_get (agg_claimants s) q =
        (if q \<in> pid_sender_protocol ` set claiming then Some (hardware_of claiming q) else None)" for q
    using track by (simp_all add: claims_track_def)
  show ?thesis
    unfolding claims_track_def note_step [OF track p]
    by (simp add: order get hardware_of_snoc hardware_of_eq_Nil hardware_of_absent)
qed

lemma note_repeated_claim:
  assumes track: "claims_track claiming s" and "claims_address (set (agg_local_ipv4_addresses s)) i"
    and "i \<in> set claiming"
  shows "claims_track claiming
           (note_third_party_sender (pid_sender_protocol i) (pid_sender_hardware i) s)"
proof -
  let ?p = "pid_sender_protocol i"
  have p: "?p \<noteq> 0" "?p \<notin> set (agg_local_ipv4_addresses s)"
    using assms(2) by (simp_all add: claims_address_def)
  have there: "pid_sender_hardware i \<in> set (hardware_of claiming ?p)"
    using assms(3) by (auto simp: set_hardware_of)
  then have "hardware_of claiming ?p \<noteq> []" by auto
  then show ?thesis
    using track assms(3) unfolding claims_track_def note_step [OF track p]
    by (simp add: bset_insert_present [OF there])
qed

lemma note_keeps:
  "agg_records (note_third_party_sender p h s) = agg_records s"
  "agg_indexes (note_third_party_sender p h s) = agg_indexes s"
  "agg_record_limit (note_third_party_sender p h s) = agg_record_limit s"
  "agg_truncated (note_third_party_sender p h s) = agg_truncated s"
  "agg_malformed (note_third_party_sender p h s) = agg_malformed s"
  "agg_local_mac_address (note_third_party_sender p h s) = agg_local_mac_address s"
  "agg_local_ipv4_addresses (note_third_party_sender p h s) = agg_local_ipv4_addresses s"
  by (simp_all add: note_third_party_sender_def Let_def)

text \<open>The malformed reasons are counted in the order of their first occurrence.\<close>

definition counted :: "string list \<Rightarrow> malformed_warning list" where
  "counted reasons = map (\<lambda>r. \<lparr>mw_reason = r, mw_count = min u64_max (count_list reasons r)\<rparr>)
     (firsts reasons)"

lemma count_malformed_map:
  "count_malformed r (map (\<lambda>x. \<lparr>mw_reason = x, mw_count = f x\<rparr>) xs) =
     (if r \<in> set xs \<and> distinct xs
      then map (\<lambda>x. \<lparr>mw_reason = x, mw_count = if x = r then sat_add u64_max (f x) 1 else f x\<rparr>) xs
      else if r \<notin> set xs then map (\<lambda>x. \<lparr>mw_reason = x, mw_count = f x\<rparr>) xs
             @ [\<lparr>mw_reason = r, mw_count = 1\<rparr>]
      else count_malformed r (map (\<lambda>x. \<lparr>mw_reason = x, mw_count = f x\<rparr>) xs))"
  by (induction xs) auto

lemma counted_snoc: "count_malformed r (counted rs) = counted (rs @ [r])"
proof (cases "r \<in> set rs")
  case True
  then show ?thesis
    unfolding counted_def by (subst count_malformed_map) (auto simp: sat_add_def)
next
  case False
  then have "count_list rs r = 0" by (simp add: count_list_0_iff)
  then show ?thesis
    using False unfolding counted_def
    by (subst count_malformed_map) (auto simp: u64_max_def)
qed

section \<open>The aggregator computes the expected outcome\<close>

definition aggregator_tracks ::
    "mac_address \<Rightarrow> ipv4 set \<Rightarrow> nat \<Rightarrow> u8 list list \<Rightarrow> passive_arp_aggregator \<Rightarrow> bool" where
  "aggregator_tracks local_mac local_ipv4 limit frames s \<longleftrightarrow>
     (let ids = List.map_filter (frame_identity local_mac local_ipv4) frames in
      agg_local_mac_address s = local_mac \<and> set (agg_local_ipv4_addresses s) = local_ipv4
      \<and> records_track local_ipv4 limit ids s
      \<and> claims_track (filter (claims_address local_ipv4) (take limit (firsts ids))) s
      \<and> agg_malformed s = counted (List.map_filter frame_malformation frames))"

lemma map_filter_snoc:
  "List.map_filter f (xs @ [x]) = List.map_filter f xs @ (case f x of None \<Rightarrow> [] | Some y \<Rightarrow> [y])"
  by (simp add: List.map_filter_def split: option.splits)

lemma aggregator_new_tracks:
  "aggregator_tracks local_mac (set local_ipv4) limit [] (aggregator_new local_mac local_ipv4 limit)"
  by (simp add: aggregator_tracks_def aggregator_new_def records_track_def claims_track_def
      counted_def bset_of_list List.map_filter_def)

text \<open>A frame that parses as ARP is never taken for one that does not carry ARP.\<close>

lemma arp_frame_is_related:
  "try_parse_arp frame = Inr p \<Longrightarrow> \<not> frame_is_unrelated_to_address_resolution frame"
  by (auto simp: try_parse_arp_def frame_is_unrelated_to_address_resolution_def and_then_eq_Ok_iff
      split: if_splits)

lemma classify_frame:
  "classify_passive_arp (pid_opcode i) (pid_sender_hardware i) (pid_sender_protocol i) m ips =
     (if pid_sender_hardware i = m \<and> pid_sender_protocol i \<in> set ips then None
      else Some (identity_class (set ips) i))"
  by (auto simp: classify_passive_arp_def identity_class_def arp_operation_request_def
      arp_operation_reply_def Let_def)

lemma claims_address_observed: "claims_address L i \<Longrightarrow> identity_class L i = Observed"
  by (simp add: claims_address_def identity_class_def)

lemma records_track_claims:
  "records_track L limit ids (note_third_party_sender p h s) \<longleftrightarrow> records_track L limit ids s"
  by (simp add: records_track_def note_keeps)

lemma claims_track_keeps:
  "agg_claimants s' = agg_claimants s \<Longrightarrow> agg_claim_order s' = agg_claim_order s
     \<Longrightarrow> claims_track claiming s' = claims_track claiming s"
  by (simp add: claims_track_def)

text \<open>Noting the sender of a retained observed packet.\<close>

lemma note_retained:
  assumes "claims_track (filter (claims_address L) (take limit (firsts ids))) s"
    and "set (agg_local_ipv4_addresses s) = L"
    and "i \<in> set (take limit (firsts (ids @ [i])))"
  shows "claims_track (filter (claims_address L) (take limit (firsts (ids @ [i]))))
     (if identity_class L i = Observed
      then note_third_party_sender (pid_sender_protocol i) (pid_sender_hardware i) s else s)"
proof (cases "claims_address L i")
  case False
  have "identity_class L i = Observed \<Longrightarrow>
      note_third_party_sender (pid_sender_protocol i) (pid_sender_hardware i) s = s"
    using False assms(2) by (auto simp: note_third_party_sender_def claims_address_def ipv4_unspecified_def)
  then show ?thesis using assms(1) False by (auto simp: take_firsts_snoc simp del: firsts_snoc)
next
  case True
  show ?thesis
  proof (cases "i \<in> set (take limit (firsts ids))")
    case there: True
    then show ?thesis
      using note_repeated_claim [OF assms(1), of i] True assms(2)
      by (simp add: take_firsts_snoc claims_address_observed del: firsts_snoc)
  next
    case False
    then have "take limit (firsts (ids @ [i])) = take limit (firsts ids) @ [i]"
      using assms(3) unfolding take_firsts_snoc by (auto split: if_splits)
    then show ?thesis
      using note_new_claim [OF assms(1), of i] True assms(2)
      by (simp add: claims_address_observed)
  qed
qed

lemma claims_unretained:
  "i \<notin> set (take limit (firsts (ids @ [i])))
     \<Longrightarrow> take limit (firsts (ids @ [i])) = take limit (firsts ids)"
  unfolding take_firsts_snoc by (auto split: if_splits)

lemma observe_identity_tracks:
  assumes records: "records_track L limit ids s"
    and claims: "claims_track (filter (claims_address L) (take limit (firsts ids))) s"
    and "set (agg_local_ipv4_addresses s) = L"
    and r: "remember_packet (identity_class L i) i s = (kept, s')"
    and t: "t = (if kept \<and> identity_class L i = Observed
        then note_third_party_sender (pid_sender_protocol i) (pid_sender_hardware i) s' else s')"
  shows "records_track L limit (ids @ [i]) t
    \<and> claims_track (filter (claims_address L) (take limit (firsts (ids @ [i])))) t
    \<and> agg_malformed t = agg_malformed s \<and> agg_local_mac_address t = agg_local_mac_address s
    \<and> agg_local_ipv4_addresses t = agg_local_ipv4_addresses s"
proof -
  note keep = remember_packet_keeps [OF r]
  have track: "records_track L limit (ids @ [i]) s'"
    and kept: "kept \<longleftrightarrow> i \<in> set (take limit (firsts (ids @ [i])))"
    using remember_packet_tracks [OF records r] by blast+
  have c: "claims_track (filter (claims_address L) (take limit (firsts ids))) s'"
    using claims claims_track_keeps [OF keep(1,2)] by simp
  have "claims_track (filter (claims_address L) (take limit (firsts (ids @ [i])))) t"
  proof (cases kept)
    case True
    then show ?thesis
      using note_retained [OF c, of i] kept keep(5) assms(3) t by simp
  next
    case False
    then show ?thesis using c kept t claims_unretained [of i limit ids] by (simp del: firsts_snoc)
  qed
  then show ?thesis
    using track keep t by (simp add: records_track_claims note_keeps)
qed

lemma observe_tracks:
  assumes "aggregator_tracks M L limit frames s"
  shows "aggregator_tracks M L limit (frames @ [frame]) (observe frame s)"
proof -
  let ?ids = "List.map_filter (frame_identity M L) frames"
  have inv: "agg_local_mac_address s = M" "set (agg_local_ipv4_addresses s) = L"
    "records_track L limit ?ids s"
    "claims_track (filter (claims_address L) (take limit (firsts ?ids))) s"
    "agg_malformed s = counted (List.map_filter frame_malformation frames)"
    using assms by (simp_all add: aggregator_tracks_def Let_def)
  note fold = aggregator_tracks_def Let_def map_filter_snoc
  show ?thesis
  proof (cases "try_parse_arp frame")
    case (Inl reason)
    then have "frame_identity M L frame = None" by (simp add: frame_identity_def)
    moreover have "frame_malformation frame =
        (if frame_is_unrelated_to_address_resolution frame then None else Some reason)"
      using Inl by (simp add: frame_malformation_def)
    ultimately show ?thesis
      using inv Inl
      by (simp add: fold observe_def record_malformed_def counted_snoc records_track_def claims_track_def)
  next
    case (Inr p)
    let ?i = "PacketIdentity (pa_opcode p) (pa_sender_hardware p) (pa_sender_protocol p)
      (pa_target_hardware p) (pa_target_protocol p)"
    have related: "\<not> frame_is_unrelated_to_address_resolution frame"
      using Inr by (rule arp_frame_is_related)
    have quiet: "frame_malformation frame = None" using Inr by (simp add: frame_malformation_def)
    have cls: "classify_passive_arp (pa_opcode p) (pa_sender_hardware p) (pa_sender_protocol p)
        (agg_local_mac_address s) (agg_local_ipv4_addresses s) =
        map_option (identity_class L) (frame_identity M L frame)"
      using classify_frame [of ?i M "agg_local_ipv4_addresses s"] inv(1,2) Inr
      by (simp add: frame_identity_def)
    show ?thesis
    proof (cases "frame_identity M L frame")
      case None
      then show ?thesis
        using inv Inr related quiet cls by (simp add: fold observe_def observe_parsed_def)
    next
      case (Some j)
      then have j: "j = ?i" using Inr by (simp add: frame_identity_def split: if_splits)
      obtain kept s' where r: "remember_packet (identity_class L j) j s = (kept, s')" by fastforce
      have "observe frame s = (if kept \<and> identity_class L j = Observed
          then note_third_party_sender (pid_sender_protocol j) (pid_sender_hardware j) s' else s')"
        using Inr related cls Some r unfolding j by (simp add: observe_def observe_parsed_def Let_def)
      from observe_identity_tracks [OF inv(3,4,2) r this] show ?thesis
        using inv quiet Some by (simp add: fold)
    qed
  qed
qed

lemma aggregator_finish_tracked:
  assumes "aggregator_tracks M L limit frames s"
  shows "aggregator_finish s = expected_outcome M L limit frames"
proof -
  let ?ids = "List.map_filter (frame_identity M L) frames"
  let ?claiming = "filter (claims_address L) (take limit (firsts ?ids))"
  have records: "records_track L limit ?ids s"
    and claims: "claims_track ?claiming s"
    and malformed: "agg_malformed s = counted (List.map_filter frame_malformation frames)"
    using assms by (simp_all add: aggregator_tracks_def Let_def)
  have order: "agg_claim_order s = firsts (map pid_sender_protocol ?claiming)"
    and get: "bt_get (agg_claimants s) p =
        (if p \<in> pid_sender_protocol ` set ?claiming then Some (hardware_of ?claiming p) else None)" for p
    using claims by (simp_all add: claims_track_def)
  have pick: "concat (map (\<lambda>p. case bt_get (agg_claimants s) p of None \<Rightarrow> []
        | Some ms \<Rightarrow> if length ms < 2 then [] else [f p ms]) ps) =
      map (\<lambda>p. f p (hardware_of ?claiming p)) (filter (\<lambda>p. 2 \<le> length (hardware_of ?claiming p)) ps)"
    for f :: "ipv4 \<Rightarrow> mac_address list \<Rightarrow> duplicate_ip_claim" and ps
    by (induction ps) (auto simp: get hardware_of_absent not_le)
  have "mlo_duplicate_ip_claims (aggregator_finish s) = expected_claims L (take limit (firsts ?ids))"
    unfolding aggregator_finish_def order expected_claims_def Let_def
    using pick [where f = "\<lambda>p ms. \<lparr>dic_protocol_address = p, dic_hardware_addresses = ms\<rparr>"] by simp
  then show ?thesis
    using records malformed
    by (simp add: aggregator_finish_def expected_outcome_def records_track_def counted_def comp_def Let_def)
qed

lemma aggregator_tracks_frames:
  "aggregator_tracks M (set ips) limit frames (foldl (\<lambda>s f. observe f s) (aggregator_new M ips limit) frames)"
  by (induction frames rule: rev_induct) (simp_all add: aggregator_new_tracks observe_tracks)

section \<open>Properties of the aggregator\<close>

text \<open>
  C4: over any sequence of received frames the aggregator reports: one record for each of the
  first \<open>limit\<close> distinct packets, in the order they were first seen, with its class and the number
  of its occurrences (saturating at the largest \<^verbatim>\<open>u64\<close>); one duplicate claim for each address that is
  neither local nor zero and that two or more hardware addresses of retained packets claim, in
  the order of the first claim and with the hardware addresses ascending; one warning for each
  reason a frame that carries ARP was malformed, with its count; and the truncation warning exactly
  when some distinct packet was not recorded. Packets this host sent from one of its own addresses
  count nowhere.
\<close>

theorem aggregator_exact:
  "aggregator_finish (foldl (\<lambda>s f. observe f s) (aggregator_new local_mac local_ipv4 limit) frames) =
     expected_outcome local_mac (set local_ipv4) limit frames"
  by (rule aggregator_finish_tracked [OF aggregator_tracks_frames])

section \<open>What a listen reads\<close>

abbreviation observe_all :: "u8 list list \<Rightarrow> passive_arp_aggregator \<Rightarrow> passive_arp_aggregator" where
  "observe_all frames s \<equiv> foldl (\<lambda>s f. observe f s) s frames"

context timed_endpoint
begin

lemma monitor_drain_reads:
  "drain_until_deadline fuel ep ck deadline buf s w = (r, w') \<Longrightarrow>
     \<exists>fs. events w' = events w @ map Read fs \<and> time w \<le> time w'
          \<and> (\<forall>buf' s'. r = Inr (buf', s') \<longrightarrow> s' = observe_all fs s)"
proof (induction fuel arbitrary: buf s w)
  case (Suc fuel)
  obtain n w0 where now: "ck_now ck w = (n, w0)" by (cases "ck_now ck w")
  obtain r1 b1 w1 where recv: "ep_receive ep buf w0 = (r1, b1, w1)" by (cases "ep_receive ep buf w0") auto
  note log = receive_logs [OF recv] now_quiet [OF now] now_between [OF now]
  consider "deadline \<le> n" | e where "\<not> deadline \<le> n" "r1 = Inl e" | "\<not> deadline \<le> n" "r1 = Inr None"
    | k where "\<not> deadline \<le> n" "r1 = Inr (Some k)" "length b1 < k"
    | k where "\<not> deadline \<le> n" "r1 = Inr (Some k)" "\<not> length b1 < k"
    by (metis option.exhaust sum.exhaust)
  then show ?case
  proof cases
    case 4
    then show ?thesis using Suc.prems now recv log by (intro exI [of _ "[take k b1]"]) auto
  next
    case 5
    then have "drain_until_deadline fuel ep ck deadline b1 (observe (take k b1) s) w1 = (r, w')"
      using Suc.prems now recv by simp
    from Suc.IH [OF this] obtain fs where "events w' = events w1 @ map Read fs" "time w1 \<le> time w'"
      "\<forall>buf' s'. r = Inr (buf', s') \<longrightarrow> s' = observe_all fs (observe (take k b1) s)"
      by blast
    then show ?thesis
      using log 5 by (intro exI [of _ "take k b1 # fs"]) auto
  qed (use Suc.prems now recv log in \<open>auto intro: exI [of _ "[]"]\<close>)
qed auto

lemma monitor_poll_reads:
  assumes "poll_loop fuel pm ep ck deadline (\<lambda>(buffer, s). drain_until_deadline dfuel ep ck deadline buffer s)
      (buf, s) w = (r, w')"
  shows "\<exists>fs. events w' = events w @ map Read fs \<and> time w \<le> time w'
          \<and> (\<forall>buf' s'. r = Inr (buf', s') \<longrightarrow> s' = observe_all fs s \<and> deadline \<le> time w')"
proof -
  let ?R = "\<lambda>fs t t'. snd t' = observe_all fs (snd t)"
  have "\<exists>fs. events w' = events w @ map Read fs \<and> time w \<le> time w'
      \<and> (\<forall>t'. r = Inr t' \<longrightarrow> ?R fs (buf, s) t' \<and> deadline \<le> time w')"
    by (rule poll_reads [where R = ?R, OF _ _ _ assms])
      (use monitor_drain_reads in \<open>fastforce split: prod.splits\<close>)+
  then show ?thesis by auto
qed

lemma listen_reads:
  assumes "listen_for_passive_arp fuel dfuel ep ck request w = (r, w')"
  shows "\<exists>fs. events w' = events w @ map Read fs
    \<and> (\<forall>outcome. r = Inr outcome \<longrightarrow>
         outcome = expected_outcome (mlr_local_mac_address request)
           (set (mlr_local_ipv4_addresses request)) monitor_distinct_record_limit fs
         \<and> time w + mlr_timeout request \<le> time w')"
proof (cases "mlr_timeout request = 0")
  case True
  then have "r = Inl (Failed MonitorTimeoutRejected)" "w' = w"
    using assms by (simp_all add: listen_for_passive_arp_def monitor_deadline_def)
  then show ?thesis by (intro exI [of _ "[]"]) simp
next
  case False
  obtain n w1 where now: "ck_now ck w = (n, w1)" by (cases "ck_now ck w")
  note q = now_quiet [OF now] now_between [OF now]
  show ?thesis
  proof (cases "ck_add ck n (mlr_timeout request)")
    case None
    then have "r = Inl (Failed (ScanTimingExceedsLimit MonotonicDeadline))" "w' = w1"
      using assms now False by (simp_all add: listen_for_passive_arp_def monitor_deadline_def ok_or_def)
    then show ?thesis using q by (intro exI [of _ "[]"]) simp
  next
    case (Some deadline)
    obtain r2 w2 where loop: "poll_loop fuel monitor_poll_timeout_milliseconds ep ck deadline
        (\<lambda>(buffer, s). drain_until_deadline dfuel ep ck deadline buffer s)
        (replicate monitor_receive_buffer_length 0, aggregator_new (mlr_local_mac_address request)
           (mlr_local_ipv4_addresses request) monitor_distinct_record_limit) w1 = (r2, w2)"
      by fastforce
    then have r: "w' = w2" "r = (case r2 of Inl e \<Rightarrow> Inl e | Inr (buffer, s) \<Rightarrow> Inr (aggregator_finish s))"
      using assms now False Some
      by (auto simp: listen_for_passive_arp_def monitor_deadline_def ok_or_def split: sum.splits)
    from monitor_poll_reads [OF loop] q add_exact [OF Some] r show ?thesis
      by (auto simp: aggregator_finish_tracked [OF aggregator_tracks_frames] split: sum.splits)
  qed
qed

end

text \<open>A capture complete at the start is read whole when it is reached before the deadline.\<close>

context scripted_capture
begin

lemma monitor_drain_all:
  "\<forall>f \<in> set (pending w). length f \<le> length buf \<Longrightarrow> length (pending w) < fuel \<Longrightarrow> time w < deadline \<Longrightarrow>
     \<exists>buf' w'. drain_until_deadline fuel ep ck deadline buf s w = (Inr (buf', observe_all (pending w) s), w')
       \<and> pending w' = [] \<and> time w' = time w"
proof (induction fuel arbitrary: buf s w)
  case (Suc fuel)
  show ?case
  proof (cases "pending w")
    case Nil
    then show ?thesis
      using receive_none [OF Nil, of buf] receive_instant [of buf w] Suc.prems(3)
      by (auto simp: now_exact)
  next
    case (Cons f fs)
    then obtain b1 w1 where recv: "ep_receive ep buf w = (Inr (Some (length f)), b1, w1)"
      and b1: "take (length f) b1 = f" "length b1 = length buf" "pending w1 = fs"
      using receive_some [OF Cons, of buf] Suc.prems by auto
    have t: "time w1 = time w" using receive_instant [OF recv] .
    have "length f \<le> length b1" using Suc.prems Cons b1 by simp
    moreover have "\<forall>f \<in> set (pending w1). length f \<le> length b1" "length (pending w1) < fuel" "time w1 < deadline"
      using Suc.prems Cons b1 t by auto
    from Suc.IH [OF this, of "observe f s"] obtain b2 w2 where
      "drain_until_deadline fuel ep ck deadline b1 (observe f s) w1 =
         (Inr (b2, observe_all (pending w1) (observe f s)), w2)" "pending w2 = []" "time w2 = time w1"
      by blast
    ultimately show ?thesis using recv b1 t Cons Suc.prems(3) by (simp add: now_exact)
  qed
qed simp

lemma listen_all:
  assumes fits: "\<forall>f \<in> set (pending w). length f \<le> monitor_receive_buffer_length"
    and fuel: "length (pending w) < dfuel" "3 \<le> fuel"
    and timeout: "0 < mlr_timeout request" "mlr_timeout request \<le> duration_max"
    and add: "ck_add ck (time w) (mlr_timeout request) \<noteq> None"
  shows "\<exists>w'. listen_for_passive_arp fuel dfuel ep ck request w =
    (Inr (expected_outcome (mlr_local_mac_address request) (set (mlr_local_ipv4_addresses request))
       monitor_distinct_record_limit (pending w)), w')"
proof -
  obtain deadline where dl: "ck_add ck (time w) (mlr_timeout request) = Some deadline" using add by auto
  have deadline: "deadline = time w + mlr_timeout request" using add_exact [OF dl] .
  let ?buf = "replicate monitor_receive_buffer_length (0 :: u8)"
  let ?agg = "aggregator_new (mlr_local_mac_address request) (mlr_local_ipv4_addresses request)
    monitor_distinct_record_limit"
  let ?drain = "\<lambda>(buffer, s). drain_until_deadline dfuel ep ck deadline buffer s"
  let ?P = "\<lambda>s'. snd s' = observe_all (pending w) ?agg"
  have "\<exists>s' u. ?drain (?buf, ?agg) v = (Inr s', u) \<and> pending u = [] \<and> time u = time v \<and> ?P s'"
    if "pending v = pending w" "time v = time w" "time w < deadline" for v
    using monitor_drain_all [of v ?buf dfuel deadline ?agg] fits fuel(1) that by fastforce
  moreover have "deadline \<le> time w + duration_max" using deadline timeout(2) by simp
  ultimately obtain s' w' where loop: "poll_loop fuel monitor_poll_timeout_milliseconds ep ck deadline ?drain
      (?buf, ?agg) w = (Inr s', w')"
    "if time w < deadline \<and> pending w \<noteq> [] then ?P s' else s' = (?buf, ?agg)"
    using poll_all [where drain = ?drain and P = ?P and s = "(?buf, ?agg)", OF _ dl _ fuel(2),
        of w monitor_poll_timeout_milliseconds] by blast
  then have "snd s' = observe_all (pending w) ?agg"
    using deadline timeout(1) by (auto split: if_splits)
  then show ?thesis
    using loop(1) dl timeout(1)
    by (cases s') (simp add: listen_for_passive_arp_def monitor_deadline_def now_exact
        aggregator_finish_tracked [OF aggregator_tracks_frames])
qed

end

section \<open>The queue endpoint of the source\<close>

text \<open>\<^verbatim>\<open>QueueEndpoint\<close> cuts a frame to the buffer; its fields are those of the scripted world.\<close>

definition qe_send :: "u8 list \<Rightarrow> scripted_world \<Rightarrow> (io_error + unit) \<times> scripted_world" where
  "qe_send frame w =
     (Inr (), w\<lparr>se_sent := se_sent w @ [frame], se_events := se_events w @ [Sent (fc_time w) frame]\<rparr>)"

definition qe_receive ::
    "u8 list \<Rightarrow> scripted_world \<Rightarrow> (stop + nat option) \<times> u8 list \<times> scripted_world" where
  "qe_receive buf w =
     (case se_inbound w of
        [] \<Rightarrow> (Inr None, buf, w)
      | frame # rest \<Rightarrow>
          (let n = min (length frame) (length buf); buf' = write_slice 0 (take n frame) buf in
           (Inr (Some n), buf',
            w\<lparr>se_inbound := rest, se_events := se_events w @ [Read (take n buf')]\<rparr>)))"

definition queue_endpoint :: "scripted_world endpoint" where
  "queue_endpoint = \<lparr>ep_send = qe_send, ep_wait = se_wait, ep_receive = qe_receive\<rparr>"

lemmas queue_clock = scripted.now_quiet scripted.sleep_until_quiet scripted.sleep_for_quiet
  scripted.unreadable_quiet scripted.after_send_quiet scripted.now_exact scripted.unreadable_pending
  scripted.sleep_for_pending scripted.sleep_until_pending scripted.after_send_pending
  scripted.sleep_for_at_most scripted.unreadable_reaches

interpretation queue: scripted_capture queue_endpoint se_inbound fake_scan_clock fc_time se_events
proof (intro scripted_capture.intro frame_source.intro timed_endpoint.intro
    timed_endpoint_axioms.intro scripted_capture_axioms.intro)
  show "monotonic_clock fake_scan_clock fc_time" by (rule scripted.monotonic_clock_axioms)
qed (assumption | rule queue_clock
    | force simp: queue_endpoint_def qe_send_def qe_receive_def se_wait_def write_slice_def Let_def
        split: list.splits)+

section \<open>Properties of a listen\<close>

text \<open>
  C5: whatever the endpoint and the clock do, a listen transmits nothing; and when it returns an
  outcome, its full time has passed and the outcome is the expected one of exactly the frames the
  endpoint handed over, with at most 4096 distinct records.
\<close>

theorem listen_is_passive:
  assumes "timed_endpoint ck time ep events"
    and "listen_for_passive_arp fuel dfuel ep ck request w = (r, w')" and "events w = []"
  shows "sent_of (events w') = []
    \<and> (\<forall>outcome. r = Inr outcome \<longrightarrow>
         time w + mlr_timeout request \<le> time w'
         \<and> outcome = expected_outcome (mlr_local_mac_address request)
             (set (mlr_local_ipv4_addresses request)) 4096 (reads_of (events w')))"
proof -
  from timed_endpoint.listen_reads [OF assms(1,2)] obtain fs where
    "events w' = map Read fs"
    "\<forall>outcome. r = Inr outcome \<longrightarrow>
       outcome = expected_outcome (mlr_local_mac_address request)
         (set (mlr_local_ipv4_addresses request)) monitor_distinct_record_limit fs
       \<and> time w + mlr_timeout request \<le> time w'"
    unfolding assms(3) append_Nil by blast
  then show ?thesis by (simp add: monitor_distinct_record_limit_def)
qed

text \<open>
  Over the queue endpoint and the fake clock of the source a listen always returns: three turns
  of the loop are enough, and its outcome accounts for every frame of the queue.
\<close>

theorem queued_listen_completes:
  assumes "\<forall>f \<in> set (se_inbound w). length f \<le> 4096"
    and "length (se_inbound w) < dfuel" and "3 \<le> fuel"
    and "0 < mlr_timeout request" and "mlr_timeout request \<le> duration_max"
    and "fc_time w + mlr_timeout request \<le> u128_max"
  shows "\<exists>w'. listen_for_passive_arp fuel dfuel queue_endpoint fake_scan_clock request w =
    (Inr (expected_outcome (mlr_local_mac_address request) (set (mlr_local_ipv4_addresses request))
       4096 (se_inbound w)), w')"
proof -
  have "ck_add fake_scan_clock (fc_time w) (mlr_timeout request) \<noteq> None"
    using assms(6) by (simp add: fake_scan_clock_def rust_arith)
  then show ?thesis
    using queue.listen_all [of w dfuel fuel request] assms(1-5)
    by (simp add: monitor_distinct_record_limit_def monitor_receive_buffer_length_def)
qed

definition example_listen :: monitor_listen_request where
  "example_listen = \<lparr>mlr_local_ipv4_addresses = [0x0A000001],
     mlr_local_mac_address = MacAddress 2 0 0 0 0 1, mlr_timeout = from_millis 5\<rparr>"

lemma queued_listen_completes_witness:
  "\<exists>outcome w'. listen_for_passive_arp 3 2 queue_endpoint fake_scan_clock example_listen example_world
     = (Inr outcome, w')"
proof -
  have "\<forall>f \<in> set (se_inbound example_world). length f \<le> 4096"
    using example_fits by (simp add: receive_buffer_length_def)
  moreover have "length (se_inbound example_world) < 2" "fc_time example_world = 0"
    by (simp_all add: example_world_def fc_time_def)
  moreover have "0 < mlr_timeout example_listen" "mlr_timeout example_listen \<le> duration_max"
    "mlr_timeout example_listen \<le> u128_max"
    by (simp_all add: example_listen_def from_millis_def duration_max_def u64_max_def
        nanos_per_sec_def u128_max_def u128_bound_def)
  ultimately show ?thesis
    using queued_listen_completes [of example_world 2 3 example_listen] by simp blast
qed

lemma listen_is_passive_witness:
  "sent_of (se_events (snd (listen_for_passive_arp 3 2 queue_endpoint fake_scan_clock example_listen
     example_world))) = []"
proof -
  obtain r w' where run: "listen_for_passive_arp 3 2 queue_endpoint fake_scan_clock example_listen
      example_world = (r, w')" by fastforce
  have "se_events example_world = []" by (simp add: example_world_def)
  from listen_is_passive [OF queue.timed_endpoint_axioms run this] run show ?thesis by simp
qed

end
