(* ===== verification/Linux_Backend.thy ===== *)
theory Linux_Backend
  imports Linux_Discovery Monitor
begin

text \<open>
  \<^verbatim>\<open>src/linux_scanner.rs\<close>, \<^verbatim>\<open>src/linux_monitor.rs\<close>: a scan, a probe and a listen on a named interface,
  over the packet socket of \<open>Linux_Socket\<close>. The first two arguments are the bounds of the receive
  loop and of the drain, the third that of the repetitions of an interrupted \<^verbatim>\<open>recvfrom\<close>.
\<close>

section \<open>Entry points\<close>

definition transmit_context :: "interface_scan_addresses \<Rightarrow> scan_wire_options \<Rightarrow> scan_transmit_context" where
  "transmit_context addresses wire =
     \<lparr>stc_source_mac_address = isa_source_mac_address addresses,
      stc_interface_ipv4_address = isa_source_ipv4_address addresses, stc_wire = wire\<rparr>"

definition perform_arp_scan ::
    "nat \<Rightarrow> nat \<Rightarrow> nat \<Rightarrow> (f64 \<Rightarrow> nat \<Rightarrow> f64) \<Rightarrow> 'w linux_kernel \<Rightarrow> 'w clock \<Rightarrow> string \<Rightarrow> duration
     \<Rightarrow> duration \<Rightarrow> nat \<Rightarrow> scan_wire_options \<Rightarrow> rate_limited_scan_timing option
     \<Rightarrow> ('w, stop, scan_outcome) op" where
  "perform_arp_scan fuel drain_fuel receive_fuel pw k ck name receive_timeout pacing rounds wire rate_limit =
     op_then (op_map_err Failed (op_lift
       (validate_scan_timing_before_socket pw receive_timeout pacing rounds wire rate_limit))) (\<lambda>_.
     op_then (op_map_err Failed (validated_interface_index_for_arp_scanning k name)) (\<lambda>_.
     op_then (op_map_err Failed (discover_interface_scan_addresses k name)) (\<lambda>addresses.
     op_then (op_map_err Failed (op_lift (full_subnet_scan_plan addresses))) (\<lambda>plan.
     op_then (op_map_err Failed (open_linux_link_layer_endpoint k name wire)) (\<lambda>endpoint.
     collect_scan_over_endpoint fuel drain_fuel pw (linux_endpoint receive_fuel k endpoint) ck
       \<lparr>esr_targets = plan_targets plan, esr_transmit = transmit_context addresses wire,
        esr_acceptance = plan_acceptance plan, esr_receive_timeout = receive_timeout,
        esr_pacing = pacing, esr_scan_round_count = rounds, esr_rate_limit = rate_limit\<rparr>)))))"

definition perform_arp_probe ::
    "nat \<Rightarrow> nat \<Rightarrow> nat \<Rightarrow> (f64 \<Rightarrow> nat \<Rightarrow> f64) \<Rightarrow> 'w linux_kernel \<Rightarrow> 'w clock \<Rightarrow> string \<Rightarrow> ipv4
     \<Rightarrow> duration \<Rightarrow> duration \<Rightarrow> nat \<Rightarrow> scan_wire_options \<Rightarrow> rate_limited_scan_timing option
     \<Rightarrow> ('w, stop, scan_outcome) op" where
  "perform_arp_probe fuel drain_fuel receive_fuel pw k ck name target receive_timeout pacing rounds wire
       rate_limit =
     op_then (op_map_err Failed (op_lift
       (validate_scan_timing_before_socket pw receive_timeout pacing rounds wire rate_limit))) (\<lambda>_.
     op_then (op_map_err Failed (validated_interface_index_for_arp_scanning k name)) (\<lambda>_.
     op_then (op_map_err Failed (discover_interface_scan_addresses k name)) (\<lambda>addresses.
     op_then (op_map_err Failed (op_lift (validate_strict_interior_scan_target_ipv4_address name target
       (isa_source_ipv4_address addresses) (isa_ipv4_netmask addresses)))) (\<lambda>_.
     op_then (op_map_err Failed (open_linux_link_layer_endpoint k name wire)) (\<lambda>endpoint.
     collect_scan_over_endpoint fuel drain_fuel pw (linux_endpoint receive_fuel k endpoint) ck
       \<lparr>esr_targets = [target], esr_transmit = transmit_context addresses wire,
        esr_acceptance = ExactTarget target, esr_receive_timeout = receive_timeout,
        esr_pacing = pacing, esr_scan_round_count = rounds, esr_rate_limit = rate_limit\<rparr>)))))"

definition perform_passive_arp_monitor ::
    "nat \<Rightarrow> nat \<Rightarrow> nat \<Rightarrow> 'w linux_kernel \<Rightarrow> 'w clock \<Rightarrow> string \<Rightarrow> duration
     \<Rightarrow> ('w, stop, monitor_listen_outcome) op" where
  "perform_passive_arp_monitor fuel drain_fuel receive_fuel k ck name timeout =
     op_then (op_map_err Failed (monitor_deadline ck timeout)) (\<lambda>_.
     op_then (op_map_err Failed (discover_monitor_interface_identity k name)) (\<lambda>identity.
     op_then (op_map_err Failed (open_linux_monitor_link_layer_endpoint k name)) (\<lambda>endpoint.
     listen_for_passive_arp fuel drain_fuel (linux_endpoint receive_fuel k endpoint) ck
       \<lparr>mlr_local_ipv4_addresses = mii_ipv4_addresses identity,
        mlr_local_mac_address = mii_source_mac_address identity, mlr_timeout = timeout\<rparr>)))"

section \<open>Whatever the result, only requests are transmitted\<close>

text \<open>Every frame sent is the request of a target, also when the scan fails half-way.\<close>

definition only_requests :: "scan_transmit_context \<Rightarrow> ipv4 set \<Rightarrow> event list \<Rightarrow> bool" where
  "only_requests transmit targets es \<longleftrightarrow> snd ` set (sent_of es) \<subseteq> request_frame transmit ` targets"

lemma only_requests_simps [simp]:
  "only_requests transmit targets []"
  "only_requests transmit targets (es @ map Read fs) = only_requests transmit targets es"
  by (simp_all add: only_requests_def)

lemma only_requests_send:
  "only_requests transmit targets es \<Longrightarrow> target \<in> targets
     \<Longrightarrow> only_requests transmit targets (es @ [Sent t (request_frame transmit target)])"
  by (auto simp: only_requests_def)

context timed_endpoint
begin

lemma sends_only_requests:
  "rate_limited_sends ep ck transmit interval first targets last_send ws w = (r, w') \<Longrightarrow>
     set targets \<subseteq> all \<Longrightarrow> only_requests transmit all (events w) \<Longrightarrow> only_requests transmit all (events w')"
proof (induction targets arbitrary: first last_send ws w)
  case (Cons target targets)
  define wait where "wait =
    (if first then (Inr (), w) else wait_until_interval_after_last_send ck last_send interval w)"
  obtain r0 w0 where wait0: "wait = (r0, w0)" by (cases wait)
  have e0: "events w0 = events w"
    using wait0 wait_interval_events by (auto simp: wait_def split: if_splits)
  have step: "rate_limited_sends ep ck transmit interval first (target # targets) last_send ws w =
    (case wait of
        (Inl e, w) \<Rightarrow> (Inl e, w)
      | (Inr _, w) \<Rightarrow>
          let (ws, w) = send_one_request ep transmit target ws w;
              w = ck_after_send ck w;
              (now, w) = ck_now ck w in
          rate_limited_sends ep ck transmit interval False targets (Some now) ws w)"
    by (simp only: rate_limited_sends.simps(2) wait_def)
  show ?case
  proof (cases r0)
    case (Inl e)
    then show ?thesis using Cons.prems step wait0 e0 by simp
  next
    case (Inr x)
    obtain ws1 w1 where one: "send_one_request ep transmit target ws w0 = (ws1, w1)" by fastforce
    obtain t where t: "events w1 = events w0 @ [Sent t (request_frame transmit target)]"
      using send_one_logs [OF one] by auto
    obtain n w3 where now: "ck_now ck (ck_after_send ck w1) = (n, w3)" by fastforce
    have "only_requests transmit all (events w3)"
      using only_requests_send [OF Cons.prems(3), of target t] Cons.prems(2) t e0
        now_quiet [OF now] after_send_quiet [of w1] by simp
    moreover have "rate_limited_sends ep ck transmit interval False targets (Some n) ws1 w3 = (r, w')"
      using Cons.prems(1) step wait0 Inr one now by (simp add: Let_def)
    ultimately show ?thesis using Cons.IH Cons.prems(2) by simp
  qed
qed simp

lemma collect_only_requests:
  assumes "collect_replies_until_deadline fuel dfuel ep ck deadline acceptance buf ws w = (r, w')"
    and "only_requests transmit all (events w)"
  shows "only_requests transmit all (events w')"
  using collect_reads assms by (fastforce simp: collect_replies_until_deadline_def)

lemma round_only_requests:
  assumes run: "rate_limited_round fuel dfuel pw ep ck request rate i unanswered last_send buf acc w = (r, w')"
    and "set unanswered \<subseteq> all" and "only_requests (esr_transmit request) all (events w)"
  shows "only_requests (esr_transmit request) all (events w')"
proof -
  obtain rs w1 where sends: "rate_limited_sends ep ck (esr_transmit request) (srl_interval rate) True
      unanswered last_send (snd acc) w = (rs, w1)" by fastforce
  note s = sends_only_requests [OF sends assms(2,3)]
  consider e where "rs = Inl e" | l ws1 e where "rs = Inr (l, ws1)"
      "retry_receive_window pw (esr_receive_timeout request) (srl_backoff_factor rate) i = Inl e"
    | l ws1 x where "rs = Inr (l, ws1)"
      "retry_receive_window pw (esr_receive_timeout request) (srl_backoff_factor rate) i = Inr x"
    by (metis sum.exhaust prod.exhaust)
  then show ?thesis
  proof cases
    case (3 l ws1 x)
    obtain rd w2 where dl: "monotonic_deadline ck x w1 = (rd, w2)" by fastforce
    then have s2: "only_requests (esr_transmit request) all (events w2)"
      using monotonic_deadline_events [OF dl] s by simp
    show ?thesis
    proof (cases rd)
      case (Inr deadline)
      obtain rc w3 where col: "collect_replies_until_deadline fuel dfuel ep ck deadline
          (esr_acceptance request) buf ws1 w2 = (rc, w3)" by fastforce
      have "w' = w3"
        using run sends 3 dl Inr col by (auto simp: rate_limited_round_def split: sum.splits)
      then show ?thesis using collect_only_requests [OF col s2] by simp
    qed (use run sends 3 dl s2 in \<open>auto simp: rate_limited_round_def\<close>)
  qed (use run sends s in \<open>auto simp: rate_limited_round_def\<close>)
qed

lemma rounds_only_requests:
  "rate_limited_rounds left fuel dfuel pw ep ck request rate i unanswered last_send buf acc w = (r, w') \<Longrightarrow>
     set unanswered \<subseteq> all \<Longrightarrow> only_requests (esr_transmit request) all (events w) \<Longrightarrow>
     only_requests (esr_transmit request) all (events w')"
proof (induction left arbitrary: i unanswered last_send buf acc w)
  case (Suc left)
  obtain rr w1 where round:
    "rate_limited_round fuel dfuel pw ep ck request rate i unanswered last_send buf acc w = (rr, w1)"
    by fastforce
  note s = round_only_requests [OF round Suc.prems(2,3)]
  consider "unanswered = []" | e where "unanswered \<noteq> []" "rr = Inl e"
    | l b a where "unanswered \<noteq> []" "rr = Inr (l, b, a)"
    by (metis sum.exhaust prod.exhaust)
  then show ?case
  proof cases
    case (3 l b a)
    let ?left = "filter (\<lambda>t. bt_get (fst a) t = None) unanswered"
    obtain rw w2 where nxt: "wait_until_next_round ck l (srl_interval rate) (esr_pacing request) w1 = (rw, w2)"
      by fastforce
    then have s2: "only_requests (esr_transmit request) all (events w2)"
      using wait_round_events [OF nxt] s by simp
    have sub: "set ?left \<subseteq> all" using Suc.prems(2) by auto
    show ?thesis
      using Suc.prems(1) round 3 nxt s s2 Suc.IH [OF _ sub s] Suc.IH [OF _ sub s2]
      by (auto simp: Let_def split: if_splits sum.splits)
  qed (use Suc.prems round s in auto)
qed simp

lemma burst_only_requests:
  assumes "run_address_resolution_request_rounds ep ck targets transmit n pacing ws w = (ws', w')"
    and "only_requests transmit (set targets) (events w)"
  shows "only_requests transmit (set targets) (events w')"
proof -
  let ?sent = "\<lambda>v. map snd (sent_of (events v))"
  have "?sent w' = ?sent w @ concat (replicate n (map (request_frame transmit) targets))"
    using request_rounds_log [OF assms(1) [unfolded run_address_resolution_request_rounds_def]] by blast
  then have "set (?sent w') \<subseteq> set (?sent w) \<union> request_frame transmit ` set targets" by auto
  then show ?thesis using assms(2) by (auto simp: only_requests_def)
qed

lemma scan_only_requests:
  assumes run: "collect_scan_over_endpoint fuel dfuel pw ep ck request w = (r, w')"
    and pre: "only_requests (esr_transmit request) (set (esr_targets request)) (events w)"
  shows "only_requests (esr_transmit request) (set (esr_targets request)) (events w')"
proof -
  let ?Q = "\<lambda>v. only_requests (esr_transmit request) (set (esr_targets request)) (events v)"
  let ?buf = "replicate receive_buffer_length 0 :: u8 list"
  have rated: "?Q v" if "run_rate_limited_rounds fuel dfuel pw ep ck request rate ?buf [] w = (q, v)" for rate q v
  proof (cases "esr_targets request = []")
    case True
    obtain rd w2 where dl: "monotonic_deadline ck (esr_receive_timeout request) w = (rd, w2)" by fastforce
    show ?thesis
    proof (cases rd)
      case (Inr deadline)
      obtain rc w3 where col: "collect_replies_until_deadline fuel dfuel ep ck deadline
          (esr_acceptance request) ?buf [] w2 = (rc, w3)" by fastforce
      have "v = w3"
        using that True dl Inr col by (auto simp: run_rate_limited_rounds_def split: sum.splits)
      then show ?thesis
        using collect_only_requests [OF col] monotonic_deadline_events [OF dl] pre by simp
    qed (use that True dl monotonic_deadline_events [OF dl] pre in \<open>auto simp: run_rate_limited_rounds_def\<close>)
  next
    case False
    then show ?thesis
      using that rounds_only_requests [OF _ order_refl pre] by (simp add: run_rate_limited_rounds_def)
  qed
  obtain ws w1 where sends: "run_address_resolution_request_rounds ep ck (esr_targets request)
      (esr_transmit request) (esr_scan_round_count request) (esr_pacing request) [] w = (ws, w1)" by fastforce
  obtain n w2 where now: "ck_now ck w1 = (n, w2)" by fastforce
  have burst: "?Q w2" using burst_only_requests [OF sends pre] now_quiet [OF now] by simp
  have col: "?Q v" if "collect_replies_until_deadline fuel dfuel ep ck deadline
      (esr_acceptance request) ?buf ws w2 = (q, v)" for deadline q v
    using collect_only_requests [OF that burst] .
  define tail where "tail q = (case fst q of Inl s \<Rightarrow> (Inl s, snd q) | Inr acc \<Rightarrow> (Inr (hosts_outcome acc), snd q))"
    for q :: "(stop + hosts \<times> warnings) \<times> 'w"
  have tail: "snd (tail q) = snd q" for q by (simp add: tail_def split: sum.splits)
  have burst_phase: "?Q (snd (case ck_add ck n (esr_receive_timeout request) of
        None \<Rightarrow> (Inl (Failed (ScanTimingExceedsLimit MonotonicDeadline)), w2)
      | Some deadline \<Rightarrow> (case collect_replies_until_deadline fuel dfuel ep ck deadline
            (esr_acceptance request) ?buf ws w2 of
          (Inl s, w) \<Rightarrow> (Inl s, w) | (Inr (buffer, acc), w) \<Rightarrow> (Inr acc, w))))"
    using burst col by (auto split: option.split prod.split sum.split)
  show ?thesis
  proof (cases "and_then (validate_ieee_8021q_tag_stack (stc_wire (esr_transmit request))) (\<lambda>_.
      and_then (validate_ieee_8023_mac_client_data (stc_wire (esr_transmit request))) (\<lambda>_.
      validate_scan_timing_before_socket pw (esr_receive_timeout request) (esr_pacing request)
        (esr_scan_round_count request) (stc_wire (esr_transmit request)) (esr_rate_limit request)))")
    case (Inl e)
    then show ?thesis using run pre by (simp add: collect_scan_over_endpoint_def)
  next
    case (Inr scheduled)
    show ?thesis
    proof (cases scheduled)
      case None
      have "w' = snd (tail (case ck_add ck n (esr_receive_timeout request) of
          None \<Rightarrow> (Inl (Failed (ScanTimingExceedsLimit MonotonicDeadline)), w2)
        | Some deadline \<Rightarrow> (case collect_replies_until_deadline fuel dfuel ep ck deadline
              (esr_acceptance request) ?buf ws w2 of
            (Inl s, w) \<Rightarrow> (Inl s, w) | (Inr (buffer, acc), w) \<Rightarrow> (Inr acc, w))))"
        using run Inr None sends now
        by (auto simp: collect_scan_over_endpoint_def tail_def split: prod.splits sum.splits option.splits)
      then show ?thesis using burst_phase by (simp only: tail)
    next
      case (Some rate)
      obtain q v where q: "run_rate_limited_rounds fuel dfuel pw ep ck request rate ?buf [] w = (q, v)"
        by fastforce
      then have "w' = v"
        using run Inr Some by (auto simp: collect_scan_over_endpoint_def split: sum.splits)
      then show ?thesis using rated [OF q] by simp
    qed
  qed
qed

end

section \<open>The way to the engine is quiet\<close>

lemma op_then_quiet:
  assumes "op_then m f w = (r, w')" and "quiet_call time events m"
  obtains "events w' = events w" "time w \<le> time w'" "\<exists>e. r = Inl e"
  | x w1 where "m w = (Inr x, w1)" "events w1 = events w" "time w \<le> time w1" "f x w1 = (r, w')"
proof -
  obtain q w1 where m: "m w = (q, w1)" by fastforce
  then have "events w1 = events w" "time w \<le> time w1"
    using assms(2) unfolding quiet_call_def by blast+
  then show thesis
    using that m assms(1) by (cases q) (auto simp: op_then_def)
qed

lemma op_map_lift [simp]:
  "op_then (op_map_err g (op_lift r)) f w =
     (case r of Inl e \<Rightarrow> (Inl (g e), w) | Inr x \<Rightarrow> f x w)"
  by (simp add: op_then_def op_map_err_def op_lift_def split: sum.split)

text \<open>The addresses that a host at rest reports for an interface.\<close>

definition addresses_of :: "(nat \<Rightarrow> string \<Rightarrow> io_error + u8 list) \<Rightarrow> string \<Rightarrow> interface_scan_addresses" where
  "addresses_of ioctl name =
     (let c = candidate_of ioctl (name, 0) in
      \<lparr>isa_source_ipv4_address = cand_source_ipv4_address c,
       isa_ipv4_netmask = cand_ipv4_netmask c, isa_source_mac_address = cand_source_mac_address c\<rparr>)"

lemma prepared_interface:
  assumes "quiescent_kernel k ioctl indexes pairs"
    and "validated_interface_index_for_arp_scanning k name w = (Inr i, w1)"
    and "discover_interface_scan_addresses k name w1 = (Inr addresses, w2)"
  shows "usable_interface ioctl name \<and> indexes name = Inr i \<and> w1 = w \<and> w2 = w
    \<and> addresses = addresses_of ioctl name"
proof -
  have ok: "validate_interface_name_for_linux_packet_socket name = Ok ()"
    using assms(2) by (auto simp: validated_interface_index_for_arp_scanning_def op_then_eq_Ok op_lift_def)
  note 1 = assms(2) [unfolded validated_index_quiescent [OF assms(1) ok]]
  obtain s where "lk_open_inet_datagram_socket k w1 = (Inr s, w1)"
    by (rule open_inet_quiescent [OF assms(1)])
  then have "addresses = addresses_of ioctl name"
    using assms(3)
    by (auto simp: discover_interface_scan_addresses_def op_then_eq_Ok explicit_reads [OF assms(1) ok]
        ok op_lift_def op_return_def addresses_of_def candidate_of_def Let_def)
  moreover have "w2 = w1 \<and> usable_interface ioctl name"
    using assms(3) discover_quiescent [OF assms(1) ok, of w1 w2] 1 ok unfolding usable_interface_iff by blast
  ultimately show ?thesis using 1 by simp
qed

lemma usable_prepares:
  assumes q: "quiescent_kernel k ioctl indexes pairs"
    and "usable_interface ioctl name" and "indexes name = Inr i"
  shows "validated_interface_index_for_arp_scanning k name w = (Inr i, w)"
    and "discover_interface_scan_addresses k name w = (Inr (addresses_of ioctl name), w)"
proof -
  note ok = assms(2) [unfolded usable_interface_iff, THEN conjunct1]
  show index: "validated_interface_index_for_arp_scanning k name w = (Inr i, w)"
    unfolding validated_index_quiescent [OF q ok]
    using assms by (simp add: usable_interface_iff)
  obtain x where x: "discover_interface_scan_addresses k name w = (Inr x, w)"
    using discover_quiescent [OF q ok] assms(2) unfolding usable_interface_iff by blast
  with prepared_interface [OF q index x]
  show "discover_interface_scan_addresses k name w = (Inr (addresses_of ioctl name), w)"
    by simp
qed

lemma usable_opens:
  assumes "quiescent_kernel k ioctl indexes pairs" "usable_interface ioctl name"
    and "indexes name = Inr i" "i \<le> c_int_max"
    and socket: "\<And>p v. lk_open_packet_raw_socket k p v = (Inr s, v)" "\<And>a v. lk_bind k s a v = (Inr (), v)"
  shows "\<exists>e. open_endpoint_with_protocols k name p q w = (Inr e, w)"
  using assms(4)
  by (simp add: open_endpoint_with_protocols_def op_then_eq_Ok usable_prepares [OF assms(1-3)]
      open_raw_packet_socket_def socket bind_packet_socket_to_interface_def
      link_layer_broadcast_destination_for_scan_def op_lift_def op_return_def)

text \<open>
  What a scan or a probe does once the schedule is accepted: it fails without a transmission, or it
  runs the engine over an endpoint opened on a usable interface.
\<close>

lemma engine_reached:
  assumes k: "kernel_logs k time events" and q: "quiescent_kernel k ioctl indexes pairs"
    and run: "op_then (op_map_err Failed (validated_interface_index_for_arp_scanning k name)) (\<lambda>_.
       op_then (op_map_err Failed (discover_interface_scan_addresses k name)) (\<lambda>addresses.
       op_then (op_map_err Failed (op_lift (check addresses))) (\<lambda>plan.
       op_then (op_map_err Failed (open_linux_link_layer_endpoint k name wire)) (\<lambda>endpoint.
       engine addresses plan endpoint)))) w = (r, w')"
  obtains "events w' = events w" "\<exists>e. r = Inl e"
  | plan endpoint w1 where "usable_interface ioctl name" "check (addresses_of ioctl name) = Ok plan"
      "events w1 = events w" "time w \<le> time w1"
      "engine (addresses_of ioctl name) plan endpoint w1 = (r, w')"
proof -
  have quiets: "quiet_call time events (op_map_err Failed (validated_interface_index_for_arp_scanning k name))"
    "quiet_call time events (op_map_err Failed (discover_interface_scan_addresses k name))"
    "quiet_call time events (op_map_err Failed (open_linux_link_layer_endpoint k name wire))"
    by (intro quiet k)+
  from run quiets(1) show thesis
  proof (cases rule: op_then_quiet)
    case 1
    then show thesis using that(1) by blast
  next
    case (2 i w1)
    from 2(4) quiets(2) show thesis
    proof (cases rule: op_then_quiet)
      case 1
      then show thesis using that(1) 2(2) by simp
    next
      case (2 addresses w2)
      then have prep: "usable_interface ioctl name" "w2 = w" "addresses = addresses_of ioctl name"
        using prepared_interface [OF q, of name w i w1 addresses w2] \<open>op_map_err _ _ w = (Inr i, w1)\<close>
        by simp_all
      show thesis
      proof (cases "check addresses")
        case (Inl e)
        then have "r = Inl (Failed e)" "w' = w" using 2(4) prep by simp_all
        then show thesis using that(1) by simp
      next
        case (Inr plan)
        then have "op_then (op_map_err Failed (open_linux_link_layer_endpoint k name wire))
            (\<lambda>endpoint. engine addresses plan endpoint) w = (r, w')"
          using 2(4) prep by simp
        from this quiets(3) show thesis
        proof (cases rule: op_then_quiet)
          case 1
          then show thesis using that(1) by blast
        next
          case (2 endpoint w3)
          then show thesis using that(2) prep Inr by blast
        qed
      qed
    qed
  qed
qed

section \<open>An example host\<close>

text \<open>
  A host with a loopback interface and \<^verbatim>\<open>eth0\<close>, 10.0.0.1/29, over the scripted world: its packet
  socket captures the frames of the script, and the flag of the script says whether a signal is still
  to arrive.
\<close>

definition no_such_device :: io_error where
  "no_such_device = \<lparr>io_kind = OtherKind, io_errno = Some 19, io_text = ''No such device (os error 19)''\<rparr>"

definition would_block :: io_error where
  "would_block = \<lparr>io_kind = OtherKind, io_errno = Some 11,
     io_text = ''Resource temporarily unavailable (os error 11)''\<rparr>"

definition interrupted_call :: io_error where
  "interrupted_call = \<lparr>io_kind = Interrupted, io_errno = Some 4,
     io_text = ''Interrupted system call (os error 4)''\<rparr>"

definition captured :: "scripted_world \<Rightarrow> u8 list list" where
  "captured w = filter (\<lambda>f. f \<noteq> []) (se_inbound w)"

definition example_ioctl :: "nat \<Rightarrow> string \<Rightarrow> io_error + u8 list" where
  "example_ioctl request name =
     (if name = ''eth0'' then
        (if request = siocgifflags_request then Inr [0x43, 0x10]
         else if request = siocgifaddr_request then Inr [2, 0, 0, 0, 10, 0, 0, 1]
         else if request = siocgifnetmask_request then Inr [2, 0, 0, 0, 255, 255, 255, 248]
         else Inr [1, 0, 2, 0, 0, 0, 0, 1])
      else if name = ''lo'' then
        (if request = siocgifflags_request then Inr [0x49, 0]
         else Inr [2, 0, 0, 0, 127, 0, 0, 1])
      else Inl no_such_device)"

definition example_indexes :: "string \<Rightarrow> io_error + nat" where
  "example_indexes name =
     (if name = ''lo'' then Inr 1 else if name = ''eth0'' then Inr 2 else Inl no_such_device)"

definition example_kernel :: "scripted_world linux_kernel" where
  "example_kernel =
     \<lparr>lk_interface_index = (\<lambda>name w. (example_indexes name, w)),
      lk_open_inet_datagram_socket = (\<lambda>w. (Inr 3, w)),
      lk_ioctl_ifreq = (\<lambda>s c r w. (example_ioctl c (c_string r), w)),
      lk_if_nameindex = (\<lambda>w. (Inr [(''lo'', 1), (''eth0'', 2)], w)),
      lk_list_interface_ipv4_addresses =
        (\<lambda>w. (Inr [(''lo'', 0x7F000001), (''eth0'', 0x0A000001), (''eth0'', 0x0A000006)], w)),
      lk_open_packet_raw_socket = (\<lambda>p w. (Inr 4, w)),
      lk_bind = (\<lambda>s a w. (Inr (), w)),
      lk_sendto = (\<lambda>s f a w. (Inr (length f), snd (qe_send f w))),
      lk_recvfrom = (\<lambda>s n w.
        if se_fail_sends w then (Inl interrupted_call, w\<lparr>se_fail_sends := False\<rparr>)
        else (case captured w of
          [] \<Rightarrow> (Inl would_block, w)
        | frame # rest \<Rightarrow> (Inr (take n frame),
            w\<lparr>se_inbound := rest,
              se_events := se_events w @ (if take n frame = [] then [] else [Read (take n frame)])\<rparr>))),
      lk_poll = (\<lambda>s t w. (Inr (if captured w = [] then 0 else 1), w))\<rparr>"

lemma example_kernel_quiescent:
  "quiescent_kernel example_kernel example_ioctl example_indexes [(''lo'', 1), (''eth0'', 2)]"
  by (simp add: quiescent_kernel_def example_kernel_def)

lemma example_kernel_logs: "kernel_logs example_kernel fc_time se_events"
proof -
  have "fc_time (w\<lparr>se_fail_sends := b\<rparr>) = fc_time w" for w b by (simp add: fc_time_def)
  then show ?thesis
    by (auto simp: kernel_logs_def quiet_call_def example_kernel_def qe_send_def split: list.splits if_splits)
qed

lemma example_clock_logs: "clock_logs fake_scan_clock fc_time se_events"
proof -
  have "monotonic_clock fake_scan_clock fc_time" by (rule scripted.monotonic_clock_axioms)
  then show ?thesis
    using scripted.now_quiet scripted.sleep_until_quiet scripted.sleep_for_quiet scripted.unreadable_quiet
      scripted.after_send_quiet unfolding clock_logs_def by blast
qed

lemma captured_tail:
  assumes "captured w = f # fs"
  shows "captured (w\<lparr>se_inbound := fs\<rparr>) = fs" "captured (w\<lparr>se_inbound := fs, se_events := es\<rparr>) = fs"
proof -
  let ?P = "\<lambda>f :: u8 list. f \<noteq> []"
  have "filter ?P (f # fs) = filter ?P (filter ?P (se_inbound w))"
    using assms by (simp only: captured_def)
  also have "\<dots> = filter ?P (se_inbound w)" by simp
  also have "\<dots> = f # fs" using assms by (simp only: captured_def)
  finally have "filter ?P (f # fs) = f # fs" .
  moreover have "f \<in> set (captured w)" using assms by simp
  then have "f \<noteq> []" by (simp add: captured_def)
  ultimately have "filter ?P fs = fs" by simp
  then show "captured (w\<lparr>se_inbound := fs\<rparr>) = fs" "captured (w\<lparr>se_inbound := fs, se_events := es\<rparr>) = fs"
    by (simp_all add: captured_def)
qed

lemma example_recvfrom:
  "recvfrom_documented example_kernel s captured (\<lambda>w. if se_fail_sends w then 1 else 0)"
  unfolding recvfrom_documented_def
proof (intro allI)
  fix w n
  show "\<exists>r w'. lk_recvfrom example_kernel s n w = (r, w') \<and>
      (if (0 :: nat) < (if se_fail_sends w then 1 else 0)
       then (\<exists>e. r = Inl e \<and> io_kind e = Interrupted \<and> io_errno e = Some 4)
         \<and> (if se_fail_sends w' then 1 else 0) < (if se_fail_sends w then (1 :: nat) else 0)
         \<and> captured w' = captured w
       else (if se_fail_sends w' then 1 else 0) = (0 :: nat) \<and> (case captured w of
            [] \<Rightarrow> (\<exists>e. r = Inl e \<and> io_errno e = Some errno_eagain) \<and> captured w' = []
          | f # fs \<Rightarrow> r = Inr (take n f) \<and> captured w' = fs))"
  proof (cases "se_fail_sends w")
    case True
    then show ?thesis by (simp add: example_kernel_def interrupted_call_def captured_def)
  next
    case False
    then show ?thesis
      by (cases "captured w")
        (simp_all add: example_kernel_def would_block_def errno_eagain_def captured_tail)
  qed
qed

lemma example_mac: "\<not> is_zero (from_octets [2, 0, 0, 0, 0, 1])"
  by (simp add: is_zero_def from_octets_def numeral_eq_Suc)

lemma example_usable: "usable_interface example_ioctl ''eth0''" "\<not> usable_interface example_ioctl ''lo''"
  by (simp_all add: usable_interface_def example_ioctl_def siocgifflags_request_def siocgifaddr_request_def
      siocgifnetmask_request_def siocgifhwaddr_request_def ifru_flags_def sa_family_def sa_data_def
      interface_flags_allow_arp_scanning_def interface_flag_up_def interface_flag_loopback_def
      interface_flag_no_arp_def u16_from_be_def example_mac)

lemma interface_selection_exact_witness:
  "resolve_scan_interface_name example_kernel None example_world = (Inr ''eth0'', example_world)
   \<and> resolve_scan_interface_name example_kernel (Some ''eth0'') example_world = (Inr ''eth0'', example_world)"
  using interface_selection_exact [OF example_kernel_quiescent, of example_world "''eth0''"]
  by (simp add: by_index_def example_usable example_indexes_def)

definition example_endpoint :: linux_link_layer_endpoint where
  "example_endpoint =
     \<lparr>lle_packet_socket = 4,
      lle_link_layer_destination =
        \<lparr>sll_socket_address_family = 17, sll_link_layer_protocol = 0x0608, sll_interface_index = 2,
         sll_hardware_type = 1, sll_packet_type = 0, sll_hardware_address_length = 6,
         sll_hardware_address = replicate 6 0xFF @ replicate 2 0\<rparr>\<rparr>"

lemma captured_not_empty: "[] \<notin> set (captured w)"
  by (simp add: captured_def)

text \<open>A probe reports at most its one target.\<close>

lemma accepted_target:
  "(ip, mac) \<in> set (accepted_replies (ExactTarget target) frames) \<Longrightarrow> ip = target"
  by (induction frames) (auto simp: accepted_reply_def split: option.splits sum.splits if_splits)

lemma single_host:
  assumes "bt_wf m" and "bt_get m = map_of (accepted_replies (ExactTarget target) frames)"
  shows "m = (case map_of (accepted_replies (ExactTarget target) frames) target of
    None \<Rightarrow> [] | Some mac \<Rightarrow> [(target, mac)])"
proof -
  have get: "map_of m = map_of (accepted_replies (ExactTarget target) frames)"
    using assms by (simp add: bt_get_map_of)
  have keys: "ip = target" if "(ip, mac) \<in> set m" for ip mac
  proof -
    have "map_of m ip \<noteq> None" using that by (metis weak_map_of_SomeI option.distinct(1))
    then obtain mac' where "map_of (accepted_replies (ExactTarget target) frames) ip = Some mac'"
      unfolding get by blast
    then show ?thesis using accepted_target map_of_SomeD by metis
  qed
  have sorted: "sorted_wrt (<) (map fst m)" using assms(1) by (simp add: bt_wf_def)
  show ?thesis
  proof (cases m)
    case (Cons p rest)
    obtain mac where p: "p = (target, mac)" using keys [of "fst p" "snd p"] Cons by (cases p) auto
    have "rest = []" using keys sorted Cons p by (cases rest) force+
    moreover have "map_of (accepted_replies (ExactTarget target) frames) target = Some mac"
      using fun_cong [OF get, of target] Cons p by simp
    ultimately show ?thesis using Cons p by simp
  qed (use fun_cong [OF get, of target] in simp)
qed

lemma scan_engine:
  assumes "kernel_logs k time events" and "quiescent_kernel k ioctl indexes pairs"
    and "perform_arp_scan fuel dfuel rfuel pw k ck name timeout pacing rounds wire rate w = (r, w')"
  obtains "events w' = events w" "\<exists>e. r = Inl e"
  | s plan endpoint w1 where "usable_interface ioctl name"
      "validate_scan_timing_before_socket pw timeout pacing rounds wire rate = Ok s"
      "full_subnet_scan_plan (addresses_of ioctl name) = Ok plan" "events w1 = events w"
      "collect_scan_over_endpoint fuel dfuel pw (linux_endpoint rfuel k endpoint) ck
       \<lparr>esr_targets = plan_targets plan, esr_transmit = transmit_context (addresses_of ioctl name) wire,
        esr_acceptance = plan_acceptance plan, esr_receive_timeout = timeout,
        esr_pacing = pacing, esr_scan_round_count = rounds, esr_rate_limit = rate\<rparr> w1 = (r, w')"
proof (cases "validate_scan_timing_before_socket pw timeout pacing rounds wire rate")
  case (Inl e)
  then have "r = Inl (Failed e)" "w' = w" using assms(3) by (simp_all add: perform_arp_scan_def)
  then show thesis using that(1) by simp
next
  case (Inr s)
  then have "op_then (op_map_err Failed (validated_interface_index_for_arp_scanning k name)) (\<lambda>_.
     op_then (op_map_err Failed (discover_interface_scan_addresses k name)) (\<lambda>addresses.
     op_then (op_map_err Failed (op_lift (full_subnet_scan_plan addresses))) (\<lambda>plan.
     op_then (op_map_err Failed (open_linux_link_layer_endpoint k name wire)) (\<lambda>endpoint.
     collect_scan_over_endpoint fuel dfuel pw (linux_endpoint rfuel k endpoint) ck
       \<lparr>esr_targets = plan_targets plan, esr_transmit = transmit_context addresses wire,
        esr_acceptance = plan_acceptance plan, esr_receive_timeout = timeout,
        esr_pacing = pacing, esr_scan_round_count = rounds, esr_rate_limit = rate\<rparr>)))) w = (r, w')"
    using assms(3) by (simp add: perform_arp_scan_def)
  from engine_reached [OF assms(1,2) this] show thesis
    by cases (use that Inr in blast)+
qed

lemma deadline_quiet:
  "clock_logs ck time events \<Longrightarrow> quiet_call time events (monitor_deadline ck timeout)"
  by (auto simp: quiet_call_def clock_logs_def monitor_deadline_def monotonic_clock_def split: prod.splits)
    (meson le_trans)

lemma listen_engine:
  assumes "kernel_logs k time events" and "clock_logs ck time events"
    and "perform_passive_arp_monitor fuel dfuel rfuel k ck name timeout w = (r, w')"
  obtains "events w' = events w" "time w \<le> time w'" "\<exists>e. r = Inl e"
  | identity endpoint w1 w2 w3 where
      "discover_monitor_interface_identity k name w1 = (Inr identity, w2)"
      "events w3 = events w" "time w \<le> time w3"
      "listen_for_passive_arp fuel dfuel (linux_endpoint rfuel k endpoint) ck
        \<lparr>mlr_local_ipv4_addresses = mii_ipv4_addresses identity,
         mlr_local_mac_address = mii_source_mac_address identity, mlr_timeout = timeout\<rparr> w3 = (r, w')"
proof -
  have quiets: "quiet_call time events (op_map_err Failed (monitor_deadline ck timeout))"
    "quiet_call time events (op_map_err Failed (discover_monitor_interface_identity k name))"
    "quiet_call time events (op_map_err Failed (open_linux_monitor_link_layer_endpoint k name))"
    by (intro quiet assms(1,2) deadline_quiet)+
  from assms(3) [unfolded perform_passive_arp_monitor_def] quiets(1) show thesis
  proof (cases rule: op_then_quiet)
    case (2 d w1)
    note w1 = 2(2,3)
    from 2(4) quiets(2) show thesis
    proof (cases rule: op_then_quiet)
      case (2 identity w2)
      note w2 = 2(1-3)
      from 2(4) quiets(3) show thesis
        by (cases rule: op_then_quiet) (use that w1 w2 in \<open>fastforce\<close>)+
    qed (use that(1) w1 in fastforce)
  qed (use that(1) in blast)
qed

text \<open>A listen appends to the log only frames that it read.\<close>

lemma listen_log:
  assumes "kernel_logs k time events" and "clock_logs ck time events"
    and "perform_passive_arp_monitor fuel dfuel rfuel k ck name timeout w = (r, w')"
  shows "\<exists>fs. events w' = events w @ map Read fs"
  using assms
proof (cases rule: listen_engine)
  case (2 identity endpoint w1 w2 w3)
  from timed_endpoint.listen_reads [OF linux_timed_endpoint [OF assms(1,2)] 2(4)] 2(2) show ?thesis by auto
qed (auto intro: exI [of _ "[]"])

lemma monitor_identity_quiescent:
  assumes "quiescent_kernel k ioctl indexes pairs"
    and "\<forall>v. lk_list_interface_ipv4_addresses k v = (Inr records, v)"
    and "discover_monitor_interface_identity k name w = (Inr identity, w')"
  shows "usable_interface ioctl name
    \<and> mii_source_mac_address identity = isa_source_mac_address (addresses_of ioctl name)
    \<and> set (mii_ipv4_addresses identity) =
        insert (isa_source_ipv4_address (addresses_of ioctl name)) {ip. (name, ip) \<in> set records}"
proof -
  obtain i w1 primary w2 where "validated_interface_index_for_arp_scanning k name w = (Inr i, w1)"
    and "discover_interface_scan_addresses k name w1 = (Inr primary, w2)"
    and identity: "identity = identity_from_addresses
       (configured_ipv4_addresses name (isa_source_ipv4_address primary) records)
       (isa_source_mac_address primary)"
    using assms(2,3)
    by (auto simp: discover_monitor_interface_identity_def op_then_eq_Ok op_lift_def Let_def split: if_splits)
  from prepared_interface [OF assms(1) this(1,2)] have "usable_interface ioctl name"
    "primary = addresses_of ioctl name" by simp_all
  moreover have "snd ` set (filter (\<lambda>r. fst r = name) records) = {ip. (name, ip) \<in> set records}" by force
  ultimately show ?thesis
    unfolding identity
    by (simp add: identity_from_addresses_def sorted_unique_ipv4_addresses_def bset_of_list
        configured_ipv4_addresses_def)
qed

section \<open>Properties\<close>

text \<open>
  C6: on a host at rest, a burst scan of an interface that returns an outcome found the interface
  usable and its netmask to have a host range; it transmitted, round after round, the request of each
  address of the plan of the reported subnet, with the reported addresses as its own, and nothing
  else; and its hosts are the senders of the accepted replies, each with its first address.
\<close>

theorem linux_scan_result:
  assumes "kernel_logs k time events" and "clock_logs ck time events"
    and "quiescent_kernel k ioctl indexes pairs"
    and "perform_arp_scan fuel dfuel rfuel pw k ck name timeout pacing rounds wire None w = (Inr outcome, w')"
    and "events w = []"
  shows "usable_interface ioctl name \<and> (\<exists>plan. full_subnet_scan_plan (addresses_of ioctl name) = Ok plan
    \<and> map snd (sent_of (events w')) = concat (replicate rounds
        (map (request_frame (transmit_context (addresses_of ioctl name) wire)) (plan_targets plan)))
    \<and> sorted_wrt (<) (map fst (host_pairs outcome))
    \<and> map_of (host_pairs outcome) =
        map_of (accepted_replies (plan_acceptance plan) (reads_of (events w'))))"
  using assms(1,3,4)
proof (cases rule: scan_engine)
  case (2 s plan endpoint w1)
  have "events w1 = []" using 2(4) assms(5) by simp
  from timed_endpoint.burst_scan_events [OF linux_timed_endpoint [OF assms(1,2)] 2(5) _ this]
  show ?thesis using 2(1,3) by (simp add: bt_wf_def bt_get_map_of)
qed simp

text \<open>
  On a host at rest, a probe of one address that returns an outcome found the interface usable
  and the address strictly inside its subnet; it transmitted one request for it in each round and
  nothing else; and it reports the address with the sender of the first reply that claims it, or
  nobody.
\<close>

theorem linux_probe_result:
  assumes "kernel_logs k time events" and "clock_logs ck time events"
    and "quiescent_kernel k ioctl indexes pairs"
    and "perform_arp_probe fuel dfuel rfuel pw k ck name target timeout pacing rounds wire None w
      = (Inr outcome, w')"
    and "events w = []"
  shows "usable_interface ioctl name
    \<and> validate_strict_interior_scan_target_ipv4_address name target
        (isa_source_ipv4_address (addresses_of ioctl name)) (isa_ipv4_netmask (addresses_of ioctl name)) = Ok ()
    \<and> map snd (sent_of (events w')) =
        replicate rounds (request_frame (transmit_context (addresses_of ioctl name) wire) target)
    \<and> host_pairs outcome =
        (case map_of (accepted_replies (ExactTarget target) (reads_of (events w'))) target of
           None \<Rightarrow> [] | Some mac \<Rightarrow> [(target, mac)])"
proof -
  let ?own = "addresses_of ioctl name"
  have "op_then (op_map_err Failed (validated_interface_index_for_arp_scanning k name)) (\<lambda>_.
     op_then (op_map_err Failed (discover_interface_scan_addresses k name)) (\<lambda>addresses.
     op_then (op_map_err Failed (op_lift (validate_strict_interior_scan_target_ipv4_address name target
       (isa_source_ipv4_address addresses) (isa_ipv4_netmask addresses)))) (\<lambda>_.
     op_then (op_map_err Failed (open_linux_link_layer_endpoint k name wire)) (\<lambda>endpoint.
     collect_scan_over_endpoint fuel dfuel pw (linux_endpoint rfuel k endpoint) ck
       \<lparr>esr_targets = [target], esr_transmit = transmit_context addresses wire,
        esr_acceptance = ExactTarget target, esr_receive_timeout = timeout,
        esr_pacing = pacing, esr_scan_round_count = rounds, esr_rate_limit = None\<rparr>)))) w = (Inr outcome, w')"
    using assms(4) by (simp add: perform_arp_probe_def split: sum.splits)
  from engine_reached [OF assms(1,3) this] show ?thesis
  proof cases
    case (2 u endpoint w1)
    have "events w1 = []" using 2(3) assms(5) by simp
    from timed_endpoint.burst_scan_events [OF linux_timed_endpoint [OF assms(1,2)] 2(5) _ this]
    have run: "map snd (sent_of (events w')) =
        concat (replicate rounds [request_frame (transmit_context ?own wire) target])"
      "bt_wf (host_pairs outcome)"
      "bt_get (host_pairs outcome) = map_of (accepted_replies (ExactTarget target) (reads_of (events w')))"
      by simp_all
    moreover have "concat (replicate rounds [x]) = replicate rounds x" for x :: "u8 list"
      by (induction rounds) simp_all
    ultimately show ?thesis using 2(1,2) single_host [OF run(2,3)] by simp
  qed simp
qed

text \<open>
  C17: on a host at rest, whatever becomes of a scan - rate limited or not, completed or failed half
  way - it transmits nothing unless the interface is usable, the schedule is accepted and the subnet
  has a plan, and then only the requests of the addresses of that plan.
\<close>

theorem linux_scan_stays_in_subnet:
  assumes "kernel_logs k time events" and "clock_logs ck time events"
    and "quiescent_kernel k ioctl indexes pairs"
    and "perform_arp_scan fuel dfuel rfuel pw k ck name timeout pacing rounds wire rate w = (r, w')"
    and "events w = []" and "sent_of (events w') \<noteq> []"
  shows "usable_interface ioctl name
    \<and> (\<exists>s. validate_scan_timing_before_socket pw timeout pacing rounds wire rate = Ok s)
    \<and> (\<exists>plan. full_subnet_scan_plan (addresses_of ioctl name) = Ok plan
        \<and> snd ` set (sent_of (events w')) \<subseteq>
            request_frame (transmit_context (addresses_of ioctl name) wire) ` set (plan_targets plan))"
  using assms(1,3,4)
proof (cases rule: scan_engine)
  case (2 s plan endpoint w1)
  have "only_requests (transmit_context (addresses_of ioctl name) wire) (set (plan_targets plan)) (events w')"
    using timed_endpoint.scan_only_requests [OF linux_timed_endpoint [OF assms(1,2)] 2(5)] 2(4) assms(5) by simp
  then show ?thesis using 2(1-3) by (auto simp: only_requests_def)
qed (use assms(5,6) in simp)

text \<open>
  C18: a listen on an interface transmits nothing, whatever the kernel and the clock do. On a host at
  rest a listen that returns an outcome has lasted its full time on a usable interface, and the
  outcome is the expected one of exactly the frames read, for a host whose own addresses are all those
  configured on the interface.
\<close>

theorem linux_monitor_result:
  assumes "kernel_logs k time events" and "clock_logs ck time events"
    and "perform_passive_arp_monitor fuel dfuel rfuel k ck name timeout w = (r, w')" and "events w = []"
  shows "sent_of (events w') = []
    \<and> (\<forall>ioctl indexes pairs records outcome.
        quiescent_kernel k ioctl indexes pairs
        \<and> (\<forall>v. lk_list_interface_ipv4_addresses k v = (Inr records, v)) \<and> r = Inr outcome \<longrightarrow>
        usable_interface ioctl name \<and> time w + timeout \<le> time w'
        \<and> outcome = expected_outcome (isa_source_mac_address (addresses_of ioctl name))
            (insert (isa_source_ipv4_address (addresses_of ioctl name)) {ip. (name, ip) \<in> set records})
            4096 (reads_of (events w')))"
  using assms(1-3)
proof (cases rule: listen_engine)
  case (2 identity endpoint w1 w2 w3)
  from timed_endpoint.listen_reads [OF linux_timed_endpoint [OF assms(1,2)] 2(4)] 2(2,3) assms(4)
  obtain fs where "events w' = map Read fs" "\<forall>outcome. r = Inr outcome \<longrightarrow>
      outcome = expected_outcome (mii_source_mac_address identity) (set (mii_ipv4_addresses identity))
        monitor_distinct_record_limit fs \<and> time w3 + timeout \<le> time w'" by auto
  then show ?thesis
    using 2(3) monitor_identity_quiescent [of k _ _ _ _ name w1 identity w2] 2(1)
    by (auto simp: monitor_distinct_record_limit_def)
qed (use assms(4) in auto)

text \<open>
  Over a packet socket whose \<^verbatim>\<open>recvfrom\<close> behaves as documented, a drain reads every queued frame
  that fits the buffer, in order, and ends with the queue empty: it stops at \<^verbatim>\<open>EAGAIN\<close> and no
  interruption by a signal makes it lose a frame or fail.
\<close>

theorem linux_drain_reads_queue:
  assumes "recvfrom_documented k (lle_packet_socket e) queue signals"
    and "\<And>w. signals w < rfuel" and "\<And>w. [] \<notin> set (queue w)"
    and "\<forall>f \<in> set (queue w). length f \<le> length buf" and "length (queue w) < dfuel"
  shows "\<exists>buf' w'. drain_buffered_reply_frames dfuel (linux_endpoint rfuel k e) acceptance buf acc w =
      (Inr (buf', process_frames acceptance acc (queue w)), w')
    \<and> length buf' = length buf \<and> queue w' = []"
  by (rule frame_source.drain_all [OF linux_frame_source [OF assms(1-3)] assms(4,5)])

lemma linux_drain_reads_queue_witness:
  "\<exists>buf' acc w'. drain_buffered_reply_frames 2
      (linux_endpoint 2 example_kernel example_endpoint)
      (ExactTarget 0x0A000003) (replicate receive_buffer_length 0) ([], []) (example_world\<lparr>se_fail_sends := True\<rparr>)
    = (Inr (buf', acc), w') \<and> captured w' = []"
proof -
  let ?w = "example_world\<lparr>se_fail_sends := True\<rparr>"
  let ?buf = "replicate receive_buffer_length (0 :: u8)"
  have "\<forall>f \<in> set (captured ?w). length f \<le> length ?buf" "length (captured ?w) < 2"
    using example_fits by (simp_all add: captured_def example_world_def)
  then have "\<exists>buf' w'. drain_buffered_reply_frames 2 (linux_endpoint 2 example_kernel example_endpoint)
      (ExactTarget 0x0A000003) ?buf ([], []) ?w =
        (Inr (buf', process_frames (ExactTarget 0x0A000003) ([], []) (captured ?w)), w')
      \<and> length buf' = length ?buf \<and> captured w' = []"
    by (intro linux_drain_reads_queue [OF example_recvfrom _ captured_not_empty]) simp_all
  then show ?thesis by blast
qed

section \<open>Runs on the example host\<close>

lemma example_scripted_capture:
  "scripted_capture (linux_endpoint 2 example_kernel e) captured fake_scan_clock fc_time se_events"
proof (intro scripted_capture.intro scripted_capture_axioms.intro)
  let ?ep = "linux_endpoint 2 example_kernel e"
  have settle: "fc_time (w\<lparr>se_fail_sends := b\<rparr>) = fc_time w" "captured (w\<lparr>se_fail_sends := b\<rparr>) = captured w"
    for w b by (simp_all add: fc_time_def captured_def)
  show "frame_source ?ep captured"
    by (rule linux_frame_source [OF example_recvfrom _ captured_not_empty]) simp
  show "timed_endpoint fake_scan_clock fc_time ?ep se_events"
    by (rule linux_timed_endpoint [OF example_kernel_logs example_clock_logs])
  show "\<exists>w'. ep_wait ?ep ms w = (Inr (captured w \<noteq> []), w') \<and> captured w' = captured w \<and> fc_time w' = fc_time w"
    for ms w by (simp add: linux_endpoint_def linux_wait_def example_kernel_def)
  show "fc_time w' = fc_time w" if "ep_receive ?ep buf w = (r, buf', w')" for buf w r buf' w'
    using that by (auto simp: linux_endpoint_def example_kernel_def numeral_2_eq_2 settle
        would_block_def errno_eagain_def interrupted_call_def split: list.splits if_splits)
  show "captured w' = captured w \<and> fc_time w' = fc_time w" if "ep_send ?ep frame w = (r', w')" for frame w r' w'
    using that by (auto simp: linux_endpoint_def linux_send_def example_kernel_def qe_send_def captured_def)
qed (use scripted.now_exact scripted.unreadable_pending scripted.sleep_for_pending scripted.sleep_until_pending
      scripted.after_send_pending scripted.sleep_for_at_most scripted.unreadable_reaches in \<open>simp_all add: captured_def\<close>)

lemma example_eth0:
  "example_ioctl siocgifflags_request ''eth0'' = Inr [0x43, 0x10]"
  "example_ioctl siocgifaddr_request ''eth0'' = Inr [2, 0, 0, 0, 10, 0, 0, 1]"
  "example_ioctl siocgifnetmask_request ''eth0'' = Inr [2, 0, 0, 0, 255, 255, 255, 248]"
  "example_ioctl siocgifhwaddr_request ''eth0'' = Inr [1, 0, 2, 0, 0, 0, 0, 1]"
  by (simp_all add: example_ioctl_def siocgifaddr_request_def siocgifnetmask_request_def
      siocgifhwaddr_request_def siocgifflags_request_def)

lemma example_ipv4:
  "ipv4_new 10 0 0 1 = 0x0A000001" "ipv4_new 255 255 255 248 = NOT (mask 3)"
  by (simp_all add: ipv4_new_def u32_from_be_def mask_numeral)

lemma example_addresses:
  "addresses_of example_ioctl ''eth0'' =
     \<lparr>isa_source_ipv4_address = 0x0A000001, isa_ipv4_netmask = NOT (mask 3),
      isa_source_mac_address = MacAddress 2 0 0 0 0 1\<rparr>"
  by (simp add: addresses_of_def candidate_of_def Let_def example_eth0 sa_data_def from_octets_def example_ipv4)

lemma example_plan:
  obtains plan where "full_subnet_scan_plan (addresses_of example_ioctl ''eth0'') = Ok plan"
  using plan_targets_eq [where h = 3 and addresses = "addresses_of example_ioctl ''eth0''" and a = "0x0A000001"]
  by (simp add: example_addresses)

lemmas example_interface = usable_prepares [OF example_kernel_quiescent]

lemma example_open:
  "\<exists>e. open_linux_link_layer_endpoint example_kernel ''eth0'' wire w = (Inr e, w)"
  "\<exists>e. open_linux_monitor_link_layer_endpoint example_kernel ''eth0'' w = (Inr e, w)"
proof -
  have index: "example_indexes ''eth0'' = Inr 2" "(2 :: nat) \<le> c_int_max"
    by (simp_all add: example_indexes_def c_int_max_def)
  have socket: "lk_open_packet_raw_socket example_kernel p v = (Inr 4, v)" "lk_bind example_kernel 4 a v = (Inr (), v)"
    for p v a by (simp_all add: example_kernel_def)
  show "\<exists>e. open_linux_link_layer_endpoint example_kernel ''eth0'' wire w = (Inr e, w)"
    "\<exists>e. open_linux_monitor_link_layer_endpoint example_kernel ''eth0'' w = (Inr e, w)"
    unfolding open_linux_link_layer_endpoint_def open_linux_monitor_link_layer_endpoint_def
    by (rule usable_opens [OF example_kernel_quiescent example_usable(1) index socket])+
qed

definition example_engine_request :: "ipv4 list \<Rightarrow> arp_reply_acceptance \<Rightarrow> endpoint_scan_request" where
  "example_engine_request targets acceptance =
     \<lparr>esr_targets = targets,
      esr_transmit = transmit_context (addresses_of example_ioctl ''eth0'') default_wire_options,
      esr_acceptance = acceptance, esr_receive_timeout = from_millis 5, esr_pacing = 0,
      esr_scan_round_count = 2, esr_rate_limit = None\<rparr>"

lemma example_captured:
  "captured example_world = se_inbound example_world" "length (se_inbound example_world) < 2"
  "fc_time example_world = 0"
proof -
  have "0 < length (encode_request_from_layout l)" for l by (simp add: length_encode_request)
  then have "encode_request_from_layout l \<noteq> []" for l by simp
  then show "captured example_world = se_inbound example_world" "length (se_inbound example_world) < 2"
    "fc_time example_world = 0"
    by (simp_all add: example_world_def captured_def fc_time_def)
qed

lemma five_milliseconds: "0 < from_millis 5" "from_millis 5 \<le> duration_max" "from_millis 5 \<le> u128_max"
  by (simp_all add: from_millis_def duration_max_def u64_max_def nanos_per_sec_def u128_max_def u128_bound_def)

lemma example_engine:
  "\<exists>outcome w'. collect_scan_over_endpoint 3 2 pw (linux_endpoint 2 example_kernel e) fake_scan_clock
     (example_engine_request targets acceptance) example_world = (Inr outcome, w')"
proof -
  let ?request = "example_engine_request targets acceptance"
  have valid: "validate_ieee_8021q_tag_stack (stc_wire (esr_transmit ?request)) = Ok ()"
    "validate_ieee_8023_mac_client_data (stc_wire (esr_transmit ?request)) = Ok ()"
    "esr_rate_limit ?request = None" "0 < esr_receive_timeout ?request"
    "esr_receive_timeout ?request \<le> duration_max"
    using example_valid five_milliseconds
    by (simp_all add: transmit_context_def example_request_def example_engine_request_def)
  have reach: "ck_add fake_scan_clock t (esr_receive_timeout ?request) \<noteq> None"
    if "t \<le> fc_time example_world + esr_scan_round_count ?request * esr_pacing ?request" for t
    using that example_captured five_milliseconds
    by (simp add: fake_scan_clock_def rust_arith example_engine_request_def)
  show ?thesis
    using scripted_capture.burst_scan_ends [OF example_scripted_capture [of e], of ?request example_world 2 3 pw]
      reach valid example_fits example_captured by fastforce
qed

lemma example_no_rate:
  "op_map_err Failed (op_lift (validate_scan_timing_before_socket pw timeout pacing rounds wire None)) w = (Inr None, w)"
proof -
  have "validate_scan_timing_before_socket pw timeout pacing rounds wire None = Ok None"
    using validate_rate_None by blast
  then show ?thesis by (simp add: op_map_err_def op_lift_def)
qed

lemma example_interface_index: "example_indexes ''eth0'' = Inr 2"
  by (simp add: example_indexes_def)

lemmas example_steps = example_interface [OF example_usable(1) example_interface_index]

lemma example_scan_runs:
  "\<exists>outcome w'. perform_arp_scan 3 2 2 powers_of_two example_kernel fake_scan_clock ''eth0'' (from_millis 5)
     0 2 default_wire_options None example_world = (Inr outcome, w')"
proof -
  obtain plan where plan: "full_subnet_scan_plan (addresses_of example_ioctl ''eth0'') = Ok plan"
    by (rule example_plan)
  obtain e where e: "open_linux_link_layer_endpoint example_kernel ''eth0'' default_wire_options example_world
      = (Inr e, example_world)" using example_open(1) by blast
  show ?thesis
    unfolding perform_arp_scan_def op_then_def example_no_rate
    using example_engine [of powers_of_two e "plan_targets plan" "plan_acceptance plan"]
    by (simp add: op_map_err_def op_lift_def plan e example_steps example_engine_request_def)
qed

lemma example_probe_runs:
  "\<exists>outcome w'. perform_arp_probe 3 2 2 powers_of_two example_kernel fake_scan_clock ''eth0'' 0x0A000003
     (from_millis 5) 0 2 default_wire_options None example_world = (Inr outcome, w')"
proof -
  have inside: "validate_strict_interior_scan_target_ipv4_address ''eth0'' 0x0A000003 0x0A000001 (NOT (mask 3)) = Ok ()"
    unfolding validate_target_Ok_iff by (intro bexI [of _ 3] conjI refl) simp_all
  obtain e where e: "open_linux_link_layer_endpoint example_kernel ''eth0'' default_wire_options example_world
      = (Inr e, example_world)" using example_open(1) by blast
  show ?thesis
    unfolding perform_arp_probe_def op_then_def example_no_rate
    using example_engine [of powers_of_two e "[0x0A000003]" "ExactTarget 0x0A000003"]
    by (simp add: op_map_err_def op_lift_def inside e example_steps example_engine_request_def example_addresses)
qed

lemma linux_scan_result_witness:
  "\<exists>outcome plan w'. perform_arp_scan 3 2 2 powers_of_two example_kernel fake_scan_clock ''eth0''
       (from_millis 5) 0 2 default_wire_options None example_world = (Inr outcome, w')
     \<and> full_subnet_scan_plan (addresses_of example_ioctl ''eth0'') = Ok plan
     \<and> map snd (sent_of (se_events w')) = concat (replicate 2
        (map (request_frame (transmit_context (addresses_of example_ioctl ''eth0'') default_wire_options))
          (plan_targets plan)))"
proof -
  obtain outcome w' where run: "perform_arp_scan 3 2 2 powers_of_two example_kernel fake_scan_clock ''eth0''
     (from_millis 5) 0 2 default_wire_options None example_world = (Inr outcome, w')"
    using example_scan_runs by blast
  have "se_events example_world = []" by (simp add: example_world_def)
  from linux_scan_result [OF example_kernel_logs example_clock_logs example_kernel_quiescent run this] run
  show ?thesis by blast
qed

lemma example_scan_sends:
  assumes "perform_arp_scan 3 2 2 powers_of_two example_kernel fake_scan_clock ''eth0'' (from_millis 5)
     0 2 default_wire_options None example_world = (Inr outcome, w')"
  shows "sent_of (se_events w') \<noteq> []"
  using example_kernel_logs example_kernel_quiescent assms
proof (cases rule: scan_engine)
  case (2 s plan endpoint w1)
  have "plan_targets plan \<noteq> []"
    using 2(3) plan_targets_eq [where h = 3 and addresses = "addresses_of example_ioctl ''eth0''" and a = "0x0A000001"]
    by (simp add: example_addresses)
  moreover have "se_events w1 = []" using 2(4) by (simp add: example_world_def)
  ultimately show ?thesis
    using timed_endpoint.burst_scan_events(1) [OF linux_timed_endpoint [OF example_kernel_logs example_clock_logs] 2(5)]
    by (auto simp: numeral_2_eq_2)
qed simp

lemma linux_scan_stays_in_subnet_witness:
  "\<exists>r w'. perform_arp_scan 3 2 2 powers_of_two example_kernel fake_scan_clock ''eth0''
       (from_millis 5) 0 2 default_wire_options None example_world = (r, w')
     \<and> snd ` set (sent_of (se_events w')) \<noteq> {} \<and> (\<exists>plan. full_subnet_scan_plan (addresses_of example_ioctl ''eth0'') = Ok plan
     \<and> snd ` set (sent_of (se_events w')) \<subseteq> request_frame
         (transmit_context (addresses_of example_ioctl ''eth0'') default_wire_options) ` set (plan_targets plan))"
proof -
  obtain outcome w' where run: "perform_arp_scan 3 2 2 powers_of_two example_kernel fake_scan_clock ''eth0''
     (from_millis 5) 0 2 default_wire_options None example_world = (Inr outcome, w')"
    using example_scan_runs by blast
  have start: "se_events example_world = []" by (simp add: example_world_def)
  note sent = example_scan_sends [OF run]
  from linux_scan_stays_in_subnet [OF example_kernel_logs example_clock_logs example_kernel_quiescent run start sent]
  have "\<exists>plan. full_subnet_scan_plan (addresses_of example_ioctl ''eth0'') = Ok plan
     \<and> snd ` set (sent_of (se_events w')) \<subseteq> request_frame
         (transmit_context (addresses_of example_ioctl ''eth0'') default_wire_options) ` set (plan_targets plan)"
    by (elim conjE)
  moreover have "snd ` set (sent_of (se_events w')) \<noteq> {}" using sent by simp
  ultimately show ?thesis using run
    by (intro exI [of _ "Inr outcome"] exI [of _ w'] conjI)
qed

lemma example_identity:
  "\<exists>identity. discover_monitor_interface_identity example_kernel ''eth0'' w = (Inr identity, w)"
proof -
  have list: "lk_list_interface_ipv4_addresses example_kernel v =
      (Inr [(''lo'', 0x7F000001), (''eth0'', 0x0A000001), (''eth0'', 0x0A000006)], v)" for v
    by (simp add: example_kernel_def)
  have "bset_of_list (x # xs) \<noteq> []" for x :: ipv4 and xs
    using bset_of_list(2) [of "x # xs"] by auto
  then show ?thesis
    using example_usable(1) [unfolded usable_interface_iff, THEN conjunct1]
    by (auto simp: discover_monitor_interface_identity_def op_then_def op_lift_def op_map_err_def list example_steps
        Let_def identity_from_addresses_def sorted_unique_ipv4_addresses_def configured_ipv4_addresses_def)
qed

lemma example_listen_runs:
  "\<exists>outcome w'. perform_passive_arp_monitor 3 2 2 example_kernel fake_scan_clock ''eth0'' (from_millis 5)
     example_world = (Inr outcome, w')"
proof -
  have add: "ck_add fake_scan_clock (fc_time example_world) (from_millis 5) = Some (from_millis 5)"
    using five_milliseconds example_captured by (simp add: fake_scan_clock_def rust_arith)
  then have deadline: "op_map_err Failed (monitor_deadline fake_scan_clock (from_millis 5)) example_world =
      (Inr (from_millis 5), example_world)"
    using five_milliseconds by (simp add: op_map_err_def monitor_deadline_def scripted.now_exact ok_or_def)
  obtain identity where identity: "discover_monitor_interface_identity example_kernel ''eth0'' example_world
      = (Inr identity, example_world)"
    using example_identity by blast
  obtain e where e: "open_linux_monitor_link_layer_endpoint example_kernel ''eth0'' example_world
      = (Inr e, example_world)" using example_open(2) by blast
  let ?request = "\<lparr>mlr_local_ipv4_addresses = mii_ipv4_addresses identity,
      mlr_local_mac_address = mii_source_mac_address identity, mlr_timeout = from_millis 5\<rparr>"
  have fits: "\<forall>f \<in> set (captured example_world). length f \<le> monitor_receive_buffer_length"
    using example_fits example_captured by (simp add: receive_buffer_length_def monitor_receive_buffer_length_def)
  have "\<exists>outcome w'. listen_for_passive_arp 3 2 (linux_endpoint 2 example_kernel e) fake_scan_clock ?request
      example_world = (Inr outcome, w')"
    using scripted_capture.listen_all [OF example_scripted_capture [of e] fits, of 2 3 ?request]
      example_captured five_milliseconds add by auto
  then show ?thesis
    unfolding perform_passive_arp_monitor_def op_then_def deadline
    using identity e by (auto simp: op_map_err_def)
qed

lemma linux_probe_result_witness:
  "\<exists>outcome w'. perform_arp_probe 3 2 2 powers_of_two example_kernel fake_scan_clock ''eth0'' 0x0A000003
       (from_millis 5) 0 2 default_wire_options None example_world = (Inr outcome, w')
     \<and> length (sent_of (se_events w')) = 2"
proof -
  obtain outcome w' where run: "perform_arp_probe 3 2 2 powers_of_two example_kernel fake_scan_clock ''eth0''
      0x0A000003 (from_millis 5) 0 2 default_wire_options None example_world = (Inr outcome, w')"
    using example_probe_runs by blast
  have "se_events example_world = []" by (simp add: example_world_def)
  from linux_probe_result [OF example_kernel_logs example_clock_logs example_kernel_quiescent run this] run
  show ?thesis by (metis length_map length_replicate)
qed

lemma linux_monitor_result_witness:
  "\<exists>outcome w'. perform_passive_arp_monitor 3 2 2 example_kernel fake_scan_clock ''eth0'' (from_millis 5)
       example_world = (Inr outcome, w')
     \<and> sent_of (se_events w') = [] \<and> fc_time example_world + from_millis 5 \<le> fc_time w'"
proof -
  obtain outcome w' where run: "perform_passive_arp_monitor 3 2 2 example_kernel fake_scan_clock ''eth0''
      (from_millis 5) example_world = (Inr outcome, w')"
    using example_listen_runs by blast
  have "se_events example_world = []" by (simp add: example_world_def)
  from linux_monitor_result [OF example_kernel_logs example_clock_logs run this] run
    example_kernel_quiescent show ?thesis by (fastforce simp: example_kernel_def)
qed

end
