(* ===== verification/Mac_Vendor_Registry.thy ===== *)
theory Mac_Vendor_Registry
  imports Mac_Address App_Error
begin

text \<open>
  \<^verbatim>\<open>src/mac_vendor_registry.rs\<close>: the table of hexadecimal prefixes and its longest-prefix lookup.
  The \<^verbatim>\<open>HashMap\<close> is a map; the file system is a parameter, a function from a path to the result
  of reading it.
\<close>

section \<open>Data\<close>

type_synonym mac_vendor_registry = "string \<rightharpoonup> string"

definition unknown_mac_vendor_name :: string where "unknown_mac_vendor_name = ''(Unknown)''"
definition default_mac_vendor_file_name :: string where
  "default_mac_vendor_file_name = ''ieee-oui.txt''"

datatype registry_parse_error =
    LineMissingTab nat
  | InvalidPrefix nat string

fun show_registry_parse_error :: "registry_parse_error \<Rightarrow> string" where
  "show_registry_parse_error (LineMissingTab n) =
     ''MAC vendor mapping line '' @ show_nat n @ '' is missing a tab separator''"
| "show_registry_parse_error (InvalidPrefix n p) =
     ''MAC vendor mapping line '' @ show_nat n @ '' has an invalid hexadecimal prefix `'' @ p @ ''`''"

section \<open>Parsing\<close>

definition normalize_hexadecimal_prefix :: "string \<Rightarrow> string" where
  "normalize_hexadecimal_prefix field = map to_ascii_uppercase (filter is_ascii_hexdigit field)"

text \<open>One round of the loop: the entry a line adds, \<open>Ok None\<close> for a blank line or a comment.\<close>

definition parse_registry_line :: "nat \<Rightarrow> string \<Rightarrow> registry_parse_error + (string \<times> string) option" where
  "parse_registry_line line_number raw_line =
     (let line = str_trim raw_line in
      if line = [] \<or> starts_with ''#'' line then Ok None
      else (case split_once tab line of
        None \<Rightarrow> Err (LineMissingTab line_number)
      | Some (prefix_field, vendor_field) \<Rightarrow>
          let prefix = normalize_hexadecimal_prefix prefix_field in
          if length prefix < 2 \<or> 12 < length prefix \<or> \<not> list_all is_ascii_hexdigit prefix
          then Err (InvalidPrefix line_number prefix)
          else
            let vendor = str_trim vendor_field in
            if vendor = [] then Err (InvalidPrefix line_number prefix)
            else Ok (Some (prefix, vendor))))"

fun parse_registry_lines ::
    "nat \<Rightarrow> string list \<Rightarrow> mac_vendor_registry \<Rightarrow> registry_parse_error + mac_vendor_registry" where
  "parse_registry_lines n [] prefixes = Ok prefixes"
| "parse_registry_lines n (l # ls) prefixes =
     and_then (parse_registry_line n l) (\<lambda>entry.
     parse_registry_lines (Suc n) ls
       (case entry of None \<Rightarrow> prefixes | Some (p, v) \<Rightarrow> prefixes(p \<mapsto> v)))"

definition parse_ieee_oui_text :: "string \<Rightarrow> registry_parse_error + mac_vendor_registry" where
  "parse_ieee_oui_text text = parse_registry_lines 1 (str_lines text) Map.empty"

definition load_from_path ::
    "(string \<Rightarrow> io_error + string) \<Rightarrow> string \<Rightarrow> io_error + mac_vendor_registry" where
  "load_from_path read_to_string path =
     and_then (read_to_string path) (\<lambda>text.
     map_err (\<lambda>e. \<lparr>io_kind = InvalidData, io_errno = None, io_text = show_registry_parse_error e\<rparr>)
       (parse_ieee_oui_text text))"

definition load_default_file_if_present ::
    "(string \<Rightarrow> bool) \<Rightarrow> (string \<Rightarrow> io_error + string) \<Rightarrow> io_error + mac_vendor_registry option" where
  "load_default_file_if_present is_file read_to_string =
     (if \<not> is_file default_mac_vendor_file_name then Ok None
      else and_then (load_from_path read_to_string default_mac_vendor_file_name) (\<lambda>r. Ok (Some r)))"

section \<open>Lookup\<close>

definition mac_hex_upper :: "mac_address \<Rightarrow> string" where
  "mac_hex_upper m = concat (map hex02_upper (octets m))"

fun first_prefix_match :: "mac_vendor_registry \<Rightarrow> string \<Rightarrow> nat list \<Rightarrow> string option" where
  "first_prefix_match r hex [] = None"
| "first_prefix_match r hex (n # ns) =
     (case r (take n hex) of Some vendor \<Rightarrow> Some vendor | None \<Rightarrow> first_prefix_match r hex ns)"

definition vendor_name_for :: "mac_vendor_registry \<Rightarrow> mac_address \<Rightarrow> string option" where
  "vendor_name_for r m = first_prefix_match r (mac_hex_upper m) (rev [2..<13])"

definition mapping_count :: "mac_vendor_registry \<Rightarrow> nat" where
  "mapping_count r = card (dom r)"

section \<open>Facts\<close>

lemma upper_hexdigit: "is_ascii_hexdigit c \<Longrightarrow> is_ascii_hexdigit (to_ascii_uppercase c)"
  by (auto simp: is_ascii_hexdigit_def hex_digit_value_def to_ascii_uppercase_def Let_def
      split: if_splits)

lemma normalized_prefix_hex: "list_all is_ascii_hexdigit (normalize_hexadecimal_prefix s)"
  by (auto simp: normalize_hexadecimal_prefix_def list_all_iff upper_hexdigit)

lemma split_once_Some: "split_once sep s = Some (p, v) \<Longrightarrow> s = p @ sep # v \<and> sep \<notin> set p"
proof -
  assume sp: "split_once sep s = Some (p, v)"
  then have "sep \<in> set s" and p: "p = takeWhile (\<lambda>c. c \<noteq> sep) s"
    and v: "v = tl (dropWhile (\<lambda>c. c \<noteq> sep) s)"
    by (auto simp: split_once_def split: if_splits)
  then have ne: "dropWhile (\<lambda>c. c \<noteq> sep) s \<noteq> []" by (simp add: dropWhile_eq_Nil_conv)
  have "hd (dropWhile (\<lambda>c. c \<noteq> sep) s) = sep" using hd_dropWhile [OF ne] by simp
  then have "dropWhile (\<lambda>c. c \<noteq> sep) s = sep # v" using ne v by (metis list.collapse)
  then show ?thesis using p by (metis takeWhile_dropWhile_id set_takeWhileD)
qed

text \<open>
  A prefix is rejected for its length alone: its digits are hexadecimal by construction, and the
  vendor of a trimmed line with a tab is not blank.
\<close>

lemma parse_registry_line_Some:
  assumes "line = str_trim raw" and "line \<noteq> []" and "\<not> starts_with ''#'' line"
    and "split_once tab line = Some (p, v)"
  shows "parse_registry_line n raw =
    (let prefix = normalize_hexadecimal_prefix p in
     if 2 \<le> length prefix \<and> length prefix \<le> 12 then Ok (Some (prefix, str_trim v))
     else Err (InvalidPrefix n prefix))"
proof -
  have "str_trim v \<noteq> []"
    using trimmed_tail_not_blank split_once_Some [OF assms(4)] assms(1) by metis
  then show ?thesis
    using assms(2-4) normalized_prefix_hex
    by (simp add: parse_registry_line_def assms(1) [symmetric] Let_def not_le)
qed

definition registry_wf :: "mac_vendor_registry \<Rightarrow> bool" where
  "registry_wf r \<longleftrightarrow>
     finite (dom r) \<and> (\<forall>p v. r p = Some v \<longrightarrow>
       2 \<le> length p \<and> length p \<le> 12 \<and> v \<noteq> []
       \<and> (\<exists>q. p = normalize_hexadecimal_prefix q))"

lemma parse_registry_line_entry:
  "parse_registry_line n l = Ok (Some (p, v)) \<Longrightarrow>
     2 \<le> length p \<and> length p \<le> 12 \<and> v \<noteq> [] \<and> (\<exists>q. p = normalize_hexadecimal_prefix q)"
  by (auto simp: parse_registry_line_def Let_def split: if_splits option.splits)

lemma parse_registry_lines_wf:
  "parse_registry_lines n ls r = Ok r' \<Longrightarrow> registry_wf r \<Longrightarrow> registry_wf r'"
proof (induction n ls r rule: parse_registry_lines.induct)
  case (2 n l ls r)
  then obtain entry where e: "parse_registry_line n l = Ok entry"
    and rest: "parse_registry_lines (Suc n) ls
      (case entry of None \<Rightarrow> r | Some (p, v) \<Rightarrow> r(p \<mapsto> v)) = Ok r'"
    by (auto simp: and_then_eq_Ok_iff)
  have "registry_wf (case entry of None \<Rightarrow> r | Some (p, v) \<Rightarrow> r(p \<mapsto> v))"
    using e parse_registry_line_entry \<open>registry_wf r\<close>
    by (fastforce simp: registry_wf_def split: option.splits)
  then show ?case using 2(1) [OF rest] by blast
qed simp

lemma parse_ieee_oui_text_wf: "parse_ieee_oui_text text = Ok r \<Longrightarrow> registry_wf r"
  unfolding parse_ieee_oui_text_def
  by (erule parse_registry_lines_wf) (simp add: registry_wf_def)

text \<open>The later of two lines with one prefix wins: the map is that of the reversed entry list.\<close>

fun registry_entries :: "nat \<Rightarrow> string list \<Rightarrow> (string \<times> string) list" where
  "registry_entries n [] = []"
| "registry_entries n (l # ls) =
     (case parse_registry_line n l of
        Inr (Some e) \<Rightarrow> e # registry_entries (Suc n) ls
      | _ \<Rightarrow> registry_entries (Suc n) ls)"

lemma parse_registry_lines_entries:
  "parse_registry_lines n ls r = Ok r' \<Longrightarrow> r' = r ++ map_of (rev (registry_entries n ls))"
proof (induction n ls r rule: parse_registry_lines.induct)
  case (2 n l ls r)
  then obtain entry where e: "parse_registry_line n l = Ok entry"
    and rest: "parse_registry_lines (Suc n) ls
      (case entry of None \<Rightarrow> r | Some (p, v) \<Rightarrow> r(p \<mapsto> v)) = Ok r'"
    by (auto simp: and_then_eq_Ok_iff)
  show ?case
    using e 2(1) [OF rest] by (cases entry) (auto simp: map_add_assoc [symmetric])
qed simp

lemma first_prefix_match_Some_iff:
  "sorted_wrt (>) ns \<Longrightarrow>
     first_prefix_match r hex ns = Some v \<longleftrightarrow>
       (\<exists>n \<in> set ns. r (take n hex) = Some v \<and> (\<forall>k \<in> set ns. n < k \<longrightarrow> r (take k hex) = None))"
proof (induction ns)
  case (Cons n ns)
  then have lt: "\<And>k. k \<in> set ns \<Longrightarrow> k < n" by simp
  show ?case
  proof (cases "r (take n hex)")
    case None
    then show ?thesis using Cons lt by auto
  next
    case (Some a)
    then show ?thesis using lt by (auto dest: order_less_asym)
  qed
qed simp

lemma vendor_name_for_Some_iff:
  "vendor_name_for r m = Some v \<longleftrightarrow>
     (\<exists>n\<in>{2..12}. r (take n (mac_hex_upper m)) = Some v
        \<and> (\<forall>k\<in>{n<..12}. r (take k (mac_hex_upper m)) = None))"
proof -
  have desc: "sorted_wrt (>) (rev [2..<13 :: nat])" by (simp add: sorted_wrt_rev)
  have set_eq: "set (rev [2..<13 :: nat]) = {2..12}" by (simp only: set_rev set_upt) fastforce
  have "vendor_name_for r m = Some v \<longleftrightarrow>
     (\<exists>n\<in>{2..12}. r (take n (mac_hex_upper m)) = Some v
        \<and> (\<forall>k\<in>{2..12}. n < k \<longrightarrow> r (take k (mac_hex_upper m)) = None))"
    unfolding vendor_name_for_def first_prefix_match_Some_iff [OF desc] set_eq ..
  also have "\<dots> \<longleftrightarrow> (\<exists>n\<in>{2..12}. r (take n (mac_hex_upper m)) = Some v
        \<and> (\<forall>k\<in>{n<..12}. r (take k (mac_hex_upper m)) = None))"
    by (intro bex_cong refl conj_cong) auto
  finally show ?thesis .
qed

section \<open>Properties\<close>

text \<open>
  A mapping line, that is one that is neither blank nor a comment, is an error without a tab;
  with one it adds the upper-case hexadecimal digits of its first field, at least 2 and at most 12 of
  them, and is an error with any other count. Neither the digit check nor the blank vendor check of
  the source rejects anything.
\<close>

theorem mapping_line_outcome:
  assumes "line = str_trim raw" and "line \<noteq> []" and "\<not> starts_with ''#'' line"
  shows "parse_registry_line n raw =
    (case split_once tab line of
       None \<Rightarrow> Err (LineMissingTab n)
     | Some (p, v) \<Rightarrow>
         let prefix = map to_ascii_uppercase (filter is_ascii_hexdigit p) in
         if 2 \<le> length prefix \<and> length prefix \<le> 12 then Ok (Some (prefix, str_trim v))
         else Err (InvalidPrefix n prefix))"
proof (cases "split_once tab line")
  case None
  then show ?thesis using assms by (simp add: parse_registry_line_def Let_def)
next
  case (Some pv)
  then show ?thesis
    using parse_registry_line_Some [OF assms] normalize_hexadecimal_prefix_def by (cases pv) simp
qed

lemma mapping_line_outcome_witness:
  "parse_registry_line 3 (''00-1b-21'' @ tab # ''Intel'') = Ok (Some (''001B21'', ''Intel''))"
proof -
  have t: "''00-1b-21'' @ tab # ''Intel'' = str_trim (''00-1b-21'' @ tab # ''Intel'')" by code_simp
  have "''00-1b-21'' @ tab # ''Intel'' \<noteq> []" "\<not> starts_with ''#'' (''00-1b-21'' @ tab # ''Intel'')"
    by simp code_simp
  note mapping_line_outcome [OF t this, of 3]
  also have "(case split_once tab (''00-1b-21'' @ tab # ''Intel'') of
       None \<Rightarrow> Err (LineMissingTab 3)
     | Some (p, v) \<Rightarrow>
         let prefix = map to_ascii_uppercase (filter is_ascii_hexdigit p) in
         if 2 \<le> length prefix \<and> length prefix \<le> 12 then Ok (Some (prefix, str_trim v))
         else Err (InvalidPrefix 3 prefix)) = Ok (Some (''001B21'', ''Intel''))"
    by code_simp
  finally show ?thesis .
qed



text \<open>
  C38: a lookup gives the vendor of the longest registered prefix of the address's twelve hexadecimal
  digits, from two digits on, and nothing when no prefix is registered.
\<close>

theorem vendor_lookup_longest_prefix:
  "(vendor_name_for r m = Some v \<longleftrightarrow>
     (\<exists>n\<in>{2..12}. r (take n (mac_hex_upper m)) = Some v
        \<and> (\<forall>k\<in>{n<..12}. r (take k (mac_hex_upper m)) = None)))
   \<and> (vendor_name_for r m = None \<longleftrightarrow> (\<forall>n\<in>{2..12}. r (take n (mac_hex_upper m)) = None))"
proof -
  have none: "first_prefix_match r hex ns = None \<longleftrightarrow> (\<forall>n\<in>set ns. r (take n hex) = None)" for hex ns
    by (induction ns) (auto split: option.splits)
  have "set (rev [2..<13 :: nat]) = {2..12}" by (simp only: set_rev set_upt) fastforce
  then have "vendor_name_for r m = None \<longleftrightarrow> (\<forall>n\<in>{2..12}. r (take n (mac_hex_upper m)) = None)"
    unfolding vendor_name_for_def none by metis
  then show ?thesis using vendor_name_for_Some_iff by blast
qed

lemma vendor_lookup_longest_prefix_witness:
  "vendor_name_for [''AA'' \<mapsto> ''short'', ''AABBCC'' \<mapsto> ''long''] (MacAddress 0xAA 0xBB 0xCC 1 2 3)
     = Some ''long''"
proof -
  let ?m = "MacAddress 0xAA 0xBB 0xCC 1 2 3" and ?r = "[''AA'' \<mapsto> ''short'', ''AABBCC'' \<mapsto> ''long'']"
  have hex: "mac_hex_upper ?m = ''AABBCC010203''" by code_simp
  have "?r (take k (mac_hex_upper ?m)) = None" if "k \<in> {6<..12}" for k
  proof -
    have "length (mac_hex_upper ?m) = 12" by (simp add: hex)
    then have "length (take k (mac_hex_upper ?m)) = k" using that by simp
    then have "take k (mac_hex_upper ?m) \<noteq> ''AA''" "take k (mac_hex_upper ?m) \<noteq> ''AABBCC''"
      using that by (auto simp del: length_take)
    then show ?thesis by simp
  qed
  moreover have "?r (take 6 (mac_hex_upper ?m)) = Some ''long''" by (simp add: hex)
  moreover have "6 \<in> {2..12 :: nat}" by simp
  ultimately show ?thesis using vendor_lookup_longest_prefix [of ?r ?m "''long''"] by blast
qed

end
