(* ===== verification/Operator_Output.thy ===== *)
theory Operator_Output
  imports Monitor Mac_Vendor_Registry "HOL-Library.Sublist"
begin

text \<open>
  \<^verbatim>\<open>src/application_outcome.rs\<close> and the printing half of \<^verbatim>\<open>src/monitor.rs\<close>: what the operator
  reads on the two standard streams. A writer is a parameter that may fail; one \<^verbatim>\<open>write!\<close> is one
  call of it with the formatted text, and each \<^verbatim>\<open>?\<close> ends the printing at the first error.
\<close>

section \<open>Writers\<close>

type_synonym 'w io = "'w \<Rightarrow> (io_error + unit) \<times> 'w"
type_synonym 'w writer = "string \<Rightarrow> 'w io"

definition io_done :: "'w io" where
  "io_done w = (Inr (), w)"

definition io_then :: "'w io \<Rightarrow> 'w io \<Rightarrow> 'w io" where
  "io_then a b w = (case a w of (Inl e, w) \<Rightarrow> (Inl e, w) | (Inr _, w) \<Rightarrow> b w)"

fun io_each :: "('a \<Rightarrow> 'w io) \<Rightarrow> 'a list \<Rightarrow> 'w io" where
  "io_each f [] = io_done"
| "io_each f (x # xs) = io_then (f x) (io_each f xs)"

definition writeln :: "'w writer \<Rightarrow> string \<Rightarrow> 'w io" where
  "writeln wr s = wr (s @ [newline])"

section \<open>Outcomes\<close>

definition elapsed_milliseconds_saturating :: "duration \<Rightarrow> nat" where
  "elapsed_milliseconds_saturating d = min (as_millis d) u64_max"

definition format_stderr_timing_summary_line :: "scan_timing_summary \<Rightarrow> string" where
  "format_stderr_timing_summary_line s =
     (let host_noun = (if sts_discovered_host_count s = 1 then ''host'' else ''hosts'');
          round_noun = (if sts_scan_round_count s = 1 then ''round'' else ''rounds'');
          milliseconds_wall = elapsed_milliseconds_saturating (sts_elapsed_wall_time s) in
      ''scan complete: interface '' @ sts_network_interface_name s @ '', ''
      @ show_nat (sts_discovered_host_count s) @ '' '' @ host_noun @ '', ''
      @ show_nat (sts_scan_round_count s) @ '' '' @ round_noun @ '', ''
      @ show_nat milliseconds_wall @ '' ms'')"

definition with_scan_timing_summary ::
    "scan_outcome \<Rightarrow> string \<Rightarrow> duration \<Rightarrow> nat \<Rightarrow> scan_outcome" where
  "with_scan_timing_summary o' network_interface_name elapsed_wall_time scan_round_count =
     o'\<lparr>so_timing_summary := Some
          \<lparr>sts_network_interface_name = network_interface_name,
           sts_elapsed_wall_time = elapsed_wall_time,
           sts_scan_round_count = scan_round_count,
           sts_discovered_host_count = length (so_discovered_hosts o')\<rparr>\<rparr>"

record usable_interface_listing_row =
  uir_interface_name :: string
  uir_interface_index :: nat
  uir_ipv4_address :: ipv4
  uir_ipv4_netmask :: ipv4
  uir_mac_address :: mac_address

text \<open>
  A width of the formatter counts characters, and a character of a UTF-8 text has one octet that is
  not a continuation octet.
\<close>

definition utf8_chars :: "string \<Rightarrow> nat" where
  "utf8_chars s = length (filter (\<lambda>c. (of_char c :: nat) < 128 \<or> 192 \<le> (of_char c :: nat)) s)"

definition pad_right :: "nat \<Rightarrow> string \<Rightarrow> string" where
  "pad_right width s = s @ replicate (width - utf8_chars s) CHR '' ''"

definition pad_left :: "nat \<Rightarrow> string \<Rightarrow> string" where
  "pad_left width s = replicate (width - utf8_chars s) CHR '' '' @ s"

definition table_line :: "string \<Rightarrow> string \<Rightarrow> string \<Rightarrow> string \<Rightarrow> string \<Rightarrow> string" where
  "table_line name index ipv4 netmask mac =
     pad_right 16 name @ '' '' @ pad_left 6 index @ '' '' @ pad_right 15 ipv4 @ '' ''
     @ pad_right 15 netmask @ '' '' @ mac @ [newline]"

definition format_plain_columns_table :: "usable_interface_listing_row list \<Rightarrow> string" where
  "format_plain_columns_table entries =
     (if entries = [] then ''no usable interfaces found'' @ [newline]
      else table_line ''NAME'' ''INDEX'' ''IPV4'' ''NETMASK'' ''MAC''
        @ concat (map (\<lambda>e. table_line (uir_interface_name e) (show_nat (uir_interface_index e))
            (show_ipv4 (uir_ipv4_address e)) (show_ipv4 (uir_ipv4_netmask e))
            (show_mac (uir_mac_address e))) entries)
        @ [newline])"

record monitor_outcome =
  mo_report :: monitor_listen_outcome
  mo_interface_name :: string
  mo_elapsed :: duration

definition monitor_outcome_from_listen ::
    "string \<Rightarrow> duration \<Rightarrow> monitor_listen_outcome \<Rightarrow> monitor_outcome" where
  "monitor_outcome_from_listen interface_name elapsed report =
     \<lparr>mo_report = report, mo_interface_name = interface_name, mo_elapsed = elapsed\<rparr>"

datatype application_outcome =
    ScanOutcome scan_outcome
  | MonitorOutcome monitor_outcome
  | UsableInterfacesListOutcome "usable_interface_listing_row list"

section \<open>The monitor's report\<close>

definition write_opcode :: "'w writer \<Rightarrow> u16 \<Rightarrow> 'w io" where
  "write_opcode wr opcode =
     (if opcode = arp_operation_request then wr ''request''
      else if opcode = arp_operation_reply then wr ''reply''
      else wr (''opcode '' @ show_nat (unat opcode)))"

definition write_packet_line :: "'w writer \<Rightarrow> string \<Rightarrow> passive_arp_record \<Rightarrow> 'w io" where
  "write_packet_line wr label r =
     io_then (wr (label @ '': ''))
    (io_then (write_opcode wr (par_opcode r))
     (writeln wr ('' '' @ show_ipv4 (par_sender_protocol r) @ '' is-at ''
        @ show_mac (par_sender_hardware r) @ '' target '' @ show_mac (par_target_hardware r) @ '' ''
        @ show_ipv4 (par_target_protocol r) @ '' count '' @ show_nat (par_count r))))"

definition write_claimed_hardware_addresses :: "'w writer \<Rightarrow> mac_address list \<Rightarrow> 'w io" where
  "write_claimed_hardware_addresses wr ms =
     (case ms of
        [] \<Rightarrow> io_done
      | [only] \<Rightarrow> io_done
      | [first, second] \<Rightarrow> wr (show_mac first @ '' and '' @ show_mac second)
      | first # others \<Rightarrow>
          io_then (wr (show_mac first))
         (io_then (io_each (\<lambda>m. wr ('', '' @ show_mac m)) (butlast others))
          (wr ('', and '' @ show_mac (last others)))))"

definition write_monitor_stdout :: "monitor_listen_outcome \<Rightarrow> 'w writer \<Rightarrow> 'w io" where
  "write_monitor_stdout outcome wr =
     io_then (io_each (\<lambda>r. if par_classification r = Conflict
         then write_packet_line wr ''conflict'' r else io_done) (mlo_records outcome))
    (io_then (io_each (\<lambda>r. if par_classification r = Observed
         then write_packet_line wr ''observed'' r else io_done) (mlo_records outcome))
    (io_then (io_each (\<lambda>c.
         io_then (wr (''duplicate-ip: '' @ show_ipv4 (dic_protocol_address c) @ '' claimed by ''))
        (io_then (write_claimed_hardware_addresses wr (dic_hardware_addresses c))
         (writeln wr ('' count '' @ show_nat (length (dic_hardware_addresses c))))))
       (mlo_duplicate_ip_claims outcome))
     (if \<not> (\<exists>r \<in> set (mlo_records outcome). par_classification r = Conflict)
      then writeln wr ''no conflicts observed'' else io_done)))"

definition counted_noun :: "nat \<Rightarrow> string \<Rightarrow> string \<Rightarrow> string" where
  "counted_noun n singular plural = (if n = 1 then singular else plural)"

definition monitor_completion_summary :: "string \<Rightarrow> monitor_listen_outcome \<Rightarrow> duration \<Rightarrow> string" where
  "monitor_completion_summary interface_name outcome elapsed =
     (let conflict_count = length (filter (\<lambda>r. par_classification r = Conflict) (mlo_records outcome));
          observation_count = length (filter (\<lambda>r. par_classification r = Observed) (mlo_records outcome));
          duplicate_count = length (mlo_duplicate_ip_claims outcome) in
      ''monitor complete: interface '' @ interface_name @ '', ''
      @ show_nat conflict_count @ '' '' @ counted_noun conflict_count ''conflict'' ''conflicts'' @ '', ''
      @ show_nat observation_count @ '' ''
      @ counted_noun observation_count ''observation'' ''observations'' @ '', ''
      @ show_nat duplicate_count @ '' ''
      @ counted_noun duplicate_count ''duplicate-ip claim'' ''duplicate-ip claims'' @ '', ''
      @ show_nat (elapsed_milliseconds_saturating elapsed) @ '' ms'')"

definition write_monitor_stderr ::
    "monitor_listen_outcome \<Rightarrow> string \<Rightarrow> duration \<Rightarrow> 'w writer \<Rightarrow> 'w io" where
  "write_monitor_stderr outcome interface_name elapsed wr =
     io_then (io_each (\<lambda>x. writeln wr (''warning: '' @ x)) (mlo_warnings outcome))
     (writeln wr (monitor_completion_summary interface_name outcome elapsed))"

section \<open>The operator streams\<close>

definition format_discovered_host_line :: "mac_vendor_registry option \<Rightarrow> discovered_host \<Rightarrow> string" where
  "format_discovered_host_line registry host =
     (case registry of
        None \<Rightarrow> show_ipv4 (dh_ipv4_address host) @ '' '' @ show_mac (dh_mac_address host)
      | Some r \<Rightarrow>
          let vendor = (case vendor_name_for r (dh_mac_address host) of
                 None \<Rightarrow> unknown_mac_vendor_name | Some v \<Rightarrow> v) in
          show_ipv4 (dh_ipv4_address host) @ '' '' @ show_mac (dh_mac_address host) @ '' '' @ vendor)"

definition write_operator_streams_with_mac_vendor_registry ::
    "application_outcome \<Rightarrow> 'w writer \<Rightarrow> 'w writer \<Rightarrow> mac_vendor_registry option \<Rightarrow> 'w io" where
  "write_operator_streams_with_mac_vendor_registry outcome out err registry =
     (case outcome of
        ScanOutcome scan \<Rightarrow>
          io_then (io_each (\<lambda>x. writeln err (''warning: '' @ x)) (so_warnings scan))
         (io_then (if so_discovered_hosts scan = [] then writeln out ''no hosts found''
                   else io_each (\<lambda>h. writeln out (format_discovered_host_line registry h))
                     (so_discovered_hosts scan))
          (case so_timing_summary scan of
             None \<Rightarrow> io_done
           | Some s \<Rightarrow> writeln err (format_stderr_timing_summary_line s)))
      | UsableInterfacesListOutcome entries \<Rightarrow> out (format_plain_columns_table entries)
      | MonitorOutcome m \<Rightarrow>
          io_then (write_monitor_stdout (mo_report m) out)
          (write_monitor_stderr (mo_report m) (mo_interface_name m) (mo_elapsed m) err))"

definition write_operator_streams ::
    "application_outcome \<Rightarrow> 'w writer \<Rightarrow> 'w writer \<Rightarrow> 'w io" where
  "write_operator_streams outcome out err =
     write_operator_streams_with_mac_vendor_registry outcome out err None"

section \<open>What is written\<close>

text \<open>
  \<open>io_writes ocont econt a os es\<close>: the output \<open>a\<close> appends \<open>os\<close> to standard output and \<open>es\<close> to
  standard error, and when it fails it has appended a part from the start of each.
\<close>

definition io_writes :: "('w \<Rightarrow> string) \<Rightarrow> ('w \<Rightarrow> string) \<Rightarrow> 'w io \<Rightarrow> string \<Rightarrow> string \<Rightarrow> bool" where
  "io_writes ocont econt a os es \<longleftrightarrow>
     (\<forall>w r w'. a w = (r, w') \<longrightarrow>
        (\<exists>p q. ocont w' = ocont w @ p \<and> econt w' = econt w @ q
           \<and> (if is_ok r then p = os \<and> q = es else prefix p os \<and> prefix q es)))"

lemma io_writes_done: "io_writes oc ec io_done [] []"
  by (simp add: io_writes_def io_done_def)

lemma io_writes_then:
  assumes "io_writes oc ec a o1 e1" and "io_writes oc ec b o2 e2"
  shows "io_writes oc ec (io_then a b) (o1 @ o2) (e1 @ e2)"
  unfolding io_writes_def
proof (intro allI impI)
  fix w r w'
  assume run: "io_then a b w = (r, w')"
  obtain r1 w1 where a: "a w = (r1, w1)" by fastforce
  then obtain p1 q1 where 1: "oc w1 = oc w @ p1" "ec w1 = ec w @ q1"
    "if is_ok r1 then p1 = o1 \<and> q1 = e1 else prefix p1 o1 \<and> prefix q1 e1"
    using assms(1) unfolding io_writes_def by blast
  show "\<exists>p q. oc w' = oc w @ p \<and> ec w' = ec w @ q
      \<and> (if is_ok r then p = o1 @ o2 \<and> q = e1 @ e2 else prefix p (o1 @ o2) \<and> prefix q (e1 @ e2))"
  proof (cases r1)
    case (Inl e)
    then have "r = Inl e" "w' = w1" using run a by (simp_all add: io_then_def)
    then show ?thesis using 1 Inl by (auto intro: prefix_append [THEN iffD2] prefixI simp: prefix_def)
  next
    case (Inr u)
    then have "b w1 = (r, w')" using run a by (simp add: io_then_def)
    then obtain p2 q2 where 2: "oc w' = oc w1 @ p2" "ec w' = ec w1 @ q2"
      "if is_ok r then p2 = o2 \<and> q2 = e2 else prefix p2 o2 \<and> prefix q2 e2"
      using assms(2) unfolding io_writes_def by blast
    then show ?thesis using 1 Inr by (auto split: if_splits)
  qed
qed

lemma concat_none [simp]: "concat (map (\<lambda>_. []) xs) = []"
  by (induction xs) auto

lemma io_writes_each:
  assumes "\<And>x. x \<in> set xs \<Longrightarrow> io_writes oc ec (f x) (g x) (h x)"
  shows "io_writes oc ec (io_each f xs) (concat (map g xs)) (concat (map h xs))"
  using assms by (induction xs) (simp_all add: io_writes_done io_writes_then)

text \<open>
  Two writers into one world: each appends to its own stream only, all of the text when it reports
  success and otherwise some of it, from the start.
\<close>

locale operator_streams =
  fixes out :: "'w writer" and err :: "'w writer"
    and ocont :: "'w \<Rightarrow> string" and econt :: "'w \<Rightarrow> string"
  assumes out_writes: "io_writes ocont econt (out s) s []"
    and err_writes: "io_writes ocont econt (err s) [] s"
begin

lemma writeln_out: "io_writes ocont econt (writeln out s) (s @ [newline]) []"
  by (simp add: writeln_def out_writes)

lemma writeln_err: "io_writes ocont econt (writeln err s) [] (s @ [newline])"
  by (simp add: writeln_def err_writes)

lemma each_out:
  assumes "\<And>x. x \<in> set xs \<Longrightarrow> io_writes ocont econt (f x) (g x) []"
  shows "io_writes ocont econt (io_each f xs) (concat (map g xs)) []"
  using io_writes_each [of xs ocont econt f g "\<lambda>_. []"] assms by simp

lemma each_err:
  assumes "\<And>x. x \<in> set xs \<Longrightarrow> io_writes ocont econt (f x) [] (h x)"
  shows "io_writes ocont econt (io_each f xs) [] (concat (map h xs))"
  using io_writes_each [of xs ocont econt f "\<lambda>_. []" h] assms by simp

lemma then_out:
  "io_writes ocont econt a o1 [] \<Longrightarrow> io_writes ocont econt b o2 []
     \<Longrightarrow> io_writes ocont econt (io_then a b) (o1 @ o2) []"
  using io_writes_then [of ocont econt a o1 "[]" b o2 "[]"] by simp

end

text \<open>The text of each line.\<close>

definition opcode_text :: "u16 \<Rightarrow> string" where
  "opcode_text opcode = (if opcode = 1 then ''request'' else if opcode = 2 then ''reply''
     else ''opcode '' @ show_nat (unat opcode))"

definition packet_line :: "string \<Rightarrow> passive_arp_record \<Rightarrow> string" where
  "packet_line label r =
     label @ '': '' @ opcode_text (par_opcode r) @ '' '' @ show_ipv4 (par_sender_protocol r) @ '' is-at ''
     @ show_mac (par_sender_hardware r) @ '' target '' @ show_mac (par_target_hardware r) @ '' ''
     @ show_ipv4 (par_target_protocol r) @ '' count '' @ show_nat (par_count r) @ [newline]"

fun enumeration :: "string list \<Rightarrow> string" where
  "enumeration [a, b] = a @ '' and '' @ b"
| "enumeration (a # b # c # ss) =
     a @ concat (map (\<lambda>s. '', '' @ s) (butlast (b # c # ss))) @ '', and '' @ last (b # c # ss)"
| "enumeration _ = []"

definition claim_line :: "duplicate_ip_claim \<Rightarrow> string" where
  "claim_line c =
     ''duplicate-ip: '' @ show_ipv4 (dic_protocol_address c) @ '' claimed by ''
     @ enumeration (map show_mac (dic_hardware_addresses c))
     @ '' count '' @ show_nat (length (dic_hardware_addresses c)) @ [newline]"

definition monitor_report_text :: "monitor_listen_outcome \<Rightarrow> string" where
  "monitor_report_text m =
     concat (map (packet_line ''conflict'') (filter (\<lambda>r. par_classification r = Conflict) (mlo_records m)))
     @ concat (map (packet_line ''observed'') (filter (\<lambda>r. par_classification r = Observed) (mlo_records m)))
     @ concat (map claim_line (mlo_duplicate_ip_claims m))
     @ (if \<exists>r \<in> set (mlo_records m). par_classification r = Conflict then []
        else ''no conflicts observed'' @ [newline])"

definition warning_text :: "string list \<Rightarrow> string" where
  "warning_text warnings = concat (map (\<lambda>x. ''warning: '' @ x @ [newline]) warnings)"

fun stdout_text :: "mac_vendor_registry option \<Rightarrow> application_outcome \<Rightarrow> string" where
  "stdout_text registry (ScanOutcome scan) =
     (if so_discovered_hosts scan = [] then ''no hosts found'' @ [newline]
      else concat (map (\<lambda>h. format_discovered_host_line registry h @ [newline]) (so_discovered_hosts scan)))"
| "stdout_text registry (MonitorOutcome m) = monitor_report_text (mo_report m)"
| "stdout_text registry (UsableInterfacesListOutcome entries) = format_plain_columns_table entries"

fun stderr_text :: "application_outcome \<Rightarrow> string" where
  "stderr_text (ScanOutcome scan) =
     warning_text (so_warnings scan)
     @ (case so_timing_summary scan of None \<Rightarrow> []
        | Some s \<Rightarrow> format_stderr_timing_summary_line s @ [newline])"
| "stderr_text (MonitorOutcome m) =
     warning_text (mlo_warnings (mo_report m))
     @ monitor_completion_summary (mo_interface_name m) (mo_report m) (mo_elapsed m) @ [newline]"
| "stderr_text (UsableInterfacesListOutcome entries) = []"

section \<open>The printing routines write their texts\<close>

lemma concat_filter_map:
  "concat (map (\<lambda>x. if P x then f x else []) xs) = concat (map f (filter P xs))"
  by (induction xs) auto

context operator_streams
begin

lemma packet_line_writes:
  "io_writes ocont econt (write_packet_line out label r) (packet_line label r) []"
proof -
  have "io_writes ocont econt (write_opcode out (par_opcode r)) (opcode_text (par_opcode r)) []"
    by (simp add: write_opcode_def opcode_text_def out_writes arp_operation_request_def
        arp_operation_reply_def)
  from then_out [OF out_writes then_out [OF this writeln_out]] show ?thesis
    unfolding write_packet_line_def by (rule back_subst) (simp add: packet_line_def)
qed

lemma hardware_addresses_writes:
  "io_writes ocont econt (write_claimed_hardware_addresses out ms) (enumeration (map show_mac ms)) []"
proof -
  consider "ms = []" | a where "ms = [a]" | a b where "ms = [a, b]" | a b c ds where "ms = a # b # c # ds"
    by (metis neq_Nil_conv)
  then show ?thesis
  proof cases
    case 4
    have "io_writes ocont econt (io_each (\<lambda>m. out ('', '' @ show_mac m)) xs)
        (concat (map (\<lambda>m. '', '' @ show_mac m) xs)) []" for xs
      by (rule each_out) (rule out_writes)
    from then_out [OF out_writes then_out [OF this out_writes]] show ?thesis
      unfolding write_claimed_hardware_addresses_def 4
      by (simp only: list.case) (rule back_subst, assumption,
        simp add: map_butlast [symmetric] last_map comp_def)
  qed (simp_all add: write_claimed_hardware_addresses_def io_writes_done out_writes)
qed

lemma monitor_stdout_writes:
  "io_writes ocont econt (write_monitor_stdout m out) (monitor_report_text m) []"
proof -
  have packets: "io_writes ocont econt (io_each (\<lambda>r. if par_classification r = c
      then write_packet_line out label r else io_done) rs)
      (concat (map (packet_line label) (filter (\<lambda>r. par_classification r = c) rs))) []" for c label rs
    unfolding concat_filter_map [symmetric]
    by (rule each_out) (simp add: packet_line_writes io_writes_done)
  have claims: "io_writes ocont econt (io_each (\<lambda>c.
         io_then (out (''duplicate-ip: '' @ show_ipv4 (dic_protocol_address c) @ '' claimed by ''))
        (io_then (write_claimed_hardware_addresses out (dic_hardware_addresses c))
         (writeln out ('' count '' @ show_nat (length (dic_hardware_addresses c)))))) cs)
      (concat (map claim_line cs)) []" for cs
  proof (rule each_out)
    fix c
    from then_out [OF out_writes then_out [OF hardware_addresses_writes writeln_out]]
    show "io_writes ocont econt (io_then (out (''duplicate-ip: '' @ show_ipv4 (dic_protocol_address c) @ '' claimed by ''))
        (io_then (write_claimed_hardware_addresses out (dic_hardware_addresses c))
         (writeln out ('' count '' @ show_nat (length (dic_hardware_addresses c)))))) (claim_line c) []"
      by (rule back_subst) (simp add: claim_line_def)
  qed
  have verdict: "io_writes ocont econt (if \<not> (\<exists>r \<in> set (mlo_records m). par_classification r = Conflict)
      then writeln out ''no conflicts observed'' else io_done)
      (if \<exists>r \<in> set (mlo_records m). par_classification r = Conflict then []
        else ''no conflicts observed'' @ [newline]) []"
    by (cases "\<exists>r \<in> set (mlo_records m). par_classification r = Conflict")
      (simp_all only: simp_thms if_True if_False writeln_out io_writes_done)
  show ?thesis
    unfolding write_monitor_stdout_def monitor_report_text_def
    by (intro then_out packets claims verdict)
qed

lemma warnings_write:
  "io_writes ocont econt (io_each (\<lambda>x. writeln err (''warning: '' @ x)) ws) [] (warning_text ws)"
  unfolding warning_text_def writeln_def by (rule each_err) (unfold append_assoc, rule err_writes)

lemma then_err:
  "io_writes ocont econt a o1 e1 \<Longrightarrow> io_writes ocont econt b [] e2
     \<Longrightarrow> io_writes ocont econt (io_then a b) o1 (e1 @ e2)"
  using io_writes_then [of ocont econt a o1 e1 b "[]" e2] by simp

lemma streams_write:
  "io_writes ocont econt (write_operator_streams_with_mac_vendor_registry outcome out err registry)
     (stdout_text registry outcome) (stderr_text outcome)"
proof (cases outcome)
  case (ScanOutcome scan)
  have hosts: "io_writes ocont econt (if so_discovered_hosts scan = [] then writeln out ''no hosts found''
      else io_each (\<lambda>h. writeln out (format_discovered_host_line registry h)) (so_discovered_hosts scan))
      (stdout_text registry outcome) []"
    unfolding ScanOutcome stdout_text.simps
    by (cases "so_discovered_hosts scan = []")
      (simp_all only: simp_thms if_True if_False writeln_out each_out [OF writeln_out])
  have summary: "io_writes ocont econt (case so_timing_summary scan of None \<Rightarrow> io_done
        | Some s \<Rightarrow> writeln err (format_stderr_timing_summary_line s))
      [] (case so_timing_summary scan of None \<Rightarrow> []
        | Some s \<Rightarrow> format_stderr_timing_summary_line s @ [newline])"
    by (simp add: io_writes_done writeln_err split: option.splits)
  from io_writes_then [OF warnings_write then_err [OF hosts summary]] show ?thesis
    unfolding ScanOutcome write_operator_streams_with_mac_vendor_registry_def by simp
next
  case (MonitorOutcome m)
  have "io_writes ocont econt (write_monitor_stderr (mo_report m) (mo_interface_name m) (mo_elapsed m) err)
      [] (stderr_text outcome)"
    unfolding write_monitor_stderr_def MonitorOutcome stderr_text.simps
    by (rule then_err [OF warnings_write writeln_err])
  from then_err [OF monitor_stdout_writes this] show ?thesis
    by (simp add: MonitorOutcome write_operator_streams_with_mac_vendor_registry_def)
next
  case (UsableInterfacesListOutcome entries)
  then show ?thesis
    by (simp add: write_operator_streams_with_mac_vendor_registry_def out_writes)
qed

end

section \<open>The writers of the source's tests\<close>

text \<open>
  A \<^verbatim>\<open>Vec<u8>\<close> takes everything; \<^verbatim>\<open>StandardOutputWriteAlwaysFails\<close> and its twin take nothing.
\<close>

record buffers =
  buf_out :: string
  buf_err :: string

definition vec_out :: "buffers writer" where
  "vec_out s w = (Inr (), w\<lparr>buf_out := buf_out w @ s\<rparr>)"

definition vec_err :: "buffers writer" where
  "vec_err s w = (Inr (), w\<lparr>buf_err := buf_err w @ s\<rparr>)"

definition standard_output_write_always_fails :: "buffers writer" where
  "standard_output_write_always_fails s w =
     (if s = [] then (Inr (), w)
      else (Inl \<lparr>io_kind = OtherKind, io_errno = None, io_text = ''fixture standard output failure''\<rparr>, w))"

definition standard_error_write_always_fails :: "buffers writer" where
  "standard_error_write_always_fails s w =
     (if s = [] then (Inr (), w)
      else (Inl \<lparr>io_kind = OtherKind, io_errno = None, io_text = ''fixture standard error failure''\<rparr>, w))"

lemmas buffer_writers = vec_out_def vec_err_def standard_output_write_always_fails_def
  standard_error_write_always_fails_def

interpretation buffered: operator_streams vec_out vec_err buf_out buf_err
  by unfold_locales (auto simp: io_writes_def buffer_writers)

interpretation failing: operator_streams standard_output_write_always_fails
    standard_error_write_always_fails buf_out buf_err
  by unfold_locales (auto simp: io_writes_def buffer_writers)

section \<open>Properties\<close>

text \<open>
  C34: over any two writers that append what they report as written, printing an outcome writes
  exactly its texts when it succeeds: the hosts, the table or the monitor's report on standard
  output, warnings and the summary on standard error. When it fails, what each stream received is
  the beginning of its text.
\<close>

theorem operator_output:
  assumes "operator_streams out err ocont econt"
    and "write_operator_streams_with_mac_vendor_registry outcome out err registry w = (r, w')"
  shows "\<exists>p q. ocont w' = ocont w @ p \<and> econt w' = econt w @ q
    \<and> (if is_ok r then p = stdout_text registry outcome \<and> q = stderr_text outcome
       else prefix p (stdout_text registry outcome) \<and> prefix q (stderr_text outcome))"
  using operator_streams.streams_write [OF assms(1)] assms(2) unfolding io_writes_def by blast

lemma operator_output_witness:
  "buf_out (snd (write_operator_streams_with_mac_vendor_registry
      (ScanOutcome \<lparr>so_discovered_hosts = [], so_warnings = [''w''], so_timing_summary = None\<rparr>)
      vec_out vec_err None \<lparr>buf_out = [], buf_err = []\<rparr>)) = ''no hosts found'' @ [newline]"
proof -
  let ?o = "ScanOutcome \<lparr>so_discovered_hosts = [], so_warnings = [''w''], so_timing_summary = None\<rparr>"
  obtain r w' where run: "write_operator_streams_with_mac_vendor_registry ?o vec_out vec_err None
      \<lparr>buf_out = [], buf_err = []\<rparr> = (r, w')" by fastforce
  moreover have "is_ok r"
    using run by (auto simp: write_operator_streams_with_mac_vendor_registry_def io_then_def
        io_done_def writeln_def buffer_writers)
  ultimately show ?thesis
    using operator_output [OF buffered.operator_streams_axioms run] by auto
qed

lemma show_nat_last: "\<exists>p d. d < 10 \<and> show_nat n = p @ [digit_char d]"
proof (cases "n < 10")
  case True
  then show ?thesis by (intro exI [of _ "[]"] exI [of _ n]) (simp add: show_nat.simps [of n])
next
  case False
  then show ?thesis
    by (intro exI [of _ "show_nat (n div 10)"] exI [of _ "n mod 10"]) (simp add: show_nat.simps [of n])
qed

definition counted_line :: "string \<Rightarrow> bool" where
  "counted_line s \<longleftrightarrow> (\<exists>p d. d < 10 \<and> s = p @ [digit_char d, newline])"

lemma counted_lineI: "counted_line (q @ show_nat n @ [newline])"
proof -
  obtain p d where "d < 10" "show_nat n = p @ [digit_char d]" using show_nat_last by blast
  then show ?thesis by (auto simp: counted_line_def intro!: exI [of _ "q @ p"])
qed

lemma counted_line_packet: "counted_line (packet_line label r)"
  using counted_lineI [of "label @ '': '' @ opcode_text (par_opcode r) @ '' ''
      @ show_ipv4 (par_sender_protocol r) @ '' is-at '' @ show_mac (par_sender_hardware r) @ '' target ''
      @ show_mac (par_target_hardware r) @ '' '' @ show_ipv4 (par_target_protocol r) @ '' count ''"]
  by (simp only: packet_line_def append_assoc)

lemma counted_line_claim: "counted_line (claim_line c)"
  using counted_lineI [of "''duplicate-ip: '' @ show_ipv4 (dic_protocol_address c) @ '' claimed by ''
     @ enumeration (map show_mac (dic_hardware_addresses c)) @ '' count ''"]
  by (simp only: claim_line_def append_assoc)

lemma counted_lines_end:
  assumes "\<forall>s \<in> set ls. counted_line s" and "ls \<noteq> []"
  shows "counted_line (concat ls)"
proof -
  have "counted_line (last ls)" using assms by simp
  moreover have "concat ls = concat (butlast ls) @ last ls"
    using assms(2) by (induction ls) auto
  ultimately show ?thesis by (auto simp: counted_line_def)
qed

lemma counted_line_no_verdict: "counted_line s \<Longrightarrow> \<not> suffix (''no conflicts observed'' @ [newline]) s"
proof
  assume "counted_line s" and "suffix (''no conflicts observed'' @ [newline]) s"
  then obtain p q d where "d < 10" "p @ [digit_char d, newline] = q @ ''no conflicts observed'' @ [newline]"
    unfolding counted_line_def suffix_def by blast
  then have "butlast (p @ [digit_char d, newline]) = butlast (q @ ''no conflicts observed'' @ [newline])" by simp
  then have "digit_char d = CHR ''d''" by (simp add: butlast_append)
  then have "(of_char (digit_char d) :: nat) = of_char (CHR ''d'')" by simp
  then show False using \<open>d < 10\<close> by (simp add: digit_char_def)
qed

lemma verdict_printed:
  "suffix (''no conflicts observed'' @ [newline]) (monitor_report_text m) \<longleftrightarrow>
     (\<forall>r \<in> set (mlo_records m). par_classification r \<noteq> Conflict)"
proof (cases "\<exists>r \<in> set (mlo_records m). par_classification r = Conflict")
  case True
  let ?ls = "map (packet_line ''conflict'') (filter (\<lambda>r. par_classification r = Conflict) (mlo_records m))
    @ map (packet_line ''observed'') (filter (\<lambda>r. par_classification r = Observed) (mlo_records m))
    @ map claim_line (mlo_duplicate_ip_claims m)"
  have "monitor_report_text m = concat ?ls" using True by (simp add: monitor_report_text_def)
  moreover have "counted_line (concat ?ls)"
    by (rule counted_lines_end)
      (use True in \<open>auto simp: counted_line_packet counted_line_claim filter_empty_conv\<close>)
  ultimately show ?thesis using counted_line_no_verdict True by simp
next
  case False
  have "monitor_report_text m = concat (map (packet_line ''conflict'') (filter (\<lambda>r. par_classification r = Conflict) (mlo_records m)))
     @ concat (map (packet_line ''observed'') (filter (\<lambda>r. par_classification r = Observed) (mlo_records m)))
     @ concat (map claim_line (mlo_duplicate_ip_claims m)) @ ''no conflicts observed'' @ [newline]"
    unfolding monitor_report_text_def by (simp only: False if_False)
  then show ?thesis using False by (auto simp: suffix_def)
qed


lemma example_reply_identity:
  "List.map_filter (frame_identity (MacAddress 2 0 0 0 0 1) {0x0A000003}) (se_inbound example_world) =
     [PacketIdentity 2 (MacAddress 2 0 0 0 0 9) 0x0A000003 mac_zero 0x0A000001]"
proof -
  let ?l = "(rfc_826_ethernet_ii (MacAddress 2 0 0 0 0 9) 0x0A000003 0x0A000001)\<lparr>rl_opcode := 2\<rparr>"
  have "layout_frameable ?l"
    by (simp add: layout_frameable_def rfc_826_ethernet_ii_def opt_stack_wf_def)
  from parse_arp_of_request [OF this]
  have "try_parse_arp (encode_request_from_layout ?l) = Ok \<lparr>pa_opcode = 2, pa_sender_protocol = 0x0A000003,
      pa_sender_hardware = MacAddress 2 0 0 0 0 9, pa_target_hardware = mac_zero,
      pa_target_protocol = 0x0A000001\<rparr>"
    by (simp add: rfc_826_ethernet_ii_def arp_hardware_type_ethernet_def protocol_ipv4_def
        arp_ethernet_hardware_address_length_def arp_ipv4_protocol_address_length_def)
  then show ?thesis
    by (simp add: example_world_def frame_identity_def List.map_filter_def)
qed


section \<open>The interface table\<close>

lemma utf8_chars_append [simp]: "utf8_chars (s @ t) = utf8_chars s + utf8_chars t"
  by (simp add: utf8_chars_def)

lemma utf8_chars_blank [simp]: "utf8_chars [] = 0" "utf8_chars (CHR '' '' # s) = Suc (utf8_chars s)"
  by (simp_all add: utf8_chars_def)

lemma utf8_chars_blanks [simp]: "utf8_chars (replicate n CHR '' '') = n"
  by (simp add: utf8_chars_def filter_replicate)

lemma utf8_chars_pad [simp]:
  "utf8_chars (pad_right n s) = max n (utf8_chars s)" "utf8_chars (pad_left n s) = max n (utf8_chars s)"
  by (simp_all add: pad_right_def pad_left_def)

lemma utf8_chars_le: "utf8_chars s \<le> length s"
  by (simp add: utf8_chars_def)

lemma length_show_nat: "n < 10 ^ Suc k \<Longrightarrow> length (show_nat n) \<le> Suc k"
proof (induction k arbitrary: n)
  case (Suc k)
  have "n div 10 < 10 ^ Suc k" using Suc.prems by auto
  then show ?case using Suc.IH [of "n div 10"] by (subst show_nat.simps) auto
qed (simp add: show_nat.simps)

lemma length_show_ipv4: "length (show_ipv4 a) \<le> 15"
proof -
  have "length (show_nat (unat (x :: u8))) \<le> 3" for x
    using length_show_nat [of "unat x" 2] unat_u8_lt [of x] by simp
  from this [of "ipv4_octets a ! 0"] this [of "ipv4_octets a ! 1"] this [of "ipv4_octets a ! 2"]
    this [of "ipv4_octets a ! 3"]
  show ?thesis by (simp add: show_ipv4_def Let_def)
qed

text \<open>A line whose last three columns start at the characters 24, 40 and 56.\<close>

definition aligned_line :: "string \<Rightarrow> string \<times> string \<times> string \<Rightarrow> bool" where
  "aligned_line l cells \<longleftrightarrow> (case cells of (ipv4, netmask, mac) \<Rightarrow>
     \<exists>a b c. l = a @ ipv4 @ b @ netmask @ c @ mac @ [newline]
       \<and> utf8_chars a = 24 \<and> utf8_chars (a @ ipv4 @ b) = 40
       \<and> utf8_chars (a @ ipv4 @ b @ netmask @ c) = 56)"

lemma table_line_aligned:
  assumes "utf8_chars name \<le> 16" "utf8_chars index \<le> 6" "utf8_chars ipv4 \<le> 15" "utf8_chars netmask \<le> 15"
  shows "aligned_line (table_line name index ipv4 netmask mac) (ipv4, netmask, mac)"
proof -
  let ?a = "pad_right 16 name @ '' '' @ pad_left 6 index @ '' ''"
  let ?b = "replicate (15 - utf8_chars ipv4) CHR '' '' @ '' ''"
  let ?c = "replicate (15 - utf8_chars netmask) CHR '' '' @ '' ''"
  have "table_line name index ipv4 netmask mac = ?a @ ipv4 @ ?b @ netmask @ ?c @ mac @ [newline]"
    by (simp add: table_line_def pad_right_def)
  moreover have "utf8_chars ?a = 24" using assms by simp
  moreover from this have "utf8_chars (?a @ ipv4 @ ?b) = 40" using assms by simp
  moreover from this have "utf8_chars (?a @ ipv4 @ ?b @ netmask @ ?c) = 56" using assms by simp
  ultimately show ?thesis unfolding aligned_line_def by blast
qed

definition listing_cells :: "usable_interface_listing_row \<Rightarrow> string \<times> string \<times> string" where
  "listing_cells e =
     (show_ipv4 (uir_ipv4_address e), show_ipv4 (uir_ipv4_netmask e), show_mac (uir_mac_address e))"

text \<open>
  In the interface table every column is aligned: the header and the line of each interface,
  as long as no name has more than 16 characters and no index more than six digits, give the IPv4
  address at column 24, the netmask at column 40 and the hardware address at column 56; one blank
  line ends the table.
\<close>

theorem interface_table_aligned:
  assumes "entries \<noteq> []"
    and "\<forall>e \<in> set entries. utf8_chars (uir_interface_name e) \<le> 16 \<and> uir_interface_index e < 1000000"
  shows "\<exists>lines. format_plain_columns_table entries = concat lines @ [newline]
    \<and> list_all2 aligned_line lines ((''IPV4'', ''NETMASK'', ''MAC'') # map listing_cells entries)"
proof -
  let ?row = "\<lambda>e. table_line (uir_interface_name e) (show_nat (uir_interface_index e))
    (show_ipv4 (uir_ipv4_address e)) (show_ipv4 (uir_ipv4_netmask e)) (show_mac (uir_mac_address e))"
  let ?header = "table_line ''NAME'' ''INDEX'' ''IPV4'' ''NETMASK'' ''MAC''"
  have "aligned_line (?row e) (listing_cells e)" if "e \<in> set entries" for e
    unfolding listing_cells_def
    using that assms(2) length_show_nat [of "uir_interface_index e" 5] utf8_chars_le
      length_show_ipv4
    by (intro table_line_aligned) (auto intro: order_trans [OF utf8_chars_le])
  then have "list_all2 aligned_line (map ?row entries) (map listing_cells entries)"
    by (simp add: list_all2_conv_all_nth)
  moreover have "aligned_line ?header (''IPV4'', ''NETMASK'', ''MAC'')"
    by (rule table_line_aligned) (simp_all add: utf8_chars_def)
  moreover have "format_plain_columns_table entries = concat (?header # map ?row entries) @ [newline]"
    using assms(1) by (simp add: format_plain_columns_table_def)
  ultimately show ?thesis by (intro exI [of _ "?header # map ?row entries"]) simp
qed

lemma interface_table_aligned_witness:
  "\<exists>lines. format_plain_columns_table [\<lparr>uir_interface_name = ''eth0'', uir_interface_index = 2,
      uir_ipv4_address = 0x0A000001, uir_ipv4_netmask = 0xFFFFFF00, uir_mac_address = mac_zero\<rparr>]
     = concat lines @ [newline] \<and> length lines = 2"
  using interface_table_aligned [of "[\<lparr>uir_interface_name = ''eth0'', uir_interface_index = 2,
      uir_ipv4_address = 0x0A000001, uir_ipv4_netmask = 0xFFFFFF00, uir_mac_address = mac_zero\<rparr>]"]
  by (auto simp: utf8_chars_def dest!: list_all2_lengthD)

end
