(* ===== verification/Application_Run.thy ===== *)
theory Application_Run
  imports Linux_Backend Operator_Output
begin

text \<open>
  \<^verbatim>\<open>src/lib.rs\<close> on Linux: the dispatch of a command, with the checks that come before the first
  system call, the choice of the interface, and the timing of the run. \<^verbatim>\<open>Instant::now\<close> and
  \<^verbatim>\<open>elapsed\<close> are the clock's readings and their difference.
\<close>

section \<open>Dispatch\<close>

definition instant_now :: "'w clock \<Rightarrow> ('w, stop, timestamp) op" where
  "instant_now ck w = (case ck_now ck w of (n, w) \<Rightarrow> (Inr n, w))"

definition run_passive_arp_monitor ::
    "nat \<Rightarrow> nat \<Rightarrow> nat \<Rightarrow> 'w linux_kernel \<Rightarrow> 'w clock \<Rightarrow> string option \<Rightarrow> duration
     \<Rightarrow> ('w, stop, application_outcome) op" where
  "run_passive_arp_monitor fuel drain_fuel receive_fuel k ck interface_name timeout =
     op_then (op_map_err Failed (monitor_deadline ck timeout)) (\<lambda>_.
     op_then (op_map_err Failed (op_lift (case interface_name of None \<Rightarrow> Ok ()
       | Some name \<Rightarrow> validate_interface_name_for_linux_packet_socket name))) (\<lambda>_.
     op_then (op_map_err Failed (resolve_scan_interface_name k interface_name)) (\<lambda>resolved.
     op_then (instant_now ck) (\<lambda>started.
     op_then (perform_passive_arp_monitor fuel drain_fuel receive_fuel k ck resolved timeout) (\<lambda>report.
     op_then (instant_now ck) (\<lambda>ended.
     op_return (MonitorOutcome
       (monitor_outcome_from_listen resolved (ck_since ck ended started) report))))))))"

definition run_address_resolution_scan ::
    "nat \<Rightarrow> nat \<Rightarrow> nat \<Rightarrow> (f64 \<Rightarrow> nat \<Rightarrow> f64) \<Rightarrow> 'w linux_kernel \<Rightarrow> 'w clock \<Rightarrow> string option
     \<Rightarrow> ipv4 option \<Rightarrow> duration \<Rightarrow> duration \<Rightarrow> nat \<Rightarrow> scan_wire_options
     \<Rightarrow> rate_limited_scan_timing option \<Rightarrow> ('w, stop, application_outcome) op" where
  "run_address_resolution_scan fuel drain_fuel receive_fuel pw k ck interface_name target timeout pacing
       attempts wire rate_limit =
     op_then (op_map_err Failed (op_lift (validate_ieee_8021q_tag_stack wire))) (\<lambda>_.
     op_then (op_map_err Failed (op_lift (validate_ieee_8023_mac_client_data wire))) (\<lambda>_.
     op_then (op_map_err Failed (op_lift
       (validate_scan_timing_before_socket pw timeout pacing attempts wire rate_limit))) (\<lambda>_.
     op_then (op_map_err Failed (op_lift (case interface_name of None \<Rightarrow> Ok ()
       | Some name \<Rightarrow> validate_interface_name_for_linux_packet_socket name))) (\<lambda>_.
     op_then (op_map_err Failed (resolve_scan_interface_name k interface_name)) (\<lambda>resolved.
     op_then (instant_now ck) (\<lambda>started.
     op_then (case target of
         Some target_ipv4_address \<Rightarrow> perform_arp_probe fuel drain_fuel receive_fuel pw k ck resolved
           target_ipv4_address timeout pacing attempts wire rate_limit
       | None \<Rightarrow> perform_arp_scan fuel drain_fuel receive_fuel pw k ck resolved timeout pacing attempts
           wire rate_limit) (\<lambda>outcome.
     op_then (instant_now ck) (\<lambda>ended.
     op_return (ScanOutcome
       (with_scan_timing_summary outcome resolved (ck_since ck ended started) attempts))))))))))"

definition listing_row_of_candidate :: "arp_scan_interface_candidate \<Rightarrow> usable_interface_listing_row" where
  "listing_row_of_candidate c =
     \<lparr>uir_interface_name = cand_interface_name c, uir_interface_index = cand_interface_index c,
      uir_ipv4_address = cand_source_ipv4_address c, uir_ipv4_netmask = cand_ipv4_netmask c,
      uir_mac_address = cand_source_mac_address c\<rparr>"

definition usable_interfaces_outcome_from_candidates ::
    "arp_scan_interface_candidate list \<Rightarrow> application_outcome" where
  "usable_interfaces_outcome_from_candidates candidates =
     UsableInterfacesListOutcome (map listing_row_of_candidate candidates)"

fun run ::
    "nat \<Rightarrow> nat \<Rightarrow> nat \<Rightarrow> (f64 \<Rightarrow> nat \<Rightarrow> f64) \<Rightarrow> 'w linux_kernel \<Rightarrow> 'w clock \<Rightarrow> application_command
     \<Rightarrow> ('w, stop, application_outcome) op" where
  "run fuel drain_fuel receive_fuel pw k ck (Scan interface_name target timeout pacing attempts rate_limit wire) =
     run_address_resolution_scan fuel drain_fuel receive_fuel pw k ck interface_name target timeout
       pacing attempts wire rate_limit"
| "run fuel drain_fuel receive_fuel pw k ck (Application_Command.Monitor interface_name timeout) =
     run_passive_arp_monitor fuel drain_fuel receive_fuel k ck interface_name timeout"
| "run fuel drain_fuel receive_fuel pw k ck UsableInterfacesList =
     op_then (op_map_err Failed (enumerate_usable_arp_scan_interface_candidates k)) (\<lambda>candidates.
     op_return (usable_interfaces_outcome_from_candidates candidates))"

section \<open>The steps of a run\<close>

lemma instant_quiet: "clock_logs ck time events \<Longrightarrow> quiet_call time events (instant_now ck)"
  by (auto simp: quiet_call_def clock_logs_def instant_now_def monotonic_clock_def split: prod.splits)
    (meson le_trans)

text \<open>The checks of a scan that come before the first system call.\<close>

definition scan_checks ::
    "(f64 \<Rightarrow> nat \<Rightarrow> f64) \<Rightarrow> string option \<Rightarrow> duration \<Rightarrow> duration \<Rightarrow> nat \<Rightarrow> scan_wire_options
     \<Rightarrow> rate_limited_scan_timing option \<Rightarrow> app_error + unit" where
  "scan_checks pw interface_name timeout pacing attempts wire rate_limit =
     and_then (validate_ieee_8021q_tag_stack wire) (\<lambda>_.
     and_then (validate_ieee_8023_mac_client_data wire) (\<lambda>_.
     and_then (validate_scan_timing_before_socket pw timeout pacing attempts wire rate_limit) (\<lambda>_.
     case interface_name of None \<Rightarrow> Ok ()
     | Some name \<Rightarrow> validate_interface_name_for_linux_packet_socket name)))"

lemma run_scan_checks:
  "run_address_resolution_scan fuel dfuel rfuel pw k ck interface_name target timeout pacing attempts wire
     rate_limit w =
   (case scan_checks pw interface_name timeout pacing attempts wire rate_limit of
      Inl e \<Rightarrow> (Inl (Failed e), w)
    | Inr _ \<Rightarrow>
     op_then (op_map_err Failed (resolve_scan_interface_name k interface_name)) (\<lambda>resolved.
     op_then (instant_now ck) (\<lambda>started.
     op_then (case target of
         Some target_ipv4_address \<Rightarrow> perform_arp_probe fuel dfuel rfuel pw k ck resolved
           target_ipv4_address timeout pacing attempts wire rate_limit
       | None \<Rightarrow> perform_arp_scan fuel dfuel rfuel pw k ck resolved timeout pacing attempts
           wire rate_limit) (\<lambda>outcome.
     op_then (instant_now ck) (\<lambda>ended.
     op_return (ScanOutcome
       (with_scan_timing_summary outcome resolved (ck_since ck ended started) attempts)))))) w)"
  unfolding run_address_resolution_scan_def scan_checks_def op_map_lift
  by (cases "validate_ieee_8021q_tag_stack wire"; cases "validate_ieee_8023_mac_client_data wire";
      cases "validate_scan_timing_before_socket pw timeout pacing attempts wire rate_limit")
    (simp_all split: sum.split option.split)

text \<open>A clock reading and the return leave the log as it is.\<close>

lemma op_then_after:
  assumes "op_then m (\<lambda>x. op_then (instant_now ck) (\<lambda>ended. op_return (g x ended))) w = (r, w')"
    and "clock_logs ck time events"
  obtains q w1 where "m w = (q, w1)" "events w' = events w1"
    "\<forall>y. r = Inr y \<longrightarrow> (\<exists>x ended. q = Inr x \<and> y = g x ended)"
proof -
  obtain q w1 where m: "m w = (q, w1)" by fastforce
  obtain n w2 where now: "ck_now ck w1 = (n, w2)" by fastforce
  have "events w2 = events w1" using assms(2) now unfolding clock_logs_def by blast
  then show thesis
    using that [OF m] assms(1) m now
    by (cases q) (auto simp: op_then_def instant_now_def op_return_def)
qed

lemma op_then_before:
  assumes "op_then (op_map_err Failed m) (\<lambda>x. op_then (instant_now ck) (f x)) w = (r, w')"
    and "quiet_call time events m" and "clock_logs ck time events"
  obtains "events w' = events w" "\<exists>e. r = Inl e"
  | x w0 n w1 where "m w = (Inr x, w0)" "events w1 = events w" "f x n w1 = (r, w')"
proof -
  have "quiet_call time events (op_map_err Failed m)" by (intro quiet assms(2))
  from assms(1) this show thesis
  proof (cases rule: op_then_quiet)
    case (2 x w1)
    note x = 2(1,2)
    from 2(4) instant_quiet [OF assms(3)] show thesis
      by (cases rule: op_then_quiet) (use that x in \<open>fastforce\<close>)+
  qed (use that(1) in blast)
qed

lemma resolved_interface:
  assumes "quiescent_kernel k ioctl indexes pairs" and "resolve_scan_interface_name k name w = (Inr resolved, w')"
  shows "case name of Some n \<Rightarrow> resolved = n
     | None \<Rightarrow> \<exists>i. filter (\<lambda>p. usable_interface ioctl (fst p)) pairs = [(resolved, i)]"
proof (cases name)
  case (Some n)
  then show ?thesis
    using assms(2) by (auto simp: resolve_scan_interface_name_def op_then_eq_Ok op_return_def)
next
  case None
  let ?ps = "filter (\<lambda>p. usable_interface ioctl (fst p)) pairs"
  have "\<exists>c. map (candidate_of ioctl) (by_index ?ps) = [c] \<and> resolved = cand_interface_name c"
    using assms(2) None
    by (auto simp: resolve_scan_interface_name_def op_then_def enumerate_quiescent [OF assms(1)] op_lift_def
        split: list.splits)
  then obtain p where p: "by_index ?ps = [p]" "resolved = fst p"
    by (auto simp: candidate_of_def Let_def)
  have "mset (by_index ?ps) = mset ?ps" by (simp only: by_index_def mset_sort)
  then have "mset ?ps = {#p#}" unfolding p(1) by (simp only: mset.simps add_mset_add_single [symmetric])
  then have "?ps = [p]" by (simp only: mset_single_iff)
  then show ?thesis using None p(2) by (cases p) simp
qed

text \<open>A monitor run adds to the log only frames that it read.\<close>

lemma monitor_run_log:
  assumes "kernel_logs k time events" and "clock_logs ck time events"
    and "run_passive_arp_monitor fuel dfuel rfuel k ck name timeout w = (r, w')"
  shows "\<exists>fs. events w' = events w @ map Read fs"
proof -
  have quiets: "quiet_call time events (op_map_err Failed (monitor_deadline ck timeout))"
    "quiet_call time events (op_map_err Failed (op_lift (case name of None \<Rightarrow> Ok ()
       | Some n \<Rightarrow> validate_interface_name_for_linux_packet_socket n)))"
    by (intro quiet deadline_quiet assms(2))+
  from assms(3) [unfolded run_passive_arp_monitor_def] quiets(1) show ?thesis
  proof (cases rule: op_then_quiet)
    case (2 d w1)
    note w1 = 2(2)
    from 2(4) quiets(2) show ?thesis
    proof (cases rule: op_then_quiet)
      case (2 u w2)
      note w2 = 2(2)
      from 2(4) resolve_quiet [OF assms(1)] assms(2) show ?thesis
      proof (cases rule: op_then_before)
        case (2 resolved w3 started w4)
        from 2(3) assms(2) show ?thesis
          by (cases rule: op_then_after) (use listen_log [OF assms(1,2)] w1 w2 2(2) in fastforce)
      qed (use w1 w2 in \<open>auto intro: exI [of _ "[]"]\<close>)
    qed (use w1 in \<open>auto intro: exI [of _ "[]"]\<close>)
  qed (auto intro: exI [of _ "[]"])
qed

text \<open>The log and the hosts of a burst scan that succeeded.\<close>

lemma burst_scan_on_interface:
  assumes "kernel_logs k time events" and "clock_logs ck time events"
    and "quiescent_kernel k ioctl indexes pairs"
    and "perform_arp_scan fuel dfuel rfuel pw k ck name timeout pacing attempts wire None w = (Inr scan, w')"
    and "events w = []"
  obtains plan where "usable_interface ioctl name"
    "full_subnet_scan_plan (addresses_of ioctl name) = Ok plan"
    "map snd (sent_of (events w')) = concat (replicate attempts
      (map (request_frame (transmit_context (addresses_of ioctl name) wire)) (plan_targets plan)))"
    "map_of (host_pairs scan) = map_of (accepted_replies (plan_acceptance plan) (reads_of (events w')))"
  using assms(1,3,4)
proof (cases rule: scan_engine)
  case (2 s plan endpoint w1)
  have "events w1 = []" using 2(4) assms(5) by simp
  from timed_endpoint.burst_scan_events [OF linux_timed_endpoint [OF assms(1,2)] 2(5) _ this]
  show thesis using that 2(1,3) by (simp add: bt_get_map_of)
qed simp

section \<open>Properties\<close>

text \<open>
  Options that cannot be sent, a schedule that cannot be kept and an interface name that cannot
  be used are refused, in this order, before the first system call and before the clock is read: the
  world is as it was. So is a monitor timeout of zero.
\<close>

theorem run_rejects_before_any_call:
  "(case and_then (validate_ieee_8021q_tag_stack wire) (\<lambda>_.
        and_then (validate_ieee_8023_mac_client_data wire) (\<lambda>_.
        and_then (validate_scan_timing_before_socket pw timeout pacing attempts wire rate_limit) (\<lambda>_.
        case interface_name of None \<Rightarrow> Ok ()
        | Some name \<Rightarrow> validate_interface_name_for_linux_packet_socket name))) of
      Inl e \<Rightarrow> run fuel dfuel rfuel pw k ck
        (Scan interface_name target timeout pacing attempts rate_limit wire) w = (Inl (Failed e), w)
    | Inr _ \<Rightarrow> True)
   \<and> run fuel dfuel rfuel pw k ck (Application_Command.Monitor interface_name 0) w =
        (Inl (Failed MonitorTimeoutRejected), w)"
proof
  show "run fuel dfuel rfuel pw k ck (Application_Command.Monitor interface_name 0) w =
      (Inl (Failed MonitorTimeoutRejected), w)"
    by (simp add: run_passive_arp_monitor_def op_then_def op_map_err_def monitor_deadline_def)
qed (simp add: run_scan_checks scan_checks_def [symmetric] split: sum.split)

text \<open>
  Only a scan command whose options, schedule and interface name were accepted ever transmits: a
  monitor run, an interface listing and a refused scan leave the wire silent, whatever the kernel and
  the clock do.
\<close>

theorem only_accepted_scans_transmit:
  assumes "kernel_logs k time events" and "clock_logs ck time events"
    and "run fuel dfuel rfuel pw k ck command w = (r, w')"
    and "events w = []" and "sent_of (events w') \<noteq> []"
  shows "\<exists>name target timeout pacing attempts rate_limit wire schedule.
    command = Scan name target timeout pacing attempts rate_limit wire
    \<and> validate_ieee_8021q_tag_stack wire = Ok () \<and> validate_ieee_8023_mac_client_data wire = Ok ()
    \<and> validate_scan_timing_before_socket pw timeout pacing attempts wire rate_limit = Ok schedule
    \<and> (\<forall>n. name = Some n \<longrightarrow> validate_interface_name_for_linux_packet_socket n = Ok ())"
proof (cases command)
  case (Scan name target timeout pacing attempts rate_limit wire)
  show ?thesis
  proof (cases "scan_checks pw name timeout pacing attempts wire rate_limit")
    case (Inl e)
    then show ?thesis using assms(3,4,5) Scan by (simp add: run_scan_checks)
  next
    case (Inr u)
    then show ?thesis
      using Scan by (auto simp: scan_checks_def and_then_eq_Ok_iff)
  qed
next
  case (Monitor name timeout)
  have "sent_of (events w') = []"
    using monitor_run_log [OF assms(1,2)] assms(3,4) Monitor by fastforce
  then show ?thesis using assms(5) by simp
next
  case UsableInterfacesList
  have "quiet_call time events (run fuel dfuel rfuel pw k ck UsableInterfacesList)"
    unfolding run.simps by (intro quiet assms(1))
  then have "events w' = []"
    using assms(3,4) UsableInterfacesList unfolding quiet_call_def by fastforce
  then show ?thesis using assms(5) by simp
qed

text \<open>
  A burst scan command for the whole subnet, on a host at rest: when it succeeds, the interface is
  the named one, or without a name the only usable one; the requests of the subnet's plan were
  transmitted round after round; and the outcome lists the senders of the accepted replies and carries
  a summary with the interface, the number of rounds and the number of hosts.
\<close>

theorem run_scan_end_to_end:
  assumes "kernel_logs k time events" and "clock_logs ck time events"
    and "quiescent_kernel k ioctl indexes pairs"
    and "run fuel dfuel rfuel pw k ck (Scan name None timeout pacing attempts None wire) w = (Inr outcome, w')"
    and "events w = []"
  shows "\<exists>resolved scan plan summary.
    (case name of Some n \<Rightarrow> resolved = n
     | None \<Rightarrow> \<exists>i. filter (\<lambda>p. usable_interface ioctl (fst p)) pairs = [(resolved, i)])
    \<and> usable_interface ioctl resolved
    \<and> full_subnet_scan_plan (addresses_of ioctl resolved) = Ok plan
    \<and> map snd (sent_of (events w')) = concat (replicate attempts
        (map (request_frame (transmit_context (addresses_of ioctl resolved) wire)) (plan_targets plan)))
    \<and> outcome = ScanOutcome scan
    \<and> map_of (host_pairs scan) =
        map_of (accepted_replies (plan_acceptance plan) (reads_of (events w')))
    \<and> so_timing_summary scan = Some summary
    \<and> sts_network_interface_name summary = resolved \<and> sts_scan_round_count summary = attempts
    \<and> sts_discovered_host_count summary = length (host_pairs scan)"
proof -
  obtain u where "scan_checks pw name timeout pacing attempts wire None = Inr u"
    using assms(4) by (cases "scan_checks pw name timeout pacing attempts wire None") (simp_all add: run_scan_checks)
  then have "op_then (op_map_err Failed (resolve_scan_interface_name k name)) (\<lambda>resolved.
     op_then (instant_now ck) (\<lambda>started.
     op_then (perform_arp_scan fuel dfuel rfuel pw k ck resolved timeout pacing attempts wire None) (\<lambda>scan.
     op_then (instant_now ck) (\<lambda>ended.
     op_return (ScanOutcome
       (with_scan_timing_summary scan resolved (ck_since ck ended started) attempts)))))) w = (Inr outcome, w')"
    using assms(4) by (simp add: run_scan_checks)
  from this resolve_quiet [OF assms(1)] assms(2) show ?thesis
  proof (cases rule: op_then_before)
    case (2 resolved w0 started w1)
    note resolved = resolved_interface [OF assms(3) 2(1)]
    from 2(3) assms(2) show ?thesis
    proof (cases rule: op_then_after)
      case (1 q w2)
      obtain scan ended where q: "q = Inr scan" and outcome: "outcome =
          ScanOutcome (with_scan_timing_summary scan resolved (ck_since ck ended started) attempts)"
        using 1(3) by blast
      have start: "events w1 = []" using 2(2) assms(5) by simp
      obtain plan where usable: "usable_interface ioctl resolved"
        and plan: "full_subnet_scan_plan (addresses_of ioctl resolved) = Ok plan"
        and sent: "map snd (sent_of (events w')) = concat (replicate attempts
            (map (request_frame (transmit_context (addresses_of ioctl resolved) wire)) (plan_targets plan)))"
        and hosts: "map_of (host_pairs scan) =
          map_of (accepted_replies (plan_acceptance plan) (reads_of (events w')))"
        unfolding 1(2) by (rule burst_scan_on_interface [OF assms(1-3) 1(1) [unfolded q] start])
      let ?scan = "with_scan_timing_summary scan resolved (ck_since ck ended started) attempts"
      have summary: "host_pairs ?scan = host_pairs scan" "so_timing_summary ?scan = Some
          \<lparr>sts_network_interface_name = resolved, sts_elapsed_wall_time = ck_since ck ended started,
           sts_scan_round_count = attempts, sts_discovered_host_count = length (host_pairs scan)\<rparr>"
        by (simp_all add: host_pairs_def with_scan_timing_summary_def)
      show ?thesis
        by (intro exI conjI)
          (rule resolved usable plan sent outcome summary(2) | simp add: summary(1) hosts)+
    qed
  qed simp
qed

section \<open>A run on the example host\<close>

lemma example_resolves:
  "resolve_scan_interface_name example_kernel None w = (Inr ''eth0'', w)"
  by (simp add: resolve_scan_interface_name_def op_then_def enumerate_quiescent [OF example_kernel_quiescent]
      example_usable by_index_def op_lift_def candidate_of_def Let_def)

lemma example_run:
  "\<exists>outcome w'. run 3 2 2 powers_of_two example_kernel fake_scan_clock
     (Scan None None (from_millis 5) 0 2 None default_wire_options) example_world = (Inr outcome, w')
   \<and> sent_of (se_events w') \<noteq> []"
proof -
  obtain scan w' where scan: "perform_arp_scan 3 2 2 powers_of_two example_kernel fake_scan_clock ''eth0''
      (from_millis 5) 0 2 default_wire_options None example_world = (Inr scan, w')"
    using example_scan_runs by blast
  have "validate_scan_timing_before_socket powers_of_two (from_millis 5) 0 2 default_wire_options None = Ok None"
    using validate_rate_None by blast
  moreover have "stc_wire (esr_transmit example_request) = default_wire_options"
    by (simp add: example_request_def)
  ultimately have "scan_checks powers_of_two None (from_millis 5) 0 2 default_wire_options None = Inr ()"
    using example_valid by (simp add: scan_checks_def)
  then show ?thesis
    using scan example_scan_sends [OF scan] by (simp add: run_scan_checks op_then_def op_map_err_def example_resolves instant_now_def
        scripted.now_exact op_return_def)
qed

lemma run_scan_end_to_end_witness:
  "\<exists>scan w' plan. run 3 2 2 powers_of_two example_kernel fake_scan_clock
       (Scan None None (from_millis 5) 0 2 None default_wire_options) example_world = (Inr (ScanOutcome scan), w')
     \<and> full_subnet_scan_plan (addresses_of example_ioctl ''eth0'') = Ok plan
     \<and> map snd (sent_of (se_events w')) = concat (replicate 2
        (map (request_frame (transmit_context (addresses_of example_ioctl ''eth0'') default_wire_options))
          (plan_targets plan)))"
proof -
  obtain outcome w' where run: "run 3 2 2 powers_of_two example_kernel fake_scan_clock
     (Scan None None (from_millis 5) 0 2 None default_wire_options) example_world = (Inr outcome, w')"
    using example_run by blast
  have "se_events example_world = []" by (simp add: example_world_def)
  note result = run_scan_end_to_end [OF example_kernel_logs example_clock_logs example_kernel_quiescent run this]
  have only: "filter (\<lambda>p. usable_interface example_ioctl (fst p)) [(''lo'', 1), (''eth0'', 2)] = [(r, i)] \<longleftrightarrow>
      r = ''eth0'' \<and> i = (2 :: nat)" for r i
    by (auto simp: example_usable)
  show ?thesis using result run unfolding option.case only by blast
qed

lemma only_accepted_scans_transmit_witness:
  "\<exists>outcome w'. run 3 2 2 powers_of_two example_kernel fake_scan_clock
       (Scan None None (from_millis 5) 0 2 None default_wire_options) example_world = (Inr outcome, w')
     \<and> sent_of (se_events w') \<noteq> [] \<and> validate_ieee_8023_mac_client_data default_wire_options = Ok ()"
proof -
  obtain outcome w' where run: "run 3 2 2 powers_of_two example_kernel fake_scan_clock
     (Scan None None (from_millis 5) 0 2 None default_wire_options) example_world = (Inr outcome, w')"
    and sent: "sent_of (se_events w') \<noteq> []"
    using example_run by blast
  have start: "se_events example_world = []" by (simp add: example_world_def)
  from only_accepted_scans_transmit [OF example_kernel_logs example_clock_logs run start sent] run sent
  show ?thesis by auto
qed

end
