(* ===== verification/Command_Line.thy ===== *)
theory Command_Line
  imports Application_Run
begin

text \<open>
  \<^verbatim>\<open>src/cli.rs\<close> and \<^verbatim>\<open>src/main.rs\<close>: the arguments as they are declared, their conversion into a
  command, and the process: what it prints and its exit code. The command-line parser \<^verbatim>\<open>clap\<close> is a
  parameter; the ranges and dependencies that the declarations give it are a predicate. The process
  acts on two worlds, the host and the two standard streams.
\<close>

section \<open>Arguments\<close>

record scan_arguments =
  sa_interface_name :: "string option"
  sa_host_ipv4_address :: "ipv4 option"
  sa_mac_vendor_file :: "string option"
  sa_vlan_identifier :: "u16 option"
  sa_vlan_priority_code_point :: "u8 option"
  sa_vlan_drop_eligible_indicator :: bool
  sa_service_vlan_identifier :: "u16 option"
  sa_service_vlan_priority_code_point :: "u8 option"
  sa_service_vlan_drop_eligible_indicator :: bool
  sa_ethernet_padding :: "u8 list option"
  sa_sender_protocol_address :: "arp_sender_protocol_address option"
  sa_llc_snap :: bool
  sa_ethernet_destination :: "mac_address option"
  sa_ethernet_source :: "mac_address option"
  sa_arp_sender_hardware :: "mac_address option"
  sa_arp_target_hardware :: "mac_address option"
  sa_arp_hardware_type :: u16
  sa_arp_protocol_type :: u16
  sa_arp_hardware_length :: u8
  sa_arp_protocol_length :: u8
  sa_arp_operation :: u16
  sa_timeout_milliseconds :: nat
  sa_pacing_milliseconds :: nat
  sa_attempts :: nat
  sa_bandwidth_bits_per_second :: "nat option"
  sa_interval_milliseconds :: "nat option"
  sa_retry_backoff_factor :: "f64 option"

record monitor_arguments =
  ma_interface_name :: "string option"
  ma_timeout_milliseconds :: nat

datatype cli_subcommand =
    CliScan scan_arguments
  | CliMonitor monitor_arguments
  | CliInterfaces

definition option_all :: "('a \<Rightarrow> bool) \<Rightarrow> 'a option \<Rightarrow> bool" where
  "option_all P x = (case x of None \<Rightarrow> True | Some v \<Rightarrow> P v)"

text \<open>
  What the declarations admit: the \<^verbatim>\<open>range\<close> of each number, \<^verbatim>\<open>requires\<close>, the \<^verbatim>\<open>group\<close> of the two
  rates, and the value parsers of the program for padding, bandwidth and backoff.
\<close>

definition scan_arguments_accepted :: "scan_arguments \<Rightarrow> bool" where
  "scan_arguments_accepted a \<longleftrightarrow>
     option_all (\<lambda>v. v \<le> 4095) (sa_vlan_identifier a)
     \<and> option_all (\<lambda>p. p \<le> 7 \<and> sa_vlan_identifier a \<noteq> None) (sa_vlan_priority_code_point a)
     \<and> (sa_vlan_drop_eligible_indicator a \<longrightarrow> sa_vlan_identifier a \<noteq> None)
     \<and> option_all (\<lambda>v. v \<le> 4095 \<and> sa_vlan_identifier a \<noteq> None) (sa_service_vlan_identifier a)
     \<and> option_all (\<lambda>p. p \<le> 7 \<and> sa_service_vlan_identifier a \<noteq> None) (sa_service_vlan_priority_code_point a)
     \<and> (sa_service_vlan_drop_eligible_indicator a \<longrightarrow> sa_service_vlan_identifier a \<noteq> None)
     \<and> option_all (\<lambda>p. p \<noteq> [] \<and> length p \<le> 1472) (sa_ethernet_padding a)
     \<and> sa_timeout_milliseconds a \<le> u64_max \<and> sa_pacing_milliseconds a \<le> u64_max
     \<and> 1 \<le> sa_attempts a \<and> sa_attempts a \<le> u64_max
     \<and> option_all (\<lambda>b. 0 < b \<and> b \<le> u64_max \<and> sa_interval_milliseconds a = None) (sa_bandwidth_bits_per_second a)
     \<and> option_all (\<lambda>i. 1 \<le> i \<and> i \<le> u64_max) (sa_interval_milliseconds a)
     \<and> option_all (\<lambda>f. retry_backoff_factor_new f = Ok f
          \<and> (sa_bandwidth_bits_per_second a \<noteq> None \<or> sa_interval_milliseconds a \<noteq> None)) (sa_retry_backoff_factor a)"

text \<open>The arguments of \<^verbatim>\<open>scan\<close> without any option.\<close>

definition default_scan_arguments :: scan_arguments where
  "default_scan_arguments =
     \<lparr>sa_interface_name = None, sa_host_ipv4_address = None, sa_mac_vendor_file = None,
      sa_vlan_identifier = None, sa_vlan_priority_code_point = None,
      sa_vlan_drop_eligible_indicator = False, sa_service_vlan_identifier = None,
      sa_service_vlan_priority_code_point = None, sa_service_vlan_drop_eligible_indicator = False,
      sa_ethernet_padding = None, sa_sender_protocol_address = None, sa_llc_snap = False,
      sa_ethernet_destination = None, sa_ethernet_source = None, sa_arp_sender_hardware = None,
      sa_arp_target_hardware = None, sa_arp_hardware_type = 1, sa_arp_protocol_type = 0x0800,
      sa_arp_hardware_length = 6, sa_arp_protocol_length = 4, sa_arp_operation = 1,
      sa_timeout_milliseconds = 3000, sa_pacing_milliseconds = 0, sa_attempts = 1,
      sa_bandwidth_bits_per_second = None, sa_interval_milliseconds = None,
      sa_retry_backoff_factor = None\<rparr>"

section \<open>From arguments to a command\<close>

text \<open>\<^verbatim>\<open>expect\<close>, on an optional number that \<open>new\<close> may reject.\<close>

definition expect_new :: "('a \<Rightarrow> 'b option) \<Rightarrow> 'a option \<Rightarrow> stop + 'b option" where
  "expect_new new x =
     (case x of None \<Rightarrow> Inr None
      | Some v \<Rightarrow> (case new v of None \<Rightarrow> Inl Panicked | Some y \<Rightarrow> Inr (Some y)))"

definition rate_limit_from_scan_arguments :: "scan_arguments \<Rightarrow> stop + rate_limited_scan_timing option" where
  "rate_limit_from_scan_arguments scan =
     (let backoff = unwrap_or default_retry_backoff_factor (sa_retry_backoff_factor scan) in
      case sa_bandwidth_bits_per_second scan of
        Some bits_per_second \<Rightarrow>
          Inr (Some \<lparr>timing_send_rate = Bandwidth bits_per_second, timing_backoff_factor = backoff\<rparr>)
      | None \<Rightarrow>
          (case sa_interval_milliseconds scan of
             None \<Rightarrow> Inr None
           | Some milliseconds \<Rightarrow>
               (case positive_duration_new (from_millis milliseconds) of
                  Inl _ \<Rightarrow> Inl Panicked
                | Inr d \<Rightarrow> Inr (Some \<lparr>timing_send_rate = Interval d, timing_backoff_factor = backoff\<rparr>))))"

definition scan_wire_options_from_arguments :: "scan_arguments \<Rightarrow> stop + scan_wire_options" where
  "scan_wire_options_from_arguments scan =
     and_then (expect_new vid_new (sa_vlan_identifier scan)) (\<lambda>vlan.
     and_then (expect_new pcp_new (sa_vlan_priority_code_point scan)) (\<lambda>pcp.
     and_then (expect_new vid_new (sa_service_vlan_identifier scan)) (\<lambda>service_vlan.
     and_then (expect_new pcp_new (sa_service_vlan_priority_code_point scan)) (\<lambda>service_pcp.
     Inr \<lparr>wo_vlan_identifier = vlan,
       wo_vlan_priority_code_point = unwrap_or pcp_zero pcp,
       wo_vlan_drop_eligible_indicator = sa_vlan_drop_eligible_indicator scan,
       wo_service_vlan_identifier = service_vlan,
       wo_service_vlan_priority_code_point = unwrap_or pcp_zero service_pcp,
       wo_service_vlan_drop_eligible_indicator = sa_service_vlan_drop_eligible_indicator scan,
       wo_sender_protocol_address = unwrap_or InterfaceAddress (sa_sender_protocol_address scan),
       wo_llc_snap = sa_llc_snap scan,
       wo_ethernet_destination = sa_ethernet_destination scan,
       wo_ethernet_source = sa_ethernet_source scan,
       wo_arp_hardware_type = sa_arp_hardware_type scan,
       wo_arp_protocol_type = sa_arp_protocol_type scan,
       wo_arp_hardware_length = sa_arp_hardware_length scan,
       wo_arp_protocol_length = sa_arp_protocol_length scan,
       wo_arp_operation = sa_arp_operation scan,
       wo_arp_sender_hardware = sa_arp_sender_hardware scan,
       wo_arp_target_hardware = sa_arp_target_hardware scan,
       wo_padding = unwrap_or [] (sa_ethernet_padding scan)\<rparr>))))"

text \<open>
  The vendor file: the named one, else the default file, else the registry that was built in, if
  any. The file system is two functions.
\<close>

definition load_mac_vendor_registry ::
    "(string \<Rightarrow> bool) \<Rightarrow> (string \<Rightarrow> io_error + string) \<Rightarrow> string option \<Rightarrow> string option
     \<Rightarrow> string + mac_vendor_registry option" where
  "load_mac_vendor_registry is_file read_to_string bundled_text explicit_path =
     (case explicit_path of
        Some path \<Rightarrow>
          map_err (\<lambda>e. ''failed to load MAC vendor file '' @ path @ '': '' @ io_text e)
            (and_then (load_from_path read_to_string path) (\<lambda>r. Ok (Some r)))
      | None \<Rightarrow>
          (case load_default_file_if_present is_file read_to_string of
             Inr (Some registry) \<Rightarrow> Ok (Some registry)
           | Inr None \<Rightarrow>
               (case bundled_text of
                  None \<Rightarrow> Ok None
                | Some text \<Rightarrow>
                    map_err (\<lambda>e. ''failed to parse bundled MAC vendor registry: '' @ show_registry_parse_error e)
                      (and_then (parse_ieee_oui_text text) (\<lambda>r. Ok (Some r))))
           | Inl e \<Rightarrow> Err (''failed to load default MAC vendor file ieee-oui.txt: '' @ io_text e)))"

section \<open>The process\<close>

text \<open>\<^verbatim>\<open>eprintln!\<close> panics when standard error cannot be written; the exit code follows.\<close>

definition print_error_and_exit :: "'s writer \<Rightarrow> string \<Rightarrow> 's \<Rightarrow> (stop + nat) \<times> 's" where
  "print_error_and_exit err message s =
     (case writeln err message s of (Inl _, s) \<Rightarrow> (Inl Panicked, s) | (Inr _, s) \<Rightarrow> (Inr 1, s))"

definition run_and_print ::
    "('w, stop, application_outcome) op \<Rightarrow> 's writer \<Rightarrow> 's writer \<Rightarrow> mac_vendor_registry option
     \<Rightarrow> 'w \<Rightarrow> 's \<Rightarrow> (stop + nat) \<times> 'w \<times> 's" where
  "run_and_print act out err registry w s =
     (case act w of
        (Inr outcome, w) \<Rightarrow>
          (case write_operator_streams_with_mac_vendor_registry outcome out err registry s of
             (Inr _, s) \<Rightarrow> (Inr 0, w, s)
           | (Inl _, s) \<Rightarrow> (Inl Panicked, w, s))
      | (Inl (Failed e), w) \<Rightarrow>
          (case print_error_and_exit err (show_app_error e) s of (status, s) \<Rightarrow> (status, w, s))
      | (Inl stop, w) \<Rightarrow> (Inl stop, w, s))"

text \<open>
  The three subcommands; \<open>execute\<close> is \<^verbatim>\<open>run\<close> on the host, \<open>load\<close> the loading of the vendor file.
\<close>

fun main_subcommand ::
    "(application_command \<Rightarrow> ('w, stop, application_outcome) op)
     \<Rightarrow> (string option \<Rightarrow> string + mac_vendor_registry option) \<Rightarrow> 's writer \<Rightarrow> 's writer
     \<Rightarrow> cli_subcommand \<Rightarrow> 'w \<Rightarrow> 's \<Rightarrow> (stop + nat) \<times> 'w \<times> 's" where
  "main_subcommand execute load out err (CliScan scan) w s =
     (case load (sa_mac_vendor_file scan) of
        Inl message \<Rightarrow> (case print_error_and_exit err message s of (status, s) \<Rightarrow> (status, w, s))
      | Inr registry \<Rightarrow>
          (case and_then (scan_wire_options_from_arguments scan) (\<lambda>wire.
                and_then (rate_limit_from_scan_arguments scan) (\<lambda>rate_limit.
                if sa_attempts scan = 0 then Inl Panicked
                else Inr (Scan (sa_interface_name scan) (sa_host_ipv4_address scan)
                  (from_millis (sa_timeout_milliseconds scan)) (from_millis (sa_pacing_milliseconds scan))
                  (sa_attempts scan) rate_limit wire))) of
             Inl stop \<Rightarrow> (Inl stop, w, s)
           | Inr command \<Rightarrow> run_and_print (execute command) out err registry w s))"
| "main_subcommand execute load out err (CliMonitor monitor) w s =
     run_and_print (execute (Application_Command.Monitor (ma_interface_name monitor)
       (from_millis (ma_timeout_milliseconds monitor)))) out err None w s"
| "main_subcommand execute load out err CliInterfaces w s =
     run_and_print (execute UsableInterfacesList) out err None w s"

text \<open>
  \<open>parse\<close> and \<open>clap_exit\<close> are the parser's own, and \<open>print_help\<close> its help text: without an argument
  a failure to print it is exit code 1, without a subcommand it is a panic.
\<close>

definition main ::
    "(application_command \<Rightarrow> ('w, stop, application_outcome) op)
     \<Rightarrow> (string option \<Rightarrow> string + mac_vendor_registry option) \<Rightarrow> 's writer \<Rightarrow> 's writer \<Rightarrow> 's io
     \<Rightarrow> (string list \<Rightarrow> 'e + cli_subcommand option) \<Rightarrow> ('e \<Rightarrow> 's \<Rightarrow> nat \<times> 's)
     \<Rightarrow> string list \<Rightarrow> 'w \<Rightarrow> 's \<Rightarrow> (stop + nat) \<times> 'w \<times> 's" where
  "main execute load out err print_help parse clap_exit arguments w s =
     (if length arguments \<le> 1
      then (case print_help s of (Inl _, s) \<Rightarrow> (Inr 1, w, s) | (Inr _, s) \<Rightarrow> (Inr 0, w, s))
      else (case parse arguments of
          Inl e \<Rightarrow> (case clap_exit e s of (status, s) \<Rightarrow> (Inr status, w, s))
        | Inr None \<Rightarrow>
            (case print_help s of (Inl _, s) \<Rightarrow> (Inl Panicked, w, s) | (Inr _, s) \<Rightarrow> (Inr 0, w, s))
        | Inr (Some subcommand) \<Rightarrow> main_subcommand execute load out err subcommand w s))"

section \<open>Facts\<close>

lemma default_options:
  "scan_wire_options_from_arguments default_scan_arguments = Inr default_wire_options"
  "rate_limit_from_scan_arguments default_scan_arguments = Inr None"
  by (simp_all add: scan_wire_options_from_arguments_def rate_limit_from_scan_arguments_def
      default_scan_arguments_def default_wire_options_def expect_new_def unwrap_or_def Let_def
      arp_hardware_type_ethernet_def protocol_ipv4_def arp_ethernet_hardware_address_length_def
      arp_ipv4_protocol_address_length_def arp_operation_request_def)

lemma expect_new_accepted:
  assumes "option_all P x" and "\<And>v. P v \<Longrightarrow> \<exists>y. new v = Some y \<and> Q y"
  obtains y where "expect_new new x = Inr y" "option_all Q y" "y = None \<longleftrightarrow> x = None"
  using assms by (cases x) (fastforce simp: expect_new_def option_all_def)+

lemma vid_new_accepted: "v \<le> 4095 \<Longrightarrow> \<exists>y. vid_new v = Some y \<and> vid_wf y"
  by (auto simp: vid_new_def vlan_identifier_mask_def vid_wf_def)

lemma pcp_new_accepted: "p \<le> 7 \<Longrightarrow> \<exists>y. pcp_new p = Some y \<and> pcp_wf y"
  by (auto simp: pcp_new_def pcp_wf_def)

lemma pcp_wf_unwrap: "option_all pcp_wf x \<Longrightarrow> pcp_wf (unwrap_or pcp_zero x)"
  by (cases x) (simp_all add: option_all_def unwrap_or_def pcp_wf_def pcp_zero_def)

lemma from_millis_le: "n \<le> u64_max \<Longrightarrow> from_millis n \<le> duration_max"
  by (simp add: from_millis_def duration_max_def u64_max_def nanos_per_sec_def)

lemma accepted_rate_limit:
  assumes "scan_arguments_accepted a"
  shows "\<exists>rate_limit. rate_limit_from_scan_arguments a = Inr rate_limit
    \<and> option_all (\<lambda>t. send_rate_wf (timing_send_rate t)
        \<and> retry_backoff_factor_new (timing_backoff_factor t) = Ok (timing_backoff_factor t)) rate_limit
    \<and> (rate_limit = None \<longleftrightarrow> sa_bandwidth_bits_per_second a = None \<and> sa_interval_milliseconds a = None)"
proof -
  have default: "retry_backoff_factor_new default_retry_backoff_factor = Ok default_retry_backoff_factor"
    by (simp add: retry_backoff_factor_new_def default_retry_backoff_factor_def f64_is_finite_def
        f64_less_one_def f64_exponent_def f64_fraction_def f64_negative_def f64_one_def)
  let ?f = "unwrap_or default_retry_backoff_factor (sa_retry_backoff_factor a)"
  have factor: "retry_backoff_factor_new ?f = Ok ?f"
    using assms default
    by (cases "sa_retry_backoff_factor a") (simp_all add: unwrap_or_def scan_arguments_accepted_def option_all_def)
  have interval: "0 < from_millis i \<and> from_millis i \<le> duration_max" if "sa_interval_milliseconds a = Some i" for i
  proof -
    have "1 \<le> i" "i \<le> u64_max"
      using assms that by (simp_all add: scan_arguments_accepted_def option_all_def)
    then show ?thesis using from_millis_le [of i] by (simp add: from_millis_def)
  qed
  have bandwidth: "0 < b \<and> b \<le> u64_max" if "sa_bandwidth_bits_per_second a = Some b" for b
    using assms that by (simp add: scan_arguments_accepted_def option_all_def)
  show ?thesis
    using factor interval bandwidth
    by (cases "sa_bandwidth_bits_per_second a"; cases "sa_interval_milliseconds a")
      (simp_all add: rate_limit_from_scan_arguments_def Let_def option_all_def send_rate_wf_def
        positive_duration_new_def)
qed

context operator_streams
begin

lemma error_printed:
  assumes "print_error_and_exit err message s = (r, s')"
  shows "r = Inl Panicked \<or> r = Inr 1 \<and> ocont s' = ocont s \<and> econt s' = econt s @ message @ [newline]"
proof -
  obtain q s1 where run: "writeln err message s = (q, s1)" by fastforce
  then have "is_ok q \<Longrightarrow> ocont s1 = ocont s \<and> econt s1 = econt s @ message @ [newline]"
    using writeln_err [of message] unfolding io_writes_def by fastforce
  then show ?thesis
    using assms run by (cases q) (auto simp: print_error_and_exit_def)
qed

lemma run_printed:
  assumes "run_and_print act out err registry w s = (r, w', s')"
  shows "(\<exists>stop. r = Inl stop)
    \<or> r = Inr 0 \<and> (\<exists>outcome. act w = (Inr outcome, w')
        \<and> ocont s' = ocont s @ stdout_text registry outcome \<and> econt s' = econt s @ stderr_text outcome)
    \<or> r = Inr 1 \<and> (\<exists>e. act w = (Inl (Failed e), w')
        \<and> ocont s' = ocont s \<and> econt s' = econt s @ show_app_error e @ [newline])"
proof -
  obtain q w1 where act: "act w = (q, w1)" by fastforce
  show ?thesis
  proof (cases q)
    case (Inr outcome)
    obtain u s1 where run: "write_operator_streams_with_mac_vendor_registry outcome out err registry s = (u, s1)"
      by fastforce
    then have "is_ok u \<Longrightarrow> ocont s1 = ocont s @ stdout_text registry outcome
        \<and> econt s1 = econt s @ stderr_text outcome"
      using streams_write [of outcome registry] unfolding io_writes_def by fastforce
    then show ?thesis
      using assms act Inr run by (cases u) (auto simp: run_and_print_def)
  next
    case (Inl stop)
    show ?thesis
    proof (cases stop)
      case (Failed e)
      obtain u s1 where print: "print_error_and_exit err (show_app_error e) s = (u, s1)" by fastforce
      from error_printed [OF print] show ?thesis
        using assms act Inl Failed print by (auto simp: run_and_print_def)
    qed (use assms act Inl in \<open>auto simp: run_and_print_def\<close>)
  qed
qed

end

section \<open>Properties\<close>

text \<open>
  C24: arguments that the declarations admit never make the conversion panic: every tag number is
  representable, the tag arrangement is one the scan accepts, and the schedule is made of
  representable durations and a positive rate; the one check of the scan that they can still fail is
  the length of the payload, by more than 1464 octets of padding under LLC/SNAP.
\<close>

theorem accepted_arguments_convert:
  assumes "scan_arguments_accepted a"
  shows "\<exists>wire rate_limit. scan_wire_options_from_arguments a = Inr wire
    \<and> rate_limit_from_scan_arguments a = Inr rate_limit
    \<and> wire_options_wf wire \<and> validate_ieee_8021q_tag_stack wire = Ok ()
    \<and> (validate_ieee_8023_mac_client_data wire = Ok () \<longleftrightarrow>
         \<not> (sa_llc_snap a \<and> 1464 < length (unwrap_or [] (sa_ethernet_padding a))))
    \<and> scan_request_wf \<lparr>esr_targets = targets, esr_transmit = transmit_context addresses wire,
        esr_acceptance = acceptance, esr_receive_timeout = from_millis (sa_timeout_milliseconds a),
        esr_pacing = from_millis (sa_pacing_milliseconds a), esr_scan_round_count = sa_attempts a,
        esr_rate_limit = rate_limit\<rparr>"
proof -
  note acc = assms [unfolded scan_arguments_accepted_def]
  have ranges: "option_all (\<lambda>v. v \<le> 4095) (sa_vlan_identifier a)"
    "option_all (\<lambda>p. p \<le> 7 \<and> sa_vlan_identifier a \<noteq> None) (sa_vlan_priority_code_point a)"
    "option_all (\<lambda>v. v \<le> 4095 \<and> sa_vlan_identifier a \<noteq> None) (sa_service_vlan_identifier a)"
    "option_all (\<lambda>p. p \<le> 7 \<and> sa_service_vlan_identifier a \<noteq> None) (sa_service_vlan_priority_code_point a)"
    using acc by simp_all
  obtain vid where vid: "expect_new vid_new (sa_vlan_identifier a) = Inr vid" "option_all vid_wf vid"
    "vid = None \<longleftrightarrow> sa_vlan_identifier a = None"
    by (rule expect_new_accepted [OF ranges(1) vid_new_accepted])
  obtain pcp where pcp: "expect_new pcp_new (sa_vlan_priority_code_point a) = Inr pcp" "option_all pcp_wf pcp"
    "pcp = None \<longleftrightarrow> sa_vlan_priority_code_point a = None"
    by (rule expect_new_accepted [OF ranges(2) pcp_new_accepted [OF conjunct1]])
  obtain svid where svid: "expect_new vid_new (sa_service_vlan_identifier a) = Inr svid" "option_all vid_wf svid"
    "svid = None \<longleftrightarrow> sa_service_vlan_identifier a = None"
    by (rule expect_new_accepted [OF ranges(3) vid_new_accepted [OF conjunct1]])
  obtain spcp where spcp: "expect_new pcp_new (sa_service_vlan_priority_code_point a) = Inr spcp" "option_all pcp_wf spcp"
    "spcp = None \<longleftrightarrow> sa_service_vlan_priority_code_point a = None"
    by (rule expect_new_accepted [OF ranges(4) pcp_new_accepted [OF conjunct1]])
  obtain wire where wire: "scan_wire_options_from_arguments a = Inr wire"
    by (simp add: scan_wire_options_from_arguments_def vid pcp svid spcp)
  have fields: "wo_vlan_identifier wire = vid" "wo_service_vlan_identifier wire = svid"
      "wo_vlan_priority_code_point wire = unwrap_or pcp_zero pcp"
      "wo_service_vlan_priority_code_point wire = unwrap_or pcp_zero spcp"
      "wo_llc_snap wire = sa_llc_snap a" "wo_padding wire = unwrap_or [] (sa_ethernet_padding a)"
    using wire by (auto simp: scan_wire_options_from_arguments_def vid pcp svid spcp)
  have "wire_options_wf wire"
    using vid(2) svid(2) pcp_wf_unwrap [OF pcp(2)] pcp_wf_unwrap [OF spcp(2)]
    by (simp add: wire_options_wf_def fields option_all_def split: option.splits)
  moreover have "validate_ieee_8021q_tag_stack wire = Ok ()"
    using acc vid(3) svid(3)
    by (auto simp: validate_ieee_8021q_tag_stack_def fields option_all_def split: option.splits)
  moreover have "length (unwrap_or [] (sa_ethernet_padding a)) \<le> 1472"
    using acc by (cases "sa_ethernet_padding a") (simp_all add: unwrap_or_def option_all_def)
  then have "validate_ieee_8023_mac_client_data wire = Ok () \<longleftrightarrow>
      \<not> (sa_llc_snap a \<and> 1464 < length (unwrap_or [] (sa_ethernet_padding a)))"
    by (auto simp: validate_mac_client_data_Ok_iff fields maximum_padding_value)
  moreover obtain rate_limit where rate: "rate_limit_from_scan_arguments a = Inr rate_limit"
    "option_all (\<lambda>t. send_rate_wf (timing_send_rate t)
        \<and> retry_backoff_factor_new (timing_backoff_factor t) = Ok (timing_backoff_factor t)) rate_limit"
    using accepted_rate_limit [OF assms] by blast
  moreover from rate(2) have "case rate_limit of None \<Rightarrow> True | Some t \<Rightarrow> send_rate_wf (timing_send_rate t)"
    by (cases rate_limit) (simp_all add: option_all_def)
  moreover have "from_millis (sa_timeout_milliseconds a) \<le> duration_max"
    "from_millis (sa_pacing_milliseconds a) \<le> duration_max" "0 < sa_attempts a" "sa_attempts a \<le> u64_max"
    using acc from_millis_le by simp_all
  ultimately show ?thesis
    using wire by (intro exI [of _ wire] exI [of _ rate_limit] conjI) (simp_all add: scan_request_wf_def)
qed

lemma accepted_arguments_convert_witness:
  "\<exists>wire. scan_wire_options_from_arguments (default_scan_arguments\<lparr>sa_vlan_identifier := Some 10,
      sa_service_vlan_identifier := Some 100, sa_service_vlan_priority_code_point := Some 5\<rparr>) = Inr wire
    \<and> validate_ieee_8021q_tag_stack wire = Ok ()"
proof -
  let ?a = "default_scan_arguments\<lparr>sa_vlan_identifier := Some 10,
      sa_service_vlan_identifier := Some 100, sa_service_vlan_priority_code_point := Some 5\<rparr>"
  have "scan_arguments_accepted ?a"
    by (simp add: scan_arguments_accepted_def default_scan_arguments_def option_all_def u64_max_def)
  from accepted_arguments_convert [OF this] show ?thesis by blast
qed



text \<open>The timing of \<^verbatim>\<open>scan\<close> without any option is the default one of the library.\<close>

lemma default_timing:
  "from_millis (sa_timeout_milliseconds default_scan_arguments) = default_scan_timeout"
  "from_millis (sa_pacing_milliseconds default_scan_arguments) = default_scan_pacing"
  "sa_attempts default_scan_arguments = default_scan_attempts"
  by (simp_all add: default_scan_arguments_def default_scan_timeout_def default_scan_pacing_def
      default_scan_attempts_def from_millis_def from_secs_def nanos_per_sec_def)

end
