(* ===== verification/Ieee_Conversion.thy ===== *)
theory Ieee_Conversion
  imports Mac_Vendor_Registry
begin

text \<open>
  \<^verbatim>\<open>tools/mac-vendor-updater/src/registry.rs\<close> and \<^verbatim>\<open>convert.rs\<close>: the four IEEE listings turned into
  the text of \<^verbatim>\<open>ieee-oui.txt\<close>. The \<^verbatim>\<open>csv\<close> crate is a parameter, a function from a document to the
  headers and records it reads; the \<^verbatim>\<open>HashMap\<close> is a map.
\<close>

section \<open>Registries\<close>

datatype ieee_mac_registry = MaL | MaM | MaS | Iab

definition all_registries :: "ieee_mac_registry list" where
  "all_registries = [MaL, MaM, MaS, Iab]"

fun csv_url :: "ieee_mac_registry \<Rightarrow> string" where
  "csv_url MaL = ''https://standards-oui.ieee.org/oui/oui.csv''"
| "csv_url MaM = ''https://standards-oui.ieee.org/oui28/mam.csv''"
| "csv_url MaS = ''https://standards-oui.ieee.org/oui36/oui36.csv''"
| "csv_url Iab = ''https://standards-oui.ieee.org/iab/iab.csv''"

fun csv_registry_label :: "ieee_mac_registry \<Rightarrow> string" where
  "csv_registry_label MaL = ''MA-L''"
| "csv_registry_label MaM = ''MA-M''"
| "csv_registry_label MaS = ''MA-S''"
| "csv_registry_label Iab = ''IAB''"

fun assignment_hex_digit_count :: "ieee_mac_registry \<Rightarrow> nat" where
  "assignment_hex_digit_count MaL = 6"
| "assignment_hex_digit_count MaM = 7"
| "assignment_hex_digit_count MaS = 9"
| "assignment_hex_digit_count Iab = 9"

fun csv_file_name :: "ieee_mac_registry \<Rightarrow> string" where
  "csv_file_name MaL = ''oui.csv''"
| "csv_file_name MaM = ''mam.csv''"
| "csv_file_name MaS = ''oui36.csv''"
| "csv_file_name Iab = ''iab.csv''"

definition show_registry :: "ieee_mac_registry \<Rightarrow> string" where
  "show_registry r = csv_registry_label r"

section \<open>Errors\<close>

datatype convert_error =
    InvalidHeader string
  | WrongFieldCount ieee_mac_registry nat nat
  | RegistryMismatch ieee_mac_registry string nat
  | InvalidAssignment ieee_mac_registry string nat
  | EmptyVendor ieee_mac_registry string nat
  | EmptyRegistry ieee_mac_registry
  | CsvRejected "ieee_mac_registry option" "nat option" string

fun show_convert_error :: "convert_error \<Rightarrow> string" where
  "show_convert_error (InvalidHeader found) =
     ''IEEE CSV header is invalid (expected Registry,Assignment,Organization Name,Organization Address); found ''
     @ found"
| "show_convert_error (WrongFieldCount registry line_number field_count) =
     show_registry registry @ '' CSV line '' @ show_nat line_number @ '' has '' @ show_nat field_count
     @ '' fields; expected 4''"
| "show_convert_error (RegistryMismatch expected found line_number) =
     show_registry expected @ '' CSV line '' @ show_nat line_number @ '' has Registry `'' @ found @ ''`''"
| "show_convert_error (InvalidAssignment registry assignment line_number) =
     show_registry registry @ '' CSV line '' @ show_nat line_number @ '' has invalid assignment `''
     @ assignment @ ''` (expected '' @ show_nat (assignment_hex_digit_count registry)
     @ '' hexadecimal digits after stripping separators)''"
| "show_convert_error (EmptyVendor registry assignment line_number) =
     show_registry registry @ '' CSV line '' @ show_nat line_number
     @ '' has empty organization name for assignment `'' @ assignment @ ''`''"
| "show_convert_error (EmptyRegistry registry) =
     show_registry registry @ '' CSV contains no assignment rows''"
| "show_convert_error (CsvRejected (Some registry) (Some line_number) message) =
     show_registry registry @ '' CSV line '' @ show_nat line_number @ '': '' @ message"
| "show_convert_error (CsvRejected (Some registry) None message) =
     show_registry registry @ '' CSV: '' @ message"
| "show_convert_error (CsvRejected None (Some line_number) message) =
     ''IEEE CSV line '' @ show_nat line_number @ '': '' @ message"
| "show_convert_error (CsvRejected None None message) = ''IEEE CSV: '' @ message"

text \<open>How a function ends without a value: with its error, or in a panic of \<^verbatim>\<open>expect\<close>.\<close>

datatype 'e halt = Rejected 'e | Panic

definition expect :: "'a option \<Rightarrow> 'e halt + 'a" where
  "expect x = ok_or x Panic"

lemma expect_simps [simp]: "expect (Some x) = Ok x" "expect None = Err Panic"
  by (simp_all add: expect_def)

section \<open>Documents\<close>

text \<open>
  What the code takes from the \<^verbatim>\<open>csv\<close> crate: the result of reading the header row, and the results
  of the record iterator, each record with its fields and the line the reader gives for it.
\<close>

record csv_error =
  ce_line :: "nat option"
  ce_text :: string

record csv_record =
  cr_fields :: "string list"
  cr_line :: "nat option"

record csv_document =
  cd_headers :: "csv_error + string list"
  cd_records :: "(csv_error + csv_record) list"

type_synonym csv_reader = "string \<Rightarrow> csv_document"

record registry_csv_input =
  rci_registry :: ieee_mac_registry
  rci_csv_text :: string

record registry_counts =
  rc_registry :: ieee_mac_registry
  rc_emitted :: nat
  rc_source_rows :: nat
  rc_duplicates_removed :: nat

record converted_ieee_oui =
  cv_text :: string
  cv_counts :: "registry_counts list"

record registry_section =
  rs_counts :: registry_counts
  rs_mappings :: "(string \<times> string) list"

definition expected_headers :: "string list" where
  "expected_headers = [''Registry'', ''Assignment'', ''Organization Name'', ''Organization Address'']"

definition strip_utf8_bom :: "string \<Rightarrow> string" where
  "strip_utf8_bom text =
     (case strip_prefix [char_of (0xEF :: nat), char_of (0xBB :: nat), char_of (0xBF :: nat)] text of
        None \<Rightarrow> text | Some rest \<Rightarrow> rest)"

fun join_with :: "string \<Rightarrow> string list \<Rightarrow> string" where
  "join_with sep [] = []"
| "join_with sep [s] = s"
| "join_with sep (s # t # ts) = s @ sep @ join_with sep (t # ts)"

section \<open>Rows\<close>

definition csv_error_of :: "ieee_mac_registry option \<Rightarrow> csv_error \<Rightarrow> convert_error" where
  "csv_error_of registry e = CsvRejected registry (ce_line e) (ce_text e)"

definition record_field ::
    "csv_record \<Rightarrow> nat \<Rightarrow> ieee_mac_registry \<Rightarrow> nat \<Rightarrow> convert_error + string" where
  "record_field record index registry line_number =
     (if index < length (cr_fields record) then Ok (cr_fields record ! index)
      else Err (WrongFieldCount registry line_number (length (cr_fields record))))"

fun check_headers :: "string list \<Rightarrow> (nat \<times> string) list \<Rightarrow> convert_error + unit" where
  "check_headers headers [] = Ok ()"
| "check_headers headers ((index, expected) # rest) =
     (if index < length headers
      then if headers ! index \<noteq> expected then Err (InvalidHeader (join_with '','' headers))
           else check_headers headers rest
      else Err (InvalidHeader (join_with '','' headers)))"

definition validate_headers :: "string list \<Rightarrow> convert_error + unit" where
  "validate_headers headers =
     (if length headers \<noteq> length expected_headers
      then Err (InvalidHeader (join_with '','' headers))
      else check_headers headers (enumerate 0 expected_headers))"

definition is_assignment_separator :: "char \<Rightarrow> bool" where
  "is_assignment_separator c \<longleftrightarrow> c \<in> {CHR '':'', CHR ''-'', CHR ''.'', CHR '' '', tab}"

definition normalize_assignment :: "string \<Rightarrow> ieee_mac_registry \<Rightarrow> string option" where
  "normalize_assignment raw registry =
     (let stripped = filter (\<lambda>c. \<not> is_assignment_separator c) raw in
      if length stripped \<noteq> assignment_hex_digit_count registry then None
      else if \<not> list_all is_ascii_hexdigit stripped then None
      else Some (map to_ascii_uppercase stripped))"

text \<open>The variables of the record loop, and one round of it.\<close>

record conversion =
  cs_first_seen_order :: "string list"
  cs_last_vendor_by_prefix :: "string \<rightharpoonup> string"
  cs_source_rows :: nat

definition record_line_number :: "csv_record \<Rightarrow> nat" where
  "record_line_number record =
     (case cr_line record of None \<Rightarrow> 0 | Some line \<Rightarrow> sat_add u64_max line 1)"

definition checked_row :: "ieee_mac_registry \<Rightarrow> csv_record \<Rightarrow> convert_error + (string \<times> string)" where
  "checked_row registry record =
     (let line_number = record_line_number record in
      if length (cr_fields record) \<noteq> length expected_headers
      then Err (WrongFieldCount registry line_number (length (cr_fields record)))
      else
        and_then (record_field record 0 registry line_number) (\<lambda>registry_field.
        if registry_field \<noteq> csv_registry_label registry
        then Err (RegistryMismatch registry registry_field line_number)
        else
          and_then (record_field record 1 registry line_number) (\<lambda>assignment_field.
          and_then (ok_or (normalize_assignment assignment_field registry)
              (InvalidAssignment registry (str_trim assignment_field) line_number)) (\<lambda>prefix.
          and_then (record_field record 2 registry line_number) (\<lambda>vendor_field.
          let vendor = str_trim vendor_field in
          if vendor = [] then Err (EmptyVendor registry prefix line_number)
          else Ok (prefix, vendor))))))"

definition accept_row ::
    "string \<times> string \<Rightarrow> conversion \<Rightarrow> convert_error halt + conversion" where
  "accept_row = (\<lambda>(prefix, vendor) s.
     and_then (expect (checked_add usize_max (cs_source_rows s) 1)) (\<lambda>source_rows.
     Ok \<lparr>cs_first_seen_order =
           (case cs_last_vendor_by_prefix s prefix of
              None \<Rightarrow> cs_first_seen_order s @ [prefix] | Some _ \<Rightarrow> cs_first_seen_order s),
         cs_last_vendor_by_prefix = (cs_last_vendor_by_prefix s)(prefix \<mapsto> vendor),
         cs_source_rows = source_rows\<rparr>))"

fun convert_records ::
    "ieee_mac_registry \<Rightarrow> (csv_error + csv_record) list \<Rightarrow> conversion
     \<Rightarrow> convert_error halt + conversion" where
  "convert_records registry [] s = Ok s"
| "convert_records registry (r # rs) s =
     and_then (map_err (\<lambda>e. Rejected (csv_error_of (Some registry) e)) r) (\<lambda>record.
     and_then (map_err Rejected (checked_row registry record)) (\<lambda>row.
     and_then (accept_row row s) (convert_records registry rs)))"

text \<open>The emitted mappings: each prefix takes its vendor out of the map.\<close>

fun take_mappings ::
    "string list \<Rightarrow> (string \<rightharpoonup> string) \<Rightarrow> convert_error halt + (string \<times> string) list" where
  "take_mappings [] m = Ok []"
| "take_mappings (prefix # ps) m =
     and_then (expect (m prefix)) (\<lambda>vendor.
     and_then (take_mappings ps (m(prefix := None))) (\<lambda>rest.
     Ok ((prefix, vendor) # rest)))"

section \<open>Conversion\<close>

definition convert_one_registry ::
    "csv_reader \<Rightarrow> registry_csv_input \<Rightarrow> convert_error halt + registry_section" where
  "convert_one_registry csv input =
     (let registry = rci_registry input;
          reader = csv (strip_utf8_bom (rci_csv_text input)) in
      and_then (map_err (\<lambda>e. Rejected (csv_error_of (Some registry) e)) (cd_headers reader)) (\<lambda>headers.
      and_then (map_err Rejected (validate_headers headers)) (\<lambda>_.
      and_then (convert_records registry (cd_records reader)
          \<lparr>cs_first_seen_order = [], cs_last_vendor_by_prefix = Map.empty, cs_source_rows = 0\<rparr>) (\<lambda>s.
      if cs_source_rows s = 0 then Err (Rejected (EmptyRegistry registry))
      else
        and_then (take_mappings (cs_first_seen_order s) (cs_last_vendor_by_prefix s)) (\<lambda>mappings.
        and_then (expect (checked_sub (cs_source_rows s) (length mappings))) (\<lambda>duplicates_removed.
        Ok \<lparr>rs_counts = \<lparr>rc_registry = registry, rc_emitted = length mappings,
              rc_source_rows = cs_source_rows s, rc_duplicates_removed = duplicates_removed\<rparr>,
            rs_mappings = mappings\<rparr>))))))"

fun convert_sections ::
    "csv_reader \<Rightarrow> registry_csv_input list \<Rightarrow> ieee_mac_registry list
     \<Rightarrow> convert_error halt + registry_section list" where
  "convert_sections csv inputs [] = Ok []"
| "convert_sections csv inputs (expected # rs) =
     and_then (ok_or (find (\<lambda>input. rci_registry input = expected) inputs)
         (Rejected (EmptyRegistry expected))) (\<lambda>input.
     and_then (convert_one_registry csv input) (\<lambda>s.
     and_then (convert_sections csv inputs rs) (\<lambda>ss. Ok (s # ss))))"

section \<open>The text\<close>

definition write_line :: "string \<Rightarrow> string \<Rightarrow> string" where
  "write_line text line = text @ line @ [newline]"

definition count_noun :: "nat \<Rightarrow> string \<Rightarrow> string \<Rightarrow> string" where
  "count_noun count singular plural = (if count = 1 then singular else plural)"

definition counts_words :: "registry_counts \<Rightarrow> string" where
  "counts_words c =
     show_nat (rc_source_rows c) @ '' ''
     @ count_noun (rc_source_rows c) ''source row'' ''source rows'' @ '', ''
     @ show_nat (rc_duplicates_removed c) @ '' ''
     @ count_noun (rc_duplicates_removed c) ''duplicate'' ''duplicates'' @ '' removed''"

definition header_text :: "string \<Rightarrow> string" where
  "header_text retrieved_at_utc = join_with [newline]
     [''# ieee-oui.txt -- IEEE Ethernet OUI-Vendor mapping file for new-arp-scan'',
      ''#'',
      ''# Generated by mac-vendor-updater. Do not edit this file.'',
      ''# Extra local mappings belong in a separate file passed to --mac-vendor-file.'',
      ''#'',
      ''# Retrieved (UTC): '' @ retrieved_at_utc,
      ''#'',
      ''# Sources:'']"

definition format_text :: string where
  "format_text = join_with [newline]
     [''#'',
      ''# Each line is <hex-prefix><TAB><vendor>. Blank lines and # comments are ignored.'',
      ''# Duplicate assignments keep the last source row.'',
      ''#'',
      ''# Entry counts (emitted unique prefixes; last duplicate assignment wins):'']"

definition render_section :: "string \<Rightarrow> registry_section \<Rightarrow> string" where
  "render_section text section =
     (let counts = rs_counts section; label = csv_registry_label (rc_registry counts);
          text = write_line text (join_with [newline]
            [''#'', ''# Start of IEEE '' @ label @ '' registry data'', ''#'']);
          text = foldl (\<lambda>text (prefix, vendor). write_line text (prefix @ tab # vendor)) text
            (rs_mappings section) in
      write_line text (join_with [newline]
        [''#'',
         ''# End of IEEE '' @ label @ '' registry data. '' @ show_nat (rc_emitted counts)
           @ '' emitted, '' @ counts_words counts @ ''.'',
         ''#'']))"

definition render_ieee_oui_text :: "string \<Rightarrow> registry_section list \<Rightarrow> string" where
  "render_ieee_oui_text retrieved_at_utc sections =
     (let text = write_line [] (header_text retrieved_at_utc);
          text = foldl (\<lambda>text r. write_line text
            (''#   '' @ csv_registry_label r @ '': '' @ csv_url r)) text all_registries;
          text = write_line text format_text;
          text = foldl (\<lambda>text section. write_line text
            (''#   '' @ csv_registry_label (rc_registry (rs_counts section)) @ '': ''
             @ show_nat (rc_emitted (rs_counts section)) @ '' emitted (''
             @ counts_words (rs_counts section) @ '')'')) text sections;
          text = write_line text [] in
      foldl render_section text sections)"

definition convert_ieee_registry_csvs ::
    "csv_reader \<Rightarrow> registry_csv_input list \<Rightarrow> string \<Rightarrow> convert_error halt + converted_ieee_oui" where
  "convert_ieee_registry_csvs csv inputs retrieved_at_utc =
     and_then (convert_sections csv inputs all_registries) (\<lambda>sections.
     Ok \<lparr>cv_text = render_ieee_oui_text retrieved_at_utc sections, cv_counts = map rs_counts sections\<rparr>)"

section \<open>Facts about text\<close>

lemma leading_ws_append: "leading_ws s \<noteq> 0 \<Longrightarrow> leading_ws (s @ t) \<noteq> 0"
  by (auto simp: leading_ws_def nth_append split: if_splits)

lemma trimmed_start: "str_trim s = [] \<or> leading_ws (str_trim s) = 0"
proof -
  obtain u where "rev (trim_by leading_ws s) = u @ rev (str_trim s)"
    using trim_by_suffix [of _ trailing_ws] by (auto simp: str_trim_def)
  then have "trim_by leading_ws s = str_trim s @ rev u"
    by (metis rev_append rev_rev_ident)
  then show ?thesis
    using trim_by_stops [of leading_ws s] leading_ws_append [of "str_trim s" "rev u"] by auto
qed

lemma str_trim_idem [simp]: "str_trim (str_trim s) = str_trim s"
proof (cases "str_trim s = []")
  case True
  then show ?thesis by (simp add: str_trim_def trim_by.simps [of _ "[]"])
next
  case False
  then have "leading_ws (str_trim s) = 0" "trailing_ws (rev (str_trim s)) = 0"
    using trimmed_start [of s] trimmed_end [of s] by auto
  then show ?thesis by (simp add: str_trim_def [of "str_trim s"] trim_by_id)
qed

text \<open>White space at an end does not reach into ASCII text: its first octets are above 127.\<close>

lemma trailing_ws_one: "trailing_ws [x] = (if ws_one (code x) then 1 else 0)"
  by (simp add: trailing_ws_def)

lemma trailing_ws_two:
  "trailing_ws [x, y] =
     (if ws_one (code x) then 1 else if ws_two (code y) (code x) then 2 else 0)"
  by (simp add: trailing_ws_def)

lemma trailing_ws_three:
  "trailing_ws (x # y # z # u) =
     (if ws_one (code x) then 1 else if ws_two (code y) (code x) then 2
      else if ws_three (code z) (code y) (code x) then 3 else 0)"
  by (simp add: trailing_ws_def numeral_2_eq_2)

lemmas trailing_ws_lists = trailing_ws_one trailing_ws_two trailing_ws_three

lemma ws_ascii:
  "a < 128 \<Longrightarrow> \<not> ws_two a b" "a < 128 \<Longrightarrow> \<not> ws_three a b c" "b < 128 \<Longrightarrow> \<not> ws_three a b c"
  by (auto simp: ws_two_def ws_three_def)

lemma trailing_ws_ascii:
  assumes "trailing_ws s = 0" and "s \<noteq> []" and t: "\<forall>c\<in>set t. code c < 128"
  shows "trailing_ws (s @ t) = 0"
proof -
  consider x where "s = [x]" | x y where "s = [x, y]" | x y z u where "s = x # y # z # u"
    using assms(2) by (metis list.exhaust)
  then show ?thesis
  proof cases
    case (1 x)
    consider "t = []" | a where "t = [a]" | a b u where "t = a # b # u" by (metis list.exhaust)
    then show ?thesis
      using assms(1) t 1 by cases (simp_all add: trailing_ws_lists ws_ascii split: if_splits)
  next
    case (2 x y)
    then show ?thesis
      using assms(1) t by (cases t) (simp_all add: trailing_ws_lists ws_ascii split: if_splits)
  next
    case (3 x y z u)
    then show ?thesis using assms(1) by (simp add: trailing_ws_three)
  qed
qed

lemma trailing_ws_before_plain:
  assumes "plain_char c"
  shows "trailing_ws (v @ [c]) \<le> length v"
proof -
  have c: "code c < 128" "\<not> ws_one (code c)" using assms by (auto simp: plain_char_def ws_one_def)
  consider "v = []" | x where "v = [x]" | x y where "v = [x, y]" | x y z u where "v = x # y # z # u"
    by (metis list.exhaust)
  then show ?thesis
    using c by cases (simp_all add: trailing_ws_lists ws_ascii)
qed

lemma str_trim_comment:
  assumes "plain_char c"
  shows "\<exists>t. str_trim (c # s) = c # t"
proof -
  have keep: "\<exists>u. trim_by trailing_ws (v @ [c]) = u @ [c]" for v
  proof (induction "length v" arbitrary: v rule: less_induct)
    case less
    show ?case
    proof (cases "trailing_ws (v @ [c]) = 0")
      case True
      then show ?thesis by (metis trim_by_id)
    next
      case False
      have "trailing_ws (v @ [c]) \<le> length v"
        by (rule trailing_ws_before_plain [OF assms])
      moreover from this have "trim_by trailing_ws (v @ [c])
          = trim_by trailing_ws (drop (trailing_ws (v @ [c])) v @ [c])"
        using False by (subst trim_by.simps) simp
      moreover have "length (drop (trailing_ws (v @ [c])) v) < length v"
        using False calculation(1) by simp
      ultimately show ?thesis using less by metis
    qed
  qed
  have "trim_by leading_ws (c # s) = c # s"
    using assms by (intro trim_by_id leading_ws_plain) simp
  moreover obtain u where "trim_by trailing_ws (rev s @ [c]) = u @ [c]" using keep by blast
  ultimately have "str_trim (c # s) = c # rev u" by (simp add: str_trim_def)
  then show ?thesis by blast
qed

lemma newline_code: "code newline = 10" and tab_code: "code tab = 9"
  by (simp_all add: newline_def tab_def code_def)

lemma str_lines_concat:
  assumes "\<forall>l\<in>set ls. newline \<notin> set l"
  shows "str_lines (concat (map (\<lambda>l. l @ [newline]) ls)) = map strip_cr ls"
proof -
  have "split_char newline (concat (map (\<lambda>l. l @ [newline]) ls)) = ls @ [[]]"
    using assms by (induction ls) (simp_all add: split_char_append)
  then show ?thesis by (simp add: str_lines_def)
qed

text \<open>A line that a parser of the table skips, and one that adds an entry.\<close>

lemma comment_line: "parse_registry_line n (strip_cr (CHR ''#'' # s)) = Ok None"
proof -
  have "\<exists>t. strip_cr (CHR ''#'' # s) = CHR ''#'' # t" by (auto simp: strip_cr_def)
  moreover have "plain_char (CHR ''#'')" by (simp add: plain_char_def code_def)
  ultimately obtain t where "str_trim (strip_cr (CHR ''#'' # s)) = CHR ''#'' # t"
    using str_trim_comment by metis
  then show ?thesis by (simp add: parse_registry_line_def starts_with_def)
qed

lemma blank_line: "parse_registry_line n (strip_cr []) = Ok None"
  by (simp add: parse_registry_line_def strip_cr_def str_trim_def trim_by.simps [of _ "[]"])

definition table_prefix :: "string \<Rightarrow> bool" where
  "table_prefix p \<longleftrightarrow>
     2 \<le> length p \<and> length p \<le> 12 \<and> (\<forall>c\<in>set p. is_ascii_hexdigit c \<and> to_ascii_uppercase c = c)"

lemma hexdigit_plain: "is_ascii_hexdigit c \<Longrightarrow> plain_char c"
  by (auto simp: is_ascii_hexdigit_def hex_digit_value_def plain_char_def Let_def split: if_splits)

lemma entry_line:
  assumes "table_prefix p" and "str_trim v = v" and "v \<noteq> []"
  shows "parse_registry_line n (strip_cr (p @ tab # v)) = Ok (Some (p, v))"
proof -
  have hex: "\<forall>c\<in>set p. is_ascii_hexdigit c" and ne: "p \<noteq> []"
    using assms(1) by (auto simp: table_prefix_def)
  have plain: "\<forall>c\<in>set p. plain_char c" using hex hexdigit_plain by blast
  have ends: "trailing_ws (rev v) = 0" using trimmed_end [of v] assms(2,3) by simp
  have "last v \<noteq> CHR 0x0D"
    using ends assms(3)
    by (auto simp: trailing_ws_def ws_one_def hd_rev code_def Suc_le_eq simp flip: hd_conv_nth split: if_splits)
  then have cr: "strip_cr (p @ tab # v) = p @ tab # v"
    using assms(3) by (simp add: strip_cr_def)
  have "trailing_ws (rev v @ (tab # rev p)) = 0"
    using ends assms(3) plain by (intro trailing_ws_ascii) (auto simp: plain_char_def tab_code)
  moreover have "leading_ws (p @ tab # v) = 0"
    using ne plain by (intro leading_ws_plain) simp
  ultimately have trim: "str_trim (p @ tab # v) = p @ tab # v"
    by (simp add: str_trim_def trim_by_id)
  have "hd p \<noteq> CHR ''#''" using hex ne
    by (auto simp: is_ascii_hexdigit_def hex_digit_value_def code_def dest!: hd_in_set)
  then have start: "\<not> starts_with ''#'' (p @ tab # v)" using ne by (cases p) (auto simp: starts_with_def)
  have "tab \<notin> set p" using plain by (auto simp: plain_char_def tab_code)
  then have split: "split_once tab (p @ tab # v) = Some (p, v)" by (rule split_once_append)
  have "normalize_hexadecimal_prefix p = p"
    using assms(1) by (auto simp: normalize_hexadecimal_prefix_def table_prefix_def filter_id_conv
        intro: map_idI)
  then show ?thesis
    using parse_registry_line_Some [of "p @ tab # v" "p @ tab # v" p v n] trim start split assms ne
    by (simp add: cr table_prefix_def)
qed

section \<open>Facts about the conversion\<close>

text \<open>
  What the loop is meant to compute: the rows of a document, the last vendor of a prefix, and the
  prefixes in the order of their first row.
\<close>

fun document_rows :: "ieee_mac_registry \<Rightarrow> (csv_error + csv_record) list \<Rightarrow> (string \<times> string) list" where
  "document_rows registry [] = []"
| "document_rows registry (r # rs) =
     (case and_then (map_err (csv_error_of (Some registry)) r) (checked_row registry) of
        Inl _ \<Rightarrow> document_rows registry rs
      | Inr row \<Rightarrow> row # document_rows registry rs)"

definition first_seen :: "'a list \<Rightarrow> 'a list" where
  "first_seen xs = rev (remdups (rev xs))"

lemma first_seen_snoc: "first_seen (xs @ [x]) = (if x \<in> set xs then first_seen xs else first_seen xs @ [x])"
  by (simp add: first_seen_def)

lemma first_seen_facts [simp]:
  "distinct (first_seen xs)" "set (first_seen xs) = set xs" "first_seen [] = []"
  by (simp_all add: first_seen_def)

lemma length_first_seen: "length (first_seen xs) = card (set xs)"
  by (simp add: first_seen_def length_remdups_card_conv)

definition last_mappings :: "(string \<times> string) list \<Rightarrow> (string \<times> string) list" where
  "last_mappings rows =
     map (\<lambda>p. (p, the (map_of (rev rows) p))) (first_seen (map fst rows))"

definition rows_counts :: "ieee_mac_registry \<Rightarrow> (string \<times> string) list \<Rightarrow> registry_counts" where
  "rows_counts registry rows =
     \<lparr>rc_registry = registry, rc_emitted = card (fst ` set rows), rc_source_rows = length rows,
      rc_duplicates_removed = length rows - card (fst ` set rows)\<rparr>"

definition conversion_inv :: "(string \<times> string) list \<Rightarrow> conversion \<Rightarrow> bool" where
  "conversion_inv rows s \<longleftrightarrow>
     s = \<lparr>cs_first_seen_order = first_seen (map fst rows),
          cs_last_vendor_by_prefix = map_of (rev rows), cs_source_rows = length rows\<rparr>"

lemma accept_row_inv:
  assumes "conversion_inv rows s"
  shows "accept_row row s =
    (if length rows < usize_max then Ok \<lparr>cs_first_seen_order = first_seen (map fst (rows @ [row])),
        cs_last_vendor_by_prefix = map_of (rev (rows @ [row])), cs_source_rows = length (rows @ [row])\<rparr>
     else Err Panic)"
proof -
  have order: "(case map_of (rev rows) p of None \<Rightarrow> first_seen (map fst rows) @ [p] | Some _ \<Rightarrow> first_seen (map fst rows))
      = first_seen (map fst rows @ [p])" for p
    using map_of_eq_None_iff [of "rev rows" p]
    by (cases "map_of (rev rows) p") (simp_all add: first_seen_snoc)
  show ?thesis
    using assms order
    by (cases row) (simp add: accept_row_def conversion_inv_def checked_add_def cong: option.case_cong)
qed

lemma convert_records_Ok:
  assumes "conversion_inv rows s"
  shows "convert_records registry rs s = Ok s' \<longleftrightarrow>
    length (document_rows registry rs) = length rs \<and> (rs = [] \<or> length rows + length rs \<le> usize_max)
    \<and> conversion_inv (rows @ document_rows registry rs) s'"
  using assms
proof (induction rs arbitrary: rows s)
  case Nil
  then show ?case by (auto simp: conversion_inv_def)
next
  case (Cons r rs)
  have le: "length (document_rows registry ls) \<le> length ls" for ls
    by (induction ls) (auto split: sum.splits)
  have no: "length (document_rows registry rs) \<noteq> Suc (length rs)" using le [of rs] by simp
  show ?case
  proof (cases "and_then (map_err (csv_error_of (Some registry)) r) (checked_row registry)")
    case (Inl e)
    then show ?thesis using no by (cases r; cases "checked_row registry (projr r)") simp_all
  next
    case (Inr row)
    then obtain rec where r: "r = Ok rec" "checked_row registry rec = Ok row"
      by (auto simp: and_then_eq_Ok_iff)
    show ?thesis
    proof (cases "length rows < usize_max")
      case True
      have "conversion_inv (rows @ [row]) \<lparr>cs_first_seen_order = first_seen (map fst (rows @ [row])),
        cs_last_vendor_by_prefix = map_of (rev (rows @ [row])), cs_source_rows = length (rows @ [row])\<rparr>"
        by (simp add: conversion_inv_def)
      from Cons.IH [OF this] show ?thesis
        using r True accept_row_inv [OF Cons.prems, of row] by (cases rs) simp_all
    next
      case False
      then show ?thesis using r accept_row_inv [OF Cons.prems, of row] by simp
    qed
  qed
qed

lemma take_mappings_Ok:
  "distinct ps \<Longrightarrow> set ps \<subseteq> dom m \<Longrightarrow> take_mappings ps m = Ok (map (\<lambda>p. (p, the (m p))) ps)"
proof (induction ps arbitrary: m)
  case (Cons p ps)
  then obtain v where "m p = Some v" by auto
  moreover have "take_mappings ps (m(p := None)) = Ok (map (\<lambda>q. (q, the ((m(p := None)) q))) ps)"
    using Cons by (intro Cons.IH) auto
  moreover have "map (\<lambda>q. (q, the ((m(p := None)) q))) ps = map (\<lambda>q. (q, the (m q))) ps"
    using Cons.prems(1) by simp
  ultimately show ?case by simp
qed simp

text \<open>The rest of the conversion of one document, after the loop, cannot panic.\<close>

lemma section_of_rows:
  assumes "conversion_inv rows s"
  shows "take_mappings (cs_first_seen_order s) (cs_last_vendor_by_prefix s) = Ok (last_mappings rows)"
    and "checked_sub (cs_source_rows s) (length (last_mappings rows))
      = Some (length rows - card (fst ` set rows))"
    and "length (last_mappings rows) = card (fst ` set rows)"
proof -
  have s: "cs_first_seen_order s = first_seen (map fst rows)"
    "cs_last_vendor_by_prefix s = map_of (rev rows)" "cs_source_rows s = length rows"
    using assms by (simp_all add: conversion_inv_def)
  show "take_mappings (cs_first_seen_order s) (cs_last_vendor_by_prefix s) = Ok (last_mappings rows)"
    unfolding s last_mappings_def by (rule take_mappings_Ok) (auto simp: dom_map_of_conv_image_fst)
  show len: "length (last_mappings rows) = card (fst ` set rows)"
    by (simp add: last_mappings_def length_first_seen)
  have "card (fst ` set rows) \<le> length rows"
    by (metis card_length card_image_le finite_set le_trans)
  then show "checked_sub (cs_source_rows s) (length (last_mappings rows))
      = Some (length rows - card (fst ` set rows))"
    by (simp add: checked_sub_def len s)
qed

definition input_document :: "csv_reader \<Rightarrow> registry_csv_input \<Rightarrow> csv_document" where
  "input_document csv input = csv (strip_utf8_bom (rci_csv_text input))"

definition input_rows :: "csv_reader \<Rightarrow> registry_csv_input \<Rightarrow> (string \<times> string) list" where
  "input_rows csv input = document_rows (rci_registry input) (cd_records (input_document csv input))"

lemma validate_headers_Ok: "validate_headers headers = Ok () \<longleftrightarrow> headers = expected_headers"
proof (cases "length headers = 4")
  case True
  then obtain a b c d where "headers = [a, b, c, d]"
    by (auto simp: length_Suc_conv numeral_eq_Suc)
  then show ?thesis by (auto simp: validate_headers_def expected_headers_def)
qed (auto simp: validate_headers_def expected_headers_def)

lemma convert_one_registry_Ok:
  "convert_one_registry csv input = Ok s \<longleftrightarrow>
     cd_headers (input_document csv input) = Ok expected_headers
     \<and> cd_records (input_document csv input) \<noteq> []
     \<and> length (cd_records (input_document csv input)) \<le> usize_max
     \<and> length (input_rows csv input) = length (cd_records (input_document csv input))
     \<and> s = \<lparr>rs_counts = rows_counts (rci_registry input) (input_rows csv input),
            rs_mappings = last_mappings (input_rows csv input)\<rparr>"
    (is "?run \<longleftrightarrow> ?H \<and> ?ne \<and> ?le \<and> ?len \<and> ?s")
proof -
  let ?d = "input_document csv input" and ?r = "rci_registry input" and ?rows = "input_rows csv input"
  let ?s0 = "\<lparr>cs_first_seen_order = [], cs_last_vendor_by_prefix = Map.empty, cs_source_rows = 0\<rparr>"
  have s0: "conversion_inv [] ?s0" by (simp add: conversion_inv_def)
  have H: "?H \<longleftrightarrow> (\<exists>h. cd_headers ?d = Ok h \<and> validate_headers h = Ok ())"
    by (auto simp: validate_headers_Ok)
  show ?thesis
  proof (cases "\<exists>s1. convert_records ?r (cd_records ?d) ?s0 = Ok s1")
    case True
    then obtain s1 where run: "convert_records ?r (cd_records ?d) ?s0 = Ok s1" by blast
    then have c: "?len" "cd_records ?d = [] \<or> ?le" and inv: "conversion_inv ?rows s1"
      using convert_records_Ok [OF s0] by (simp_all add: input_rows_def)
    have "cs_source_rows s1 = length ?rows" using inv by (simp add: conversion_inv_def)
    then have "cs_source_rows s1 = 0 \<longleftrightarrow> cd_records ?d = []" using c by auto
    then show ?thesis
      using run c section_of_rows [OF inv] inv unfolding H
      by (auto simp: convert_one_registry_def input_document_def [symmetric] Let_def
          and_then_eq_Ok_iff rows_counts_def conversion_inv_def)
  next
    case False
    then have "\<not> (?len \<and> ?le)"
      using convert_records_Ok [OF s0, of ?r "cd_records ?d"]
      by (auto simp: input_rows_def conversion_inv_def)
    then show ?thesis
      using False by (auto simp: convert_one_registry_def input_document_def [symmetric] Let_def
          and_then_eq_Ok_iff)
  qed
qed

text \<open>A row that is accepted, told without the order of the checks, and what it gives.\<close>

lemma checked_row_Ok:
  "checked_row registry rec = Ok (prefix, vendor) \<longleftrightarrow>
     (\<exists>a v address. cr_fields rec = [csv_registry_label registry, a, v, address]
        \<and> normalize_assignment a registry = Some prefix \<and> vendor = str_trim v \<and> vendor \<noteq> [])"
proof (cases "length (cr_fields rec) = 4")
  case True
  then obtain l a v address where "cr_fields rec = [l, a, v, address]"
    by (auto simp: length_Suc_conv numeral_eq_Suc)
  then show ?thesis
    by (auto simp: checked_row_def Let_def expected_headers_def record_field_def and_then_eq_Ok_iff)
qed (auto simp: checked_row_def Let_def expected_headers_def)

lemma normalize_assignment_table_prefix:
  assumes "normalize_assignment a registry = Some prefix"
  shows "table_prefix prefix \<and> length prefix = assignment_hex_digit_count registry"
proof -
  have idem: "to_ascii_uppercase (to_ascii_uppercase c) = to_ascii_uppercase c" for c
    using code_char_of [of "code c - 32"] code_lt [of c] by (auto simp: to_ascii_uppercase_def)
  have width: "6 \<le> assignment_hex_digit_count registry \<and> assignment_hex_digit_count registry \<le> 9"
    by (cases registry) simp_all
  show ?thesis
    using assms width
    by (auto simp: normalize_assignment_def table_prefix_def Let_def list_all_iff idem
        intro!: upper_hexdigit split: if_splits)
qed

definition well_formed_entry :: "string \<times> string \<Rightarrow> bool" where
  "well_formed_entry e \<longleftrightarrow> table_prefix (fst e) \<and> str_trim (snd e) = snd e \<and> snd e \<noteq> []"

lemma document_rows_well_formed: "e \<in> set (document_rows registry rs) \<Longrightarrow> well_formed_entry e"
proof (induction rs)
  case (Cons r rs)
  show ?case
  proof (cases "and_then (map_err (csv_error_of (Some registry)) r) (checked_row registry)")
    case (Inr row)
    then have "well_formed_entry row"
      using normalize_assignment_table_prefix
      by (cases row) (auto simp: and_then_eq_Ok_iff checked_row_Ok well_formed_entry_def)
    then show ?thesis using Cons Inr by auto
  qed (use Cons in simp)
qed simp

lemma last_mappings_map: "map_of (rev (last_mappings rows)) = map_of (rev rows)"
proof
  fix x
  show "map_of (rev (last_mappings rows)) x = map_of (rev rows) x"
    using map_of_eq_None_iff [of "rev rows" x]
    by (cases "map_of (rev rows) x")
      (auto simp: last_mappings_def rev_map map_of_map_restrict restrict_map_def)
qed

lemma last_mappings_subset: "set (last_mappings rows) \<subseteq> set rows"
proof -
  have "(p, the (map_of (rev rows) p)) \<in> set rows" if "p \<in> fst ` set rows" for p
  proof -
    obtain v where "map_of (rev rows) p = Some v"
      using \<open>p \<in> fst ` set rows\<close> map_of_eq_None_iff [of "rev rows" p] by auto
    then show ?thesis using map_of_SomeD by fastforce
  qed
  then show ?thesis by (auto simp: last_mappings_def)
qed

text \<open>The inputs in registry order.\<close>

definition input_for :: "registry_csv_input list \<Rightarrow> ieee_mac_registry \<Rightarrow> registry_csv_input option" where
  "input_for inputs registry = find (\<lambda>input. rci_registry input = registry) inputs"

definition registry_rows ::
    "csv_reader \<Rightarrow> registry_csv_input list \<Rightarrow> ieee_mac_registry \<Rightarrow> (string \<times> string) list" where
  "registry_rows csv inputs registry =
     (case input_for inputs registry of None \<Rightarrow> [] | Some input \<Rightarrow> input_rows csv input)"

definition rows_section :: "ieee_mac_registry \<Rightarrow> (string \<times> string) list \<Rightarrow> registry_section" where
  "rows_section registry rows =
     \<lparr>rs_counts = rows_counts registry rows, rs_mappings = last_mappings rows\<rparr>"

lemma convert_sections_Ok:
  "convert_sections csv inputs rs = Ok ss \<Longrightarrow>
     ss = map (\<lambda>r. rows_section r (registry_rows csv inputs r)) rs"
proof (induction rs arbitrary: ss)
  case (Cons r rs)
  then obtain i s ss' where i: "find (\<lambda>input. rci_registry input = r) inputs = Some i"
    and s: "convert_one_registry csv i = Ok s" and rest: "convert_sections csv inputs rs = Ok ss'"
    and ss: "ss = s # ss'"
    by (auto simp: and_then_eq_Ok_iff)
  have "rci_registry i = r" using i by (auto simp: find_Some_iff)
  then have "s = rows_section r (registry_rows csv inputs r)"
    using s i unfolding convert_one_registry_Ok
    by (simp add: rows_section_def registry_rows_def input_for_def)
  then show ?case using ss Cons.IH [OF rest] by simp
qed simp

section \<open>Facts about the generated text\<close>

abbreviation lines_text :: "string list \<Rightarrow> string" where
  "lines_text ls \<equiv> concat (map (\<lambda>l. l @ [newline]) ls)"

lemma join_with_newline: "ls \<noteq> [] \<Longrightarrow> join_with [newline] ls @ [newline] = lines_text ls"
  by (induction "[newline]" ls rule: join_with.induct) auto

lemma write_joined: "ls \<noteq> [] \<Longrightarrow> write_line text (join_with [newline] ls) = text @ lines_text ls"
  by (simp add: write_line_def join_with_newline)

lemma foldl_write_line: "foldl (\<lambda>t x. write_line t (f x)) s xs = s @ lines_text (map f xs)"
  by (induction xs arbitrary: s) (simp_all add: write_line_def)

definition entry_text :: "string \<times> string \<Rightarrow> string" where
  "entry_text e = fst e @ tab # snd e"

definition opening_lines :: "registry_section \<Rightarrow> string list" where
  "opening_lines s =
     [''#'', ''# Start of IEEE '' @ csv_registry_label (rc_registry (rs_counts s)) @ '' registry data'', ''#'']"

definition closing_lines :: "registry_section \<Rightarrow> string list" where
  "closing_lines s =
     [''#'',
      ''# End of IEEE '' @ csv_registry_label (rc_registry (rs_counts s)) @ '' registry data. ''
        @ show_nat (rc_emitted (rs_counts s)) @ '' emitted, '' @ counts_words (rs_counts s) @ ''.'',
      ''#'']"

definition section_lines :: "registry_section \<Rightarrow> string list" where
  "section_lines s = opening_lines s @ map entry_text (rs_mappings s) @ closing_lines s"

lemma line_groups_ne [simp]: "opening_lines s \<noteq> []" "closing_lines s \<noteq> []"
  by (simp_all add: opening_lines_def closing_lines_def)

lemma render_section_lines: "render_section text s = text @ lines_text (section_lines s)"
proof -
  have entries: "(\<lambda>text (prefix, vendor). write_line text (prefix @ tab # vendor))
      = (\<lambda>text e. write_line text (entry_text e))"
    by (simp add: entry_text_def split_def)
  show ?thesis
    unfolding render_section_def Let_def opening_lines_def [symmetric] closing_lines_def [symmetric]
      entries foldl_write_line
    by (simp add: write_joined section_lines_def)
qed

definition sources_lines :: "string list" where
  "sources_lines = map (\<lambda>r. ''#   '' @ csv_registry_label r @ '': '' @ csv_url r) all_registries"

definition counts_line :: "registry_section \<Rightarrow> string" where
  "counts_line s =
     ''#   '' @ csv_registry_label (rc_registry (rs_counts s)) @ '': ''
     @ show_nat (rc_emitted (rs_counts s)) @ '' emitted ('' @ counts_words (rs_counts s) @ '')''"

definition title_lines :: "string \<Rightarrow> string list" where
  "title_lines t =
     [''# ieee-oui.txt -- IEEE Ethernet OUI-Vendor mapping file for new-arp-scan'',
      ''#'',
      ''# Generated by mac-vendor-updater. Do not edit this file.'',
      ''# Extra local mappings belong in a separate file passed to --mac-vendor-file.'',
      ''#'',
      ''# Retrieved (UTC): '' @ t,
      ''#'',
      ''# Sources:'']"

definition format_lines :: "string list" where
  "format_lines =
     [''#'',
      ''# Each line is <hex-prefix><TAB><vendor>. Blank lines and # comments are ignored.'',
      ''# Duplicate assignments keep the last source row.'',
      ''#'',
      ''# Entry counts (emitted unique prefixes; last duplicate assignment wins):'']"

definition preamble_lines :: "string \<Rightarrow> registry_section list \<Rightarrow> string list" where
  "preamble_lines t ss =
     title_lines t @ sources_lines @ format_lines @ map counts_line ss @ [[]]"

lemma title_format_ne [simp]: "title_lines t \<noteq> []" "format_lines \<noteq> []"
  by (simp_all add: title_lines_def format_lines_def)

lemma render_lines:
  "render_ieee_oui_text t ss = lines_text (preamble_lines t ss @ concat (map section_lines ss))"
proof -
  have "foldl render_section s ss = s @ lines_text (concat (map section_lines ss))" for s
    by (induction ss arbitrary: s) (simp_all add: render_section_lines)
  moreover have "write_line [] (header_text t) = lines_text (title_lines t)"
    unfolding header_text_def title_lines_def [symmetric] by (simp add: write_joined)
  moreover have "write_line s format_text = s @ lines_text format_lines" for s
    unfolding format_text_def format_lines_def [symmetric] by (simp add: write_joined)
  moreover have "write_line s [] = s @ lines_text [[]]" for s by (simp add: write_line_def)
  ultimately show ?thesis
    unfolding render_ieee_oui_text_def Let_def counts_line_def [symmetric] foldl_write_line
      sources_lines_def [symmetric]
    by (simp add: preamble_lines_def)
qed

text \<open>No line but the timestamp's and the entries' can hold a line break; no other line is an entry.\<close>

definition skipped :: "string \<Rightarrow> bool" where
  "skipped l \<longleftrightarrow> l = [] \<or> (\<exists>s. l = CHR ''#'' # s)"

lemma skipped_simps [simp]: "skipped []" "skipped (CHR ''#'' # s)"
  by (simp_all add: skipped_def)

lemma newline_not_in_number: "newline \<notin> set (show_nat n)"
  by (rule show_nat_no) (simp add: is_ascii_digit_def newline_code)

lemma newline_not_in_counts: "newline \<notin> set (counts_words c)"
  by (simp add: counts_words_def count_noun_def newline_not_in_number) (simp add: newline_def)

lemma newline_not_in_label: "newline \<notin> set (csv_registry_label r)" "newline \<notin> set (csv_url r)"
  by (cases r; simp add: newline_def)+

lemma section_line_shape:
  "l \<in> set (opening_lines s) \<union> set (closing_lines s) \<Longrightarrow> skipped l \<and> newline \<notin> set l"
proof -
  have "newline \<notin> set ''# Start of IEEE ''" "newline \<notin> set ''# End of IEEE ''"
    "newline \<notin> set '' registry data''" "newline \<notin> set '' registry data. ''"
    "newline \<notin> set '' emitted, ''" "newline \<notin> set ''.''" "newline \<notin> set ''#''"
    by (simp_all add: newline_def)
  then have "\<forall>l\<in>set (opening_lines s) \<union> set (closing_lines s). skipped l \<and> newline \<notin> set l"
    unfolding opening_lines_def closing_lines_def
    by (simp add: newline_not_in_number newline_not_in_counts newline_not_in_label)
  then show "l \<in> set (opening_lines s) \<union> set (closing_lines s) \<Longrightarrow> skipped l \<and> newline \<notin> set l"
    by blast
qed

lemma preamble_line_shape:
  assumes "l \<in> set (preamble_lines t ss)" and "newline \<notin> set t"
  shows "skipped l \<and> newline \<notin> set l"
proof -
  have "\<forall>l\<in>set (title_lines t) \<union> set format_lines. skipped l \<and> newline \<notin> set l"
    using assms(2) by (simp add: title_lines_def format_lines_def newline_def)
  moreover have "skipped l \<and> newline \<notin> set l" if "l \<in> set sources_lines \<union> counts_line ` set ss"
    using that by (auto simp: sources_lines_def counts_line_def newline_not_in_number newline_not_in_counts
        newline_not_in_label) (simp_all add: newline_def)
  moreover have "l \<in> set (title_lines t) \<union> set format_lines \<or> l \<in> set sources_lines \<union> counts_line ` set ss
      \<or> l = []"
    using assms(1) by (simp add: preamble_lines_def) blast
  ultimately show ?thesis by auto
qed

lemma parse_skipped:
  "\<forall>l\<in>set ls. skipped l \<Longrightarrow>
     parse_registry_lines n (map strip_cr ls @ rest) m = parse_registry_lines (n + length ls) rest m"
proof (induction ls arbitrary: n)
  case (Cons l ls)
  then have "parse_registry_line n (strip_cr l) = Ok None"
    using blank_line comment_line by (auto simp: skipped_def)
  then show ?case using Cons by simp
qed simp

lemma parse_entries:
  "\<forall>e\<in>set es. well_formed_entry e \<Longrightarrow>
     parse_registry_lines n (map strip_cr (map entry_text es) @ rest) m
       = parse_registry_lines (n + length es) rest (m ++ map_of (rev es))"
proof (induction es arbitrary: n m)
  case (Cons e es)
  then have "parse_registry_line n (strip_cr (entry_text e)) = Ok (Some e)"
    using entry_line by (simp add: well_formed_entry_def entry_text_def)
  moreover have "m(fst e \<mapsto> snd e) ++ map_of (rev es) = m ++ map_of (rev (e # es))"
    by (cases e) (simp add: map_add_assoc [symmetric])
  ultimately show ?case using Cons by (cases e) simp
qed simp

lemma parse_section:
  assumes "\<forall>e\<in>set (rs_mappings s). well_formed_entry e"
  shows "parse_registry_lines n (map strip_cr (section_lines s) @ rest) m
    = parse_registry_lines (n + length (section_lines s)) rest (m ++ map_of (rev (rs_mappings s)))"
  using assms section_line_shape [of _ s]
  by (simp add: section_lines_def parse_skipped parse_entries add.assoc del: map_map)

lemma parse_sections:
  "\<forall>s\<in>set ss. \<forall>e\<in>set (rs_mappings s). well_formed_entry e \<Longrightarrow>
     parse_registry_lines n (map strip_cr (concat (map section_lines ss))) m
       = Ok (m ++ map_of (rev (concat (map rs_mappings ss))))"
proof (induction ss arbitrary: n m)
  case (Cons s ss)
  then show ?case by (simp add: parse_section map_add_assoc)
qed simp

lemma rendered_text_parses:
  assumes "newline \<notin> set t"
    and "\<forall>s\<in>set ss. \<forall>e\<in>set (rs_mappings s). well_formed_entry e \<and> newline \<notin> set (snd e)"
  shows "parse_ieee_oui_text (render_ieee_oui_text t ss)
    = Ok (map_of (rev (concat (map rs_mappings ss))))"
proof -
  have hexnl: "newline \<notin> set (fst e)" if "well_formed_entry e" for e
    using that hexdigit_plain [of newline]
    by (auto simp: well_formed_entry_def table_prefix_def plain_char_def newline_code)
  have "newline \<notin> set (entry_text e)" if "well_formed_entry e" "newline \<notin> set (snd e)" for e
    using that hexnl [of e] by (simp add: entry_text_def newline_def tab_def)
  then have "\<forall>l\<in>set (preamble_lines t ss @ concat (map section_lines ss)). newline \<notin> set l"
    using assms section_line_shape preamble_line_shape [OF _ assms(1), of _ ss]
    by (fastforce simp: section_lines_def)
  then have lines: "str_lines (render_ieee_oui_text t ss)
      = map strip_cr (preamble_lines t ss) @ map strip_cr (concat (map section_lines ss))"
    unfolding render_lines by (subst str_lines_concat) (simp_all only: map_append)
  show ?thesis
    using assms preamble_line_shape [OF _ assms(1), of _ ss]
    unfolding parse_ieee_oui_text_def lines
    by (simp add: parse_skipped parse_sections del: map_concat)
qed

section \<open>Properties\<close>

definition all_rows :: "csv_reader \<Rightarrow> registry_csv_input list \<Rightarrow> (string \<times> string) list" where
  "all_rows csv inputs = concat (map (registry_rows csv inputs) all_registries)"

lemma converted_sections:
  assumes "convert_ieee_registry_csvs csv inputs t = Ok c"
  shows "c = \<lparr>cv_text = render_ieee_oui_text t
        (map (\<lambda>r. rows_section r (registry_rows csv inputs r)) all_registries),
      cv_counts = map (\<lambda>r. rows_counts r (registry_rows csv inputs r)) all_registries\<rparr>"
  using assms convert_sections_Ok [of csv inputs all_registries]
  by (auto simp: convert_ieee_registry_csvs_def and_then_eq_Ok_iff rows_section_def)

lemma registry_rows_well_formed: "e \<in> set (registry_rows csv inputs r) \<Longrightarrow> well_formed_entry e"
  by (cases "input_for inputs r") (simp_all add: registry_rows_def input_rows_def document_rows_well_formed)

lemma converted_text_parses:
  assumes "convert_ieee_registry_csvs csv inputs t = Ok c"
    and "newline \<notin> set t" and "\<forall>e\<in>set (all_rows csv inputs). newline \<notin> set (snd e)"
  shows "parse_ieee_oui_text (cv_text c) = Ok (map_of (rev (all_rows csv inputs)))"
proof -
  let ?rows = "registry_rows csv inputs"
  let ?ss = "map (\<lambda>r. rows_section r (?rows r)) all_registries"
  have last_map: "map_of (rev (concat (map (\<lambda>r. last_mappings (?rows r)) rs))) = map_of (rev (concat (map ?rows rs)))"
    for rs
    by (induction rs) (simp_all add: last_mappings_map)
  have maps: "map rs_mappings ?ss = map (\<lambda>r. last_mappings (?rows r)) all_registries"
    by (simp add: rows_section_def)
  have "well_formed_entry e \<and> newline \<notin> set (snd e)"
    if mem: "s \<in> set ?ss" "e \<in> set (rs_mappings s)" for s e
  proof -
    obtain r where r: "r \<in> set all_registries" "e \<in> set (last_mappings (?rows r))"
      using mem by (auto simp: rows_section_def)
    then have "e \<in> set (?rows r)" using last_mappings_subset by blast
    with r show ?thesis
      using assms(3) registry_rows_well_formed by (auto simp: all_rows_def)
  qed
  then have "parse_ieee_oui_text (render_ieee_oui_text t ?ss)
      = Ok (map_of (rev (concat (map rs_mappings ?ss))))"
    using rendered_text_parses [OF assms(2), of ?ss] by blast
  then show ?thesis
    unfolding maps last_map all_rows_def using converted_sections [OF assms(1)] by simp
qed

text \<open>
  C16: reading the generated file back with the parser of the scanner gives every prefix the vendor
  of its last row, over all four listings in file order, when no vendor name and not the timestamp
  holds a line break.
\<close>

theorem converted_text_reads_back:
  assumes "convert_ieee_registry_csvs csv inputs t = Ok c"
    and "newline \<notin> set t" and "\<forall>e\<in>set (all_rows csv inputs). newline \<notin> set (snd e)"
  shows "parse_ieee_oui_text (cv_text c) = Ok (map_of (rev (all_rows csv inputs)))"
  using assms by (rule converted_text_parses)

text \<open>A reader for the examples: it knows the rows of four documents by their text.\<close>

definition example_documents :: "(string \<times> string list list) list" where
  "example_documents =
     [(''large'', [[''MA-L'', ''00-1b-21'', '' First'', ''Addr''], [''MA-L'', ''AABBCC'', ''Other'', ''Addr''],
         [''MA-L'', ''001B21'', ''Second'', ''Addr'']]),
      (''medium'', [[''MA-M'', ''F4A4750'', ''Fifth'', ''Addr'']]),
      (''small'', [[''MA-S'', ''70B3D5001'', ''Third'', ''Addr'']]),
      (''block'', [[''IAB'', ''40D8550D7'', ''Fourth'', ''Addr'']])]"

definition example_reader :: csv_reader where
  "example_reader text =
     \<lparr>cd_headers = Ok expected_headers,
      cd_records = map (\<lambda>fields. Ok \<lparr>cr_fields = fields, cr_line = None\<rparr>)
        (case map_of example_documents text of None \<Rightarrow> [] | Some rows \<Rightarrow> rows)\<rparr>"

definition example_inputs :: "registry_csv_input list" where
  "example_inputs =
     [\<lparr>rci_registry = MaS, rci_csv_text = ''small''\<rparr>, \<lparr>rci_registry = MaL, rci_csv_text = ''large''\<rparr>,
      \<lparr>rci_registry = Iab, rci_csv_text = ''block''\<rparr>, \<lparr>rci_registry = MaM, rci_csv_text = ''medium''\<rparr>]"

lemma document_rows_accepted:
  assumes "cr_fields rec = [csv_registry_label registry, a, v, address]"
    and "normalize_assignment a registry = Some prefix" and "str_trim v = vendor" and "vendor \<noteq> []"
  shows "document_rows registry (Ok rec # rs) = (prefix, vendor) # document_rows registry rs"
  using assms checked_row_Ok [of registry rec prefix vendor] by auto

lemma example_texts:
  "normalize_assignment ''00-1b-21'' MaL = Some ''001B21''"
  "normalize_assignment ''AABBCC'' MaL = Some ''AABBCC''"
  "normalize_assignment ''001B21'' MaL = Some ''001B21''"
  "normalize_assignment ''F4A4750'' MaM = Some ''F4A4750''"
  "normalize_assignment ''70B3D5001'' MaS = Some ''70B3D5001''"
  "normalize_assignment ''40D8550D7'' Iab = Some ''40D8550D7''"
  "str_trim '' First'' = ''First''" "str_trim ''Other'' = ''Other''" "str_trim ''Second'' = ''Second''"
  "str_trim ''Third'' = ''Third''" "str_trim ''Fourth'' = ''Fourth''" "str_trim ''Fifth'' = ''Fifth''"
  "strip_utf8_bom ''large'' = ''large''" "strip_utf8_bom ''medium'' = ''medium''"
  "strip_utf8_bom ''small'' = ''small''" "strip_utf8_bom ''block'' = ''block''"
  by code_simp+

lemmas example_simps = example_texts document_rows_accepted input_for_def example_inputs_def
  input_document_def input_rows_def example_reader_def example_documents_def all_registries_def

lemma example_rows:
  "all_rows example_reader example_inputs =
     [(''001B21'', ''First''), (''AABBCC'', ''Other''), (''001B21'', ''Second''), (''F4A4750'', ''Fifth''),
      (''70B3D5001'', ''Third''), (''40D8550D7'', ''Fourth'')]"
  by (simp add: all_rows_def registry_rows_def example_simps del: document_rows.simps(2))

definition short_listing :: "csv_reader \<Rightarrow> registry_csv_input \<Rightarrow> bool" where
  "short_listing csv input \<longleftrightarrow>
     (let document = input_document csv input in
      cd_headers document = Ok expected_headers \<and> cd_records document \<noteq> []
      \<and> length (cd_records document) \<le> 9
      \<and> length (input_rows csv input) = length (cd_records document))"

lemma short_listings_convert:
  "list_all (\<lambda>r. case input_for inputs r of None \<Rightarrow> False | Some i \<Rightarrow> short_listing csv i) rs
     \<Longrightarrow> \<exists>ss. convert_sections csv inputs rs = Ok ss"
proof (induction rs)
  case (Cons r rs)
  have "short_listing csv i \<Longrightarrow> \<exists>s. convert_one_registry csv i = Ok s" for i
    unfolding convert_one_registry_Ok by (simp add: short_listing_def Let_def usize_max_def u64_max_def)
  then show ?case
    using Cons by (fastforce simp: input_for_def split: option.splits)
qed simp

lemma example_converts: "\<exists>ss. convert_sections example_reader example_inputs all_registries = Ok ss"
  by (rule short_listings_convert) (simp add: short_listing_def Let_def example_simps
      del: document_rows.simps(2))

lemma converted_text_reads_back_witness:
  "\<exists>c. convert_ieee_registry_csvs example_reader example_inputs ''2026-09-17T12:00:00Z'' = Ok c
    \<and> parse_ieee_oui_text (cv_text c) = Ok (map_of (rev
        [(''001B21'', ''First''), (''AABBCC'', ''Other''), (''001B21'', ''Second''), (''F4A4750'', ''Fifth''),
         (''70B3D5001'', ''Third''), (''40D8550D7'', ''Fourth'')]))"
proof -
  obtain c where c: "convert_ieee_registry_csvs example_reader example_inputs ''2026-09-17T12:00:00Z'' = Ok c"
    using example_converts by (auto simp: convert_ieee_registry_csvs_def)
  have "newline \<notin> set ''2026-09-17T12:00:00Z''" by (simp add: newline_def)
  moreover have "\<forall>e\<in>set (all_rows example_reader example_inputs). newline \<notin> set (snd e)"
    by (simp add: example_rows newline_def)
  ultimately show ?thesis using c converted_text_reads_back [OF c] by (simp only: example_rows) blast
qed

definition row_accepted :: "ieee_mac_registry \<Rightarrow> csv_error + csv_record \<Rightarrow> bool" where
  "row_accepted registry r \<longleftrightarrow>
     (\<exists>rec a v address prefix. r = Ok rec \<and> cr_fields rec = [csv_registry_label registry, a, v, address]
        \<and> normalize_assignment a registry = Some prefix \<and> str_trim v \<noteq> [])"

lemma document_rows_full:
  "length (document_rows registry rs) = length rs \<longleftrightarrow> (\<forall>r\<in>set rs. row_accepted registry r)"
proof (induction rs)
  case (Cons r rs)
  have le: "length (document_rows registry ls) \<le> length ls" for ls
    by (induction ls) (auto split: sum.splits)
  have "row_accepted registry r \<longleftrightarrow>
      (\<exists>row. and_then (map_err (csv_error_of (Some registry)) r) (checked_row registry) = Ok row)"
    by (auto simp: row_accepted_def and_then_eq_Ok_iff checked_row_Ok split_paired_Ex)
  then show ?case
    using Cons le [of rs]
    by (cases "and_then (map_err (csv_error_of (Some registry)) r) (checked_row registry)") auto
qed simp

text \<open>
  C39: a listing is accepted exactly when its header is the official one, it has a row, and every row
  has four fields with the label of the registry, an assignment of the right width and a vendor; the
  section then counts all its rows and lists each prefix once, where it first came, with the vendor
  of its last row.
\<close>

theorem listing_accepted_exactly:
  "convert_one_registry csv input = Ok s \<longleftrightarrow>
     (let document = csv (strip_utf8_bom (rci_csv_text input)); registry = rci_registry input;
          rows = document_rows registry (cd_records document) in
      cd_headers document = Ok expected_headers \<and> cd_records document \<noteq> []
      \<and> length (cd_records document) \<le> usize_max
      \<and> list_all (row_accepted registry) (cd_records document)
      \<and> s = \<lparr>rs_counts = \<lparr>rc_registry = registry, rc_emitted = card (fst ` set rows),
              rc_source_rows = length rows,
              rc_duplicates_removed = length rows - card (fst ` set rows)\<rparr>,
            rs_mappings = map (\<lambda>p. (p, the (map_of (rev rows) p))) (rev (remdups (rev (map fst rows))))\<rparr>)"
  unfolding convert_one_registry_Ok
  by (auto simp: Let_def input_document_def input_rows_def document_rows_full list_all_iff
      rows_counts_def last_mappings_def first_seen_def)

text \<open>
  The first row that is not accepted decides the error, whatever follows it, and no document makes
  the conversion panic.
\<close>

lemma convert_records_append:
  "convert_records registry (rs @ rs') s =
     and_then (convert_records registry rs s) (convert_records registry rs')"
  by (induction rs arbitrary: s) (simp_all add: and_then_def split: sum.splits)

theorem first_bad_row_reported:
  assumes "\<forall>r\<in>set good. row_accepted registry r" and "length good \<le> usize_max"
    and "checked_row registry rec = Err e"
  shows "convert_records registry (good @ Ok rec # rest)
      \<lparr>cs_first_seen_order = [], cs_last_vendor_by_prefix = Map.empty, cs_source_rows = 0\<rparr>
    = Err (Rejected e)"
proof -
  let ?s0 = "\<lparr>cs_first_seen_order = [], cs_last_vendor_by_prefix = Map.empty, cs_source_rows = 0\<rparr>"
  have s0: "conversion_inv [] ?s0" by (simp add: conversion_inv_def)
  have "length (document_rows registry good) = length good"
    using assms(1) document_rows_full by blast
  then have "\<exists>s. convert_records registry good ?s0 = Ok s"
    using convert_records_Ok [OF s0, of registry good] assms(2) by (simp add: conversion_inv_def)
  then show ?thesis using assms(3) by (auto simp: convert_records_append)
qed

lemma records_panic_free:
  "cs_source_rows s + length rs \<le> usize_max \<Longrightarrow> convert_records registry rs s \<noteq> Err Panic"
proof (induction rs arbitrary: s)
  case (Cons r rs)
  have "convert_records registry rs s' \<noteq> Err Panic" if "accept_row row s = Ok s'" for row s'
    using that Cons.prems
    by (intro Cons.IH) (auto simp: accept_row_def and_then_eq_Ok_iff expect_def checked_add_eq_Some_iff
        split: prod.splits option.splits)
  moreover have "accept_row row s \<noteq> Err Panic" for row
    using Cons.prems by (cases row) (simp add: accept_row_def expect_def checked_add_def)
  ultimately show ?case
    by (cases r; cases "checked_row registry (projr r)") (auto simp: and_then_eq_Err_iff)
qed simp

lemma listing_panic_free:
  assumes "length (cd_records (input_document csv input)) \<le> usize_max"
  shows "convert_one_registry csv input \<noteq> Err Panic"
proof -
  let ?rs = "cd_records (input_document csv input)" and ?r = "rci_registry input"
  let ?s0 = "\<lparr>cs_first_seen_order = [], cs_last_vendor_by_prefix = Map.empty, cs_source_rows = 0\<rparr>"
  have s0: "conversion_inv [] ?s0" by (simp add: conversion_inv_def)
  have "convert_records ?r ?rs ?s0 \<noteq> Err Panic" using records_panic_free assms by simp
  moreover have "\<exists>m d. take_mappings (cs_first_seen_order s) (cs_last_vendor_by_prefix s) = Ok m
      \<and> checked_sub (cs_source_rows s) (length m) = Some d"
    if "convert_records ?r ?rs ?s0 = Ok s" for s
  proof -
    have "conversion_inv (document_rows ?r ?rs) s"
      using that convert_records_Ok [OF s0] by simp
    from section_of_rows [OF this] show ?thesis by blast
  qed
  ultimately show ?thesis
    by (auto simp: convert_one_registry_def input_document_def Let_def and_then_eq_Err_iff map_err_def
        split: sum.splits)
qed

theorem conversion_panic_free:
  assumes "\<forall>input\<in>set inputs. length (cd_records (input_document csv input)) \<le> usize_max"
  shows "convert_ieee_registry_csvs csv inputs t \<noteq> Err Panic"
proof -
  have "convert_sections csv inputs rs \<noteq> Err Panic" for rs
    using assms listing_panic_free
    by (induction rs) (auto simp: and_then_eq_Err_iff ok_or_def find_Some_iff split: option.splits)
  then show ?thesis by (simp add: convert_ieee_registry_csvs_def and_then_eq_Err_iff)
qed

end
