(* ===== verification/Vendor_File_Update.thy ===== *)
theory Vendor_File_Update
  imports Ieee_Conversion Operator_Output Linux_Socket
begin

text \<open>
  \<^verbatim>\<open>tools/mac-vendor-updater/src/\<close>, the rest of it: fetching the listings with \<^verbatim>\<open>curl\<close>
  (\<^verbatim>\<open>fetch.rs\<close>), the replacement of the file (\<^verbatim>\<open>write.rs\<close>), one update (\<^verbatim>\<open>lib.rs\<close>), its errors
  (\<^verbatim>\<open>error.rs\<close>) and the command (\<^verbatim>\<open>main.rs\<close>). The file system and the processes it starts are the
  fields of a record of calls; a path is its text.
\<close>

section \<open>Paths and UTF-8\<close>

text \<open>
  \<^verbatim>\<open>Path\<close> on Unix: empty and \<open>.\<close> components do not count, but for a \<open>.\<close> that starts a relative path.
\<close>

definition path_is_absolute :: "string \<Rightarrow> bool" where
  "path_is_absolute p \<longleftrightarrow> p \<noteq> [] \<and> hd p = CHR ''/''"

definition path_join :: "string \<Rightarrow> string \<Rightarrow> string" where
  "path_join a b =
     (if path_is_absolute b then b
      else if a = [] \<or> last a = CHR ''/'' then a @ b
      else a @ CHR ''/'' # b)"

definition trim_components :: "string list \<Rightarrow> string list" where
  "trim_components cs = rev (dropWhile (\<lambda>c. c = [] \<or> c = ''.'') (rev cs))"

definition path_front :: "string \<Rightarrow> string list" where
  "path_front p =
     (if \<not> path_is_absolute p \<and> hd (split_char (CHR ''/'') p) = ''.'' then [''.''] else [])"

definition path_body :: "string \<Rightarrow> string list" where
  "path_body p =
     trim_components (drop (length (path_front p))
       (split_char (CHR ''/'') (if path_is_absolute p then tl p else p)))"

definition path_parent :: "string \<Rightarrow> string option" where
  "path_parent p =
     (if path_body p \<noteq> [] then
        Some ((if path_is_absolute p then ''/'' else [])
          @ join_with ''/'' (path_front p @ trim_components (butlast (path_body p))))
      else if path_front p \<noteq> [] then Some []
      else None)"

definition path_file_name :: "string \<Rightarrow> string option" where
  "path_file_name p =
     (if path_body p = [] \<or> last (path_body p) = ''..'' then None else Some (last (path_body p)))"

text \<open>The next character of an octet list: its length, or how it is not UTF-8.\<close>

datatype utf8_step = Utf8Char nat | Utf8Invalid nat | Utf8Incomplete

definition utf8_continuation :: "nat \<Rightarrow> bool" where
  "utf8_continuation n \<longleftrightarrow> 0x80 \<le> n \<and> n \<le> 0xBF"

definition utf8_second_octet :: "nat \<Rightarrow> nat \<Rightarrow> bool" where
  "utf8_second_octet a b \<longleftrightarrow>
     utf8_continuation b \<and> (a = 0xE0 \<longrightarrow> 0xA0 \<le> b) \<and> (a = 0xED \<longrightarrow> b \<le> 0x9F)
     \<and> (a = 0xF0 \<longrightarrow> 0x90 \<le> b) \<and> (a = 0xF4 \<longrightarrow> b \<le> 0x8F)"

definition utf8_width :: "nat \<Rightarrow> nat" where
  "utf8_width a =
     (if a < 0x80 then 1 else if 0xC2 \<le> a \<and> a \<le> 0xDF then 2
      else if 0xE0 \<le> a \<and> a \<le> 0xEF then 3 else if 0xF0 \<le> a \<and> a \<le> 0xF4 then 4 else 0)"

definition utf8_next :: "string \<Rightarrow> utf8_step" where
  "utf8_next s =
     (let a = code (s ! 0); width = utf8_width a in
      if width = 0 then Utf8Invalid 1
      else if width = 1 then Utf8Char 1
      else if length s < 2 then Utf8Incomplete
      else if \<not> utf8_second_octet a (code (s ! 1)) then Utf8Invalid 1
      else if width = 2 then Utf8Char 2
      else if length s < 3 then Utf8Incomplete
      else if \<not> utf8_continuation (code (s ! 2)) then Utf8Invalid 2
      else if width = 3 then Utf8Char 3
      else if length s < 4 then Utf8Incomplete
      else if \<not> utf8_continuation (code (s ! 3)) then Utf8Invalid 3
      else Utf8Char 4)"

lemma utf8_next_pos:
  "utf8_next s = Utf8Char n \<Longrightarrow> 0 < n" "utf8_next s = Utf8Invalid n \<Longrightarrow> 0 < n"
  by (auto simp: utf8_next_def Let_def split: if_splits)

text \<open>\<^verbatim>\<open>String::from_utf8\<close>, the error as the text it prints, and \<^verbatim>\<open>String::from_utf8_lossy\<close>.\<close>

function utf8_check :: "nat \<Rightarrow> string \<Rightarrow> string + unit" where
  "utf8_check pos s =
     (if s = [] then Ok ()
      else case utf8_next s of
        Utf8Char n \<Rightarrow> utf8_check (pos + n) (drop n s)
      | Utf8Invalid n \<Rightarrow>
          Err (''invalid utf-8 sequence of '' @ show_nat n @ '' bytes from index '' @ show_nat pos)
      | Utf8Incomplete \<Rightarrow> Err (''incomplete utf-8 byte sequence from index '' @ show_nat pos))"
  by pat_completeness auto
termination
  by (relation "measure (\<lambda>(pos, s). length s)") (auto dest: utf8_next_pos)

declare utf8_check.simps [simp del]

definition from_utf8 :: "string \<Rightarrow> string + string" where
  "from_utf8 s = and_then (utf8_check 0 s) (\<lambda>_. Ok s)"

definition replacement_character :: string where
  "replacement_character = [char_of (0xEF :: nat), char_of (0xBF :: nat), char_of (0xBD :: nat)]"

function from_utf8_lossy :: "string \<Rightarrow> string" where
  "from_utf8_lossy s =
     (if s = [] then []
      else case utf8_next s of
        Utf8Char n \<Rightarrow> take n s @ from_utf8_lossy (drop n s)
      | Utf8Invalid n \<Rightarrow> replacement_character @ from_utf8_lossy (drop n s)
      | Utf8Incomplete \<Rightarrow> replacement_character)"
  by pat_completeness auto
termination
  by (relation "measure length") (auto dest: utf8_next_pos)

declare from_utf8_lossy.simps [simp del]

section \<open>Errors\<close>

datatype updater_error =
    ConvertFailed convert_error
  | GeneratedTextRejected registry_parse_error
  | ReadCsv string string
  | CurlMissing
  | CurlFailed string "nat option" string
  | RetrievedAtTimestampUnavailable string
  | WriteFailed string io_error
  | Usage string

fun show_updater_error :: "updater_error \<Rightarrow> string" where
  "show_updater_error (ConvertFailed e) = show_convert_error e"
| "show_updater_error (GeneratedTextRejected source) =
     ''generated ieee-oui.txt was rejected by MacVendorRegistry: '' @ show_registry_parse_error source"
| "show_updater_error (ReadCsv path message) =
     ''failed to read IEEE CSV '' @ path @ '': '' @ message"
| "show_updater_error CurlMissing =
     ''curl was not found on PATH; install curl to fetch IEEE listings''"
| "show_updater_error (CurlFailed url (Some status) stderr) =
     ''curl failed for '' @ url @ '' (exit '' @ show_nat status @ ''): '' @ str_trim stderr"
| "show_updater_error (CurlFailed url None stderr) =
     ''curl failed for '' @ url @ '': '' @ str_trim stderr"
| "show_updater_error (RetrievedAtTimestampUnavailable message) =
     ''could not determine UTC retrieval timestamp: '' @ message"
| "show_updater_error (WriteFailed path source) =
     ''failed to write '' @ path @ '': '' @ io_text source"
| "show_updater_error (Usage message) = message"

text \<open>What \<^verbatim>\<open>source()\<close> prints.\<close>

fun updater_error_source :: "updater_error \<Rightarrow> string option" where
  "updater_error_source (ConvertFailed e) = Some (show_convert_error e)"
| "updater_error_source (GeneratedTextRejected source) = Some (show_registry_parse_error source)"
| "updater_error_source (WriteFailed path source) = Some (io_text source)"
| "updater_error_source _ = None"

section \<open>The outside world\<close>

datatype exit_status = Exited nat | Killed string

fun status_success :: "exit_status \<Rightarrow> bool" where
  "status_success (Exited n) = (n = 0)"
| "status_success (Killed _) = False"

fun status_code :: "exit_status \<Rightarrow> nat option" where
  "status_code (Exited n) = Some n"
| "status_code (Killed _) = None"

fun show_exit_status :: "exit_status \<Rightarrow> string" where
  "show_exit_status (Exited n) = ''exit status: '' @ show_nat n"
| "show_exit_status (Killed s) = ''signal: '' @ s"

record process_output =
  po_status :: exit_status
  po_stdout :: string
  po_stderr :: string

text \<open>
  The calls of \<^verbatim>\<open>std::fs\<close> and \<^verbatim>\<open>std::process\<close>; an open file is a number. Opening is for writing,
  creating the file and truncating it.
\<close>

record 'w updater_os =
  uo_create_dir_all :: "string \<Rightarrow> ('w, io_error, unit) op"
  uo_read_to_string :: "string \<Rightarrow> ('w, io_error, string) op"
  uo_open_truncated :: "string \<Rightarrow> ('w, io_error, nat) op"
  uo_write_all :: "nat \<Rightarrow> string \<Rightarrow> ('w, io_error, unit) op"
  uo_sync_all :: "nat \<Rightarrow> ('w, io_error, unit) op"
  uo_remove_file :: "string \<Rightarrow> ('w, io_error, unit) op"
  uo_rename :: "string \<Rightarrow> string \<Rightarrow> ('w, io_error, unit) op"
  uo_command_output :: "string \<Rightarrow> string list \<Rightarrow> ('w, io_error, process_output) op"
  uo_process_id :: nat

section \<open>Fetching\<close>

datatype command_kind = Curl string | Date

definition run_command ::
    "'w updater_os \<Rightarrow> string \<Rightarrow> string list \<Rightarrow> command_kind \<Rightarrow> ('w, updater_error, process_output) op" where
  "run_command os program args kind =
     op_then
       (op_map_err (\<lambda>error. case kind of
            Curl url \<Rightarrow>
              if io_kind error = NotFound then CurlMissing else CurlFailed url None (io_text error)
          | Date \<Rightarrow> RetrievedAtTimestampUnavailable (io_text error))
         (uo_command_output os program args))
       (\<lambda>output.
          if status_success (po_status output) then op_return output
          else
            let stderr = from_utf8_lossy (po_stderr output) in
            op_lift (Err (case kind of
                Curl url \<Rightarrow> CurlFailed url (status_code (po_status output)) stderr
              | Date \<Rightarrow> RetrievedAtTimestampUnavailable
                  (''exit status '' @ show_exit_status (po_status output) @ ''; stderr: '' @ str_trim stderr))))"

definition curl_user_agent :: string where
  "curl_user_agent =
     ''new-arp-scan-mac-vendor-updater/0.2 (+https://github.com/Bizjak-Tech-OU/new-arp-scan)''"

definition run_curl :: "'w updater_os \<Rightarrow> string \<Rightarrow> string \<Rightarrow> string \<Rightarrow> ('w, updater_error, unit) op" where
  "run_curl os curl_program url output_path =
     op_then (run_command os curl_program
         [''--fail'', ''--location'', ''--silent'', ''--show-error'', ''--proto'', ''=https'', ''--tlsv1.2'',
          ''--user-agent'', curl_user_agent, ''--output'', output_path, url] (Curl url))
       (\<lambda>_. op_return ())"

fun fetch_each :: "'w updater_os \<Rightarrow> string \<Rightarrow> string \<Rightarrow> ieee_mac_registry list \<Rightarrow> ('w, updater_error, unit) op" where
  "fetch_each os destination_dir curl_program [] = op_return ()"
| "fetch_each os destination_dir curl_program (registry # rs) =
     op_then (run_curl os curl_program (csv_url registry)
         (path_join destination_dir (csv_file_name registry)))
       (\<lambda>_. fetch_each os destination_dir curl_program rs)"

definition fetch_official_csvs_with_curl ::
    "'w updater_os \<Rightarrow> string \<Rightarrow> string \<Rightarrow> ('w, updater_error, unit) op" where
  "fetch_official_csvs_with_curl os destination_dir curl_program =
     op_then (op_map_err (WriteFailed destination_dir) (uo_create_dir_all os destination_dir))
       (\<lambda>_. fetch_each os destination_dir curl_program all_registries)"

definition fetch_official_csvs :: "'w updater_os \<Rightarrow> string \<Rightarrow> ('w, updater_error, unit) op" where
  "fetch_official_csvs os destination_dir = fetch_official_csvs_with_curl os destination_dir ''curl''"

definition utc_timestamp_from_program ::
    "'w updater_os \<Rightarrow> string \<Rightarrow> string list \<Rightarrow> ('w, updater_error, string) op" where
  "utc_timestamp_from_program os program args =
     op_then (run_command os program args Date) (\<lambda>output.
     op_lift
       (and_then (map_err RetrievedAtTimestampUnavailable (from_utf8 (po_stdout output))) (\<lambda>text.
        let timestamp = str_trim text in
        if timestamp = [] then Err (RetrievedAtTimestampUnavailable ''date printed an empty timestamp'')
        else Ok timestamp)))"

definition utc_timestamp_from_date :: "'w updater_os \<Rightarrow> ('w, updater_error, string) op" where
  "utc_timestamp_from_date os =
     utc_timestamp_from_program os ''date'' [''-u'', ''+%Y-%m-%dT%H:%M:%SZ'']"

section \<open>Replacing the file\<close>

definition write_temp_file :: "'w updater_os \<Rightarrow> string \<Rightarrow> string \<Rightarrow> ('w, io_error, unit) op" where
  "write_temp_file os temp_path text =
     op_then (uo_open_truncated os temp_path) (\<lambda>h.
     op_then (uo_write_all os h text) (\<lambda>_.
     uo_sync_all os h))"

text \<open>A step that fails removes the temporary file, whatever comes of that.\<close>

definition or_remove ::
    "'w updater_os \<Rightarrow> string \<Rightarrow> string \<Rightarrow> ('w, io_error, unit) op \<Rightarrow> ('w, updater_error, unit) op" where
  "or_remove os temp_path output_path step w =
     (case step w of
        (Inl source, w) \<Rightarrow> (Err (WriteFailed output_path source), snd (uo_remove_file os temp_path w))
      | (Inr _, w) \<Rightarrow> (Ok (), w))"

definition temp_path_for :: "nat \<Rightarrow> string \<Rightarrow> string \<Rightarrow> string" where
  "temp_path_for pid output_path file_name =
     path_join
       (case path_parent output_path of
          Some parent \<Rightarrow> if parent \<noteq> [] then parent else ''.''
        | None \<Rightarrow> ''.'')
       (''.'' @ file_name @ ''.tmp-'' @ show_nat pid)"

definition replace_file_atomically ::
    "'w updater_os \<Rightarrow> string \<Rightarrow> string \<Rightarrow> ('w, updater_error, unit) op" where
  "replace_file_atomically os output_path text =
     (case path_file_name output_path of
        None \<Rightarrow> op_lift (Err (WriteFailed output_path
          \<lparr>io_kind = InvalidInput, io_errno = None, io_text = ''output path must include a file name''\<rparr>))
      | Some file_name \<Rightarrow>
          (let temp_path = temp_path_for (uo_process_id os) output_path file_name in
           op_then (or_remove os temp_path output_path (write_temp_file os temp_path text)) (\<lambda>_.
           or_remove os temp_path output_path (uo_rename os temp_path output_path))))"

section \<open>One update\<close>

record update_request =
  ur_output_path :: string
  ur_from_dir :: "string option"
  ur_retrieved_at_utc :: "string option"

fun read_csvs :: "'w updater_os \<Rightarrow> string \<Rightarrow> ieee_mac_registry list \<Rightarrow> ('w, updater_error, string list) op" where
  "read_csvs os csv_dir [] = op_return []"
| "read_csvs os csv_dir (registry # rs) =
     (let path = path_join csv_dir (csv_file_name registry) in
      op_then (op_map_err (\<lambda>source. ReadCsv path (io_text source)) (uo_read_to_string os path)) (\<lambda>text.
      op_then (read_csvs os csv_dir rs) (\<lambda>texts. op_return (text # texts))))"

definition fetch_directory :: "string \<Rightarrow> string" where
  "fetch_directory output_path =
     path_join
       (case path_parent output_path of
          Some path \<Rightarrow> if path \<noteq> [] then path else ''.''
        | None \<Rightarrow> ''.'')
       ''.mac-vendor-updater-csv''"

definition csv_directory :: "'w updater_os \<Rightarrow> update_request \<Rightarrow> ('w, updater_error, string) op" where
  "csv_directory os request =
     (case ur_from_dir request of
        Some directory \<Rightarrow> op_return directory
      | None \<Rightarrow>
          (let fetch_dir = fetch_directory (ur_output_path request) in
           op_then (fetch_official_csvs os fetch_dir) (\<lambda>_. op_return fetch_dir)))"

definition csv_inputs :: "string list \<Rightarrow> registry_csv_input list" where
  "csv_inputs texts =
     map (\<lambda>(registry, text). \<lparr>rci_registry = registry, rci_csv_text = text\<rparr>) (zip all_registries texts)"

definition convert_halt :: "convert_error halt \<Rightarrow> updater_error halt" where
  "convert_halt h = (case h of Rejected e \<Rightarrow> Rejected (ConvertFailed e) | Panic \<Rightarrow> Panic)"

definition checked_conversion ::
    "csv_reader \<Rightarrow> string list \<Rightarrow> string \<Rightarrow> updater_error halt + converted_ieee_oui" where
  "checked_conversion csv texts retrieved_at =
     and_then (map_err convert_halt (convert_ieee_registry_csvs csv (csv_inputs texts) retrieved_at)) (\<lambda>converted.
     and_then (map_err (\<lambda>source. Rejected (GeneratedTextRejected source))
         (parse_ieee_oui_text (cv_text converted))) (\<lambda>_.
     Ok converted))"

definition run_update ::
    "'w updater_os \<Rightarrow> csv_reader \<Rightarrow> update_request \<Rightarrow> ('w, updater_error halt, converted_ieee_oui) op" where
  "run_update os csv request =
     op_then (op_map_err Rejected (csv_directory os request)) (\<lambda>csv_dir.
     op_then (op_map_err Rejected (read_csvs os csv_dir all_registries)) (\<lambda>csv_texts.
     op_then (op_map_err Rejected
         (case ur_retrieved_at_utc request of
            Some value \<Rightarrow> op_return value
          | None \<Rightarrow> utc_timestamp_from_date os)) (\<lambda>retrieved_at.
     op_then (op_lift (checked_conversion csv csv_texts retrieved_at)) (\<lambda>converted.
     op_then (op_map_err Rejected
         (replace_file_atomically os (ur_output_path request) (cv_text converted))) (\<lambda>_.
     op_return converted)))))"

definition write_summary :: "converted_ieee_oui \<Rightarrow> 's writer \<Rightarrow> 's io" where
  "write_summary converted out =
     io_then (writeln out (''mac-vendor-updater: wrote '' @ show_nat (length (cv_text converted)) @ '' bytes''))
       (io_each (\<lambda>counts. writeln out
           (''  '' @ csv_registry_label (rc_registry counts) @ '': '' @ show_nat (rc_emitted counts)
            @ '' emitted ('' @ show_nat (rc_source_rows counts) @ '' source rows, ''
            @ show_nat (rc_duplicates_removed counts) @ '' duplicates removed)''))
         (cv_counts converted))"

section \<open>The command\<close>

definition help_text :: string where
  "help_text = join_with [newline]
     [''Usage: mac-vendor-updater [--output PATH] [--from-dir DIR] [--retrieved-at TIMESTAMP]'',
      '''',
      ''Downloads IEEE MA-L, MA-M, MA-S, and IAB CSVs with curl, converts them to ieee-oui.txt,'',
      ''and atomically replaces PATH (default: ./ieee-oui.txt). Scans never fetch these listings.'',
      '''',
      ''  --output PATH          Destination mapping file'',
      ''  --from-dir DIR         Read oui.csv, mam.csv, oui36.csv, and iab.csv from DIR (no network)'',
      ''  --retrieved-at STAMP   Inject this UTC timestamp into the provenance header'',
      ''  -h, --help             Show this help'']"

definition require_value :: "string list \<Rightarrow> nat \<Rightarrow> string \<Rightarrow> updater_error + string" where
  "require_value args index flag =
     (if index + 1 < length args then Ok (args ! (index + 1))
      else Err (Usage (flag @ '' requires a value'')))"

text \<open>
  The loop over the arguments; \<open>debug\<close> is the \<^verbatim>\<open>Debug\<close> form of a string, whose escapes follow the
  Unicode tables of the standard library.
\<close>

function parse_args_from ::
    "(string \<Rightarrow> string) \<Rightarrow> string list \<Rightarrow> nat \<Rightarrow> update_request \<Rightarrow> updater_error + update_request" where
  "parse_args_from debug args index request =
     (if index < length args then
        if args ! index = ''--output'' then
          and_then (require_value args index ''--output'') (\<lambda>v.
          parse_args_from debug args (index + 2) (request\<lparr>ur_output_path := v\<rparr>))
        else if args ! index = ''--from-dir'' then
          and_then (require_value args index ''--from-dir'') (\<lambda>v.
          parse_args_from debug args (index + 2) (request\<lparr>ur_from_dir := Some v\<rparr>))
        else if args ! index = ''--retrieved-at'' then
          and_then (require_value args index ''--retrieved-at'') (\<lambda>v.
          parse_args_from debug args (index + 2) (request\<lparr>ur_retrieved_at_utc := Some v\<rparr>))
        else Err (Usage (''unknown argument '' @ debug (args ! index) @ [newline] @ help_text))
      else Ok request)"
  by pat_completeness auto
termination
  by (relation "measure (\<lambda>(_, args, index, _). length args - index)") auto

declare parse_args_from.simps [simp del]

definition parse_args :: "(string \<Rightarrow> string) \<Rightarrow> string list \<Rightarrow> updater_error + update_request" where
  "parse_args debug args =
     parse_args_from debug args 0
       \<lparr>ur_output_path = ''ieee-oui.txt'', ur_from_dir = None, ur_retrieved_at_utc = None\<rparr>"

text \<open>The outside world and the standard streams are two worlds, as in \<^verbatim>\<open>main\<close> of the scanner.\<close>

definition run_updater ::
    "'w updater_os \<Rightarrow> csv_reader \<Rightarrow> (string \<Rightarrow> string) \<Rightarrow> 's writer \<Rightarrow> string list \<Rightarrow> 'w \<Rightarrow> 's
     \<Rightarrow> (updater_error halt + unit) \<times> 'w \<times> 's" where
  "run_updater os csv debug err args w s =
     (case parse_args debug args of
        Inl e \<Rightarrow> (Err (Rejected e), w, s)
      | Inr request \<Rightarrow>
          (case run_update os csv request w of
             (Inl stop, w) \<Rightarrow> (Err stop, w, s)
           | (Inr converted, w) \<Rightarrow>
               (case write_summary converted err s of (r, s) \<Rightarrow>
                  (map_err (\<lambda>source. Rejected (WriteFailed (ur_output_path request) source)) r, w, s))))"

text \<open>The exit code, \<open>None\<close> for a panic; a stream that \<^verbatim>\<open>println!\<close> cannot write to is one.\<close>

definition updater_main ::
    "'w updater_os \<Rightarrow> csv_reader \<Rightarrow> (string \<Rightarrow> string) \<Rightarrow> 's writer \<Rightarrow> 's writer \<Rightarrow> string list \<Rightarrow> 'w \<Rightarrow> 's
     \<Rightarrow> nat option \<times> 'w \<times> 's" where
  "updater_main os csv debug out err args w s =
     (if list_ex (\<lambda>argument. argument = ''--help'' \<or> argument = ''-h'') args
      then (case writeln out help_text s of (r, s) \<Rightarrow> (if is_ok r then Some 0 else None, w, s))
      else (case run_updater os csv debug err args w s of
          (Inr _, w, s) \<Rightarrow> (Some 0, w, s)
        | (Inl (Rejected e), w, s) \<Rightarrow>
            (case writeln err (''mac-vendor-updater: '' @ show_updater_error e) s of
               (r, s) \<Rightarrow> (if is_ok r then Some 1 else None, w, s))
        | (Inl Panic, w, s) \<Rightarrow> (None, w, s)))"

section \<open>Facts\<close>

text \<open>An operation that leaves what \<open>obs\<close> sees of the world as it was, whatever its result.\<close>

definition keeps :: "('w \<Rightarrow> 'o) \<Rightarrow> ('w, 'e, 'a) op \<Rightarrow> bool" where
  "keeps obs m \<longleftrightarrow> (\<forall>w. obs (snd (m w)) = obs w)"

named_theorems keeping \<open>operations that keep an observation\<close>

lemma keeps_pure [keeping]: "keeps obs (op_return x)" "keeps obs (op_lift r)"
  by (simp_all add: keeps_def op_return_def op_lift_def)

lemma keeps_then [keeping]: "keeps obs m \<Longrightarrow> (\<And>x. keeps obs (f x)) \<Longrightarrow> keeps obs (op_then m f)"
  by (auto simp: keeps_def op_then_def split: prod.splits sum.splits) (metis snd_conv)+

lemma keeps_map_err [keeping]: "keeps obs m \<Longrightarrow> keeps obs (op_map_err g m)"
  by (auto simp: keeps_def op_map_err_def split: prod.splits) (metis snd_conv)

text \<open>
  What the updater relies on of the file system, for one destination and its temporary file, which
  are not links to one another: only the rename puts anything in the destination's place, and that
  is what was written to the temporary file. \<open>dest\<close> and \<open>temp\<close> are what the two files hold.
\<close>

definition files_documented ::
    "'w updater_os \<Rightarrow> string \<Rightarrow> string \<Rightarrow> ('w \<Rightarrow> string option) \<Rightarrow> ('w \<Rightarrow> string option) \<Rightarrow> bool" where
  "files_documented os temp_path output_path dest temp \<longleftrightarrow>
     keeps dest (uo_open_truncated os temp_path) \<and> keeps dest (uo_remove_file os temp_path)
     \<and> (\<forall>w h w1 t r2 w2 r3 w3. uo_open_truncated os temp_path w = (Ok h, w1)
           \<longrightarrow> uo_write_all os h t w1 = (r2, w2) \<longrightarrow> uo_sync_all os h w2 = (r3, w3)
           \<longrightarrow> dest w2 = dest w1 \<and> dest w3 = dest w2 \<and> (r2 = Ok () \<longrightarrow> r3 = Ok () \<longrightarrow> temp w3 = Some t))
     \<and> (\<forall>w. case uo_rename os temp_path output_path w of
           (Inl _, w') \<Rightarrow> dest w' = dest w | (Inr _, w') \<Rightarrow> dest w' = temp w)"

text \<open>
  The calls before that leave the destination alone: reading a file, making a directory, and the
  two commands, of which \<^verbatim>\<open>curl\<close> writes the listing it is told to, another file than the destination.
\<close>

definition sources_documented :: "'w updater_os \<Rightarrow> string \<Rightarrow> ('w \<Rightarrow> 'o) \<Rightarrow> bool" where
  "sources_documented os output_path dest \<longleftrightarrow>
     (\<forall>path. keeps dest (uo_create_dir_all os path) \<and> keeps dest (uo_read_to_string os path))
     \<and> (\<forall>args. keeps dest (uo_command_output os ''date'' args))
     \<and> (\<forall>options r. keeps dest (uo_command_output os ''curl''
           (options @ [''--output'', path_join (fetch_directory output_path) (csv_file_name r), csv_url r])))"

lemma write_temp_file_outcome:
  assumes "files_documented os temp_path output_path dest temp"
  shows "case write_temp_file os temp_path t w of
    (Inl _, w') \<Rightarrow> dest w' = dest w | (Inr _, w') \<Rightarrow> dest w' = dest w \<and> temp w' = Some t"
proof (cases "uo_open_truncated os temp_path w")
  case (Pair r w1)
  then have w1: "dest w1 = dest w"
    using assms by (auto simp: files_documented_def keeps_def dest: spec [of _ w])
  show ?thesis
  proof (cases r)
    case (Inr h)
    obtain r2 w2 where wr: "uo_write_all os h t w1 = (r2, w2)" by fastforce
    obtain r3 w3 where sync: "uo_sync_all os h w2 = (r3, w3)" by fastforce
    have "dest w2 = dest w1 \<and> dest w3 = dest w2 \<and> (r2 = Ok () \<longrightarrow> r3 = Ok () \<longrightarrow> temp w3 = Some t)"
      using assms Pair Inr wr sync unfolding files_documented_def by blast
    then show ?thesis
      using Pair Inr w1 wr sync
      by (cases r2; cases r3) (simp_all add: write_temp_file_def op_then_def)
  qed (use Pair w1 in \<open>simp add: write_temp_file_def op_then_def\<close>)
qed

lemma or_remove_outcome:
  assumes "keeps dest (uo_remove_file os temp_path)" and "step w = (r, w1)"
  shows "(r = Ok () \<and> or_remove os temp_path output_path step w = (Ok (), w1))
    \<or> (\<exists>source w2. r = Err source \<and> dest w2 = dest w1
         \<and> or_remove os temp_path output_path step w = (Err (WriteFailed output_path source), w2))"
  using assms by (cases r) (simp_all add: or_remove_def keeps_def)

lemma replace_file_outcome:
  assumes "\<And>name. path_file_name output_path = Some name \<Longrightarrow>
      files_documented os (temp_path_for (uo_process_id os) output_path name) output_path dest temp"
  shows "case replace_file_atomically os output_path t w of
    (Inl _, w') \<Rightarrow> dest w' = dest w | (Inr _, w') \<Rightarrow> dest w' = Some t"
proof (cases "path_file_name output_path")
  case (Some name)
  let ?tp = "temp_path_for (uo_process_id os) output_path name"
  have doc: "files_documented os ?tp output_path dest temp" using assms Some by blast
  then have remove: "keeps dest (uo_remove_file os ?tp)" by (simp add: files_documented_def)
  obtain r w1 where wr: "write_temp_file os ?tp t w = (r, w1)" by fastforce
  have out: "dest w1 = dest w \<and> (r = Ok () \<longrightarrow> temp w1 = Some t)"
    using write_temp_file_outcome [OF doc, where w = w and t = t] wr by (cases r) simp_all
  obtain r2 w2 where ren: "uo_rename os ?tp output_path w1 = (r2, w2)" by fastforce
  have "\<forall>w. case uo_rename os ?tp output_path w of
      (Inl _, w') \<Rightarrow> dest w' = dest w | (Inr _, w') \<Rightarrow> dest w' = temp w"
    using doc unfolding files_documented_def by (elim conjE)
  from this [THEN spec, of w1]
  have "r2 = Ok () \<and> dest w2 = temp w1 \<or> (\<exists>e. r2 = Err e) \<and> dest w2 = dest w1"
    using ren by (cases r2) simp_all
  then show ?thesis
    using or_remove_outcome [OF remove, where step = "write_temp_file os ?tp t", OF wr, of output_path]
      or_remove_outcome [OF remove, where step = "uo_rename os ?tp output_path", OF ren, of output_path]
      out Some
    by (auto simp: replace_file_atomically_def op_then_def Let_def)
qed (simp add: replace_file_atomically_def op_lift_def)

lemma keeps_command [keeping]:
  "keeps obs (uo_command_output os program args) \<Longrightarrow> keeps obs (run_command os program args kind)"
  unfolding run_command_def by (intro keeping) (simp_all add: Let_def keeping)

lemma keeps_fetch:
  assumes "sources_documented os output_path dest"
  shows "keeps dest (fetch_official_csvs os (fetch_directory output_path))"
proof -
  let ?dir = "fetch_directory output_path"
  have curl: "keeps dest (run_curl os ''curl'' (csv_url r) (path_join ?dir (csv_file_name r)))" for r
  proof -
    have "keeps dest (uo_command_output os ''curl'' ([''--fail'', ''--location'', ''--silent'',
        ''--show-error'', ''--proto'', ''=https'', ''--tlsv1.2'', ''--user-agent'', curl_user_agent]
        @ [''--output'', path_join ?dir (csv_file_name r), csv_url r]))"
      using assms unfolding sources_documented_def by blast
    then show ?thesis unfolding run_curl_def append.simps by (intro keeping)
  qed
  have "keeps dest (fetch_each os ?dir ''curl'' rs)" for rs
    by (induction rs) (auto intro!: keeping curl)
  moreover have "keeps dest (uo_create_dir_all os ?dir)"
    using assms by (simp add: sources_documented_def)
  ultimately show ?thesis
    unfolding fetch_official_csvs_def fetch_official_csvs_with_curl_def by (intro keeping)
qed

lemma keeps_sources:
  assumes "sources_documented os (ur_output_path request) dest"
  shows "keeps dest (csv_directory os request)" and "keeps dest (read_csvs os dir rs)"
    and "keeps dest (utc_timestamp_from_date os)"
proof -
  show "keeps dest (csv_directory os request)"
    using keeps_fetch [OF assms]
    by (auto simp: csv_directory_def Let_def intro!: keeping split: option.splits)
  show "keeps dest (read_csvs os dir rs)"
    using assms by (induction rs) (auto simp: Let_def sources_documented_def intro!: keeping)
  have "keeps dest (uo_command_output os ''date'' args)" for args
    using assms by (simp add: sources_documented_def)
  then show "keeps dest (utc_timestamp_from_date os)"
    unfolding utc_timestamp_from_date_def utc_timestamp_from_program_def by (intro keeping)
qed

text \<open>An update is what leads up to the conversion, the conversion, and the replacement of the file.\<close>

definition update_sources ::
    "'w updater_os \<Rightarrow> update_request \<Rightarrow> ('w, updater_error halt, string list \<times> string) op" where
  "update_sources os request =
     op_then (op_map_err Rejected (csv_directory os request)) (\<lambda>csv_dir.
     op_then (op_map_err Rejected (read_csvs os csv_dir all_registries)) (\<lambda>csv_texts.
     op_then (op_map_err Rejected
         (case ur_retrieved_at_utc request of
            Some value \<Rightarrow> op_return value
          | None \<Rightarrow> utc_timestamp_from_date os)) (\<lambda>retrieved_at.
     op_return (csv_texts, retrieved_at))))"

lemma run_update_parts:
  "run_update os csv request =
     op_then (update_sources os request) (\<lambda>(csv_texts, retrieved_at).
     op_then (op_lift (checked_conversion csv csv_texts retrieved_at)) (\<lambda>converted.
     op_then (op_map_err Rejected
         (replace_file_atomically os (ur_output_path request) (cv_text converted))) (\<lambda>_.
     op_return converted)))"
  by (rule ext) (simp add: run_update_def update_sources_def op_then_def op_return_def
      split: prod.splits sum.splits)

lemma keeps_update_sources:
  "sources_documented os (ur_output_path request) dest \<Longrightarrow> keeps dest (update_sources os request)"
  unfolding update_sources_def
  by (auto intro!: keeping keeps_sources split: option.splits)

definition destination_documented ::
    "'w updater_os \<Rightarrow> string \<Rightarrow> ('w \<Rightarrow> string option) \<Rightarrow> ('w \<Rightarrow> string option) \<Rightarrow> bool" where
  "destination_documented os output_path dest temp \<longleftrightarrow>
     sources_documented os output_path dest
     \<and> (case path_file_name output_path of None \<Rightarrow> True
        | Some name \<Rightarrow>
            files_documented os (temp_path_for (uo_process_id os) output_path name) output_path dest temp)"

lemma update_outcome:
  assumes "destination_documented os (ur_output_path request) dest temp"
  shows "case run_update os csv request w of
    (Inl _, w') \<Rightarrow> dest w' = dest w
  | (Inr converted, w') \<Rightarrow>
      dest w' = Some (cv_text converted) \<and> is_ok (parse_ieee_oui_text (cv_text converted))"
proof -
  have "keeps dest (update_sources os request)"
    using assms by (intro keeps_update_sources) (simp add: destination_documented_def)
  then have src: "dest (snd (update_sources os request w)) = dest w" by (simp add: keeps_def)
  have valid: "is_ok (parse_ieee_oui_text (cv_text c))" if "checked_conversion csv texts t = Ok c" for texts t c
    using that by (auto simp: checked_conversion_def and_then_eq_Ok_iff)
  have "case replace_file_atomically os (ur_output_path request) t w of
      (Inl _, w') \<Rightarrow> dest w' = dest w | (Inr _, w') \<Rightarrow> dest w' = Some t" for t w
    using assms by (intro replace_file_outcome [where temp = temp]) (simp add: destination_documented_def)
  then have replace: "replace_file_atomically os (ur_output_path request) t w = (Inl e, w') \<Longrightarrow> dest w' = dest w"
    "replace_file_atomically os (ur_output_path request) t w = (Inr u, w') \<Longrightarrow> dest w' = Some t" for t w e u w'
    by (metis (mono_tags, lifting) case_prod_conv old.sum.simps)+
  show ?thesis
    using src unfolding run_update_parts
    by (auto simp: op_then_def op_lift_def op_return_def op_map_err_def map_err_def valid dest!: replace
        split: prod.splits sum.splits)
qed

section \<open>Properties\<close>

text \<open>
  C15: an update replaces the output file only by a text that the parser of the scanner accepts, the
  one it returns; when it fails, at whatever step, the file is as it was.
\<close>

theorem output_replaced_by_valid_text_only:
  assumes "destination_documented os (ur_output_path request) dest temp"
  shows "case run_update os csv request w of
    (Inl _, w') \<Rightarrow> dest w' = dest w
  | (Inr converted, w') \<Rightarrow>
      dest w' = Some (cv_text converted) \<and> is_ok (parse_ieee_oui_text (cv_text converted))"
  using assms by (rule update_outcome)

text \<open>A disk in memory, with a \<^verbatim>\<open>curl\<close> that serves a fixed set of documents.\<close>

record disk =
  dk_files :: "string \<rightharpoonup> string"
  dk_open :: "string list"

definition no_such_file :: io_error where
  "no_such_file = \<lparr>io_kind = NotFound, io_errno = Some 2, io_text = ''No such file or directory (os error 2)''\<rparr>"

definition put_file :: "string \<Rightarrow> string \<Rightarrow> disk \<Rightarrow> disk" where
  "put_file path t d = d\<lparr>dk_files := (dk_files d)(path \<mapsto> t)\<rparr>"

definition disk_os :: "(string \<rightharpoonup> string) \<Rightarrow> disk updater_os" where
  "disk_os served =
     \<lparr>uo_create_dir_all = (\<lambda>_. op_return ()),
      uo_read_to_string = (\<lambda>path d. (ok_or (dk_files d path) no_such_file, d)),
      uo_open_truncated = (\<lambda>path d.
        (Ok (length (dk_open d)), (put_file path [] d)\<lparr>dk_open := dk_open d @ [path]\<rparr>)),
      uo_write_all = (\<lambda>h t d.
        (case dk_files d (dk_open d ! h) of
           None \<Rightarrow> (Err no_such_file, d) | Some old \<Rightarrow> (Ok (), put_file (dk_open d ! h) (old @ t) d))),
      uo_sync_all = (\<lambda>_. op_return ()),
      uo_remove_file = (\<lambda>path d. (Ok (), d\<lparr>dk_files := (dk_files d)(path := None)\<rparr>)),
      uo_rename = (\<lambda>old new d.
        (case dk_files d old of
           None \<Rightarrow> (Err no_such_file, d)
         | Some t \<Rightarrow> (Ok (), d\<lparr>dk_files := (dk_files d)(old := None, new \<mapsto> t)\<rparr>))),
      uo_command_output = (\<lambda>program args d.
        if program = ''curl'' then
          (case served (last args) of
             None \<Rightarrow> (Ok \<lparr>po_status = Exited 22, po_stdout = [], po_stderr = ''not found''\<rparr>, d)
           | Some t \<Rightarrow> (Ok \<lparr>po_status = Exited 0, po_stdout = [], po_stderr = []\<rparr>,
               put_file (last (butlast args)) t d))
        else (Ok \<lparr>po_status = Exited 0, po_stdout = ''2026-09-17T12:00:00Z'' @ [newline], po_stderr = []\<rparr>, d)),
      uo_process_id = 7\<rparr>"

lemma example_paths:
  "path_file_name ''ieee-oui.txt'' = Some ''ieee-oui.txt''"
  "temp_path_for 7 ''ieee-oui.txt'' ''ieee-oui.txt'' = ''./.ieee-oui.txt.tmp-7''"
  "fetch_directory ''ieee-oui.txt'' = ''./.mac-vendor-updater-csv''"
  "path_join ''csv'' ''oui.csv'' = ''csv/oui.csv''" "path_join ''csv'' ''mam.csv'' = ''csv/mam.csv''"
  "path_join ''csv'' ''oui36.csv'' = ''csv/oui36.csv''" "path_join ''csv'' ''iab.csv'' = ''csv/iab.csv''"
  by code_simp+

lemma disk_documented:
  "destination_documented (disk_os served) ''ieee-oui.txt''
     (\<lambda>d. dk_files d ''ieee-oui.txt'') (\<lambda>d. dk_files d ''./.ieee-oui.txt.tmp-7'')"
proof -
  let ?out = "''ieee-oui.txt''" and ?temp = "''./.ieee-oui.txt.tmp-7''"
  have other: "path_join ''./.mac-vendor-updater-csv'' (csv_file_name r) \<noteq> ?out" for r
    by (cases r) (simp_all add: path_join_def path_is_absolute_def)
  have "sources_documented (disk_os served) ?out (\<lambda>d. dk_files d ?out)"
    by (simp add: sources_documented_def disk_os_def keeps_def op_return_def put_file_def butlast_append
        other other [symmetric] example_paths split: option.splits)
  moreover have "files_documented (disk_os served) ?temp ?out (\<lambda>d. dk_files d ?out) (\<lambda>d. dk_files d ?temp)"
    by (auto simp: files_documented_def disk_os_def keeps_def op_return_def put_file_def
        split: option.splits)
  moreover have "uo_process_id (disk_os served) = 7" by (simp add: disk_os_def)
  ultimately show ?thesis by (simp add: destination_documented_def example_paths)
qed

definition example_disk :: disk where
  "example_disk =
     \<lparr>dk_files = [''csv/oui.csv'' \<mapsto> ''large'', ''csv/mam.csv'' \<mapsto> ''medium'', ''csv/oui36.csv'' \<mapsto> ''small'',
        ''csv/iab.csv'' \<mapsto> ''block'', ''ieee-oui.txt'' \<mapsto> ''keep-me''],
      dk_open = []\<rparr>"

definition example_update_request :: update_request where
  "example_update_request =
     \<lparr>ur_output_path = ''ieee-oui.txt'', ur_from_dir = Some ''csv'',
      ur_retrieved_at_utc = Some ''2026-09-17T12:00:00Z''\<rparr>"

lemma example_sources:
  "update_sources (disk_os served) example_update_request example_disk
     = (Ok ([''large'', ''medium'', ''small'', ''block''], ''2026-09-17T12:00:00Z''), example_disk)"
  by (simp add: update_sources_def csv_directory_def example_update_request_def op_then_def op_return_def
      op_map_err_def all_registries_def example_paths Let_def disk_os_def example_disk_def)

lemma example_conversion:
  "\<exists>c. checked_conversion example_reader [''large'', ''medium'', ''small'', ''block''] t = Ok c"
  if "newline \<notin> set t"
proof -
  let ?inputs = "csv_inputs [''large'', ''medium'', ''small'', ''block'']"
  have "\<exists>ss. convert_sections example_reader ?inputs all_registries = Ok ss"
    by (rule short_listings_convert)
      (simp add: short_listing_def Let_def csv_inputs_def example_simps del: document_rows.simps(2))
  then obtain c where c: "convert_ieee_registry_csvs example_reader ?inputs t = Ok c"
    by (auto simp: convert_ieee_registry_csvs_def)
  moreover have "\<forall>e\<in>set (all_rows example_reader ?inputs). newline \<notin> set (snd e)"
    by (simp add: all_rows_def registry_rows_def csv_inputs_def example_simps newline_def
        del: document_rows.simps(2))
  ultimately show ?thesis
    using converted_text_parses [OF c that] by (simp add: checked_conversion_def)
qed

lemma example_update:
  "\<exists>c d. run_update (disk_os served) example_reader example_update_request example_disk = (Ok c, d)"
proof -
  have "newline \<notin> set ''2026-09-17T12:00:00Z''" by (simp add: newline_def)
  then obtain c where
    c: "checked_conversion example_reader [''large'', ''medium'', ''small'', ''block''] ''2026-09-17T12:00:00Z'' = Ok c"
    using example_conversion by blast
  have "uo_process_id (disk_os served) = 7" by (simp add: disk_os_def)
  then have rep: "\<exists>d. replace_file_atomically (disk_os served) ''ieee-oui.txt'' s example_disk = (Ok (), d)" for s
    by (simp add: replace_file_atomically_def example_paths Let_def)
      (simp add: disk_os_def or_remove_def write_temp_file_def op_then_def op_return_def put_file_def
        example_disk_def)
  obtain d where "replace_file_atomically (disk_os served) ''ieee-oui.txt'' (cv_text c) example_disk = (Ok (), d)"
    using rep by blast
  then have "run_update (disk_os served) example_reader example_update_request example_disk = (Ok c, d)"
    using c by (simp add: run_update_parts op_then_def example_sources op_lift_def op_map_err_def op_return_def)
      (simp add: example_update_request_def op_return_def)
  then show ?thesis by blast
qed

lemma output_replaced_by_valid_text_only_witness:
  "\<exists>c d. run_update (disk_os Map.empty) example_reader example_update_request example_disk = (Ok c, d)
    \<and> dk_files d ''ieee-oui.txt'' = Some (cv_text c) \<and> is_ok (parse_ieee_oui_text (cv_text c))"
proof -
  obtain c d where run: "run_update (disk_os Map.empty) example_reader example_update_request example_disk = (Ok c, d)"
    using example_update by blast
  have "ur_output_path example_update_request = ''ieee-oui.txt''" by (simp add: example_update_request_def)
  then have "destination_documented (disk_os Map.empty) (ur_output_path example_update_request)
      (\<lambda>d. dk_files d ''ieee-oui.txt'') (\<lambda>d. dk_files d ''./.ieee-oui.txt.tmp-7'')"
    using disk_documented by simp
  from output_replaced_by_valid_text_only [OF this, where csv = example_reader and w = example_disk]
  show ?thesis using run by auto
qed
text \<open>
  The arguments are accepted exactly when they are flags each with its value; a later flag overrides
  an earlier one.
\<close>

datatype updater_setting = OutputTo string | FromDir string | RetrievedAt string

fun setting_args :: "updater_setting \<Rightarrow> string list" where
  "setting_args (OutputTo v) = [''--output'', v]"
| "setting_args (FromDir v) = [''--from-dir'', v]"
| "setting_args (RetrievedAt v) = [''--retrieved-at'', v]"

fun apply_setting :: "update_request \<Rightarrow> updater_setting \<Rightarrow> update_request" where
  "apply_setting r (OutputTo v) = r\<lparr>ur_output_path := v\<rparr>"
| "apply_setting r (FromDir v) = r\<lparr>ur_from_dir := Some v\<rparr>"
| "apply_setting r (RetrievedAt v) = r\<lparr>ur_retrieved_at_utc := Some v\<rparr>"

text \<open>One round of the loop, on the arguments not yet read.\<close>

fun parse_rest ::
    "(string \<Rightarrow> string) \<Rightarrow> string list \<Rightarrow> update_request \<Rightarrow> updater_error + update_request" where
  "parse_rest debug [] r = Ok r"
| "parse_rest debug (flag # rest) r =
     (if flag \<in> {''--output'', ''--from-dir'', ''--retrieved-at''} then
        (case rest of
           [] \<Rightarrow> Err (Usage (flag @ '' requires a value''))
         | v # rest \<Rightarrow> parse_rest debug rest (apply_setting r
             (if flag = ''--output'' then OutputTo v else if flag = ''--from-dir'' then FromDir v
              else RetrievedAt v)))
      else Err (Usage (''unknown argument '' @ debug flag @ [newline] @ help_text)))"

lemma parse_args_from_rest: "parse_args_from debug args i r = parse_rest debug (drop i args) r"
proof (induction debug args i r rule: parse_args_from.induct)
  case (1 debug args i r)
  show ?case
  proof (cases "i < length args")
    case True
    then have drop: "drop i args = args ! i # drop (Suc i) args" by (simp add: Cons_nth_drop_Suc)
    show ?thesis
    proof (cases "Suc i < length args")
      case more: True
      then have "drop (Suc i) args = args ! Suc i # drop (i + 2) args"
        by (simp add: Cons_nth_drop_Suc)
      then show ?thesis
        using 1 True more
        by (subst parse_args_from.simps) (auto simp: drop require_value_def)
    next
      case False
      then have "drop (Suc i) args = []" by simp
      then show ?thesis
        using True False
        by (subst parse_args_from.simps) (auto simp: drop require_value_def)
    qed
  qed (simp add: parse_args_from.simps)
qed

theorem updater_arguments_exact:
  "parse_args debug args = Ok request \<longleftrightarrow>
     (\<exists>settings. args = concat (map setting_args settings)
        \<and> request = foldl apply_setting
            \<lparr>ur_output_path = ''ieee-oui.txt'', ur_from_dir = None, ur_retrieved_at_utc = None\<rparr> settings)"
proof -
  have fwd: "parse_rest debug args r = Ok request \<Longrightarrow>
      \<exists>ss. args = concat (map setting_args ss) \<and> request = foldl apply_setting r ss" for r
  proof (induction debug args r rule: parse_rest.induct)
    case (1 debug r)
    then show ?case by (intro exI [of _ "[]"]) simp
  next
    case (2 debug flag rest r)
    then obtain v tail where rest: "rest = v # tail" and flag: "flag \<in> {''--output'', ''--from-dir'', ''--retrieved-at''}"
      by (auto split: if_splits list.splits)
    let ?s = "if flag = ''--output'' then OutputTo v else if flag = ''--from-dir'' then FromDir v
      else RetrievedAt v"
    have "parse_rest debug tail (apply_setting r ?s) = Ok request" using 2(2) rest flag by auto
    then obtain ss where "tail = concat (map setting_args ss)"
      "request = foldl apply_setting (apply_setting r ?s) ss"
      using 2(1) [OF flag rest] by blast
    then show ?case using rest flag by (intro exI [of _ "?s # ss"]) auto
  qed
  have "parse_rest debug (concat (map setting_args ss)) r = Ok (foldl apply_setting r ss)" for ss r
  proof (induction ss arbitrary: r)
    case (Cons s ss)
    then show ?case by (cases s) simp_all
  qed simp
  then show ?thesis
    using fwd unfolding parse_args_def parse_args_from_rest by auto
qed

text \<open>
  C27: an error of the command leaves the output file as it was, except that of a summary that cannot
  be printed: it comes after the file has been replaced by an accepted text, and is reported as a
  failure to write that file.
\<close>

theorem updater_result:
  assumes "parse_args debug args = Ok request"
    and "destination_documented os (ur_output_path request) dest temp"
    and "run_updater os csv debug err args w s = (r, w', s')"
  shows "(\<exists>stop. r = Err stop) \<and> dest w' = dest w
    \<or> (\<exists>c. dest w' = Some (cv_text c) \<and> is_ok (parse_ieee_oui_text (cv_text c))
         \<and> (r = Ok () \<or> (\<exists>e. r = Err (Rejected (WriteFailed (ur_output_path request) e))
              \<and> fst (write_summary c err s) = Err e)))"
proof (cases "run_update os csv request w")
  case (Pair q w1)
  show ?thesis
  proof (cases q)
    case (Inl stop)
    then show ?thesis
      using assms(1,3) Pair update_outcome [OF assms(2), where csv = csv and w = w]
      by (auto simp: run_updater_def)
  next
    case (Inr c)
    then have "dest w1 = Some (cv_text c) \<and> is_ok (parse_ieee_oui_text (cv_text c))"
      using Pair update_outcome [OF assms(2), where csv = csv and w = w] by simp
    then show ?thesis
      using assms(1,3) Pair Inr
      by (cases "write_summary c err s"; cases "fst (write_summary c err s)")
        (auto simp: run_updater_def)
  qed
qed

lemma updater_result_witness:
  "case run_updater (disk_os Map.empty) example_reader id standard_error_write_always_fails
      [''--from-dir'', ''csv'', ''--retrieved-at'', ''2026-09-17T12:00:00Z''] example_disk
      \<lparr>buf_out = [], buf_err = []\<rparr> of
    (r, d, _) \<Rightarrow> \<exists>(c :: converted_ieee_oui) e. dk_files d ''ieee-oui.txt'' = Some (cv_text c)
      \<and> is_ok (parse_ieee_oui_text (cv_text c)) \<and> r = Err (Rejected (WriteFailed ''ieee-oui.txt'' e))"
proof -
  let ?args = "[''--from-dir'', ''csv'', ''--retrieved-at'', ''2026-09-17T12:00:00Z'']"
  let ?s = "\<lparr>buf_out = [], buf_err = []\<rparr>" and ?out = "\<lambda>d. dk_files d ''ieee-oui.txt''"
  have args: "parse_args debug ?args = Ok example_update_request" for debug
    by (simp add: parse_args_def parse_args_from_rest example_update_request_def)
  have out: "ur_output_path example_update_request = ''ieee-oui.txt''"
    by (simp add: example_update_request_def)
  have doc: "destination_documented (disk_os Map.empty) (ur_output_path example_update_request) ?out
      (\<lambda>d. dk_files d ''./.ieee-oui.txt.tmp-7'')"
    using disk_documented by (simp add: out)
  obtain c d where run: "run_update (disk_os Map.empty) example_reader example_update_request example_disk = (Ok c, d)"
    using example_update by blast
  have silent: "\<exists>e. write_summary c standard_error_write_always_fails ?s = (Err e, ?s)" for c
    by (simp add: write_summary_def io_then_def writeln_def standard_error_write_always_fails_def)
  obtain r d' s' where cmd: "run_updater (disk_os Map.empty) example_reader id
      standard_error_write_always_fails ?args example_disk ?s = (r, d', s')"
    using prod_cases3 by blast
  have "\<exists>e. r = Err (Rejected (WriteFailed ''ieee-oui.txt'' e))" "d' = d"
    using cmd silent [of c] by (auto simp: run_updater_def args run out)
  moreover have "\<not> is_ok (parse_ieee_oui_text ''keep-me'')" by code_simp
  then have "?out d \<noteq> ?out example_disk"
    using update_outcome [OF doc, where csv = example_reader and w = example_disk] run
    by (auto simp: example_disk_def)
  ultimately have "?out d' \<noteq> ?out example_disk" and e: "\<exists>e. r = Err (Rejected (WriteFailed ''ieee-oui.txt'' e))"
    by auto
  then have "\<exists>c :: converted_ieee_oui. ?out d' = Some (cv_text c) \<and> is_ok (parse_ieee_oui_text (cv_text c))"
    using updater_result [OF args doc cmd] by blast
  then show ?thesis using e unfolding cmd prod.case by blast
qed

end
