(* ===== verification/Bpf_Filter.thy ===== *)
theory Bpf_Filter
  imports Ethernet_Frame
begin

text \<open>
  The capture filter of \<^verbatim>\<open>src/macos_bpf_socket.rs\<close> and the interpreter of classic BPF programs of
  its tests. The filter is proved to accept exactly the frames that the shared parser takes for
  address resolution, so the kernel and the engine agree on what is ARP.
\<close>

section \<open>The program\<close>

text \<open>\<^verbatim>\<open>BpfProgramInstruction\<close>: code, jumps and operand.\<close>

datatype bpf_instruction = BpfInstruction
  (bpf_code: u16) (jump_if_true: u8) (jump_if_false: u8) (bpf_operand: u32)

definition bpf_load_halfword_absolute :: u16 where "bpf_load_halfword_absolute = 0x28"
definition bpf_load_word_absolute :: u16 where "bpf_load_word_absolute = 0x20"
definition bpf_jump_if_equal_constant :: u16 where "bpf_jump_if_equal_constant = 0x15"
definition bpf_jump_if_greater_than_constant :: u16 where "bpf_jump_if_greater_than_constant = 0x25"
definition bpf_return_constant :: u16 where "bpf_return_constant = 0x06"
definition ethernet_type_field_offset :: u32 where "ethernet_type_field_offset = 12"
definition ieee_8021q_tag_octets :: u32 where "ieee_8021q_tag_octets = 4"
definition llc_snap_prefix_offset_after_length :: u32 where "llc_snap_prefix_offset_after_length = 2"
definition snap_ethertype_offset_after_length :: u32 where "snap_ethertype_offset_after_length = 6"
definition ethernet_type_arp :: u32 where "ethernet_type_arp = 0x0806"
definition ethernet_type_vlan_tag :: u32 where "ethernet_type_vlan_tag = 0x8100"
definition ethernet_type_vlan_tag_service :: u32 where "ethernet_type_vlan_tag_service = 0x88A8"
definition ieee_8023_maximum_length_operand :: u32 where "ieee_8023_maximum_length_operand = 1500"
definition rfc_1042_llc_snap_prefix :: u32 where "rfc_1042_llc_snap_prefix = 0xAAAA0300"
definition rfc_1042_snap_arp_ethertype :: u32 where "rfc_1042_snap_arp_ethertype = 0x00000806"
definition bpf_accept_whole_frame :: u32 where "bpf_accept_whole_frame = 0xFFFFFFFF"

definition length_type_field_offset :: "u32 \<Rightarrow> u32" where
  "length_type_field_offset tag_count =
     ethernet_type_field_offset + tag_count * ieee_8021q_tag_octets"

definition arp_capture_filter :: "bpf_instruction list" where
  "arp_capture_filter =
    [
     BpfInstruction bpf_load_halfword_absolute 0 0 (length_type_field_offset 0),
     BpfInstruction bpf_jump_if_equal_constant 24 0 ethernet_type_arp,
     BpfInstruction bpf_jump_if_equal_constant 6 0 ethernet_type_vlan_tag,
     BpfInstruction bpf_jump_if_equal_constant 12 0 ethernet_type_vlan_tag_service,
     BpfInstruction bpf_jump_if_greater_than_constant 20 0 ieee_8023_maximum_length_operand,
     BpfInstruction bpf_load_word_absolute 0 0 (length_type_field_offset 0 + llc_snap_prefix_offset_after_length),
     BpfInstruction bpf_jump_if_equal_constant 0 18 rfc_1042_llc_snap_prefix,
     BpfInstruction bpf_load_word_absolute 0 0 (length_type_field_offset 0 + snap_ethertype_offset_after_length),
     BpfInstruction bpf_jump_if_equal_constant 17 16 rfc_1042_snap_arp_ethertype,
     BpfInstruction bpf_load_halfword_absolute 0 0 (length_type_field_offset 1),
     BpfInstruction bpf_jump_if_equal_constant 15 0 ethernet_type_arp,
     BpfInstruction bpf_jump_if_greater_than_constant 13 0 ieee_8023_maximum_length_operand,
     BpfInstruction bpf_load_word_absolute 0 0 (length_type_field_offset 1 + llc_snap_prefix_offset_after_length),
     BpfInstruction bpf_jump_if_equal_constant 0 11 rfc_1042_llc_snap_prefix,
     BpfInstruction bpf_load_word_absolute 0 0 (length_type_field_offset 1 + snap_ethertype_offset_after_length),
     BpfInstruction bpf_jump_if_equal_constant 10 9 rfc_1042_snap_arp_ethertype,
     BpfInstruction bpf_load_halfword_absolute 0 0 (length_type_field_offset 1),
     BpfInstruction bpf_jump_if_equal_constant 0 7 ethernet_type_vlan_tag,
     BpfInstruction bpf_load_halfword_absolute 0 0 (length_type_field_offset 2),
     BpfInstruction bpf_jump_if_equal_constant 6 0 ethernet_type_arp,
     BpfInstruction bpf_jump_if_greater_than_constant 4 0 ieee_8023_maximum_length_operand,
     BpfInstruction bpf_load_word_absolute 0 0 (length_type_field_offset 2 + llc_snap_prefix_offset_after_length),
     BpfInstruction bpf_jump_if_equal_constant 0 2 rfc_1042_llc_snap_prefix,
     BpfInstruction bpf_load_word_absolute 0 0 (length_type_field_offset 2 + snap_ethertype_offset_after_length),
     BpfInstruction bpf_jump_if_equal_constant 1 0 rfc_1042_snap_arp_ethertype,
     BpfInstruction bpf_return_constant 0 0 0,
     BpfInstruction bpf_return_constant 0 0 bpf_accept_whole_frame
    ]"

section \<open>The interpreter\<close>

text \<open>
  A load past the end of the frame drops it. \<open>None\<close> is a panic of the interpreter: a jump out of the
  program, an unknown code, or no return within one step more than there are instructions.
\<close>

fun bpf_run ::
    "nat \<Rightarrow> bpf_instruction list \<Rightarrow> u8 list \<Rightarrow> nat \<Rightarrow> u32 \<Rightarrow> bool option" where
  "bpf_run 0 program frame program_counter accumulator = None"
| "bpf_run (Suc steps) program frame program_counter accumulator =
     (if length program \<le> program_counter then None
      else
        let instruction = program ! program_counter; offset = unat (bpf_operand instruction) in
        if bpf_code instruction = bpf_load_halfword_absolute
        then (case slice_get offset (offset + 2) frame of
            None \<Rightarrow> Some False
          | Some field \<Rightarrow> bpf_run steps program frame (program_counter + 1)
              (ucast (u16_from_be (field ! 0) (field ! 1))))
        else if bpf_code instruction = bpf_load_word_absolute
        then (case slice_get offset (offset + 4) frame of
            None \<Rightarrow> Some False
          | Some field \<Rightarrow> bpf_run steps program frame (program_counter + 1)
              (u32_from_be (field ! 0) (field ! 1) (field ! 2) (field ! 3)))
        else if bpf_code instruction = bpf_jump_if_equal_constant
        then
          let skip = (if accumulator = bpf_operand instruction
                then unat (jump_if_true instruction) else unat (jump_if_false instruction)) in
          bpf_run steps program frame (program_counter + 1 + skip) accumulator
        else if bpf_code instruction = bpf_jump_if_greater_than_constant
        then
          let skip = (if bpf_operand instruction < accumulator
                then unat (jump_if_true instruction) else unat (jump_if_false instruction)) in
          bpf_run steps program frame (program_counter + 1 + skip) accumulator
        else if bpf_code instruction = bpf_return_constant
        then Some (bpf_operand instruction \<noteq> 0)
        else None)"

definition classic_bpf_accepts_frame :: "bpf_instruction list \<Rightarrow> u8 list \<Rightarrow> bool option" where
  "classic_bpf_accepts_frame program frame = bpf_run (length program + 1) program frame 0 0"

section \<open>Stepping through the filter\<close>

definition load_half :: "u8 list \<Rightarrow> nat \<Rightarrow> (u32 \<Rightarrow> bool option) \<Rightarrow> bool option" where
  "load_half frame offset continue =
     (case slice_get offset (offset + 2) frame of
        None \<Rightarrow> Some False
      | Some field \<Rightarrow> continue (ucast (u16_from_be (field ! 0) (field ! 1))))"

definition load_word :: "u8 list \<Rightarrow> nat \<Rightarrow> (u32 \<Rightarrow> bool option) \<Rightarrow> bool option" where
  "load_word frame offset continue =
     (case slice_get offset (offset + 4) frame of
        None \<Rightarrow> Some False
      | Some field \<Rightarrow> continue (u32_from_be (field ! 0) (field ! 1) (field ! 2) (field ! 3)))"

lemmas bpf_codes =
  bpf_load_halfword_absolute_def bpf_load_word_absolute_def bpf_jump_if_equal_constant_def
  bpf_jump_if_greater_than_constant_def bpf_return_constant_def

lemmas bpf_operands =
  ethernet_type_field_offset_def ieee_8021q_tag_octets_def llc_snap_prefix_offset_after_length_def
  snap_ethertype_offset_after_length_def ethernet_type_arp_def ethernet_type_vlan_tag_def
  ethernet_type_vlan_tag_service_def ieee_8023_maximum_length_operand_def
  rfc_1042_llc_snap_prefix_def rfc_1042_snap_arp_ethertype_def bpf_accept_whole_frame_def
  length_type_field_offset_def

lemma bpf_run_step:
  assumes "0 < k"
  shows "bpf_run k program frame pc x =
    (if length program \<le> pc then None
     else (case program ! pc of BpfInstruction c jt jf v \<Rightarrow>
       if c = 0x28 then load_half frame (unat v) (bpf_run (k - 1) program frame (pc + 1))
       else if c = 0x20 then load_word frame (unat v) (bpf_run (k - 1) program frame (pc + 1))
       else if c = 0x15 then bpf_run (k - 1) program frame (pc + 1 + (if x = v then unat jt else unat jf)) x
       else if c = 0x25 then bpf_run (k - 1) program frame (pc + 1 + (if v < x then unat jt else unat jf)) x
       else if c = 0x06 then Some (v \<noteq> 0)
       else None))"
proof -
  obtain j where "k = Suc j" using assms by (metis not0_implies_Suc less_numeral_extra(3))
  then show ?thesis
    by (cases "program ! pc") (simp only: bpf_run.simps Let_def bpf_codes load_half_def load_word_def
        bpf_instruction.case bpf_instruction.sel diff_Suc_1)
qed

lemma filter_at:
  "arp_capture_filter ! 0 = BpfInstruction 0x28 0 0 12"
  "arp_capture_filter ! Suc 0 = BpfInstruction 0x15 24 0 0x0806"
  "arp_capture_filter ! 2 = BpfInstruction 0x15 6 0 0x8100"
  "arp_capture_filter ! 3 = BpfInstruction 0x15 12 0 0x88A8"
  "arp_capture_filter ! 4 = BpfInstruction 0x25 20 0 1500"
  "arp_capture_filter ! 5 = BpfInstruction 0x20 0 0 14"
  "arp_capture_filter ! 6 = BpfInstruction 0x15 0 18 0xAAAA0300"
  "arp_capture_filter ! 7 = BpfInstruction 0x20 0 0 18"
  "arp_capture_filter ! 8 = BpfInstruction 0x15 17 16 0x0806"
  "arp_capture_filter ! 9 = BpfInstruction 0x28 0 0 16"
  "arp_capture_filter ! 10 = BpfInstruction 0x15 15 0 0x0806"
  "arp_capture_filter ! 11 = BpfInstruction 0x25 13 0 1500"
  "arp_capture_filter ! 12 = BpfInstruction 0x20 0 0 18"
  "arp_capture_filter ! 13 = BpfInstruction 0x15 0 11 0xAAAA0300"
  "arp_capture_filter ! 14 = BpfInstruction 0x20 0 0 22"
  "arp_capture_filter ! 15 = BpfInstruction 0x15 10 9 0x0806"
  "arp_capture_filter ! 16 = BpfInstruction 0x28 0 0 16"
  "arp_capture_filter ! 17 = BpfInstruction 0x15 0 7 0x8100"
  "arp_capture_filter ! 18 = BpfInstruction 0x28 0 0 20"
  "arp_capture_filter ! 19 = BpfInstruction 0x15 6 0 0x0806"
  "arp_capture_filter ! 20 = BpfInstruction 0x25 4 0 1500"
  "arp_capture_filter ! 21 = BpfInstruction 0x20 0 0 22"
  "arp_capture_filter ! 22 = BpfInstruction 0x15 0 2 0xAAAA0300"
  "arp_capture_filter ! 23 = BpfInstruction 0x20 0 0 26"
  "arp_capture_filter ! 24 = BpfInstruction 0x15 1 0 0x0806"
  "arp_capture_filter ! 25 = BpfInstruction 0x06 0 0 0"
  "arp_capture_filter ! 26 = BpfInstruction 0x06 0 0 0xFFFFFFFF"
  by (simp_all add: arp_capture_filter_def bpf_codes bpf_operands)

lemma length_arp_capture_filter: "length arp_capture_filter = 27"
  by (simp add: arp_capture_filter_def)

lemma filter_step:
  "0 < k \<Longrightarrow> bpf_run k arp_capture_filter frame 0 x = load_half frame 12 (bpf_run (k - 1) arp_capture_filter frame (Suc 0))"
  "0 < k \<Longrightarrow> bpf_run k arp_capture_filter frame (Suc 0) x = bpf_run (k - 1) arp_capture_filter frame (if x = 0x0806 then 26 else 2) x"
  "0 < k \<Longrightarrow> bpf_run k arp_capture_filter frame 2 x = bpf_run (k - 1) arp_capture_filter frame (if x = 0x8100 then 9 else 3) x"
  "0 < k \<Longrightarrow> bpf_run k arp_capture_filter frame 3 x = bpf_run (k - 1) arp_capture_filter frame (if x = 0x88A8 then 16 else 4) x"
  "0 < k \<Longrightarrow> bpf_run k arp_capture_filter frame 4 x = bpf_run (k - 1) arp_capture_filter frame (if 1500 < x then 25 else 5) x"
  "0 < k \<Longrightarrow> bpf_run k arp_capture_filter frame 5 x = load_word frame 14 (bpf_run (k - 1) arp_capture_filter frame 6)"
  "0 < k \<Longrightarrow> bpf_run k arp_capture_filter frame 6 x = bpf_run (k - 1) arp_capture_filter frame (if x = 0xAAAA0300 then 7 else 25) x"
  "0 < k \<Longrightarrow> bpf_run k arp_capture_filter frame 7 x = load_word frame 18 (bpf_run (k - 1) arp_capture_filter frame 8)"
  "0 < k \<Longrightarrow> bpf_run k arp_capture_filter frame 8 x = bpf_run (k - 1) arp_capture_filter frame (if x = 0x0806 then 26 else 25) x"
  "0 < k \<Longrightarrow> bpf_run k arp_capture_filter frame 9 x = load_half frame 16 (bpf_run (k - 1) arp_capture_filter frame 10)"
  "0 < k \<Longrightarrow> bpf_run k arp_capture_filter frame 10 x = bpf_run (k - 1) arp_capture_filter frame (if x = 0x0806 then 26 else 11) x"
  "0 < k \<Longrightarrow> bpf_run k arp_capture_filter frame 11 x = bpf_run (k - 1) arp_capture_filter frame (if 1500 < x then 25 else 12) x"
  "0 < k \<Longrightarrow> bpf_run k arp_capture_filter frame 12 x = load_word frame 18 (bpf_run (k - 1) arp_capture_filter frame 13)"
  "0 < k \<Longrightarrow> bpf_run k arp_capture_filter frame 13 x = bpf_run (k - 1) arp_capture_filter frame (if x = 0xAAAA0300 then 14 else 25) x"
  "0 < k \<Longrightarrow> bpf_run k arp_capture_filter frame 14 x = load_word frame 22 (bpf_run (k - 1) arp_capture_filter frame 15)"
  "0 < k \<Longrightarrow> bpf_run k arp_capture_filter frame 15 x = bpf_run (k - 1) arp_capture_filter frame (if x = 0x0806 then 26 else 25) x"
  "0 < k \<Longrightarrow> bpf_run k arp_capture_filter frame 16 x = load_half frame 16 (bpf_run (k - 1) arp_capture_filter frame 17)"
  "0 < k \<Longrightarrow> bpf_run k arp_capture_filter frame 17 x = bpf_run (k - 1) arp_capture_filter frame (if x = 0x8100 then 18 else 25) x"
  "0 < k \<Longrightarrow> bpf_run k arp_capture_filter frame 18 x = load_half frame 20 (bpf_run (k - 1) arp_capture_filter frame 19)"
  "0 < k \<Longrightarrow> bpf_run k arp_capture_filter frame 19 x = bpf_run (k - 1) arp_capture_filter frame (if x = 0x0806 then 26 else 20) x"
  "0 < k \<Longrightarrow> bpf_run k arp_capture_filter frame 20 x = bpf_run (k - 1) arp_capture_filter frame (if 1500 < x then 25 else 21) x"
  "0 < k \<Longrightarrow> bpf_run k arp_capture_filter frame 21 x = load_word frame 22 (bpf_run (k - 1) arp_capture_filter frame 22)"
  "0 < k \<Longrightarrow> bpf_run k arp_capture_filter frame 22 x = bpf_run (k - 1) arp_capture_filter frame (if x = 0xAAAA0300 then 23 else 25) x"
  "0 < k \<Longrightarrow> bpf_run k arp_capture_filter frame 23 x = load_word frame 26 (bpf_run (k - 1) arp_capture_filter frame 24)"
  "0 < k \<Longrightarrow> bpf_run k arp_capture_filter frame 24 x = bpf_run (k - 1) arp_capture_filter frame (if x = 0x0806 then 26 else 25) x"
  "0 < k \<Longrightarrow> bpf_run k arp_capture_filter frame 25 x = Some False"
  "0 < k \<Longrightarrow> bpf_run k arp_capture_filter frame 26 x = Some True"
  by (simp_all add: bpf_run_step filter_at length_arp_capture_filter numeral_2_eq_2 [symmetric])

text \<open>What the branches of the program test, at the offset of each header.\<close>

definition snap_arp_at :: "u8 list \<Rightarrow> nat \<Rightarrow> bool option" where
  "snap_arp_at frame offset =
     load_word frame offset (\<lambda>a. if a = 0xAAAA0300
       then load_word frame (offset + 4) (\<lambda>b. Some (b = 0x0806)) else Some False)"

definition inner_arp_at :: "u8 list \<Rightarrow> nat \<Rightarrow> u32 \<Rightarrow> bool option" where
  "inner_arp_at frame offset x =
     (if x = 0x0806 then Some True else if 1500 < x then Some False else snap_arp_at frame offset)"

lemma filter_semantics:
  "classic_bpf_accepts_frame arp_capture_filter frame =
     load_half frame 12 (\<lambda>x.
       if x = 0x8100 then load_half frame 16 (inner_arp_at frame 18)
       else if x = 0x88A8
       then load_half frame 16 (\<lambda>y. if y = 0x8100 then load_half frame 20 (inner_arp_at frame 22)
              else Some False)
       else inner_arp_at frame 14 x)"
  unfolding classic_bpf_accepts_frame_def length_arp_capture_filter
  by (simp add: filter_step load_half_def load_word_def snap_arp_at_def inner_arp_at_def
      split: option.splits)

section \<open>Against the parser\<close>

lemma ucast_u16_inject [simp]: "(ucast (t :: u16) :: u32) = ucast (s :: u16) \<longleftrightarrow> t = s"
proof -
  have "unat (ucast w :: u32) = unat w" for w :: u16
    by (simp add: unsigned_ucast_eq take_bit_nat_eq_self_iff) (use unat_u16_lt [of w] in linarith)
  then show ?thesis by (metis word_unat_eq_iff)
qed

lemma ucast_u16_numerals:
  fixes t :: u16
  shows "(ucast t :: u32) = 0x0806 \<longleftrightarrow> t = 0x0806" "(ucast t :: u32) = 0x8100 \<longleftrightarrow> t = 0x8100"
    "(ucast t :: u32) = 0x88A8 \<longleftrightarrow> t = 0x88A8"
  using ucast_u16_inject [of t "0x0806"] ucast_u16_inject [of t "0x8100"] ucast_u16_inject [of t "0x88A8"]
  by simp_all

lemma ucast_u16_greater: "(1500 :: u32) < ucast (t :: u16) \<longleftrightarrow> 1500 < t"
proof -
  have "unat (ucast t :: u32) = unat t"
    by (simp add: unsigned_ucast_eq take_bit_nat_eq_self_iff) (use unat_u16_lt [of t] in linarith)
  then show ?thesis by (simp add: word_less_nat_alt)
qed

definition half_at :: "u8 list \<Rightarrow> nat \<Rightarrow> u16 option" where
  "half_at frame offset =
     map_option (\<lambda>f. u16_from_be (f ! 0) (f ! 1)) (slice_get offset (offset + 2) frame)"

lemma load_half_at:
  "load_half frame offset k = (case half_at frame offset of None \<Rightarrow> Some False | Some t \<Rightarrow> k (ucast t))"
  by (simp add: load_half_def half_at_def split: option.splits)

lemma read_u16_half_at:
  "offset \<le> 100 \<Longrightarrow> read_u16_at frame offset m = ok_or (half_at frame offset) m"
  by (cases "slice_get offset (offset + 2) frame")
    (simp_all add: read_u16_at_def half_at_def usize_max_def u64_max_def)

lemma u32_from_be_inj: "u32_from_be a b c d = u32_from_be a' b' c' d' \<longleftrightarrow> [a, b, c, d] = [a', b', c', d']"
  by (rule iffI, drule arg_cong [of _ _ u32_to_be]) simp_all

lemma snap_words:
  "u32_from_be a b c d = 0xAAAA0300 \<longleftrightarrow> [a, b, c, d] = [0xAA, 0xAA, 3, 0]"
  "u32_from_be a b c d = 0x0806 \<longleftrightarrow> [a, b, c, d] = [0, 0, 8, 6]"
proof -
  have "(0xAAAA0300 :: u32) = u32_from_be 0xAA 0xAA 3 0" "(0x0806 :: u32) = u32_from_be 0 0 8 6"
    by (simp_all add: u32_from_be_def)
  then show "u32_from_be a b c d = 0xAAAA0300 \<longleftrightarrow> [a, b, c, d] = [0xAA, 0xAA, 3, 0]"
    and "u32_from_be a b c d = 0x0806 \<longleftrightarrow> [a, b, c, d] = [0, 0, 8, 6]"
    by (simp_all only: u32_from_be_inj)
qed

lemma snap_arp_parses:
  assumes "n \<le> 100"
  shows "snap_arp_at frame n = Some (\<exists>m framing. decode_rfc_1042_llc_snap frame n = Ok (protocol_arp, m, framing))"
proof (cases "n + 8 \<le> length frame")
  case True
  define h where "h = take 8 (drop n frame)"
  have len: "length h = 8" using True by (simp add: h_def)
  then obtain a b c d e f g i where h: "h = [a, b, c, d, e, f, g, i]"
    by (auto simp: numeral_eq_Suc length_Suc_conv)
  have s8: "slice_get n (n + 8) frame = Some h" using True by (simp add: slice_get_def h_def)
  have s4: "slice_get n (n + 4) frame = Some [a, b, c, d]"
  proof -
    have "take 4 (drop n frame) = take 4 h" by (simp add: h_def)
    then show ?thesis using True h by (simp add: slice_get_def)
  qed
  have t4: "slice_get (n + 4) (n + 4 + 4) frame = Some [e, f, g, i]"
  proof -
    have "take 4 (drop (n + 4) frame) = drop 4 h" by (simp add: h_def drop_take add.commute)
    then show ?thesis using True h by (simp add: slice_get_def)
  qed
  have "snap_arp_at frame n = Some ([a, b, c, d, e, f, g, i] = [0xAA, 0xAA, 3, 0, 0, 0, 8, 6])"
    using s4 t4 by (auto simp: snap_arp_at_def load_word_def snap_words)
  moreover have "(\<exists>m framing. decode_rfc_1042_llc_snap frame n = Ok (protocol_arp, m, framing)) \<longleftrightarrow>
      [a, b, c, d, e, f, g, i] = [0xAA, 0xAA, 3, 0, 0, 0, 8, 6]"
  proof -
    have "protocol_arp = u16_from_be 8 6" by (simp add: frame_constants u16_from_be_def)
    from u16_from_be_inj [of g i 8 6, folded this]
    have arp: "u16_from_be g i = protocol_arp \<longleftrightarrow> g = 8 \<and> i = 6" .
    show ?thesis
      using assms s8 h arp
      by (auto simp: decode_rfc_1042_llc_snap_def Let_def llc_snap_header_length_def small_offsets
          llc_snap_address_def llc_unnumbered_information_def snap_oui_def)
  qed
  ultimately show ?thesis by simp
next
  case False
  then have "slice_get n (n + 8) frame = None" "slice_get (n + 4) (n + 4 + 4) frame = None"
    by (simp_all add: slice_get_def)
  then show ?thesis
    using assms
    by (simp add: snap_arp_at_def load_word_def decode_rfc_1042_llc_snap_def Let_def
        llc_snap_header_length_def small_offsets split: option.splits)
qed

lemma inner_arp_parses:
  assumes "n \<le> 100"
  shows "inner_arp_at frame n (ucast tf) =
    Some (\<exists>m framing. decode_ethertype_or_ieee_8023_snap frame tf n = Ok (protocol_arp, m, framing))"
proof -
  have "(1536 :: u16) \<le> tf \<Longrightarrow> 1500 < tf" by (simp add: word_le_nat_alt word_less_nat_alt)
  moreover have "\<not> (1500 :: u16) < 0x0806 \<Longrightarrow> False" by simp
  ultimately show ?thesis
    unfolding inner_arp_at_def ucast_u16_numerals ucast_u16_greater snap_arp_parses [OF assms]
    by (auto simp: decode_ethertype_or_ieee_8023_snap_def minimum_ethernet_ii_ethertype_def
        ieee_8023_maximum_length_def protocol_arp_def not_less)
qed

text \<open>An inner type field is never itself a tag when it names ARP or a length.\<close>

lemma arp_type_field_no_tpid:
  "decode_ethertype_or_ieee_8023_snap frame tf n = Ok (protocol_arp, m, framing) \<Longrightarrow> \<not> is_vlan_tpid tf"
  using length_not_tpid [of tf]
  by (auto simp: decode_ethertype_or_ieee_8023_snap_def is_vlan_tpid_def is_unsupported_vlan_tpid_def
      frame_constants minimum_ethernet_ii_ethertype_def ieee_8023_maximum_length_def not_less
      split: if_splits)

definition parses_as_arp :: "u8 list \<Rightarrow> bool" where
  "parses_as_arp frame \<longleftrightarrow>
     (case try_parse_ethernet_frame frame of Inl _ \<Rightarrow> False | Inr p \<Rightarrow> pef_ether_type p = protocol_arp)"

lemma type_field_half_at:
  "half_at frame 12 = (if length frame < 14 then None else Some (u16_from_be (frame ! 12) (frame ! 13)))"
proof -
  have "\<not> length frame < 14 \<Longrightarrow> take 2 (drop 12 frame) = [frame ! 12, frame ! 13]"
    by (simp add: take_Suc_drop_nth numeral_2_eq_2)
  then show ?thesis by (simp add: half_at_def slice_get_def)
qed

lemma parses_as_arp_iff:
  "parses_as_arp frame \<longleftrightarrow>
     (case half_at frame 12 of None \<Rightarrow> False | Some t \<Rightarrow>
        \<exists>stack tf n m framing. decode_optional_tag_stack frame t = Ok (stack, tf, n)
          \<and> decode_ethertype_or_ieee_8023_snap frame tf n = Ok (protocol_arp, m, framing))"
  unfolding type_field_half_at parses_as_arp_def try_parse_ethernet_frame_def ethernet_ii_header_length_def
  by (auto simp: Let_def and_then_eq_Ok_iff split: sum.splits)

section \<open>Properties\<close>

lemma service_tag_parses:
  "(\<exists>stack tf n m framing. decode_service_and_customer_tags frame = Ok (stack, tf, n)
      \<and> decode_ethertype_or_ieee_8023_snap frame tf n = Ok (protocol_arp, m, framing)) \<longleftrightarrow>
   (half_at frame 16 = Some protocol_vlan_tag \<and>
     (\<exists>tf m framing. half_at frame 20 = Some tf
        \<and> decode_ethertype_or_ieee_8023_snap frame tf 22 = Ok (protocol_arp, m, framing)))"
proof -
  have earlier: "half_at frame (n + 2) \<noteq> None \<Longrightarrow> half_at frame n \<noteq> None" for n
    by (simp add: half_at_def slice_get_def split: if_splits)
  have "half_at frame 16 \<noteq> None \<Longrightarrow> half_at frame 14 \<noteq> None"
    "half_at frame 20 \<noteq> None \<Longrightarrow> half_at frame 18 \<noteq> None"
    using earlier [of 14] earlier [of 18] by simp_all
  then show ?thesis
    by (cases "half_at frame 14"; cases "half_at frame 16"; cases "half_at frame 18"; cases "half_at frame 20")
      (auto simp: decode_service_and_customer_tags_def read_u16_half_at Let_def
        ethernet_ii_header_length_def ieee_8021q_tag_length_def ieee_8021ad_tag_stack_length_def
        is_vlan_tpid_def dest: arp_type_field_no_tpid)
qed

lemma tag_stack_parses:
  "(\<exists>stack tf n m framing. decode_optional_tag_stack frame t = Ok (stack, tf, n)
      \<and> decode_ethertype_or_ieee_8023_snap frame tf n = Ok (protocol_arp, m, framing)) \<longleftrightarrow>
   (if t = protocol_vlan_tag
    then \<exists>tf m framing. half_at frame 16 = Some tf
        \<and> decode_ethertype_or_ieee_8023_snap frame tf 18 = Ok (protocol_arp, m, framing)
    else if t = protocol_vlan_tag_service
    then half_at frame 16 = Some protocol_vlan_tag \<and>
      (\<exists>tf m framing. half_at frame 20 = Some tf
        \<and> decode_ethertype_or_ieee_8023_snap frame tf 22 = Ok (protocol_arp, m, framing))
    else \<exists>m framing. decode_ethertype_or_ieee_8023_snap frame t 14 = Ok (protocol_arp, m, framing))"
proof -
  have "half_at frame (14 + 2) \<noteq> None \<Longrightarrow> half_at frame 14 \<noteq> None"
    by (simp add: half_at_def slice_get_def split: if_splits)
  then have "half_at frame 16 \<noteq> None \<Longrightarrow> half_at frame 14 \<noteq> None" by simp
  moreover have tags: "protocol_vlan_tag \<noteq> protocol_vlan_tag_service" "\<not> is_unsupported_vlan_tpid protocol_vlan_tag"
    "\<not> is_unsupported_vlan_tpid protocol_vlan_tag_service"
    by (simp_all add: frame_constants is_unsupported_vlan_tpid_def)
  consider "t = protocol_vlan_tag" | "t = protocol_vlan_tag_service"
    | "t \<noteq> protocol_vlan_tag" "t \<noteq> protocol_vlan_tag_service" by blast
  then show ?thesis
  proof cases
    case 1
    then show ?thesis
      using calculation tags
      by (cases "half_at frame 14"; cases "half_at frame 16")
        (auto simp: decode_optional_tag_stack_def read_u16_half_at ethernet_ii_header_length_def
          ieee_8021q_tag_length_def is_vlan_tpid_def dest: arp_type_field_no_tpid)
  next
    case 2
    then show ?thesis
      using tags service_tag_parses by (simp add: decode_optional_tag_stack_def)
  next
    case 3
    then show ?thesis
      by (auto simp: decode_optional_tag_stack_def ethernet_ii_header_length_def is_vlan_tpid_def
          dest: arp_type_field_no_tpid)
  qed
qed

text \<open>
  C23: the hand-maintained jump program never leaves its 27 instructions and always returns, and it
  accepts exactly the frames that the shared parser takes for ARP, whatever their tags, framing and
  length: no reply is lost in the kernel, and nothing else reaches the engine.
\<close>

theorem capture_filter_agrees_with_parser:
  "classic_bpf_accepts_frame arp_capture_filter frame =
     Some (case try_parse_ethernet_frame frame of
       Inl _ \<Rightarrow> False | Inr p \<Rightarrow> pef_ether_type p = protocol_arp)"
proof -
  have vlan: "(ucast t :: u32) = 0x8100 \<longleftrightarrow> t = protocol_vlan_tag"
    "(ucast t :: u32) = 0x88A8 \<longleftrightarrow> t = protocol_vlan_tag_service" for t :: u16
    by (simp_all add: ucast_u16_numerals frame_constants)
  have "classic_bpf_accepts_frame arp_capture_filter frame = Some (parses_as_arp frame)"
    unfolding filter_semantics load_half_at vlan parses_as_arp_iff tag_stack_parses
    by (simp add: inner_arp_parses vlan split: option.split)
  then show ?thesis by (simp only: parses_as_arp_def)
qed

end
