(* ===== verification/Bpf_Endpoint.thy ===== *)
theory Bpf_Endpoint
  imports Bpf_Filter Linux_Socket
begin

text \<open>
  \<^verbatim>\<open>src/macos_bpf_socket.rs\<close> and the wrappers of \<^verbatim>\<open>src/macos_system_call.rs\<close> it calls: a Berkeley
  Packet Filter device as an endpoint of the engine. One \<^verbatim>\<open>read\<close> returns several records; the
  endpoint keeps them in a buffer and hands over one frame at a time. The kernel is a record of its
  calls, the numbers in a record are little-endian, and the requests are those of a 64-bit macOS.
\<close>

section \<open>The kernel's interface\<close>

text \<open>
  A node of the list of \<^verbatim>\<open>getifaddrs\<close>: the octets of the name and of the socket addresses, where the
  pointers are not null.
\<close>

record interface_address_node =
  ifa_name :: "string option"
  ifa_flags :: "32 word"
  ifa_addr :: "u8 list option"
  ifa_netmask :: "u8 list option"

record 'w macos_kernel =
  mk_getifaddrs :: "('w, io_error, interface_address_node list) op"
  mk_if_nametoindex :: "string \<Rightarrow> ('w, io_error, nat) op"
  mk_open_read_write :: "string \<Rightarrow> ('w, io_error, nat) op"
  mk_ioctl_interface :: "nat \<Rightarrow> nat \<Rightarrow> string \<Rightarrow> ('w, io_error, unit) op"
  mk_ioctl_filter :: "nat \<Rightarrow> nat \<Rightarrow> bpf_instruction list \<Rightarrow> ('w, io_error, unit) op"
  mk_ioctl_set_unsigned :: "nat \<Rightarrow> nat \<Rightarrow> u32 \<Rightarrow> ('w, io_error, unit) op"
  mk_ioctl_get_unsigned :: "nat \<Rightarrow> nat \<Rightarrow> ('w, io_error, u32) op"
  mk_fcntl_get_flags :: "nat \<Rightarrow> ('w, io_error, 32 word) op"
  mk_fcntl_set_flags :: "nat \<Rightarrow> 32 word \<Rightarrow> ('w, io_error, unit) op"
  mk_write :: "nat \<Rightarrow> u8 list \<Rightarrow> ('w, io_error, nat) op"
  mk_read :: "nat \<Rightarrow> nat \<Rightarrow> ('w, io_error, u8 list) op"
  mk_poll :: "nat \<Rightarrow> nat \<Rightarrow> ('w, io_error, nat) op"

definition macos_ebusy :: int where "macos_ebusy = 16"
definition macos_eagain :: int where "macos_eagain = 35"
definition macos_ewouldblock :: int where "macos_ewouldblock = 35"
definition macos_o_nonblock :: "32 word" where "macos_o_nonblock = 0x0004"

section \<open>Request codes\<close>

definition ioctl_direction_out :: "64 word" where "ioctl_direction_out = 0x40000000"
definition ioctl_direction_in :: "64 word" where "ioctl_direction_in = 0x80000000"
definition ioctl_parameter_mask :: "64 word" where "ioctl_parameter_mask = 0x1fff"
definition bpf_ioctl_group :: u8 where "bpf_ioctl_group = 0x42"

definition encode_ioctl_request :: "64 word \<Rightarrow> u8 \<Rightarrow> u8 \<Rightarrow> nat \<Rightarrow> 64 word" where
  "encode_ioctl_request direction group_character number parameter_length =
     or (or (or direction (push_bit 16 (and (word_of_nat parameter_length) ioctl_parameter_mask)))
       (push_bit 8 (ucast group_character))) (ucast number)"

definition biocgblen :: nat where
  "biocgblen = unat (encode_ioctl_request ioctl_direction_out bpf_ioctl_group 102 4)"
definition biocsetif :: nat where
  "biocsetif = unat (encode_ioctl_request ioctl_direction_in bpf_ioctl_group 108 32)"
definition biocimmediate :: nat where
  "biocimmediate = unat (encode_ioctl_request ioctl_direction_in bpf_ioctl_group 112 4)"
definition biocshdrcmplt :: nat where
  "biocshdrcmplt = unat (encode_ioctl_request ioctl_direction_in bpf_ioctl_group 117 4)"
definition biocsetf :: nat where
  "biocsetf = unat (encode_ioctl_request ioctl_direction_in bpf_ioctl_group 103 16)"
definition biocsseesent :: nat where "biocsseesent = 0x80044277"

section \<open>Wrappers of the system calls\<close>

text \<open>\<^verbatim>\<open>for minor_number in 0..256\<close>, from \<open>n\<close> on: a busy device is skipped and its error kept.\<close>

definition no_device_error :: io_error where
  "no_device_error = \<lparr>io_kind = NotFound, io_errno = None,
     io_text = ''no Berkeley Packet Filter device was available''\<rparr>"

fun try_bpf_devices :: "'w macos_kernel \<Rightarrow> nat list \<Rightarrow> io_error \<Rightarrow> ('w, io_error, nat) op" where
  "try_bpf_devices k [] last_error w = (Inl last_error, w)"
| "try_bpf_devices k (minor # minors) last_error w =
     (case mk_open_read_write k (''/dev/bpf'' @ show_nat minor) w of
        (Inr device, w) \<Rightarrow> (Inr device, w)
      | (Inl error, w) \<Rightarrow>
          if io_errno error = Some macos_ebusy then try_bpf_devices k minors error w
          else (Inl error, w))"

definition open_bpf_device :: "'w macos_kernel \<Rightarrow> ('w, io_error, nat) op" where
  "open_bpf_device k = try_bpf_devices k [0..<256] no_device_error"

definition set_bpf_interface :: "'w macos_kernel \<Rightarrow> nat \<Rightarrow> string \<Rightarrow> ('w, io_error, unit) op" where
  "set_bpf_interface k device request = mk_ioctl_interface k device biocsetif request"

definition set_bpf_filter ::
    "'w macos_kernel \<Rightarrow> nat \<Rightarrow> bpf_instruction list \<Rightarrow> ('w, io_error, unit) op" where
  "set_bpf_filter k device instructions =
     (if u32_max < length instructions
      then op_lift (Inl \<lparr>io_kind = InvalidInput, io_errno = None,
        io_text = ''Berkeley Packet Filter program is too long''\<rparr>)
      else mk_ioctl_filter k device biocsetf instructions)"

definition set_bpf_unsigned_option ::
    "'w macos_kernel \<Rightarrow> nat \<Rightarrow> nat \<Rightarrow> u32 \<Rightarrow> ('w, io_error, unit) op" where
  "set_bpf_unsigned_option k device request_code value = mk_ioctl_set_unsigned k device request_code value"

definition set_bpf_see_sent :: "'w macos_kernel \<Rightarrow> nat \<Rightarrow> bool \<Rightarrow> ('w, io_error, unit) op" where
  "set_bpf_see_sent k device enabled = set_bpf_unsigned_option k device biocsseesent (of_bool enabled)"

definition set_bpf_immediate :: "'w macos_kernel \<Rightarrow> nat \<Rightarrow> bool \<Rightarrow> ('w, io_error, unit) op" where
  "set_bpf_immediate k device enabled = set_bpf_unsigned_option k device biocimmediate (of_bool enabled)"

definition set_bpf_header_complete :: "'w macos_kernel \<Rightarrow> nat \<Rightarrow> bool \<Rightarrow> ('w, io_error, unit) op" where
  "set_bpf_header_complete k device enabled =
     set_bpf_unsigned_option k device biocshdrcmplt (of_bool enabled)"

definition get_bpf_buffer_length :: "'w macos_kernel \<Rightarrow> nat \<Rightarrow> ('w, io_error, u32) op" where
  "get_bpf_buffer_length k device = mk_ioctl_get_unsigned k device biocgblen"

definition set_file_descriptor_nonblocking :: "'w macos_kernel \<Rightarrow> nat \<Rightarrow> ('w, io_error, unit) op" where
  "set_file_descriptor_nonblocking k fd =
     op_then (mk_fcntl_get_flags k fd) (\<lambda>current_flags.
     mk_fcntl_set_flags k fd (or current_flags macos_o_nonblock))"

section \<open>Records\<close>

text \<open>
  \<^verbatim>\<open>offset_of!\<close> of \<^verbatim>\<open>BpfPacketHeaderLayout\<close>: two 32-bit halves of a timestamp, the captured and the
  original length, and the length of the header.
\<close>

definition bpf_capture_length_offset :: nat where "bpf_capture_length_offset = 8"
definition bpf_data_length_offset :: nat where "bpf_data_length_offset = 12"
definition bpf_header_length_offset :: nat where "bpf_header_length_offset = 16"
definition bpf_record_alignment :: nat where "bpf_record_alignment = 4"

definition bpf_word_align :: "nat \<Rightarrow> nat" where
  "bpf_word_align value =
     unat (and (word_of_nat value + (word_of_nat bpf_record_alignment - 1 :: 64 word))
       (not (word_of_nat bpf_record_alignment - 1)))"

text \<open>\<^verbatim>\<open>u32::from_ne_bytes\<close> and \<^verbatim>\<open>u16::from_ne_bytes\<close> of the octets of a slice.\<close>

definition u32_from_ne :: "u8 list \<Rightarrow> u32" where
  "u32_from_ne b = u32_from_be (b ! 3) (b ! 2) (b ! 1) (b ! 0)"
definition u16_from_ne :: "u8 list \<Rightarrow> u16" where
  "u16_from_ne b = u16_from_be (b ! 1) (b ! 0)"

definition next_bpf_record :: "u8 list \<Rightarrow> nat \<Rightarrow> (nat \<times> nat \<times> nat) option" where
  "next_bpf_record buffer cursor =
     Option.bind (checked_add usize_max cursor bpf_capture_length_offset) (\<lambda>capture_length_offset.
     Option.bind (checked_add usize_max cursor bpf_header_length_offset) (\<lambda>header_length_offset.
     Option.bind (slice_get capture_length_offset (capture_length_offset + 4) buffer) (\<lambda>capture_bytes.
     Option.bind (slice_get header_length_offset (header_length_offset + 2) buffer) (\<lambda>header_bytes.
     let capture_length = unat (u32_from_ne capture_bytes);
         header_length = unat (u16_from_ne header_bytes) in
     Option.bind (checked_add usize_max cursor header_length) (\<lambda>frame_start.
     Option.bind (checked_add usize_max frame_start capture_length) (\<lambda>frame_end.
     if length buffer < frame_end then None
     else
       Option.bind (checked_add usize_max header_length capture_length) (\<lambda>sum.
       let record_length = bpf_word_align sum in
       if record_length = 0 then None
       else
         Option.bind (checked_add usize_max cursor record_length) (\<lambda>next_cursor.
         Some (frame_start, frame_end, next_cursor)))))))))"

section \<open>The endpoint\<close>

record macos_bpf_endpoint =
  mbe_bpf_device :: nat
  mbe_read_buffer :: "u8 list"
  mbe_filled_length :: nat
  mbe_parse_cursor :: nat

definition open_macos_link_layer_endpoint ::
    "'w macos_kernel \<Rightarrow> string \<Rightarrow> ('w, app_error, macos_bpf_endpoint) op" where
  "open_macos_link_layer_endpoint k name =
     op_then (op_map_err (\<lambda>source. if io_kind source = PermissionDenied
         then BpfDeviceAccessRequired source else RawSocketOpenFailed source) (open_bpf_device k)) (\<lambda>device.
     op_then (op_lift (copy_interface_name_to_ifreq name)) (\<lambda>request.
     op_then (op_map_err SocketBindFailed (set_bpf_interface k device request)) (\<lambda>_.
     op_then (op_map_err RawSocketOpenFailed (set_bpf_filter k device arp_capture_filter)) (\<lambda>_.
     op_then (op_map_err RawSocketOpenFailed (set_bpf_see_sent k device False)) (\<lambda>_.
     op_then (op_map_err RawSocketOpenFailed (set_bpf_immediate k device True)) (\<lambda>_.
     op_then (op_map_err RawSocketOpenFailed (set_bpf_header_complete k device True)) (\<lambda>_.
     op_then (op_map_err RawSocketOpenFailed (get_bpf_buffer_length k device)) (\<lambda>buffer_length.
     op_then (op_map_err RawSocketOpenFailed (set_file_descriptor_nonblocking k device)) (\<lambda>_.
     op_return \<lparr>mbe_bpf_device = device, mbe_read_buffer = replicate (unat buffer_length) 0,
       mbe_filled_length = 0, mbe_parse_cursor = 0\<rparr>)))))))))"

text \<open>The engine's world is the kernel's together with the endpoint, which reading changes.\<close>

definition macos_send ::
    "'w macos_kernel \<Rightarrow> u8 list \<Rightarrow> 'w \<times> macos_bpf_endpoint \<Rightarrow> (io_error + unit) \<times> 'w \<times> macos_bpf_endpoint" where
  "macos_send k frame = (\<lambda>(w, e).
     case mk_write k (mbe_bpf_device e) frame w of
       (Inl x, w) \<Rightarrow> (Inl x, w, e) | (Inr sent, w) \<Rightarrow> (Inr (), w, e))"

definition macos_wait ::
    "'w macos_kernel \<Rightarrow> nat \<Rightarrow> 'w \<times> macos_bpf_endpoint \<Rightarrow> (app_error + bool) \<times> 'w \<times> macos_bpf_endpoint" where
  "macos_wait k timeout_milliseconds = (\<lambda>(w, e).
     case mk_poll k (mbe_bpf_device e) timeout_milliseconds w of
       (Inr ready, w) \<Rightarrow> (Inr (ready \<noteq> 0), w, e)
     | (Inl source, w) \<Rightarrow> if io_kind source = Interrupted then (Inr False, w, e)
         else (Inl (PollWaitFailed source), w, e))"

text \<open>
  The buffered part of an iteration: a frame copied to the caller, or the end of the buffer. A slice
  out of range panics, as the buffer's prefix and the frame in it would in the code.
\<close>

definition take_buffered_frame ::
    "u8 list \<Rightarrow> macos_bpf_endpoint \<Rightarrow> (stop + nat option) \<times> u8 list \<times> macos_bpf_endpoint" where
  "take_buffered_frame buffer e =
     (if \<not> mbe_parse_cursor e < mbe_filled_length e then (Inr None, buffer, e)
      else
        case slice_get 0 (mbe_filled_length e) (mbe_read_buffer e) of
          None \<Rightarrow> (Inl Panicked, buffer, e)
        | Some filled \<Rightarrow>
            (case next_bpf_record filled (mbe_parse_cursor e) of
               None \<Rightarrow> (Inr None, buffer, e\<lparr>mbe_parse_cursor := mbe_filled_length e\<rparr>)
             | Some (frame_start, frame_end, next_cursor) \<Rightarrow>
                 let copy_length = min (frame_end - frame_start) (length buffer) in
                 (case slice_get frame_start (frame_start + copy_length) (mbe_read_buffer e) of
                    None \<Rightarrow> (Inl Panicked, buffer, e)
                  | Some copied \<Rightarrow> (Inr (Some copy_length), write_slice 0 copied buffer,
                      e\<lparr>mbe_parse_cursor := min next_cursor (mbe_filled_length e)\<rparr>))))"

fun macos_receive ::
    "nat \<Rightarrow> 'w macos_kernel \<Rightarrow> u8 list \<Rightarrow> 'w \<times> macos_bpf_endpoint
     \<Rightarrow> (stop + nat option) \<times> u8 list \<times> 'w \<times> macos_bpf_endpoint" where
  "macos_receive 0 k buffer (w, e) = (Inl OutOfFuel, buffer, w, e)"
| "macos_receive (Suc fuel) k buffer (w, e) =
     (case take_buffered_frame buffer e of
        (Inl s, buffer, e) \<Rightarrow> (Inl s, buffer, w, e)
      | (Inr (Some n), buffer, e) \<Rightarrow> (Inr (Some n), buffer, w, e)
      | (Inr None, buffer, e) \<Rightarrow>
          (case mk_read k (mbe_bpf_device e) (length (mbe_read_buffer e)) w of
             (Inr received, w) \<Rightarrow>
               if received = [] then (Inr None, buffer, w, e)
               else macos_receive fuel k buffer (w,
                 e\<lparr>mbe_read_buffer := write_slice 0 received (mbe_read_buffer e),
                   mbe_filled_length := length received, mbe_parse_cursor := 0\<rparr>)
           | (Inl source, w) \<Rightarrow>
               if io_errno source = Some macos_eagain \<or> io_errno source = Some macos_ewouldblock
               then (Inr None, buffer, w, e)
               else if io_kind source = Interrupted then macos_receive fuel k buffer (w, e)
               else (Inl (Failed (RawPacketReceiveFailed source)), buffer, w, e)))"

definition macos_endpoint :: "nat \<Rightarrow> 'w macos_kernel \<Rightarrow> ('w \<times> macos_bpf_endpoint) endpoint" where
  "macos_endpoint fuel k =
     \<lparr>ep_send = macos_send k, ep_wait = macos_wait k, ep_receive = macos_receive fuel k\<rparr>"

section \<open>Alignment and bounds\<close>

lemma bpf_word_align_eq:
  assumes "value + 3 \<le> usize_max"
  shows "bpf_word_align value = (value + 3) div 4 * 4"
proof -
  have clear: "and w (- 4) = push_bit 2 (drop_bit 2 w)" for w :: "64 word"
  proof -
    have m: "(- 4 :: 64 word) = not (mask 2)"
      using minus_exp_eq_not_mask [of 2, where ?'a = "64 word"] by simp
    show ?thesis
    proof (rule bit_word_eqI)
      fix i
      assume "i < LENGTH(64)"
      moreover have "i < 2 \<or> Suc (Suc (i - 2)) = i" by linarith
      ultimately show "bit (and w (- 4)) i = bit (push_bit 2 (drop_bit 2 w)) i"
        unfolding m by (auto simp: bit_simps)
    qed
  qed
  have "unat (word_of_nat value + 3 :: 64 word) = value + 3"
    using assms by (simp add: usize_max_def u64_max_def unat_word_ariths(1) unat_of_nat take_bit_nat_eq_self)
  moreover have "(value + 3) div 4 * 4 < 2 ^ 64"
    using assms by (simp add: usize_max_def u64_max_def)
  moreover have t: "take_bit 64 (unat w) = unat w" for w :: "64 word"
    by (rule take_bit_nat_eq_self) (use unsigned_less [of w] in simp)
  moreover have "unat (push_bit 2 (drop_bit 2 w)) = take_bit 64 (unat w div 4 * 4)" for w :: "64 word"
    by (simp add: unsigned_push_bit_eq unsigned_drop_bit_eq)
      (simp add: push_bit_eq_mult drop_bit_eq_div t)
  ultimately show ?thesis
    by (simp add: bpf_word_align_def bpf_record_alignment_def clear take_bit_nat_eq_self)
qed

lemma bpf_word_align_bounds:
  assumes "value + 3 \<le> usize_max"
  shows "value \<le> bpf_word_align value" "bpf_word_align value mod 4 = 0" "bpf_word_align value < value + 4"
  using assms by (simp_all add: bpf_word_align_eq)

lemma record_length_fits: "unat (h :: u16) + unat (c :: u32) + 3 \<le> usize_max"
proof -
  have "unat c < 4294967296" using unsigned_less [of c] by simp
  then show ?thesis using unat_u16_lt [of h] unfolding usize_max_def u64_max_def by linarith
qed

lemma next_bpf_record_Some:
  assumes "next_bpf_record buffer cursor = Some (s, e, n)"
  shows "cursor \<le> s" "s \<le> e" "e \<le> length buffer" "e \<le> n" "cursor < n" "cursor + 18 \<le> length buffer"
proof -
  obtain h :: u16 and c :: u32 where "s = cursor + unat h" "e = s + unat c" "e \<le> length buffer"
    "n = cursor + bpf_word_align (unat h + unat c)" "bpf_word_align (unat h + unat c) \<noteq> 0"
    "cursor + 18 \<le> length buffer"
    using assms
    by (auto simp: next_bpf_record_def Let_def checked_add_def bind_eq_Some_conv slice_get_Some_iff
        bpf_header_length_offset_def split: if_splits)
  then show "cursor \<le> s" "s \<le> e" "e \<le> length buffer" "e \<le> n" "cursor < n" "cursor + 18 \<le> length buffer"
    using bpf_word_align_bounds(1) [OF record_length_fits [of h c]] by auto
qed

section \<open>Walking the records\<close>

text \<open>
  A record as the kernel writes it: the timestamp, the lengths, a gap that fills the header, the
  frame, and the padding up to the next boundary.
\<close>

definition u32_to_ne :: "u32 \<Rightarrow> u8 list" where "u32_to_ne w = rev (u32_to_be w)"
definition u16_to_ne :: "u16 \<Rightarrow> u8 list" where "u16_to_ne w = rev (u16_to_be w)"

lemma ne_octets [simp]:
  "u32_from_ne (u32_to_ne w) = w" "u16_from_ne (u16_to_ne h) = h"
  "length (u32_to_ne w) = 4" "length (u16_to_ne h) = 2"
  by (simp_all add: u32_from_ne_def u32_to_ne_def u16_from_ne_def u16_to_ne_def rev_nth)

record bpf_capture =
  bc_timestamp :: "u8 list"
  bc_data_length :: u32
  bc_gap :: "u8 list"
  bc_frame :: "u8 list"

definition capture_well_formed :: "bpf_capture \<Rightarrow> bool" where
  "capture_well_formed c \<longleftrightarrow>
     length (bc_timestamp c) = 8 \<and> 18 + length (bc_gap c) < 65536 \<and> length (bc_frame c) < 4294967296"

definition capture_record :: "bpf_capture \<Rightarrow> u8 list" where
  "capture_record c =
     bc_timestamp c @ u32_to_ne (word_of_nat (length (bc_frame c))) @ u32_to_ne (bc_data_length c)
     @ u16_to_ne (word_of_nat (18 + length (bc_gap c))) @ bc_gap c @ bc_frame c
     @ replicate ((4 - (18 + length (bc_gap c) + length (bc_frame c)) mod 4) mod 4) 0"

text \<open>The frames that the endpoint takes out of \<open>buffer\<close> from \<open>cursor\<close> on.\<close>

function bpf_frames :: "u8 list \<Rightarrow> nat \<Rightarrow> u8 list list" where
  "bpf_frames buffer cursor =
     (if cursor < length buffer then
        (case next_bpf_record buffer cursor of
           None \<Rightarrow> []
         | Some (s, e, n) \<Rightarrow> take (e - s) (drop s buffer) # bpf_frames buffer (min n (length buffer)))
      else [])"
  by pat_completeness auto
termination
  by (relation "measure (\<lambda>(buffer, cursor). length buffer - cursor)")
    (auto dest: next_bpf_record_Some)

declare bpf_frames.simps [simp del]

lemma slice_get_middle:
  "xs = a @ b @ c \<Longrightarrow> m = length a \<Longrightarrow> n = length a + length b \<Longrightarrow> slice_get m n xs = Some b"
  by (simp add: slice_get_def)

lemma mod4_cases: "n mod 4 = 0 \<or> n mod 4 = 1 \<or> n mod 4 = 2 \<or> n mod 4 = (3 :: nat)"
  by presburger

lemma pad_step: "n mod 4 \<noteq> 0 \<Longrightarrow> (4 - n mod 4) mod 4 = Suc ((4 - Suc n mod 4) mod (4 :: nat))"
  using mod4_cases [of n] by (auto simp: mod_Suc)

lemma pad_less: "n mod 4 \<noteq> 0 \<Longrightarrow> (4 - Suc n mod 4) mod 4 < 4 - n mod (4 :: nat)"
  using mod4_cases [of n] by (auto simp: mod_Suc)

lemma padded_length: "(n + 3) div 4 * 4 = n + (4 - n mod 4) mod (4 :: nat)"
proof -
  have "(n + 3) div 4 * 4 = n" if "n mod 4 = 0" using that by presburger
  moreover have "(n + 3) div 4 * 4 = n + 3" if "n mod 4 = 1" using that by presburger
  moreover have "(n + 3) div 4 * 4 = n + 2" if "n mod 4 = 2" using that by presburger
  moreover have "(n + 3) div 4 * 4 = n + 1" if "n mod 4 = 3" using that by presburger
  ultimately show ?thesis using mod4_cases [of n] by auto
qed

lemma next_record_at:
  assumes c: "capture_well_formed c" and fits: "length buffer \<le> usize_max"
    and buffer: "buffer = pre @ capture_record c @ rest"
  shows "next_bpf_record buffer (length pre) =
    Some (length pre + (18 + length (bc_gap c)),
      length pre + (18 + length (bc_gap c)) + length (bc_frame c),
      length pre + length (capture_record c))"
proof -
  define cap :: u32 where "cap = word_of_nat (length (bc_frame c))"
  define head :: u16 where "head = word_of_nat (18 + length (bc_gap c))"
  let ?pad = "replicate ((4 - (18 + length (bc_gap c) + length (bc_frame c)) mod 4) mod 4) (0 :: u8)"
  have stamp: "length (bc_timestamp c) = 8" using c by (simp add: capture_well_formed_def)
  have lengths: "unat cap = length (bc_frame c)" "unat head = 18 + length (bc_gap c)"
    using c by (simp_all only: cap_def head_def unat_word_of_nat_small capture_well_formed_def mod_less)
  have total: "length (capture_record c) = 18 + length (bc_gap c) + length (bc_frame c) + length ?pad"
    using stamp by (simp add: capture_record_def)
  have 1: "slice_get (length pre + 8) (length pre + 8 + 4) buffer = Some (u32_to_ne cap)"
    by (rule slice_get_middle [where a = "pre @ bc_timestamp c"])
      (simp_all add: buffer capture_record_def cap_def head_def stamp)
  have 2: "slice_get (length pre + 16) (length pre + 16 + 2) buffer = Some (u16_to_ne head)"
    by (rule slice_get_middle [where a = "pre @ bc_timestamp c @ u32_to_ne cap
          @ u32_to_ne (bc_data_length c)"])
      (simp_all add: buffer capture_record_def cap_def head_def stamp)
  have small: "18 + length (bc_gap c) + length (bc_frame c) + 3 \<le> usize_max"
    using record_length_fits [of head cap] lengths by simp
  have align: "bpf_word_align (18 + length (bc_gap c) + length (bc_frame c)) = length (capture_record c)"
    by (simp only: bpf_word_align_eq [OF small] padded_length total length_replicate)
  have within: "length pre + length (capture_record c) \<le> length buffer" by (simp add: buffer)
  show ?thesis
    using 1 2 fits within total
    by (simp add: next_bpf_record_def checked_add_def bpf_capture_length_offset_def
        bpf_header_length_offset_def lengths align Let_def)
qed

lemma bpf_frames_from:
  assumes "\<forall>c\<in>set cs. capture_well_formed c"
    and "buffer = pre @ concat (map capture_record cs)" and "length buffer \<le> usize_max"
  shows "bpf_frames buffer (length pre) = map bc_frame cs"
  using assms
proof (induction cs arbitrary: pre)
  case Nil
  then show ?case by (simp add: bpf_frames.simps)
next
  case (Cons c cs)
  let ?s = "length pre + (18 + length (bc_gap c))"
  let ?tail = "concat (map capture_record cs)"
  have c: "capture_well_formed c" using Cons.prems(1) by simp
  then have stamp: "length (bc_timestamp c) = 8" by (simp add: capture_well_formed_def)
  have buffer: "buffer = pre @ capture_record c @ ?tail" using Cons.prems(2) by simp
  note found = next_record_at [OF c Cons.prems(3) buffer]
  have "take (length (bc_frame c)) (drop ?s buffer) = bc_frame c"
    by (simp add: buffer capture_record_def stamp)
  moreover have "bpf_frames buffer (length (pre @ capture_record c)) = map bc_frame cs"
    using Cons.IH [of "pre @ capture_record c"] Cons.prems buffer by simp
  moreover have "length pre < length buffer" "length (pre @ capture_record c) \<le> length buffer"
    by (simp_all add: buffer capture_record_def stamp)
  ultimately show ?case using found by (simp add: bpf_frames.simps [of buffer "length pre"])
qed

text \<open>The record of the source's tests: \<^verbatim>\<open>build_bpf_record\<close>, with its loop that pads.\<close>

function pad_record :: "u8 list \<Rightarrow> u8 list" where
  "pad_record r = (if length r mod bpf_record_alignment = 0 then r else pad_record (r @ [0]))"
  by pat_completeness auto
termination
  by (relation "measure (\<lambda>r. (4 - length r mod 4) mod 4)")
    (simp_all add: bpf_record_alignment_def pad_less)

declare pad_record.simps [simp del]

definition build_bpf_record :: "u8 list \<Rightarrow> u8 list" where
  "build_bpf_record frame =
     (let header_length = bpf_word_align (bpf_header_length_offset + 2);
          capture_length = word_of_nat (length frame);
          r = write_slice bpf_capture_length_offset (u32_to_ne capture_length) (replicate header_length 0);
          r = write_slice bpf_data_length_offset (u32_to_ne capture_length) r;
          r = write_slice bpf_header_length_offset (u16_to_ne (word_of_nat header_length)) r in
      pad_record (r @ frame))"

lemma pad_record_eq: "pad_record r = r @ replicate ((4 - length r mod 4) mod 4) 0"
proof (induction r rule: pad_record.induct)
  case (1 r)
  show ?case
  proof (cases "length r mod 4 = 0")
    case False
    then show ?thesis
      using 1 False pad_step [of "length r"]
      by (subst pad_record.simps) (simp add: bpf_record_alignment_def)
  qed (simp add: pad_record.simps bpf_record_alignment_def)
qed

lemma write_slice_middle:
  "xs = a @ b @ c \<Longrightarrow> length a = m \<Longrightarrow> length b = length ys \<Longrightarrow> write_slice m ys xs = a @ ys @ c"
  by (simp add: write_slice_def)

lemma build_bpf_record_eq:
  "build_bpf_record frame = capture_record \<lparr>bc_timestamp = replicate 8 0,
     bc_data_length = word_of_nat (length frame), bc_gap = [0, 0], bc_frame = frame\<rparr>"
proof -
  let ?c = "u32_to_ne (word_of_nat (length frame))" and ?h = "u16_to_ne (word_of_nat 20)"
  have head: "bpf_word_align 18 = 20" by (simp add: bpf_word_align_eq usize_max_def u64_max_def)
  have zeros: "replicate 20 (0 :: u8) =
      replicate 8 0 @ replicate 4 0 @ replicate 4 0 @ replicate 2 0 @ [0, 0]"
    by (simp add: numeral_eq_Suc)
  have 1: "write_slice 8 ?c (replicate 20 0) =
      replicate 8 0 @ ?c @ replicate 4 0 @ replicate 2 0 @ [0, 0]"
    by (rule write_slice_middle [OF zeros]) simp_all
  have 2: "write_slice 12 ?c (replicate 8 0 @ ?c @ replicate 4 0 @ replicate 2 0 @ [0, 0]) =
      (replicate 8 0 @ ?c) @ ?c @ replicate 2 0 @ [0, 0]"
    by (rule write_slice_middle [where b = "replicate 4 0"]) simp_all
  have 3: "write_slice 16 ?h ((replicate 8 0 @ ?c) @ ?c @ replicate 2 0 @ [0, 0]) =
      (replicate 8 0 @ ?c @ ?c) @ ?h @ [0, 0]"
    by (rule write_slice_middle [where b = "replicate 2 0"]) simp_all
  show ?thesis
    unfolding build_bpf_record_def Let_def bpf_header_length_offset_def
      bpf_capture_length_offset_def bpf_data_length_offset_def
    by (simp add: head 1 2 [simplified] 3 [simplified] pad_record_eq capture_record_def)
qed

section \<open>Receiving\<close>

definition bpf_endpoint_valid :: "macos_bpf_endpoint \<Rightarrow> bool" where
  "bpf_endpoint_valid e \<longleftrightarrow>
     mbe_parse_cursor e \<le> mbe_filled_length e \<and> mbe_filled_length e \<le> length (mbe_read_buffer e)"

definition buffered_frames :: "macos_bpf_endpoint \<Rightarrow> u8 list list" where
  "buffered_frames e = bpf_frames (take (mbe_filled_length e) (mbe_read_buffer e)) (mbe_parse_cursor e)"

text \<open>What an endpoint keeps while it receives.\<close>

definition same_device :: "macos_bpf_endpoint \<Rightarrow> macos_bpf_endpoint \<Rightarrow> bool" where
  "same_device e e' \<longleftrightarrow> bpf_endpoint_valid e' \<and> mbe_bpf_device e' = mbe_bpf_device e
     \<and> length (mbe_read_buffer e') = length (mbe_read_buffer e)"

lemma same_device_trans: "same_device e e1 \<Longrightarrow> same_device e1 e2 \<Longrightarrow> same_device e e2"
  by (simp add: same_device_def)

lemma take_buffered_frame_result:
  assumes "bpf_endpoint_valid e"
  shows "\<exists>e'. same_device e e' \<and> (case buffered_frames e of
      [] \<Rightarrow> take_buffered_frame buf e = (Inr None, buf, e') \<and> buffered_frames e' = []
    | f # fs \<Rightarrow> take_buffered_frame buf e =
        (Inr (Some (min (length f) (length buf))), write_slice 0 (take (length buf) f) buf, e')
        \<and> buffered_frames e' = fs)"
proof -
  let ?filled = "take (mbe_filled_length e) (mbe_read_buffer e)"
  have valid: "mbe_filled_length e \<le> length (mbe_read_buffer e)"
      "mbe_parse_cursor e \<le> mbe_filled_length e"
    using assms by (simp_all add: bpf_endpoint_valid_def)
  have prefix: "slice_get 0 (mbe_filled_length e) (mbe_read_buffer e) = Some ?filled"
    using valid by (simp add: slice_get_def)
  consider "\<not> mbe_parse_cursor e < mbe_filled_length e"
    | "mbe_parse_cursor e < mbe_filled_length e" "next_bpf_record ?filled (mbe_parse_cursor e) = None"
    | s t n where "mbe_parse_cursor e < mbe_filled_length e"
        "next_bpf_record ?filled (mbe_parse_cursor e) = Some (s, t, n)"
    by (metis option.exhaust prod_cases3)
  then show ?thesis
  proof cases
    case 1
    then show ?thesis
      using valid by (intro exI [of _ e])
        (simp add: same_device_def bpf_endpoint_valid_def buffered_frames_def bpf_frames.simps
          take_buffered_frame_def)
  next
    case 2
    then show ?thesis
      using valid prefix by (intro exI [of _ "e\<lparr>mbe_parse_cursor := mbe_filled_length e\<rparr>"])
        (simp add: same_device_def bpf_endpoint_valid_def buffered_frames_def bpf_frames.simps
          take_buffered_frame_def)
  next
    case 3
    let ?frame = "take (t - s) (drop s ?filled)" and ?copy = "min (t - s) (length buf)"
    note b = next_bpf_record_Some [OF 3(2)]
    have len: "length ?frame = t - s"
      using b(2,3) by (simp only: length_take [of "t - s"] length_drop)
    have last: "t \<le> mbe_filled_length e" using b(3) by simp
    then have frame: "?frame = take (t - s) (drop s (mbe_read_buffer e))"
      by (simp add: drop_take min_absorb1 diff_le_mono)
    have "s + ?copy \<le> length (mbe_read_buffer e)" using b(2) last valid by linarith
    then have "slice_get s (s + ?copy) (mbe_read_buffer e) = Some (take (length buf) ?frame)"
      unfolding frame by (simp add: slice_get_def min.commute)
    then have "take_buffered_frame buf e = (Inr (Some ?copy), write_slice 0 (take (length buf) ?frame) buf,
        e\<lparr>mbe_parse_cursor := min n (mbe_filled_length e)\<rparr>)"
      using 3 prefix by (simp add: take_buffered_frame_def Let_def)
    moreover have "buffered_frames e =
        ?frame # buffered_frames (e\<lparr>mbe_parse_cursor := min n (mbe_filled_length e)\<rparr>)"
      using 3 valid by (simp add: buffered_frames_def bpf_frames.simps [of _ "mbe_parse_cursor e"])
    ultimately show ?thesis
      using valid len by (intro exI [of _ "e\<lparr>mbe_parse_cursor := min n (mbe_filled_length e)\<rparr>"])
        (simp add: same_device_def bpf_endpoint_valid_def)
  qed
qed

text \<open>
  \<^verbatim>\<open>read\<close> on a device in non-blocking mode with a buffer of its length, as \<^verbatim>\<open>bpf(4)\<close> documents it: a
  call that a signal interrupts reports \<^verbatim>\<open>EINTR\<close>; otherwise the call returns the octets of the
  oldest buffer of records, or reports \<^verbatim>\<open>EAGAIN\<close> when there is none.
\<close>

definition bpf_read_documented ::
    "'w macos_kernel \<Rightarrow> nat \<Rightarrow> nat \<Rightarrow> ('w \<Rightarrow> u8 list list) \<Rightarrow> ('w \<Rightarrow> nat) \<Rightarrow> bool" where
  "bpf_read_documented k device n buffers signals \<longleftrightarrow>
     (\<forall>w. \<exists>r w'. mk_read k device n w = (r, w')
       \<and> (if 0 < signals w
          then (\<exists>e. r = Inl e \<and> io_kind e = Interrupted \<and> io_errno e = Some 4)
               \<and> signals w' < signals w \<and> buffers w' = buffers w
          else signals w' = 0 \<and> (case buffers w of
            [] \<Rightarrow> (\<exists>e. r = Inl e \<and> io_errno e = Some macos_eagain) \<and> buffers w' = []
          | b # bs \<Rightarrow> r = Inr b \<and> b \<noteq> [] \<and> length b \<le> n \<and> buffers w' = bs)))"

definition bpf_pending :: "('w \<Rightarrow> u8 list list) \<Rightarrow> 'w \<times> macos_bpf_endpoint \<Rightarrow> u8 list list" where
  "bpf_pending buffers = (\<lambda>(w, e).
     buffered_frames e @ concat (map (\<lambda>b. bpf_frames b 0) (buffers w)))"

definition refilled :: "u8 list \<Rightarrow> macos_bpf_endpoint \<Rightarrow> macos_bpf_endpoint" where
  "refilled b e = e\<lparr>mbe_read_buffer := write_slice 0 b (mbe_read_buffer e),
     mbe_filled_length := length b, mbe_parse_cursor := 0\<rparr>"

lemma refilled:
  assumes "length b \<le> length (mbe_read_buffer e)"
  shows "same_device e (refilled b e)" "buffered_frames (refilled b e) = bpf_frames b 0"
  using assms
  by (simp_all add: refilled_def same_device_def bpf_endpoint_valid_def buffered_frames_def write_slice_def)

lemma macos_receive_step:
  assumes "take_buffered_frame buf e = (Inr None, buf, e')"
  shows "macos_receive (Suc fuel) k buf (w, e) =
     (case mk_read k (mbe_bpf_device e') (length (mbe_read_buffer e')) w of
        (Inr received, w) \<Rightarrow> if received = [] then (Inr None, buf, w, e')
          else macos_receive fuel k buf (w, refilled received e')
      | (Inl source, w) \<Rightarrow>
          if io_errno source = Some macos_eagain \<or> io_errno source = Some macos_ewouldblock
          then (Inr None, buf, w, e')
          else if io_kind source = Interrupted then macos_receive fuel k buf (w, e')
          else (Inl (Failed (RawPacketReceiveFailed source)), buf, w, e'))"
  by (simp only: macos_receive.simps assms sum.case prod.case option.case refilled_def)

declare macos_receive.simps(2) [simp del]

definition receives_next ::
    "('w \<Rightarrow> u8 list list) \<Rightarrow> nat \<Rightarrow> 'w macos_kernel \<Rightarrow> u8 list \<Rightarrow> 'w \<times> macos_bpf_endpoint
     \<Rightarrow> 'w \<times> macos_bpf_endpoint \<Rightarrow> bool" where
  "receives_next buffers fuel k buf x x' \<longleftrightarrow> (case bpf_pending buffers x of
      [] \<Rightarrow> macos_receive fuel k buf x = (Inr None, buf, x') \<and> bpf_pending buffers x' = []
    | f # fs \<Rightarrow> macos_receive fuel k buf x =
        (Inr (Some (min (length f) (length buf))), write_slice 0 (take (length buf) f) buf, x')
        \<and> bpf_pending buffers x' = fs)"

section \<open>The next frame\<close>

lemma receives_next_step:
  assumes "receives_next buffers fuel k buf x1 x'"
    and "macos_receive (Suc fuel) k buf x = macos_receive fuel k buf x1"
    and "bpf_pending buffers x = bpf_pending buffers x1"
  shows "receives_next buffers (Suc fuel) k buf x x'"
  using assms by (simp add: receives_next_def split: list.splits)

lemma receives_next_via:
  assumes "\<exists>w' e'. same_device e1 e' \<and> signals w' + length (buffers w') \<le> signals w1 + length (buffers w1)
      \<and> receives_next buffers fuel k buf (w1, e1) (w', e')"
    and "macos_receive (Suc fuel) k buf (w, e) = macos_receive fuel k buf (w1, e1)"
    and "bpf_pending buffers (w, e) = bpf_pending buffers (w1, e1)"
    and "signals w1 + length (buffers w1) < signals w + length (buffers w)" and "same_device e e1"
  shows "\<exists>w' e'. same_device e e' \<and> signals w' + length (buffers w') \<le> signals w + length (buffers w)
    \<and> receives_next buffers (Suc fuel) k buf (w, e) (w', e')"
proof -
  obtain w' e' where next1: "same_device e1 e'"
    "signals w' + length (buffers w') \<le> signals w1 + length (buffers w1)"
    "receives_next buffers fuel k buf (w1, e1) (w', e')"
    using assms(1) by blast
  show ?thesis
    using same_device_trans [OF assms(5) next1(1)] receives_next_step [OF next1(3) assms(2,3)]
      next1(2) assms(4)
    by (intro exI [of _ w'] exI [of _ e']) simp
qed

lemma macos_receive_next:
  assumes "bpf_read_documented k (mbe_bpf_device e) (length (mbe_read_buffer e)) buffers signals"
    and "bpf_endpoint_valid e" and "signals w + length (buffers w) < fuel"
  shows "\<exists>w' e'. same_device e e' \<and> signals w' + length (buffers w') \<le> signals w + length (buffers w)
    \<and> receives_next buffers fuel k buf (w, e) (w', e')"
  using assms
proof (induction fuel arbitrary: w e)
  case (Suc fuel)
  obtain e1 where same: "same_device e e1" and e1: "case buffered_frames e of
      [] \<Rightarrow> take_buffered_frame buf e = (Inr None, buf, e1) \<and> buffered_frames e1 = []
    | f # fs \<Rightarrow> take_buffered_frame buf e =
        (Inr (Some (min (length f) (length buf))), write_slice 0 (take (length buf) f) buf, e1)
        \<and> buffered_frames e1 = fs"
    using take_buffered_frame_result [OF Suc.prems(2)] by blast
  show ?case
  proof (cases "buffered_frames e")
    case (Cons f fs)
    then show ?thesis
      using same e1 by (intro exI [of _ w] exI [of _ e1]) (simp add: receives_next_def bpf_pending_def macos_receive.simps(2))
  next
    case Nil
    then have take: "take_buffered_frame buf e = (Inr None, buf, e1)" and none: "buffered_frames e1 = []"
      using e1 by simp_all
    note step = macos_receive_step [OF take, of fuel k w]
    have doc: "bpf_read_documented k (mbe_bpf_device e1) (length (mbe_read_buffer e1)) buffers signals"
      and valid: "bpf_endpoint_valid e1"
      using Suc.prems(1) same by (simp_all add: same_device_def)
    obtain r w1 where run: "mk_read k (mbe_bpf_device e1) (length (mbe_read_buffer e1)) w = (r, w1)"
      and law: "if 0 < signals w
        then (\<exists>x. r = Inl x \<and> io_kind x = Interrupted \<and> io_errno x = Some 4)
             \<and> signals w1 < signals w \<and> buffers w1 = buffers w
        else signals w1 = 0 \<and> (case buffers w of
          [] \<Rightarrow> (\<exists>x. r = Inl x \<and> io_errno x = Some macos_eagain) \<and> buffers w1 = []
        | b # bs \<Rightarrow> r = Inr b \<and> b \<noteq> [] \<and> length b \<le> length (mbe_read_buffer e1) \<and> buffers w1 = bs)"
      using doc unfolding bpf_read_documented_def by blast
    consider (signal) "0 < signals w" | (empty) "signals w = 0" "buffers w = []"
      | (some) b bs where "signals w = 0" "buffers w = b # bs" by (cases "buffers w") auto
    then show ?thesis
    proof cases
      case signal
      then have "macos_receive (Suc fuel) k buf (w, e) = macos_receive fuel k buf (w1, e1)"
        using step run law by (auto simp: macos_eagain_def macos_ewouldblock_def)
      moreover have "bpf_pending buffers (w, e) = bpf_pending buffers (w1, e1)"
        using Nil none signal law by (simp add: bpf_pending_def)
      moreover have "signals w1 + length (buffers w1) < signals w + length (buffers w)"
        using signal law by simp
      ultimately show ?thesis
        using Suc.prems(3) by (intro receives_next_via [OF Suc.IH [OF doc valid]] same) simp_all
    next
      case empty
      then have "macos_receive (Suc fuel) k buf (w, e) = (Inr None, buf, w1, e1)"
        using step run law by auto
      then show ?thesis
        using same Nil none empty law by (intro exI [of _ w1] exI [of _ e1])
          (simp add: receives_next_def bpf_pending_def)
    next
      case some
      have len: "length b \<le> length (mbe_read_buffer e1)" using law some by simp
      note fresh = refilled [OF len]
      have doc': "bpf_read_documented k (mbe_bpf_device (refilled b e1))
          (length (mbe_read_buffer (refilled b e1))) buffers signals"
        using doc fresh(1) by (simp add: same_device_def)
      have "macos_receive (Suc fuel) k buf (w, e) = macos_receive fuel k buf (w1, refilled b e1)"
        using step run law some by simp
      moreover have "bpf_pending buffers (w, e) = bpf_pending buffers (w1, refilled b e1)"
        using Nil some law fresh(2) by (simp add: bpf_pending_def)
      moreover have "signals w1 + length (buffers w1) < signals w + length (buffers w)"
        using some law by simp
      moreover have "bpf_endpoint_valid (refilled b e1)" using fresh(1) by (simp add: same_device_def)
      ultimately show ?thesis
        using Suc.prems(3)
        by (intro receives_next_via [OF Suc.IH [OF doc']] same_device_trans [OF same fresh(1)]) simp_all
    qed
  qed
qed simp

section \<open>Opening\<close>

lemma try_bpf_devices_skips_busy:
  assumes "\<And>m w. m \<in> set busy \<Longrightarrow> \<exists>e w'. mk_open_read_write k (''/dev/bpf'' @ show_nat m) w = (Inl e, w')
      \<and> io_errno e = Some macos_ebusy"
  shows "\<exists>e w'. try_bpf_devices k (busy @ minors) last_error w = try_bpf_devices k minors e w'"
  using assms
proof (induction busy arbitrary: last_error w)
  case (Cons m busy)
  obtain e w' where "mk_open_read_write k (''/dev/bpf'' @ show_nat m) w = (Inl e, w')"
    "io_errno e = Some macos_ebusy"
    using Cons.prems [of m w] by auto
  then have "try_bpf_devices k ((m # busy) @ minors) last_error w = try_bpf_devices k (busy @ minors) e w'"
    by simp
  then show ?case using Cons.IH [of e w'] Cons.prems by auto
qed auto

text \<open>The errors that opening can report.\<close>

lemma op_then_error: "fst (op_then m f w) = Inl e \<Longrightarrow>
    fst (m w) = Inl e \<or> (\<exists>x w1. m w = (Inr x, w1) \<and> fst (f x w1) = Inl e)"
  by (auto simp: op_then_def split: prod.splits sum.splits)

lemma op_map_err_error: "fst (op_map_err g m w) = Inl e \<Longrightarrow> \<exists>x. fst (m w) = Inl x \<and> e = g x"
  by (cases "m w"; cases "fst (m w)") (auto simp: op_map_err_def)

definition bpf_open_error :: "app_error \<Rightarrow> bool" where
  "bpf_open_error e \<longleftrightarrow> (case e of BpfDeviceAccessRequired source \<Rightarrow> io_kind source = PermissionDenied
     | RawSocketOpenFailed _ \<Rightarrow> True | SocketBindFailed _ \<Rightarrow> True
     | InvalidInterfaceName _ \<Rightarrow> True | _ \<Rightarrow> False)"

lemma open_macos_errors:
  assumes "fst (open_macos_link_layer_endpoint k name w) = Inl e"
  shows "bpf_open_error e"
  using assms unfolding open_macos_link_layer_endpoint_def
  by (fastforce dest!: op_then_error op_map_err_error
      simp: bpf_open_error_def op_lift_def op_return_def copy_interface_name_to_ifreq_def
      split: if_splits)

lemma open_macos_valid:
  "open_macos_link_layer_endpoint k name w = (Inr e, w') \<Longrightarrow> bpf_endpoint_valid e \<and> buffered_frames e = []"
  by (auto simp: open_macos_link_layer_endpoint_def op_then_eq_Ok op_return_def bpf_endpoint_valid_def
      buffered_frames_def bpf_frames.simps)

section \<open>Properties\<close>


definition example_captures :: "bpf_capture list" where
  "example_captures =
     [\<lparr>bc_timestamp = replicate 8 7, bc_data_length = 3, bc_gap = [0, 0], bc_frame = [1, 2, 3]\<rparr>,
      \<lparr>bc_timestamp = replicate 8 9, bc_data_length = 60, bc_gap = [], bc_frame = [4, 5]\<rparr>]"

lemma example_captures:
  "\<forall>c\<in>set example_captures. capture_well_formed c"
  "length (concat (map capture_record example_captures)) = 44"
  "map bc_frame example_captures = [[1, 2, 3], [4, 5]]"
  by (simp_all add: example_captures_def capture_well_formed_def capture_record_def)


text \<open>
  C8: \<^verbatim>\<open>try_receive_ethernet_frame\<close> hands over one captured frame at a time. The pending frames are
  those left in the endpoint's buffer and then those of the kernel's buffers; a call returns the first,
  cut to the caller's buffer, and leaves the others pending, and reports nothing only when none is
  left. It repeats interrupted reads and skips buffers without a complete record, never panics, and
  keeps the cursor within the filled part of the buffer. The fuel bounds the reads of one call.
\<close>

theorem bpf_receive_next_frame:
  assumes "bpf_read_documented k (mbe_bpf_device e) (length (mbe_read_buffer e)) buffers signals"
    and "bpf_endpoint_valid e" and "signals w + length (buffers w) < fuel"
  shows "\<exists>w' e'. bpf_endpoint_valid e' \<and> mbe_bpf_device e' = mbe_bpf_device e
    \<and> signals w' + length (buffers w') \<le> signals w + length (buffers w)
    \<and> (case bpf_pending buffers (w, e) of
        [] \<Rightarrow> ep_receive (macos_endpoint fuel k) buf (w, e) = (Inr None, buf, w', e')
              \<and> bpf_pending buffers (w', e') = []
      | f # fs \<Rightarrow> ep_receive (macos_endpoint fuel k) buf (w, e) =
          (Inr (Some (min (length f) (length buf))), write_slice 0 (take (length buf) f) buf, w', e')
          \<and> bpf_pending buffers (w', e') = fs)"
proof -
  have ep: "ep_receive (macos_endpoint fuel k) = macos_receive fuel k" by (simp add: macos_endpoint_def)
  obtain w' e' where "same_device e e'"
    "signals w' + length (buffers w') \<le> signals w + length (buffers w)"
    "receives_next buffers fuel k buf (w, e) (w', e')"
    using macos_receive_next [OF assms, of buf] by blast
  then show ?thesis
    unfolding same_device_def receives_next_def ep by (intro exI [of _ w'] exI [of _ e']) simp
qed

text \<open>A device whose world is the buffers still to be read and the signals still to arrive.\<close>

definition example_bpf_kernel :: "(u8 list list \<times> nat) macos_kernel" where
  "example_bpf_kernel =
     \<lparr>mk_getifaddrs = op_return [], mk_if_nametoindex = (\<lambda>_. op_return 1),
      mk_open_read_write = (\<lambda>_. op_return 3), mk_ioctl_interface = (\<lambda>_ _ _. op_return ()),
      mk_ioctl_filter = (\<lambda>_ _ _. op_return ()), mk_ioctl_set_unsigned = (\<lambda>_ _ _. op_return ()),
      mk_ioctl_get_unsigned = (\<lambda>_ _. op_return 64), mk_fcntl_get_flags = (\<lambda>_. op_return 2),
      mk_fcntl_set_flags = (\<lambda>_ _. op_return ()), mk_write = (\<lambda>_ frame. op_return (length frame)),
      mk_read = (\<lambda>_ n (bs, s). case s of
          Suc s \<Rightarrow> (Inl \<lparr>io_kind = Interrupted, io_errno = Some 4, io_text = ''''\<rparr>, bs, s)
        | 0 \<Rightarrow> (case filter (\<lambda>b. b \<noteq> [] \<and> length b \<le> n) bs of
              [] \<Rightarrow> (Inl \<lparr>io_kind = WouldBlock, io_errno = Some macos_eagain, io_text = ''''\<rparr>, [], 0)
            | b # bs \<Rightarrow> (Inr b, bs, 0))),
      mk_poll = (\<lambda>_ _. op_return 1)\<rparr>"

lemma example_bpf_kernel_documented:
  "bpf_read_documented example_bpf_kernel d n (\<lambda>(bs, s). filter (\<lambda>b. b \<noteq> [] \<and> length b \<le> n) bs) snd"
  unfolding bpf_read_documented_def
proof (intro allI)
  fix w :: "u8 list list \<times> nat"
  obtain bs s where w: "w = (bs, s)" by (cases w)
  have idem: "P y \<and> filter P ys = ys" if "filter P xs = y # ys" for P and y :: "u8 list" and xs ys
    using filter_eq_ConsD [OF that] by auto
  show "\<exists>r w'. mk_read example_bpf_kernel d n w = (r, w')
      \<and> (if 0 < snd w
         then (\<exists>e. r = Inl e \<and> io_kind e = Interrupted \<and> io_errno e = Some 4) \<and> snd w' < snd w
           \<and> (case w' of (bs, s) \<Rightarrow> filter (\<lambda>b. b \<noteq> [] \<and> length b \<le> n) bs)
             = (case w of (bs, s) \<Rightarrow> filter (\<lambda>b. b \<noteq> [] \<and> length b \<le> n) bs)
         else snd w' = 0 \<and> (case case w of (bs, s) \<Rightarrow> filter (\<lambda>b. b \<noteq> [] \<and> length b \<le> n) bs of
             [] \<Rightarrow> (\<exists>e. r = Inl e \<and> io_errno e = Some macos_eagain)
               \<and> (case w' of (bs, s) \<Rightarrow> filter (\<lambda>b. b \<noteq> [] \<and> length b \<le> n) bs) = []
           | b # bs' \<Rightarrow> r = Inr b \<and> b \<noteq> [] \<and> length b \<le> n
               \<and> (case w' of (bs, s) \<Rightarrow> filter (\<lambda>b. b \<noteq> [] \<and> length b \<le> n) bs) = bs'))"
    by (cases s) (auto simp: w example_bpf_kernel_def split: list.split dest: idem)
qed

definition example_readable :: "u8 list list \<times> nat \<Rightarrow> u8 list list" where
  "example_readable = (\<lambda>(bs, s). filter (\<lambda>b. b \<noteq> [] \<and> length b \<le> 64) bs)"

definition example_bpf_endpoint :: macos_bpf_endpoint where
  "example_bpf_endpoint = \<lparr>mbe_bpf_device = 3, mbe_read_buffer = replicate 64 0,
     mbe_filled_length = 0, mbe_parse_cursor = 0\<rparr>"

theorem bpf_receive_next_frame_witness:
  "\<exists>w' e'. ep_receive (macos_endpoint 4 example_bpf_kernel) [0, 0, 0, 0]
        (([concat (map capture_record example_captures)], 1), example_bpf_endpoint) =
      (Inr (Some 3), [1, 2, 3, 0], w', e') \<and> bpf_pending example_readable (w', e') = [[4, 5]]"
proof -
  let ?buffer = "concat (map capture_record example_captures)"
  have nonempty: "?buffer \<noteq> []" by (metis example_captures(2) list.size(3) zero_neq_numeral)
  have live: "example_readable ([?buffer], s) = [?buffer]" for s
    using example_captures(2) nonempty
    by (simp add: example_readable_def del: length_concat concat_eq_Nil_conv)
  have frames: "bpf_frames ?buffer 0 = [[1, 2, 3], [4, 5]]"
    using bpf_frames_from [OF example_captures(1), of _ "[]"]
    by (simp add: example_captures(2,3) usize_max_def u64_max_def)
  have pending: "bpf_pending example_readable (([?buffer], 1), example_bpf_endpoint) = [[1, 2, 3], [4, 5]]"
    by (simp add: bpf_pending_def live frames buffered_frames_def example_bpf_endpoint_def bpf_frames.simps [of "[]"])
  have doc: "bpf_read_documented example_bpf_kernel (mbe_bpf_device example_bpf_endpoint) (length (mbe_read_buffer example_bpf_endpoint))
      example_readable snd"
    using example_bpf_kernel_documented [of "mbe_bpf_device example_bpf_endpoint" 64] by (simp add: example_readable_def example_bpf_endpoint_def)
  have "bpf_endpoint_valid example_bpf_endpoint" "snd ([?buffer], 1 :: nat) + length (example_readable ([?buffer], 1)) < 4"
    by (simp_all add: bpf_endpoint_valid_def example_bpf_endpoint_def live)
  from bpf_receive_next_frame [OF doc this, of "[0, 0, 0, 0]"] show ?thesis
    unfolding pending by (auto simp: write_slice_def simp del: One_nat_def)
qed

end
