(* ===== verification/Macos_Discovery.thy ===== *)
theory Macos_Discovery
  imports Bpf_Endpoint Linux_Discovery
begin

text \<open>
  \<^verbatim>\<open>src/macos_interface_discovery.rs\<close>, \<^verbatim>\<open>src/macos_packet.rs\<close> and the lowering of \<^verbatim>\<open>getifaddrs\<close> in
  \<^verbatim>\<open>src/macos_system_call.rs\<close>: the records of the interfaces, the folding of the records of a name,
  the rules of usability and the choice of an interface. A \<^verbatim>\<open>sockaddr\<close> is its octets, in the layout of
  the BSD structures: length, family, data.
\<close>

section \<open>Records\<close>

datatype interface_address_payload =
    Ipv4Payload ipv4 "ipv4 option"
  | LinkLayerPayload u8 "u8 list option"

record interface_address_record =
  iar_interface_name :: string
  iar_interface_flags :: "32 word"
  iar_payload :: interface_address_payload

definition macos_af_inet :: nat where "macos_af_inet = 2"
definition macos_af_link :: nat where "macos_af_link = 18"

definition macos_sa_family :: "u8 list \<Rightarrow> nat" where
  "macos_sa_family sockaddr = unat (sockaddr ! 1)"

definition macos_read_ipv4_from_sockaddr :: "u8 list \<Rightarrow> ipv4 option" where
  "macos_read_ipv4_from_sockaddr sockaddr =
     (if macos_sa_family sockaddr \<noteq> macos_af_inet then None
      else Some (ipv4_new (sockaddr ! 4) (sockaddr ! 5) (sockaddr ! 6) (sockaddr ! 7)))"

text \<open>\<^verbatim>\<open>sdl_type\<close>, \<^verbatim>\<open>sdl_nlen\<close> and \<^verbatim>\<open>sdl_alen\<close> are at 4, 5 and 6, and \<^verbatim>\<open>sdl_data\<close> starts at 8.\<close>

definition read_link_layer_address_from_sockaddr_dl :: "u8 list \<Rightarrow> u8 \<times> u8 list option" where
  "read_link_layer_address_from_sockaddr_dl sockaddr =
     (let interface_type = sockaddr ! 4; name_length = unat (sockaddr ! 5);
          address_length = unat (sockaddr ! 6) in
      if address_length \<noteq> 6 then (interface_type, None)
      else (interface_type, Some (take 6 (drop (8 + name_length) sockaddr))))"

definition address_payload :: "interface_address_node \<Rightarrow> u8 list \<Rightarrow> interface_address_payload option" where
  "address_payload node address =
     (if macos_sa_family address = macos_af_inet
      then
        Option.bind (macos_read_ipv4_from_sockaddr address) (\<lambda>ipv4_address.
        Some (Ipv4Payload ipv4_address
          (case ifa_netmask node of None \<Rightarrow> None | Some m \<Rightarrow> macos_read_ipv4_from_sockaddr m)))
      else if macos_sa_family address = macos_af_link
      then (case read_link_layer_address_from_sockaddr_dl address of
              (interface_type, hardware_address) \<Rightarrow> Some (LinkLayerPayload interface_type hardware_address))
      else None)"

definition build_interface_address_record :: "interface_address_node \<Rightarrow> interface_address_record option" where
  "build_interface_address_record node =
     Option.bind (ifa_name node) (\<lambda>name.
     if \<not> utf8_valid name then None
     else
       Option.bind (ifa_addr node) (\<lambda>address.
       Option.bind (address_payload node address) (\<lambda>payload.
       Some \<lparr>iar_interface_name = name, iar_interface_flags = ifa_flags node, iar_payload = payload\<rparr>)))"

definition collect_interface_address_records ::
    "'w macos_kernel \<Rightarrow> ('w, io_error, interface_address_record list) op" where
  "collect_interface_address_records k =
     op_then (mk_getifaddrs k) (\<lambda>nodes. op_return (List.map_filter build_interface_address_record nodes))"

section \<open>Usability\<close>

definition macos_flag_up :: "32 word" where "macos_flag_up = 0x1"
definition macos_flag_loopback :: "32 word" where "macos_flag_loopback = 0x8"
definition macos_flag_no_arp :: "32 word" where "macos_flag_no_arp = 0x80"
definition interface_type_ethernet :: u8 where "interface_type_ethernet = 0x06"

definition macos_flags_allow_arp_scanning :: "32 word \<Rightarrow> bool" where
  "macos_flags_allow_arp_scanning flags \<longleftrightarrow>
     and flags macos_flag_loopback = 0 \<and> and flags macos_flag_no_arp = 0 \<and> and flags macos_flag_up \<noteq> 0"

record interface_accumulator =
  acc_interface_flags :: "32 word"
  acc_source_ipv4_address :: "ipv4 option"
  acc_ipv4_netmask :: "ipv4 option"
  acc_ipv4_addresses :: "ipv4 list"
  acc_link_layer :: "(u8 \<times> u8 list) option"

definition default_accumulator :: interface_accumulator where
  "default_accumulator = \<lparr>acc_interface_flags = 0, acc_source_ipv4_address = None,
     acc_ipv4_netmask = None, acc_ipv4_addresses = [], acc_link_layer = None\<rparr>"

definition accumulate_record :: "interface_address_record \<Rightarrow> interface_accumulator \<Rightarrow> interface_accumulator" where
  "accumulate_record r a =
     (let a = a\<lparr>acc_interface_flags := iar_interface_flags r\<rparr> in
      case iar_payload r of
        Ipv4Payload address netmask \<Rightarrow>
          let a = a\<lparr>acc_ipv4_addresses := acc_ipv4_addresses a @ [address]\<rparr> in
          if acc_source_ipv4_address a = None
          then a\<lparr>acc_source_ipv4_address := Some address, acc_ipv4_netmask := netmask\<rparr> else a
      | LinkLayerPayload interface_type hardware_address \<Rightarrow>
          (case hardware_address of None \<Rightarrow> a
           | Some hw \<Rightarrow> a\<lparr>acc_link_layer := Some (interface_type, hw)\<rparr>))"

text \<open>The map of the names, in their order.\<close>

definition accumulate_interface_records ::
    "interface_address_record list \<Rightarrow> (string, interface_accumulator) btree" where
  "accumulate_interface_records records =
     fold (\<lambda>r m.
       if \<not> is_ok (validate_interface_name_for_linux_packet_socket (iar_interface_name r)) then m
       else
         let a = (case bt_get m (iar_interface_name r) of None \<Rightarrow> default_accumulator | Some a \<Rightarrow> a) in
         bt_put (iar_interface_name r) (accumulate_record r a) m) records []"

record classified_scan_interface =
  csi_interface_name :: string
  csi_source_ipv4_address :: ipv4
  csi_ipv4_netmask :: ipv4
  csi_source_mac_address :: mac_address

definition classify_accumulator :: "string \<Rightarrow> interface_accumulator \<Rightarrow> app_error + classified_scan_interface" where
  "classify_accumulator name a =
     (if \<not> macos_flags_allow_arp_scanning (acc_interface_flags a)
      then Err (InterfaceRejectedForScanning name
        (if and (acc_interface_flags a) macos_flag_loopback \<noteq> 0 then ''loopback interface''
         else if and (acc_interface_flags a) macos_flag_no_arp \<noteq> 0 then ''interface has NOARP set''
         else ''interface is not UP''))
      else case (acc_source_ipv4_address a, acc_ipv4_netmask a) of
        (Some source, Some netmask) \<Rightarrow>
          (case acc_link_layer a of
             None \<Rightarrow> Err (InterfaceHardwareAddressUnsupported name
               ''interface has no Ethernet hardware address'')
           | Some (interface_type, hw) \<Rightarrow>
               if interface_type \<noteq> interface_type_ethernet
               then Err (InterfaceHardwareAddressUnsupported name
                 (''link-layer type '' @ show_nat (unat interface_type) @ '' is not Ethernet''))
               else if is_zero (from_octets hw)
               then Err (InterfaceHardwareAddressUnsupported name ''hardware address is all zero'')
               else Ok \<lparr>csi_interface_name = name, csi_source_ipv4_address = source,
                 csi_ipv4_netmask = netmask, csi_source_mac_address = from_octets hw\<rparr>)
      | _ \<Rightarrow> Err (InterfaceRejectedForScanning name ''interface has no IPv4 address and netmask''))"

definition classify_usable_scan_interfaces ::
    "interface_address_record list \<Rightarrow> classified_scan_interface list" where
  "classify_usable_scan_interfaces records =
     List.map_filter (\<lambda>(name, a). result_ok (classify_accumulator name a))
       (bt_entries (accumulate_interface_records records))"

section \<open>Discovery\<close>

text \<open>Every name without an index, or with an interior NUL, is left out.\<close>

fun macos_collect_candidates ::
    "'w macos_kernel \<Rightarrow> classified_scan_interface list \<Rightarrow> 'w \<Rightarrow> arp_scan_interface_candidate list \<times> 'w" where
  "macos_collect_candidates k [] w = ([], w)"
| "macos_collect_candidates k (i # interfaces) w =
     (if CHR 0x00 \<in> set (csi_interface_name i) then macos_collect_candidates k interfaces w
      else (case mk_if_nametoindex k (csi_interface_name i) w of
          (Inl _, w) \<Rightarrow> macos_collect_candidates k interfaces w
        | (Inr index, w) \<Rightarrow>
            (case macos_collect_candidates k interfaces w of (cs, w) \<Rightarrow>
               (\<lparr>cand_interface_name = csi_interface_name i, cand_interface_index = index,
                 cand_source_ipv4_address = csi_source_ipv4_address i,
                 cand_ipv4_netmask = csi_ipv4_netmask i,
                 cand_source_mac_address = csi_source_mac_address i\<rparr> # cs, w))))"

definition macos_enumerate_usable_candidates ::
    "'w macos_kernel \<Rightarrow> ('w, app_error, arp_scan_interface_candidate list) op" where
  "macos_enumerate_usable_candidates k =
     op_then (op_map_err InterfaceEnumerationFailed (collect_interface_address_records k)) (\<lambda>records w.
     case macos_collect_candidates k (classify_usable_scan_interfaces records) w of (candidates, w) \<Rightarrow>
       (Inr (sort_key candidate_key candidates), w))"

definition interface_not_present :: "string \<Rightarrow> app_error" where
  "interface_not_present name = InterfaceLookupFailed name \<lparr>io_kind = NotFound, io_errno = None,
     io_text = ''interface not present in getifaddrs output''\<rparr>"

definition classify_named ::
    "interface_address_record list \<Rightarrow> string \<Rightarrow> app_error + interface_accumulator \<times> classified_scan_interface" where
  "classify_named records name =
     and_then (ok_or (bt_get (accumulate_interface_records records) name) (interface_not_present name)) (\<lambda>a.
     and_then (classify_accumulator name a) (\<lambda>classified. Ok (a, classified)))"

definition macos_discover_interface_scan_addresses ::
    "'w macos_kernel \<Rightarrow> string \<Rightarrow> ('w, app_error, interface_scan_addresses) op" where
  "macos_discover_interface_scan_addresses k name =
     op_then (op_lift (validate_interface_name_for_linux_packet_socket name)) (\<lambda>_.
     op_then (op_map_err InterfaceEnumerationFailed (collect_interface_address_records k)) (\<lambda>records.
     op_then (op_lift (classify_named records name)) (\<lambda>(a, classified).
     op_return \<lparr>isa_source_ipv4_address = csi_source_ipv4_address classified,
       isa_ipv4_netmask = csi_ipv4_netmask classified,
       isa_source_mac_address = csi_source_mac_address classified\<rparr>)))"

definition monitor_identity_from_records ::
    "interface_address_record list \<Rightarrow> string \<Rightarrow> app_error + monitor_interface_identity" where
  "monitor_identity_from_records records name =
     and_then (classify_named records name) (\<lambda>(a, classified).
     let identity = identity_from_addresses
           (acc_ipv4_addresses a @ [csi_source_ipv4_address classified])
           (csi_source_mac_address classified) in
     if mii_ipv4_addresses identity = []
     then Err (InterfaceRejectedForScanning name ''interface has no IPv4 address'')
     else Ok identity)"

definition macos_discover_monitor_interface_identity ::
    "'w macos_kernel \<Rightarrow> string \<Rightarrow> ('w, app_error, monitor_interface_identity) op" where
  "macos_discover_monitor_interface_identity k name =
     op_then (op_lift (validate_interface_name_for_linux_packet_socket name)) (\<lambda>_.
     op_then (op_map_err InterfaceEnumerationFailed (collect_interface_address_records k)) (\<lambda>records.
     op_lift (monitor_identity_from_records records name)))"

definition macos_resolve_scan_interface_name ::
    "'w macos_kernel \<Rightarrow> string option \<Rightarrow> ('w, app_error, string) op" where
  "macos_resolve_scan_interface_name k explicit_interface_name =
     (case explicit_interface_name of
        Some name \<Rightarrow>
          op_then (macos_discover_interface_scan_addresses k name) (\<lambda>_. op_return name)
      | None \<Rightarrow>
          op_then (macos_enumerate_usable_candidates k) (\<lambda>candidates.
          op_lift (case candidates of
              [] \<Rightarrow> Err AutomaticInterfaceSelectionNoneFound
            | [c] \<Rightarrow> Ok (cand_interface_name c)
            | _ \<Rightarrow> Err (AutomaticInterfaceSelectionAmbiguous (map cand_interface_name candidates)))))"

section \<open>What the records of a name amount to\<close>

definition records_of :: "string \<Rightarrow> interface_address_record list \<Rightarrow> interface_address_record list" where
  "records_of name records = filter (\<lambda>r. iar_interface_name r = name) records"

definition ipv4_entries :: "interface_address_record list \<Rightarrow> (ipv4 \<times> ipv4 option) list" where
  "ipv4_entries records = List.map_filter (\<lambda>r. case iar_payload r of
     Ipv4Payload a m \<Rightarrow> Some (a, m) | LinkLayerPayload _ _ \<Rightarrow> None) records"

definition link_entries :: "interface_address_record list \<Rightarrow> (u8 \<times> u8 list) list" where
  "link_entries records = List.map_filter (\<lambda>r. case iar_payload r of
     LinkLayerPayload t (Some hw) \<Rightarrow> Some (t, hw) | _ \<Rightarrow> None) records"

lemma entries_simps [simp]:
  "ipv4_entries [] = []" "link_entries [] = []"
  "ipv4_entries (rs @ qs) = ipv4_entries rs @ ipv4_entries qs"
  "link_entries (rs @ qs) = link_entries rs @ link_entries qs"
  by (simp_all add: ipv4_entries_def link_entries_def List.map_filter_def)

definition valid_name :: "string \<Rightarrow> bool" where
  "valid_name name \<longleftrightarrow> validate_interface_name_for_linux_packet_socket name = Ok ()"

lemma valid_name_ok: "is_ok (validate_interface_name_for_linux_packet_socket name) \<longleftrightarrow> valid_name name"
  by (auto simp: is_ok_def valid_name_def split: sum.split)

abbreviation fold_records :: "interface_address_record list \<Rightarrow> interface_accumulator" where
  "fold_records records \<equiv> fold accumulate_record records default_accumulator"

lemma fold_records_result:
  "fold_records records =
     \<lparr>acc_interface_flags = (if records = [] then 0 else iar_interface_flags (last records)),
      acc_source_ipv4_address = map_option fst (List.find (\<lambda>_. True) (ipv4_entries records)),
      acc_ipv4_netmask = Option.bind (List.find (\<lambda>_. True) (ipv4_entries records)) snd,
      acc_ipv4_addresses = map fst (ipv4_entries records),
      acc_link_layer = (if link_entries records = [] then None else Some (last (link_entries records)))\<rparr>"
proof (induction records rule: rev_induct)
  case Nil
  then show ?case by (simp add: default_accumulator_def)
next
  case (snoc r rs)
  have one: "ipv4_entries [r] = (case iar_payload r of Ipv4Payload a m \<Rightarrow> [(a, m)] | _ \<Rightarrow> [])"
    "link_entries [r] = (case iar_payload r of LinkLayerPayload t (Some hw) \<Rightarrow> [(t, hw)] | _ \<Rightarrow> [])"
    by (simp_all add: ipv4_entries_def link_entries_def List.map_filter_def
        split: interface_address_payload.split option.split)
  have step: "fold_records (rs @ [r]) = accumulate_record r (fold_records rs)" by simp
  show ?case
    unfolding step snoc
    by (cases "ipv4_entries rs")
      (auto simp: accumulate_record_def Let_def one split: interface_address_payload.split option.split)
qed

lemma accumulate_snoc:
  "accumulate_interface_records (rs @ [r]) =
     (let m = accumulate_interface_records rs in
      if \<not> valid_name (iar_interface_name r) then m
      else bt_put (iar_interface_name r) (accumulate_record r
        (case bt_get m (iar_interface_name r) of None \<Rightarrow> default_accumulator | Some a \<Rightarrow> a)) m)"
  by (simp add: accumulate_interface_records_def valid_name_ok Let_def)

lemma accumulate_get:
  "bt_get (accumulate_interface_records records) name =
     (if valid_name name \<and> records_of name records \<noteq> [] then Some (fold_records (records_of name records))
      else None)"
proof (induction records rule: rev_induct)
  case Nil
  then show ?case by (simp add: accumulate_interface_records_def records_of_def)
next
  case (snoc r rs)
  then show ?case
    by (auto simp: accumulate_snoc Let_def bt_get_put records_of_def)
qed

lemma accumulate_wf: "bt_wf (accumulate_interface_records records)"
proof (induction records rule: rev_induct)
  case Nil
  then show ?case by (simp add: accumulate_interface_records_def bt_wf_def)
next
  case (snoc r rs)
  then show ?case by (simp add: accumulate_snoc Let_def bt_wf_put)
qed

text \<open>
  Usable: a valid name, up, neither loopback nor \<^verbatim>\<open>NOARP\<close> by its last record, the first IPv4 address
  with a netmask, and the last hardware address an Ethernet address that is not zero.
\<close>

definition macos_usable ::
    "interface_address_record list \<Rightarrow> string \<Rightarrow> classified_scan_interface \<Rightarrow> bool" where
  "macos_usable records name c \<longleftrightarrow>
     (let mine = records_of name records in
      valid_name name \<and> mine \<noteq> [] \<and> macos_flags_allow_arp_scanning (iar_interface_flags (last mine))
      \<and> (\<exists>hw rest. ipv4_entries mine = (csi_source_ipv4_address c, Some (csi_ipv4_netmask c)) # rest
          \<and> link_entries mine \<noteq> [] \<and> last (link_entries mine) = (interface_type_ethernet, hw)
          \<and> csi_source_mac_address c = from_octets hw \<and> \<not> is_zero (from_octets hw))
      \<and> csi_interface_name c = name)"

lemma classify_usable:
  assumes "mine \<noteq> []"
  shows "classify_accumulator name (fold_records mine) = Ok c \<longleftrightarrow>
    macos_flags_allow_arp_scanning (iar_interface_flags (last mine))
    \<and> (\<exists>hw rest. ipv4_entries mine = (csi_source_ipv4_address c, Some (csi_ipv4_netmask c)) # rest
        \<and> link_entries mine \<noteq> [] \<and> last (link_entries mine) = (interface_type_ethernet, hw)
        \<and> csi_source_mac_address c = from_octets hw \<and> \<not> is_zero (from_octets hw))
    \<and> csi_interface_name c = name"
  by (cases "ipv4_entries mine"; cases c)
    (auto simp: classify_accumulator_def fold_records_result assms split: option.split prod.split if_splits)

lemma classify_named_usable:
  "valid_name name \<Longrightarrow> (\<exists>a. classify_named records name = Ok (a, c)) \<longleftrightarrow> macos_usable records name c"
  using classify_usable [of "records_of name records" name c]
  by (auto simp: classify_named_def accumulate_get ok_or_def and_then_def macos_usable_def Let_def
      split: sum.splits)

section \<open>A host at rest\<close>

definition macos_quiescent ::
    "'w macos_kernel \<Rightarrow> interface_address_node list \<Rightarrow> (string \<Rightarrow> io_error + nat) \<Rightarrow> bool" where
  "macos_quiescent k nodes indexes \<longleftrightarrow>
     (\<forall>w. mk_getifaddrs k w = (Inr nodes, w)) \<and> (\<forall>name w. mk_if_nametoindex k name w = (indexes name, w))"

abbreviation lowered :: "interface_address_node list \<Rightarrow> interface_address_record list" where
  "lowered nodes \<equiv> List.map_filter build_interface_address_record nodes"

lemma collect_quiescent_records:
  "macos_quiescent k nodes indexes \<Longrightarrow>
     op_map_err InterfaceEnumerationFailed (collect_interface_address_records k) w = (Inr (lowered nodes), w)"
  by (simp add: collect_interface_address_records_def macos_quiescent_def op_then_def op_return_def
      op_map_err_def)

lemma valid_name_no_nul: "valid_name name \<Longrightarrow> CHR 0x00 \<notin> set name"
  by (simp add: valid_name_def validate_interface_name_Ok_iff)

lemma macos_usable_unique: "macos_usable rs name c \<Longrightarrow> macos_usable rs name d \<Longrightarrow> c = d"
  by (cases c; cases d) (auto simp: macos_usable_def Let_def)

lemma classify_usable_entry:
  "bt_get (accumulate_interface_records rs) name = Some a \<Longrightarrow>
     classify_accumulator name a = Ok c \<longleftrightarrow> macos_usable rs name c"
  using classify_usable [of "records_of name rs" name c]
  by (auto simp: accumulate_get macos_usable_def Let_def split: if_splits)

lemma set_map_filter_iff: "y \<in> set (List.map_filter f xs) \<longleftrightarrow> (\<exists>x\<in>set xs. f x = Some y)"
  by (induction xs) (auto simp: List.map_filter_simps split: option.splits)

lemma result_ok_Some: "result_ok x = Some y \<longleftrightarrow> x = Ok y"
  by (simp add: result_ok_def split: sum.split)

lemma usable_interfaces_set:
  "c \<in> set (classify_usable_scan_interfaces rs) \<longleftrightarrow> (\<exists>name. macos_usable rs name c)"
proof -
  note entry = bt.entry_iff [OF accumulate_wf [of rs]]
  have "c \<in> set (classify_usable_scan_interfaces rs) \<longleftrightarrow>
      (\<exists>name a. bt_get (accumulate_interface_records rs) name = Some a \<and> classify_accumulator name a = Ok c)"
    by (simp add: classify_usable_scan_interfaces_def set_map_filter_iff entry [symmetric] Bex_def
        result_ok_Some)
  also have "\<dots> \<longleftrightarrow> (\<exists>name. macos_usable rs name c)"
  proof -
    have "(\<exists>a. bt_get (accumulate_interface_records rs) name = Some a \<and> classify_accumulator name a = Ok c)
        \<longleftrightarrow> macos_usable rs name c" for name
    proof (cases "bt_get (accumulate_interface_records rs) name")
      case None
      then have "\<not> macos_usable rs name c"
        by (auto simp: accumulate_get macos_usable_def Let_def split: if_splits)
      then show ?thesis using None by simp
    qed (simp add: classify_usable_entry)
    then show ?thesis by blast
  qed
  finally show ?thesis .
qed

lemma usable_name: "macos_usable rs name c \<Longrightarrow> csi_interface_name c = name \<and> valid_name name"
  by (simp add: macos_usable_def Let_def)

lemma usable_interfaces_distinct: "distinct (map csi_interface_name (classify_usable_scan_interfaces rs))"
proof -
  let ?m = "bt_entries (accumulate_interface_records rs)"
  have name: "csi_interface_name c = fst p"
    if "p \<in> set ?m" and "(case p of (name, a) \<Rightarrow> result_ok (classify_accumulator name a)) = Some c" for p c
    using that classify_usable_entry usable_name bt.entry_iff [OF accumulate_wf [of rs]]
    by (auto simp: result_ok_def split: prod.splits sum.splits)
  have "map csi_interface_name (List.map_filter f ps) = map fst (filter (\<lambda>p. f p \<noteq> None) ps)"
    if "\<And>p c. p \<in> set ps \<Longrightarrow> f p = Some c \<Longrightarrow> csi_interface_name c = fst p"
    for f and ps :: "(string \<times> interface_accumulator) list"
    using that by (induction ps) (auto simp: List.map_filter_simps split: option.split)
  then have "map csi_interface_name (classify_usable_scan_interfaces rs) =
      map fst (filter (\<lambda>p. (case p of (name, a) \<Rightarrow> result_ok (classify_accumulator name a)) \<noteq> None) ?m)"
    unfolding classify_usable_scan_interfaces_def using name by blast
  then show ?thesis
    using bt.entries_distinct [OF accumulate_wf [of rs]] by (simp add: distinct_map_filter)
qed

definition indexed :: "(string \<Rightarrow> io_error + nat) \<Rightarrow> classified_scan_interface \<Rightarrow> (string \<times> nat) option" where
  "indexed indexes i = map_option (Pair (csi_interface_name i)) (result_ok (indexes (csi_interface_name i)))"

lemma macos_collect_quiescent:
  assumes "macos_quiescent k nodes indexes" and "\<forall>i\<in>set is. valid_name (csi_interface_name i)"
  shows "\<exists>cs. macos_collect_candidates k is w = (cs, w)
    \<and> map (\<lambda>c. (cand_interface_name c, cand_interface_index c)) cs = List.map_filter (indexed indexes) is"
  using assms(2)
proof (induction "is")
  case (Cons i "is")
  then obtain cs where cs: "macos_collect_candidates k is w = (cs, w)"
    "map (\<lambda>c. (cand_interface_name c, cand_interface_index c)) cs = List.map_filter (indexed indexes) is"
    by auto
  moreover have "indexed indexes i = (case indexes (csi_interface_name i) of
      Inl _ \<Rightarrow> None | Inr n \<Rightarrow> Some (csi_interface_name i, n))"
    by (simp add: indexed_def result_ok_def split: sum.split)
  ultimately show ?case
    using Cons.prems valid_name_no_nul assms(1)
    by (cases "indexes (csi_interface_name i)") (auto simp: macos_quiescent_def List.map_filter_simps)
qed (simp add: List.map_filter_simps)

lemma sorted_by_key_strict:
  assumes "distinct (map fst ps)"
  shows "sorted_wrt (\<lambda>p q. (snd p, fst p) < (snd q, fst q)) (by_index ps)"
proof -
  let ?f = "\<lambda>p :: string \<times> nat. (snd p, fst p)"
  have "distinct (by_index ps)" using assms by (simp add: by_index_def distinct_map)
  then have "distinct (map ?f (by_index ps))" by (auto simp: distinct_map intro!: inj_onI)
  then have "sorted_wrt (<) (map ?f (by_index ps))"
    by (simp add: by_index_def strict_sorted_iff)
  then show ?thesis by (simp add: sorted_wrt_map)
qed

lemma names_by_index:
  "map (\<lambda>c. (cand_interface_name c, cand_interface_index c)) (sort_key candidate_key cs) =
     by_index (map (\<lambda>c. (cand_interface_name c, cand_interface_index c)) cs)"
proof -
  let ?g = "\<lambda>c. (cand_interface_name c, cand_interface_index c)" and ?f = "\<lambda>p :: string \<times> nat. (snd p, fst p)"
  have step: "insort_key ?f (?g c) (map ?g cs) = map ?g (insort_key candidate_key c cs)" for c cs
    by (rule insort_map) (simp add: candidate_key_def)
  show ?thesis
    unfolding by_index_def by (induction cs) (simp_all only: list.map sort_key_simps step [symmetric])
qed

lemma macos_enumerate_quiescent:
  assumes "macos_quiescent k nodes indexes"
  shows "\<exists>cs. macos_enumerate_usable_candidates k w = (Inr cs, w)
    \<and> sorted_wrt (\<lambda>p q. (snd p, fst p) < (snd q, fst q))
        (map (\<lambda>c. (cand_interface_name c, cand_interface_index c)) cs)
    \<and> set (map (\<lambda>c. (cand_interface_name c, cand_interface_index c)) cs) =
        {(name, i). (\<exists>c. macos_usable (lowered nodes) name c) \<and> indexes name = Inr i}"
proof -
  let ?is = "classify_usable_scan_interfaces (lowered nodes)"
  let ?pairs = "List.map_filter (indexed indexes) ?is"
  have valid: "\<forall>i\<in>set ?is. valid_name (csi_interface_name i)"
    using usable_interfaces_set usable_name by blast
  obtain cs where cs: "macos_collect_candidates k ?is w = (cs, w)"
    "map (\<lambda>c. (cand_interface_name c, cand_interface_index c)) cs = ?pairs"
    using macos_collect_quiescent [OF assms valid] by blast
  have run: "macos_enumerate_usable_candidates k w = (Inr (sort_key candidate_key cs), w)"
    by (simp add: macos_enumerate_usable_candidates_def op_then_def collect_quiescent_records [OF assms] cs(1))
  have "map fst (List.map_filter (indexed indexes) is) =
      map csi_interface_name (filter (\<lambda>i. indexed indexes i \<noteq> None) is)"
    for "is" by (induction "is") (auto simp: List.map_filter_simps indexed_def split: option.split)
  then have "distinct (map fst ?pairs)"
    using usable_interfaces_distinct [of "lowered nodes"] by (simp add: distinct_map_filter)
  note sorted = sorted_by_key_strict [OF this]
  have members: "set ?pairs = {(name, i). (\<exists>c. macos_usable (lowered nodes) name c) \<and> indexes name = Inr i}"
  proof -
    have one: "indexed indexes c = Some (name, i) \<longleftrightarrow> csi_interface_name c = name \<and> indexes name = Inr i"
      for c name i
      by (auto simp: indexed_def result_ok_Some)
    have "(name, i) \<in> set ?pairs \<longleftrightarrow>
        (\<exists>c. macos_usable (lowered nodes) name c) \<and> indexes name = Inr i" for name i
      unfolding set_map_filter_iff Bex_def usable_interfaces_set one using usable_name by blast
    then show ?thesis by auto
  qed
  have "set (by_index ?pairs) = set ?pairs" by (simp add: by_index_def)
  then show ?thesis
    using run sorted members by (intro exI [of _ "sort_key candidate_key cs"]) (simp add: names_by_index cs(2))
qed

lemma macos_discover_quiescent:
  assumes "macos_quiescent k nodes indexes"
  shows "macos_discover_interface_scan_addresses k name w = (Inr x, w') \<longleftrightarrow>
    w' = w \<and> (\<exists>c. macos_usable (lowered nodes) name c
      \<and> x = \<lparr>isa_source_ipv4_address = csi_source_ipv4_address c, isa_ipv4_netmask = csi_ipv4_netmask c,
           isa_source_mac_address = csi_source_mac_address c\<rparr>)"
proof (cases "valid_name name")
  case False
  then show ?thesis
    using usable_name by (auto simp: macos_discover_interface_scan_addresses_def op_then_eq_Ok op_lift_def
        valid_name_def)
next
  case True
  then have "validate_interface_name_for_linux_packet_socket name = Ok ()" by (simp add: valid_name_def)
  then have "macos_discover_interface_scan_addresses k name w = (Inr x, w') \<longleftrightarrow>
      w' = w \<and> (\<exists>c. (\<exists>a. classify_named (lowered nodes) name = Ok (a, c))
        \<and> x = \<lparr>isa_source_ipv4_address = csi_source_ipv4_address c, isa_ipv4_netmask = csi_ipv4_netmask c,
             isa_source_mac_address = csi_source_mac_address c\<rparr>)"
    by (auto simp: macos_discover_interface_scan_addresses_def op_lift_def op_return_def
        collect_quiescent_records [OF assms] op_then_def split: prod.splits sum.splits)
  then show ?thesis by (simp only: classify_named_usable [OF True])
qed

section \<open>Identity\<close>

lemma bset_of_list_absorb: "set xs = set ys \<Longrightarrow> bset_of_list xs = bset_of_list ys"
  using bset_of_list [of xs] bset_of_list [of ys] by (auto intro: bset_wf_unique)

lemma classify_named_accumulator:
  "classify_named records name = Ok (a, c) \<Longrightarrow> a = fold_records (records_of name records)"
  by (auto simp: classify_named_def accumulate_get ok_or_def and_then_def split: sum.splits if_splits)

lemma monitor_identity_usable:
  assumes "valid_name name"
  shows "monitor_identity_from_records records name = Ok identity \<longleftrightarrow>
    (\<exists>c. macos_usable records name c \<and> identity =
      identity_from_addresses (map fst (ipv4_entries (records_of name records))) (csi_source_mac_address c))"
proof -
  have same: "identity_from_addresses (acc_ipv4_addresses a @ [csi_source_ipv4_address c]) mac =
      identity_from_addresses (map fst (ipv4_entries (records_of name records))) mac
      \<and> mii_ipv4_addresses
          (identity_from_addresses (map fst (ipv4_entries (records_of name records))) mac) \<noteq> []"
    if "classify_named records name = Ok (a, c)" for a c mac
  proof -
    have a: "acc_ipv4_addresses a = map fst (ipv4_entries (records_of name records))"
      using classify_named_accumulator [OF that] by (simp add: fold_records_result)
    have "macos_usable records name c" using that classify_named_usable [OF assms] by blast
    then have "csi_source_ipv4_address c \<in> set (acc_ipv4_addresses a)"
      unfolding a by (auto simp: macos_usable_def Let_def)
    then have "set (acc_ipv4_addresses a @ [csi_source_ipv4_address c]) = set (acc_ipv4_addresses a)" by auto
    then have "bset_of_list (acc_ipv4_addresses a @ [csi_source_ipv4_address c]) =
        bset_of_list (acc_ipv4_addresses a)" by (rule bset_of_list_absorb)
    moreover have "set (bset_of_list (acc_ipv4_addresses a @ [csi_source_ipv4_address c])) \<noteq> {}"
      by (simp add: bset_of_list(2))
    ultimately show ?thesis
      by (auto simp: identity_from_addresses_def sorted_unique_ipv4_addresses_def a)
  qed
  have "monitor_identity_from_records records name = Ok identity \<longleftrightarrow>
      (\<exists>a c. classify_named records name = Ok (a, c) \<and> identity =
        identity_from_addresses (map fst (ipv4_entries (records_of name records))) (csi_source_mac_address c))"
    by (cases "classify_named records name")
      (auto simp: monitor_identity_from_records_def and_then_def Let_def same split: if_splits)
  then show ?thesis using classify_named_usable [OF assms] by blast
qed

lemma macos_identity_quiescent:
  assumes "macos_quiescent k nodes indexes"
  shows "macos_discover_monitor_interface_identity k name w = (Inr identity, w') \<longleftrightarrow>
    w' = w \<and> (\<exists>c. macos_usable (lowered nodes) name c
      \<and> identity = identity_from_addresses (map fst (ipv4_entries (records_of name (lowered nodes))))
          (csi_source_mac_address c))"
proof (cases "valid_name name")
  case True
  then show ?thesis
    using monitor_identity_usable [OF True, of "lowered nodes" identity]
    by (auto simp: macos_discover_monitor_interface_identity_def op_then_def op_lift_def
        collect_quiescent_records [OF assms] valid_name_def)
qed (use usable_name in \<open>auto simp: macos_discover_monitor_interface_identity_def op_then_eq_Ok
    op_lift_def valid_name_def\<close>)

lemma macos_monitor_identity:
  assumes "macos_quiescent k nodes indexes"
    and "macos_discover_monitor_interface_identity k name w = (Inr identity, w')"
  shows "\<exists>c. macos_usable (lowered nodes) name c
    \<and> mii_source_mac_address identity = csi_source_mac_address c
    \<and> set (mii_ipv4_addresses identity) = fst ` set (ipv4_entries (records_of name (lowered nodes)))"
  using assms(2) unfolding macos_identity_quiescent [OF assms(1)]
  by (auto simp: identity_from_addresses_def sorted_unique_ipv4_addresses_def bset_of_list(2))

section \<open>Properties\<close>

text \<open>
  On a macOS host at rest, an interface is usable when its name is valid, the flags of its last
  record are up and neither loopback nor \<^verbatim>\<open>NOARP\<close>, its first IPv4 address has a netmask, and its last
  hardware address is a non-zero Ethernet address. A scan is given exactly that first address and
  netmask, the monitor all IPv4 addresses of the interface, and both fail on any other interface.
\<close>

theorem macos_addresses_exact:
  assumes "macos_quiescent k nodes indexes"
  shows "macos_discover_interface_scan_addresses k name w = (Inr x, w') \<longleftrightarrow>
      w' = w \<and> (\<exists>c. macos_usable (lowered nodes) name c
        \<and> x = \<lparr>isa_source_ipv4_address = csi_source_ipv4_address c, isa_ipv4_netmask = csi_ipv4_netmask c,
             isa_source_mac_address = csi_source_mac_address c\<rparr>)"
    and "macos_discover_monitor_interface_identity k name w = (Inr identity, w') \<longleftrightarrow>
      w' = w \<and> (\<exists>c. macos_usable (lowered nodes) name c
        \<and> identity = identity_from_addresses (map fst (ipv4_entries (records_of name (lowered nodes))))
            (csi_source_mac_address c))"
  by (rule macos_discover_quiescent [OF assms], rule macos_identity_quiescent [OF assms])

text \<open>
  C21: the choice on a macOS host at rest. Without a name it returns the one usable interface that
  has an index, and otherwise fails: with no candidate, or with the names of all of them in the order
  of their indexes. An explicit name is accepted exactly when it is usable.
\<close>

theorem macos_selection_exact:
  assumes "macos_quiescent k nodes indexes"
  shows "(\<exists>pairs. sorted_wrt (\<lambda>p q. (snd p, fst p) < (snd q, fst q)) pairs
      \<and> set pairs = {(name, i). (\<exists>c. macos_usable (lowered nodes) name c) \<and> indexes name = Inr i}
      \<and> macos_resolve_scan_interface_name k None w =
         (case map fst pairs of
            [] \<Rightarrow> Inl AutomaticInterfaceSelectionNoneFound
          | [name] \<Rightarrow> Inr name
          | names \<Rightarrow> Inl (AutomaticInterfaceSelectionAmbiguous names), w))
    \<and> (macos_resolve_scan_interface_name k (Some name) w = (Inr name, w) \<longleftrightarrow>
      (\<exists>c. macos_usable (lowered nodes) name c))"
proof
  let ?pair = "\<lambda>c. (cand_interface_name c, cand_interface_index c)"
  obtain cs where cs: "macos_enumerate_usable_candidates k w = (Inr cs, w)"
    "sorted_wrt (\<lambda>p q. (snd p, fst p) < (snd q, fst q)) (map ?pair cs)"
    "set (map ?pair cs) = {(name, i). (\<exists>c. macos_usable (lowered nodes) name c) \<and> indexes name = Inr i}"
    using macos_enumerate_quiescent [OF assms] by blast
  have "macos_resolve_scan_interface_name k None w =
      (case map fst (map ?pair cs) of
         [] \<Rightarrow> Inl AutomaticInterfaceSelectionNoneFound | [name] \<Rightarrow> Inr name
       | names \<Rightarrow> Inl (AutomaticInterfaceSelectionAmbiguous names), w)"
    by (cases cs rule: list.exhaust; cases "tl cs")
      (simp_all add: macos_resolve_scan_interface_name_def op_then_def op_lift_def cs(1) comp_def)
  then show "\<exists>pairs. sorted_wrt (\<lambda>p q. (snd p, fst p) < (snd q, fst q)) pairs
      \<and> set pairs = {(name, i). (\<exists>c. macos_usable (lowered nodes) name c) \<and> indexes name = Inr i}
      \<and> macos_resolve_scan_interface_name k None w =
         (case map fst pairs of [] \<Rightarrow> Inl AutomaticInterfaceSelectionNoneFound | [name] \<Rightarrow> Inr name
          | names \<Rightarrow> Inl (AutomaticInterfaceSelectionAmbiguous names), w)"
    using cs(2,3) by blast
  show "macos_resolve_scan_interface_name k (Some name) w = (Inr name, w) \<longleftrightarrow>
      (\<exists>c. macos_usable (lowered nodes) name c)"
    by (auto simp: macos_resolve_scan_interface_name_def op_then_eq_Ok op_return_def
        macos_discover_quiescent [OF assms])
qed

text \<open>A loopback interface, and an Ethernet interface with two addresses.\<close>

definition example_inet :: "u8 \<Rightarrow> u8 \<Rightarrow> u8 \<Rightarrow> u8 \<Rightarrow> u8 list" where
  "example_inet a b c d = [16, 2, 0, 0, a, b, c, d] @ replicate 8 0"

definition example_nodes :: "interface_address_node list" where
  "example_nodes =
     [\<lparr>ifa_name = Some ''lo0'', ifa_flags = 9, ifa_addr = Some (example_inet 127 0 0 1),
       ifa_netmask = Some (example_inet 255 0 0 0)\<rparr>,
      \<lparr>ifa_name = Some ''en0'', ifa_flags = 1, ifa_addr = Some ([20, 18, 4, 0, 6, 3, 6, 0, 101, 110, 48]
        @ [2, 0, 0, 0, 0, 1, 0, 0, 0]), ifa_netmask = None\<rparr>,
      \<lparr>ifa_name = Some ''en0'', ifa_flags = 1, ifa_addr = Some (example_inet 192 168 1 10),
       ifa_netmask = Some (example_inet 255 255 255 0)\<rparr>,
      \<lparr>ifa_name = Some ''en0'', ifa_flags = 1, ifa_addr = Some (example_inet 10 0 0 7),
       ifa_netmask = None\<rparr>]"

definition example_index :: "string \<Rightarrow> io_error + nat" where
  "example_index name = Inr (if name = ''en0'' then 4 else 1)"

definition example_macos_kernel :: "(u8 list list \<times> nat) macos_kernel" where
  "example_macos_kernel = example_bpf_kernel
     \<lparr>mk_getifaddrs := op_return example_nodes, mk_if_nametoindex := (\<lambda>name. op_lift (example_index name))\<rparr>"

lemma example_macos_quiescent: "macos_quiescent example_macos_kernel example_nodes example_index"
  by (simp add: macos_quiescent_def example_macos_kernel_def op_return_def op_lift_def)

lemma example_lowered:
  "lowered example_nodes =
     [\<lparr>iar_interface_name = ''lo0'', iar_interface_flags = 9,
       iar_payload = Ipv4Payload (ipv4_new 127 0 0 1) (Some (ipv4_new 255 0 0 0))\<rparr>,
      \<lparr>iar_interface_name = ''en0'', iar_interface_flags = 1,
       iar_payload = LinkLayerPayload 6 (Some [2, 0, 0, 0, 0, 1])\<rparr>,
      \<lparr>iar_interface_name = ''en0'', iar_interface_flags = 1,
       iar_payload = Ipv4Payload (ipv4_new 192 168 1 10) (Some (ipv4_new 255 255 255 0))\<rparr>,
      \<lparr>iar_interface_name = ''en0'', iar_interface_flags = 1,
       iar_payload = Ipv4Payload (ipv4_new 10 0 0 7) None\<rparr>]"
  by (simp add: example_nodes_def example_inet_def List.map_filter_simps build_interface_address_record_def
      address_payload_def macos_sa_family_def macos_af_inet_def macos_af_link_def in_range_def
      macos_read_ipv4_from_sockaddr_def read_link_layer_address_from_sockaddr_dl_def Let_def)

definition example_classified :: classified_scan_interface where
  "example_classified = \<lparr>csi_interface_name = ''en0'', csi_source_ipv4_address = ipv4_new 192 168 1 10,
     csi_ipv4_netmask = ipv4_new 255 255 255 0, csi_source_mac_address = MacAddress 2 0 0 0 0 1\<rparr>"

lemma example_en0_usable: "macos_usable (lowered example_nodes) ''en0'' example_classified"
  by (simp add: macos_usable_def Let_def example_lowered records_of_def valid_name_def
      validate_interface_name_Ok_iff ipv4_entries_def link_entries_def List.map_filter_simps
      macos_flags_allow_arp_scanning_def macos_flag_loopback_def macos_flag_no_arp_def macos_flag_up_def
      interface_type_ethernet_def example_classified_def from_octets_def is_zero_def numeral_eq_Suc)

theorem macos_addresses_exact_witness:
  "macos_discover_interface_scan_addresses example_macos_kernel ''en0'' ([], 0) =
     (Inr \<lparr>isa_source_ipv4_address = ipv4_new 192 168 1 10, isa_ipv4_netmask = ipv4_new 255 255 255 0,
        isa_source_mac_address = MacAddress 2 0 0 0 0 1\<rparr>, ([], 0))"
  unfolding macos_addresses_exact(1) [OF example_macos_quiescent]
  using example_en0_usable by (auto simp: example_classified_def)

theorem macos_selection_exact_witness:
  "macos_resolve_scan_interface_name example_macos_kernel (Some ''en0'') ([], 0) = (Inr ''en0'', ([], 0))"
  using macos_selection_exact [OF example_macos_quiescent] example_en0_usable by blast

end
