(* ===== verification/Engine_Simulation.thy ===== *)
theory Engine_Simulation
  imports Monitor
begin

text \<open>
  The scan engine of \<^verbatim>\<open>src/scanner.rs\<close> and the listen loop of \<^verbatim>\<open>src/monitor.rs\<close> observe the outside
  world only through the endpoint and the clock: over two worlds whose calls give the same results,
  and keep the worlds related, a scan and a listen give the same result and end in related worlds.
  An endpoint that is only specified in the states it can reach is related in this way to one that is
  specified everywhere, for which the theorems about the engine hold.
\<close>

section \<open>Calls with the same result\<close>

definition same_run :: "('v \<Rightarrow> 'w \<Rightarrow> bool) \<Rightarrow> 'a \<times> 'v \<Rightarrow> 'a \<times> 'w \<Rightarrow> bool" where
  "same_run R x y \<longleftrightarrow> fst x = fst y \<and> R (snd x) (snd y)"

lemma same_run_pair: "R v w \<Longrightarrow> same_run R (x, v) (x, w)"
  by (simp add: same_run_def)

lemma same_run_bind:
  assumes "same_run R m n" and "\<And>x v w. R v w \<Longrightarrow> same_run R (f x v) (g x w)"
  shows "same_run R (case m of (x, v) \<Rightarrow> f x v) (case n of (x, w) \<Rightarrow> g x w)"
  using assms by (cases m; cases n) (simp add: same_run_def)

lemma same_run_sum:
  assumes "\<And>e. same_run R (f e) (f' e)" and "\<And>x. same_run R (g x) (g' x)"
  shows "same_run R (case r of Inl e \<Rightarrow> f e | Inr x \<Rightarrow> g x) (case r of Inl e \<Rightarrow> f' e | Inr x \<Rightarrow> g' x)"
  using assms by (simp split: sum.split)

lemma same_run_option:
  assumes "same_run R f f'" and "\<And>x. same_run R (g x) (g' x)"
  shows "same_run R (case r of None \<Rightarrow> f | Some x \<Rightarrow> g x) (case r of None \<Rightarrow> f' | Some x \<Rightarrow> g' x)"
  using assms by (simp split: option.split)

lemma same_run_pair_case:
  assumes "\<And>a b. same_run R (f a b) (f' a b)"
  shows "same_run R (case p of (a, b) \<Rightarrow> f a b) (case p of (a, b) \<Rightarrow> f' a b)"
  using assms by (simp split: prod.split)

lemma same_run_if:
  "same_run R f f' \<Longrightarrow> same_run R g g' \<Longrightarrow> same_run R (if b then f else g) (if b then f' else g')"
  by simp

lemmas same_run_rules = same_run_pair same_run_bind same_run_sum same_run_option same_run_pair_case
  same_run_if

section \<open>Related worlds\<close>

locale world_simulation =
  fixes R :: "'v \<Rightarrow> 'w \<Rightarrow> bool"
    and ep1 :: "'v endpoint" and ck1 :: "'v clock"
    and ep2 :: "'w endpoint" and ck2 :: "'w clock"
  assumes send_same: "R v w \<Longrightarrow> same_run R (ep_send ep1 frame v) (ep_send ep2 frame w)"
    and wait_same: "R v w \<Longrightarrow> same_run R (ep_wait ep1 ms v) (ep_wait ep2 ms w)"
    and receive_same: "R v w \<Longrightarrow> \<exists>r buf' v' w'. ep_receive ep1 buf v = (r, buf', v')
      \<and> ep_receive ep2 buf w = (r, buf', w') \<and> R v' w'"
    and now_same: "R v w \<Longrightarrow> same_run R (ck_now ck1 v) (ck_now ck2 w)"
    and add_same: "ck_add ck1 = ck_add ck2" and since_same: "ck_since ck1 = ck_since ck2"
    and sleep_until_same: "R v w \<Longrightarrow> R (ck_sleep_until ck1 t v) (ck_sleep_until ck2 t w)"
    and sleep_for_same: "R v w \<Longrightarrow> R (ck_sleep_for ck1 d v) (ck_sleep_for ck2 d w)"
    and unreadable_same: "R v w \<Longrightarrow> R (ck_unreadable ck1 d v) (ck_unreadable ck2 d w)"
    and after_send_same: "R v w \<Longrightarrow> R (ck_after_send ck1 v) (ck_after_send ck2 w)"
begin

lemmas clock_rules = sleep_until_same sleep_for_same unreadable_same after_send_same

lemma poll_loop_same:
  assumes "\<And>s v w. R v w \<Longrightarrow> same_run R (drain1 s v) (drain2 s w)"
  shows "R v w \<Longrightarrow> same_run R (poll_loop fuel ms ep1 ck1 deadline drain1 s v)
    (poll_loop fuel ms ep2 ck2 deadline drain2 s w)"
proof (induction fuel arbitrary: s v w)
  case (Suc fuel)
  show ?case
    unfolding poll_loop.simps Let_def since_same
    by (intro same_run_rules now_same wait_same assms Suc clock_rules)
qed (simp add: same_run_def)

lemma drain_same:
  "R v w \<Longrightarrow> same_run R (drain_buffered_reply_frames fuel ep1 acceptance buf acc v)
     (drain_buffered_reply_frames fuel ep2 acceptance buf acc w)"
proof (induction fuel arbitrary: buf acc v w)
  case (Suc fuel)
  obtain r buf' v' w' where r: "ep_receive ep1 buf v = (r, buf', v')" "ep_receive ep2 buf w = (r, buf', w')"
    "R v' w'"
    using receive_same [OF Suc.prems] by blast
  show ?case
    unfolding drain_buffered_reply_frames.simps r prod.case
    by (intro same_run_rules Suc.IH r(3))
qed (simp add: same_run_def)

lemma collect_same:
  "R v w \<Longrightarrow> same_run R (collect_replies_until_deadline fuel dfuel ep1 ck1 deadline acceptance buf ws v)
     (collect_replies_until_deadline fuel dfuel ep2 ck2 deadline acceptance buf ws w)"
  unfolding collect_replies_until_deadline_def collect_replies_loop_def
  by (intro poll_loop_same) (auto intro: drain_same)

lemma send_one_same:
  "R v w \<Longrightarrow> same_run R (send_one_request ep1 transmit target ws v) (send_one_request ep2 transmit target ws w)"
  unfolding send_one_request_def by (intro same_run_rules send_same)

lemma send_requests_same:
  "R v w \<Longrightarrow> same_run R (send_requests ep1 transmit targets ws v) (send_requests ep2 transmit targets ws w)"
proof (induction targets arbitrary: ws v w)
  case (Cons t ts)
  show ?case
    unfolding send_requests.simps Let_def by (intro same_run_rules send_one_same Cons)
qed (simp add: same_run_def)

lemma request_rounds_same:
  "R v w \<Longrightarrow> same_run R (request_rounds left ep1 ck1 targets transmit i rounds pacing ws v)
     (request_rounds left ep2 ck2 targets transmit i rounds pacing ws w)"
proof (induction left arbitrary: i ws v w)
  case (Suc left)
  have "R (if b then ck_sleep_for ck1 d v else v) (if b then ck_sleep_for ck2 d w else w)"
    if "R v w" for b d v w
    using that sleep_for_same by simp
  then show ?case
    unfolding request_rounds.simps Let_def
    by (intro same_run_bind send_requests_same Suc)
qed (simp add: same_run_def)

lemma monotonic_deadline_same:
  "monotonic_deadline_from ck1 = monotonic_deadline_from ck2"
  "R v w \<Longrightarrow> same_run R (monotonic_deadline ck1 d v) (monotonic_deadline ck2 d w)"
proof -
  show from_same: "monotonic_deadline_from ck1 = monotonic_deadline_from ck2"
    by (intro ext) (simp add: monotonic_deadline_from_def add_same)
  show "same_run R (monotonic_deadline ck1 d v) (monotonic_deadline ck2 d w)"
    if "R v w"
    unfolding monotonic_deadline_def Let_def from_same by (intro same_run_rules now_same that)
qed

lemma wait_interval_same:
  "R v w \<Longrightarrow> same_run R (wait_until_interval_after_last_send ck1 last_send interval v)
     (wait_until_interval_after_last_send ck2 last_send interval w)"
  unfolding wait_until_interval_after_last_send_def monotonic_deadline_same(1)
  by (intro same_run_rules clock_rules)

lemma wait_next_round_same:
  "R v w \<Longrightarrow> same_run R (wait_until_next_round ck1 last_send interval pacing v)
     (wait_until_next_round ck2 last_send interval pacing w)"
  unfolding wait_until_next_round_def monotonic_deadline_same(1) Let_def
  by (intro same_run_rules clock_rules now_same)

lemma rate_limited_sends_same:
  "R v w \<Longrightarrow> same_run R (rate_limited_sends ep1 ck1 transmit interval first targets last_send ws v)
     (rate_limited_sends ep2 ck2 transmit interval first targets last_send ws w)"
proof (induction targets arbitrary: first last_send ws v w)
  case (Cons t ts)
  show ?case
    unfolding rate_limited_sends.simps Let_def
    by (intro same_run_bind same_run_sum same_run_if same_run_pair wait_interval_same send_one_same
        now_same Cons clock_rules)
qed (simp add: same_run_def)

lemma rate_limited_round_same:
  "R v w \<Longrightarrow> same_run R
     (rate_limited_round fuel dfuel pw ep1 ck1 request rate i unanswered last_send buf acc v)
     (rate_limited_round fuel dfuel pw ep2 ck2 request rate i unanswered last_send buf acc w)"
  unfolding rate_limited_round_def
  by (intro same_run_rules rate_limited_sends_same monotonic_deadline_same(2) collect_same)

lemma rate_limited_rounds_same:
  "R v w \<Longrightarrow> same_run R
     (rate_limited_rounds left fuel dfuel pw ep1 ck1 request rate i unanswered last_send buf acc v)
     (rate_limited_rounds left fuel dfuel pw ep2 ck2 request rate i unanswered last_send buf acc w)"
proof (induction left arbitrary: i unanswered last_send buf acc v w)
  case (Suc left)
  show ?case
    unfolding rate_limited_rounds.simps Let_def
    by (intro same_run_rules rate_limited_round_same wait_next_round_same Suc)
qed (simp add: same_run_def)

lemma run_rate_limited_same:
  "R v w \<Longrightarrow> same_run R (run_rate_limited_rounds fuel dfuel pw ep1 ck1 request rate buf ws v)
     (run_rate_limited_rounds fuel dfuel pw ep2 ck2 request rate buf ws w)"
  unfolding run_rate_limited_rounds_def
  by (intro same_run_rules monotonic_deadline_same(2) collect_same rate_limited_rounds_same)

theorem scan_same:
  "R v w \<Longrightarrow> same_run R (collect_scan_over_endpoint fuel dfuel pw ep1 ck1 request v)
     (collect_scan_over_endpoint fuel dfuel pw ep2 ck2 request w)"
  unfolding collect_scan_over_endpoint_def Let_def run_address_resolution_request_rounds_def add_same
  by (intro same_run_rules run_rate_limited_same request_rounds_same now_same collect_same)

lemma monitor_deadline_same:
  "R v w \<Longrightarrow> same_run R (monitor_deadline ck1 timeout v) (monitor_deadline ck2 timeout w)"
  unfolding monitor_deadline_def Let_def add_same by (intro same_run_rules now_same)

lemma drain_until_deadline_same:
  "R v w \<Longrightarrow> same_run R (drain_until_deadline fuel ep1 ck1 deadline buf s v)
     (drain_until_deadline fuel ep2 ck2 deadline buf s w)"
proof (induction fuel arbitrary: buf s v w)
  case (Suc fuel)
  show ?case
    unfolding drain_until_deadline.simps Let_def
  proof (rule same_run_bind [OF now_same [OF Suc.prems]], rule same_run_if)
    fix v w :: _ and now
    assume "R v w"
    then show "same_run R (Inr (buf, s), v) (Inr (buf, s), w)" by (rule same_run_pair)
    obtain r buf' v' w' where r: "ep_receive ep1 buf v = (r, buf', v')" "ep_receive ep2 buf w = (r, buf', w')"
      "R v' w'"
      using receive_same [OF \<open>R v w\<close>] by blast
    show "same_run R
      (case ep_receive ep1 buf v of (Inl e, buffer', v) \<Rightarrow> (Inl e, v) | (Inr None, buffer', v) \<Rightarrow> (Inr (buffer', s), v)
       | (Inr (Some n), buffer', v) \<Rightarrow> if length buffer' < n then (Inl (Failed receive_length_error), v)
           else drain_until_deadline fuel ep1 ck1 deadline buffer' (observe (take n buffer') s) v)
      (case ep_receive ep2 buf w of (Inl e, buffer', v) \<Rightarrow> (Inl e, v) | (Inr None, buffer', v) \<Rightarrow> (Inr (buffer', s), v)
       | (Inr (Some n), buffer', v) \<Rightarrow> if length buffer' < n then (Inl (Failed receive_length_error), v)
           else drain_until_deadline fuel ep2 ck2 deadline buffer' (observe (take n buffer') s) v)"
      unfolding r prod.case by (intro same_run_rules Suc.IH r(3))
  qed
qed (simp add: same_run_def)

theorem listen_same:
  "R v w \<Longrightarrow> same_run R (listen_for_passive_arp fuel dfuel ep1 ck1 request v)
     (listen_for_passive_arp fuel dfuel ep2 ck2 request w)"
  unfolding listen_for_passive_arp_def
  by (intro same_run_rules monitor_deadline_same poll_loop_same) (auto intro: drain_until_deadline_same)

end

section \<open>A world with more in it\<close>

text \<open>A clock in a world that holds something else beside the clock's own.\<close>

definition beside :: "'w clock \<Rightarrow> ('w \<times> 'e) clock" where
  "beside ck =
     \<lparr>ck_now = (\<lambda>(w, e). case ck_now ck w of (n, w) \<Rightarrow> (n, w, e)),
      ck_add = ck_add ck, ck_since = ck_since ck,
      ck_sleep_until = (\<lambda>t (w, e). (ck_sleep_until ck t w, e)),
      ck_sleep_for = (\<lambda>d (w, e). (ck_sleep_for ck d w, e)),
      ck_unreadable = (\<lambda>d (w, e). (ck_unreadable ck d w, e)),
      ck_after_send = (\<lambda>(w, e). (ck_after_send ck w, e))\<rparr>"

text \<open>An endpoint that keeps a log of its calls; the calls do not read it.\<close>

definition traced_endpoint :: "('w \<Rightarrow> timestamp) \<Rightarrow> 'w endpoint \<Rightarrow> ('w \<times> event list) endpoint" where
  "traced_endpoint time ep =
     \<lparr>ep_send = (\<lambda>frame (w, es). case ep_send ep frame w of (r, w) \<Rightarrow> (r, w, es @ [Sent (time w) frame])),
      ep_wait = (\<lambda>ms (w, es). case ep_wait ep ms w of (r, w) \<Rightarrow> (r, w, es)),
      ep_receive = (\<lambda>buf (w, es). case ep_receive ep buf w of (r, buf, w) \<Rightarrow>
        (r, buf, w, es @ (case r of Inr (Some n) \<Rightarrow> [Read (take n buf)] | _ \<Rightarrow> [])))\<rparr>"

interpretation traced: world_simulation "\<lambda>v u. fst u = v" ep ck "traced_endpoint time ep" "beside ck"
  for time :: "'w \<Rightarrow> timestamp" and ep :: "'w endpoint" and ck :: "'w clock"
  by unfold_locales
    (auto simp: traced_endpoint_def beside_def same_run_def split: prod.splits)

lemma beside_monotonic:
  assumes "monotonic_clock ck time"
  shows "monotonic_clock (beside ck) (\<lambda>u. time (fst u))"
  using assms unfolding monotonic_clock_def beside_def by (auto split: prod.splits)

text \<open>Beside the log, the clock and an endpoint that never goes back in time are what the engine relies on.\<close>

definition never_back :: "('w \<Rightarrow> timestamp) \<Rightarrow> 'w endpoint \<Rightarrow> bool" where
  "never_back time ep \<longleftrightarrow>
     (\<forall>f w. time w \<le> time (snd (ep_send ep f w))) \<and> (\<forall>ms w. time w \<le> time (snd (ep_wait ep ms w)))
     \<and> (\<forall>buf w. time w \<le> time (snd (snd (ep_receive ep buf w))))"

lemma traced_timed_endpoint:
  assumes "monotonic_clock ck time" and "never_back time ep"
  shows "timed_endpoint (beside ck) (\<lambda>u. time (fst u)) (traced_endpoint time ep) snd"
proof (intro timed_endpoint.intro timed_endpoint_axioms.intro beside_monotonic assms(1))
  fix frame :: "u8 list" and u r u'
  assume "ep_send (traced_endpoint time ep) frame u = (r, u')"
  moreover have "time (fst u) \<le> time (snd (ep_send ep frame (fst u)))"
    using assms(2) by (simp add: never_back_def)
  ultimately show "\<exists>t. snd u' = snd u @ [Sent t frame] \<and> time (fst u) \<le> t \<and> t \<le> time (fst u')"
    by (auto simp: traced_endpoint_def split: prod.splits)
next
  fix ms u r u'
  assume "ep_wait (traced_endpoint time ep) ms u = (r, u')"
  moreover have "time (fst u) \<le> time (snd (ep_wait ep ms (fst u)))"
    using assms(2) by (simp add: never_back_def)
  ultimately show "time (fst u) \<le> time (fst u') \<and> snd u' = snd u"
    by (auto simp: traced_endpoint_def split: prod.splits)
next
  fix buf :: "u8 list" and u r buf' u'
  assume "ep_receive (traced_endpoint time ep) buf u = (r, buf', u')"
  moreover have "time (fst u) \<le> time (snd (snd (ep_receive ep buf (fst u))))"
    using assms(2) by (simp add: never_back_def)
  ultimately show "time (fst u) \<le> time (fst u')
      \<and> snd u' = snd u @ (case r of Inr (Some n) \<Rightarrow> [Read (take n buf')] | _ \<Rightarrow> [])"
    by (auto simp: traced_endpoint_def split: prod.splits)
qed (auto simp: beside_def split: prod.splits)

end
