(* ===== verification/Macos_Backend.thy ===== *)
theory Macos_Backend
  imports Macos_Discovery Linux_Backend Engine_Simulation "HOL-Library.Sublist"
begin

text \<open>
  \<^verbatim>\<open>src/macos_scanner.rs\<close>, \<^verbatim>\<open>src/macos_monitor.rs\<close>: a scan, a probe and a listen on a named interface,
  over the Berkeley Packet Filter device of \<open>Bpf_Endpoint\<close>. The engine runs in the world of the
  kernel together with the endpoint, which receiving changes; the endpoint is dropped at the end.
\<close>

section \<open>Entry points\<close>

definition with_endpoint :: "('w \<times> 'e \<Rightarrow> ('s + 'a) \<times> 'w \<times> 'e) \<Rightarrow> 'e \<Rightarrow> ('w, 's, 'a) op" where
  "with_endpoint run e w = (case run (w, e) of (r, w, e) \<Rightarrow> (r, w))"

definition macos_perform_arp_scan ::
    "nat \<Rightarrow> nat \<Rightarrow> nat \<Rightarrow> (f64 \<Rightarrow> nat \<Rightarrow> f64) \<Rightarrow> 'w macos_kernel \<Rightarrow> 'w clock \<Rightarrow> string \<Rightarrow> duration
     \<Rightarrow> duration \<Rightarrow> nat \<Rightarrow> scan_wire_options \<Rightarrow> rate_limited_scan_timing option
     \<Rightarrow> ('w, stop, scan_outcome) op" where
  "macos_perform_arp_scan fuel drain_fuel receive_fuel pw k ck name receive_timeout pacing rounds wire
       rate_limit =
     op_then (op_map_err Failed (op_lift
       (validate_scan_timing_before_socket pw receive_timeout pacing rounds wire rate_limit))) (\<lambda>_.
     op_then (op_map_err Failed (macos_discover_interface_scan_addresses k name)) (\<lambda>addresses.
     op_then (op_map_err Failed (op_lift (full_subnet_scan_plan addresses))) (\<lambda>plan.
     op_then (op_map_err Failed (open_macos_link_layer_endpoint k name)) (\<lambda>endpoint.
     with_endpoint
       (collect_scan_over_endpoint fuel drain_fuel pw (macos_endpoint receive_fuel k) (beside ck)
         \<lparr>esr_targets = plan_targets plan, esr_transmit = transmit_context addresses wire,
          esr_acceptance = plan_acceptance plan, esr_receive_timeout = receive_timeout,
          esr_pacing = pacing, esr_scan_round_count = rounds, esr_rate_limit = rate_limit\<rparr>) endpoint))))"

definition macos_perform_arp_probe ::
    "nat \<Rightarrow> nat \<Rightarrow> nat \<Rightarrow> (f64 \<Rightarrow> nat \<Rightarrow> f64) \<Rightarrow> 'w macos_kernel \<Rightarrow> 'w clock \<Rightarrow> string \<Rightarrow> ipv4
     \<Rightarrow> duration \<Rightarrow> duration \<Rightarrow> nat \<Rightarrow> scan_wire_options \<Rightarrow> rate_limited_scan_timing option
     \<Rightarrow> ('w, stop, scan_outcome) op" where
  "macos_perform_arp_probe fuel drain_fuel receive_fuel pw k ck name target receive_timeout pacing rounds
       wire rate_limit =
     op_then (op_map_err Failed (op_lift
       (validate_scan_timing_before_socket pw receive_timeout pacing rounds wire rate_limit))) (\<lambda>_.
     op_then (op_map_err Failed (macos_discover_interface_scan_addresses k name)) (\<lambda>addresses.
     op_then (op_map_err Failed (op_lift (validate_strict_interior_scan_target_ipv4_address name target
       (isa_source_ipv4_address addresses) (isa_ipv4_netmask addresses)))) (\<lambda>_.
     op_then (op_map_err Failed (open_macos_link_layer_endpoint k name)) (\<lambda>endpoint.
     with_endpoint
       (collect_scan_over_endpoint fuel drain_fuel pw (macos_endpoint receive_fuel k) (beside ck)
         \<lparr>esr_targets = [target], esr_transmit = transmit_context addresses wire,
          esr_acceptance = ExactTarget target, esr_receive_timeout = receive_timeout,
          esr_pacing = pacing, esr_scan_round_count = rounds, esr_rate_limit = rate_limit\<rparr>) endpoint))))"

definition macos_perform_passive_arp_monitor ::
    "nat \<Rightarrow> nat \<Rightarrow> nat \<Rightarrow> 'w macos_kernel \<Rightarrow> 'w clock \<Rightarrow> string \<Rightarrow> duration
     \<Rightarrow> ('w, stop, monitor_listen_outcome) op" where
  "macos_perform_passive_arp_monitor fuel drain_fuel receive_fuel k ck name timeout =
     op_then (op_map_err Failed (monitor_deadline ck timeout)) (\<lambda>_.
     op_then (op_map_err Failed (macos_discover_monitor_interface_identity k name)) (\<lambda>identity.
     op_then (op_map_err Failed (open_macos_link_layer_endpoint k name)) (\<lambda>endpoint.
     with_endpoint
       (listen_for_passive_arp fuel drain_fuel (macos_endpoint receive_fuel k) (beside ck)
         \<lparr>mlr_local_ipv4_addresses = mii_ipv4_addresses identity,
          mlr_local_mac_address = mii_source_mac_address identity, mlr_timeout = timeout\<rparr>) endpoint)))"

section \<open>The kernel's log\<close>

text \<open>
  The kernel's calls beside a clock and a log: \<^verbatim>\<open>write\<close> transmits a frame, \<^verbatim>\<open>read\<close> hands over a buffer
  of records, never more than it was asked for, and no other call does either.
\<close>

definition macos_kernel_logs :: "'w macos_kernel \<Rightarrow> ('w \<Rightarrow> timestamp) \<Rightarrow> ('w \<Rightarrow> event list) \<Rightarrow> bool" where
  "macos_kernel_logs k time events \<longleftrightarrow>
     quiet_call time events (mk_getifaddrs k)
     \<and> (\<forall>name. quiet_call time events (mk_if_nametoindex k name))
     \<and> (\<forall>path. quiet_call time events (mk_open_read_write k path))
     \<and> (\<forall>d c request. quiet_call time events (mk_ioctl_interface k d c request))
     \<and> (\<forall>d c program. quiet_call time events (mk_ioctl_filter k d c program))
     \<and> (\<forall>d c v. quiet_call time events (mk_ioctl_set_unsigned k d c v))
     \<and> (\<forall>d c. quiet_call time events (mk_ioctl_get_unsigned k d c))
     \<and> (\<forall>d. quiet_call time events (mk_fcntl_get_flags k d))
     \<and> (\<forall>d f. quiet_call time events (mk_fcntl_set_flags k d f))
     \<and> (\<forall>d t. quiet_call time events (mk_poll k d t))
     \<and> (\<forall>d f w r w'. mk_write k d f w = (r, w') \<longrightarrow>
          (\<exists>t. events w' = events w @ [Sent t f] \<and> time w \<le> t \<and> t \<le> time w'))
     \<and> (\<forall>d n w r w'. mk_read k d n w = (r, w') \<longrightarrow> time w \<le> time w' \<and>
          (case r of Inl _ \<Rightarrow> events w' = events w
           | Inr b \<Rightarrow> length b \<le> n \<and> events w' = (if b = [] then events w else events w @ [Read b])))"

lemma macos_calls_quiet [quiet]:
  assumes "macos_kernel_logs k time events"
  shows "quiet_call time events (mk_getifaddrs k)" "quiet_call time events (mk_if_nametoindex k name)"
    "quiet_call time events (mk_open_read_write k path)"
    "quiet_call time events (mk_ioctl_interface k d c request)"
    "quiet_call time events (mk_ioctl_filter k d c program)"
    "quiet_call time events (mk_ioctl_set_unsigned k d c v)"
    "quiet_call time events (mk_ioctl_get_unsigned k d c)"
    "quiet_call time events (mk_fcntl_get_flags k d)" "quiet_call time events (mk_fcntl_set_flags k d f)"
    "quiet_call time events (mk_poll k d t)"
  using assms by (simp_all add: macos_kernel_logs_def)

lemma try_devices_quiet [quiet]:
  assumes "macos_kernel_logs k time events"
  shows "quiet_call time events (try_bpf_devices k minors last_error)"
  unfolding quiet_call_def
proof (intro allI impI)
  fix w r w'
  assume "try_bpf_devices k minors last_error w = (r, w')"
  then show "time w \<le> time w' \<and> events w' = events w"
  proof (induction minors arbitrary: last_error w)
    case (Cons m minors)
    obtain q w1 where opened: "mk_open_read_write k (''/dev/bpf'' @ show_nat m) w = (q, w1)" by fastforce
    then have "time w \<le> time w1 \<and> events w1 = events w"
      using macos_calls_quiet(3) [OF assms] unfolding quiet_call_def by blast
    then show ?case
      using Cons.prems opened Cons.IH by (fastforce split: sum.splits if_splits)
  qed simp
qed

lemma open_device_quiet [quiet]:
  assumes "macos_kernel_logs k time events"
  shows "quiet_call time events (open_macos_link_layer_endpoint k name)"
  unfolding open_macos_link_layer_endpoint_def open_bpf_device_def set_bpf_interface_def
    set_bpf_filter_def set_bpf_see_sent_def set_bpf_immediate_def set_bpf_header_complete_def
    set_bpf_unsigned_option_def get_bpf_buffer_length_def set_file_descriptor_nonblocking_def
  by (simp add: arp_capture_filter_def u32_max_def) (intro quiet assms)

lemma macos_discover_quiet [quiet]:
  assumes "macos_kernel_logs k time events"
  shows "quiet_call time events (macos_discover_interface_scan_addresses k name)"
    "quiet_call time events (macos_discover_monitor_interface_identity k name)"
  unfolding macos_discover_interface_scan_addresses_def macos_discover_monitor_interface_identity_def
    collect_interface_address_records_def split_def
  by (intro quiet assms)+

section \<open>The endpoint beside a log\<close>

text \<open>
  What was handed over: the frames of the buffers read so far, in order and each from its start,
  except those still in the endpoint's buffer.
\<close>

definition handed_over :: "u8 list list \<Rightarrow> u8 list list \<Rightarrow> u8 list list \<Rightarrow> bool" where
  "handed_over given left buffers \<longleftrightarrow>
     (\<exists>frames. list_all2 prefix given frames \<and> frames @ left = concat (map (\<lambda>b. bpf_frames b 0) buffers))"

lemma handed_over_next:
  "handed_over given (f # fs) buffers \<Longrightarrow> handed_over (given @ [take n f]) fs buffers"
  unfolding handed_over_def
proof (elim exE conjE)
  fix frames
  assume "list_all2 prefix given frames" "frames @ f # fs = concat (map (\<lambda>b. bpf_frames b 0) buffers)"
  then show "\<exists>frames. list_all2 prefix (given @ [take n f]) frames
      \<and> frames @ fs = concat (map (\<lambda>b. bpf_frames b 0) buffers)"
    by (intro exI [of _ "frames @ [f]"]) (simp add: list_all2_appendI take_is_prefix)
qed

lemma handed_over_read:
  "handed_over given [] buffers \<Longrightarrow> handed_over given (bpf_frames b 0) (buffers @ [b])"
  by (auto simp: handed_over_def)

definition frames_given :: "(stop + nat option) \<Rightarrow> u8 list \<Rightarrow> u8 list list" where
  "frames_given r buf = (case r of Inr (Some n) \<Rightarrow> [take n buf] | _ \<Rightarrow> [])"

lemma macos_receive_logs:
  assumes "macos_kernel_logs k time events"
  shows "macos_receive fuel k buf (w, e) = (r, buf', w', e') \<Longrightarrow> bpf_endpoint_valid e
    \<Longrightarrow> handed_over given (buffered_frames e) (reads_of (events w)) \<Longrightarrow>
    bpf_endpoint_valid e' \<and> time w \<le> time w' \<and> sent_of (events w') = sent_of (events w)
    \<and> handed_over (given @ frames_given r buf') (buffered_frames e') (reads_of (events w'))"
proof (induction fuel arbitrary: w e)
  case (Suc fuel)
  obtain e1 where same: "same_device e e1" and e1: "case buffered_frames e of
      [] \<Rightarrow> take_buffered_frame buf e = (Inr None, buf, e1) \<and> buffered_frames e1 = []
    | f # fs \<Rightarrow> take_buffered_frame buf e =
        (Inr (Some (min (length f) (length buf))), write_slice 0 (take (length buf) f) buf, e1)
        \<and> buffered_frames e1 = fs"
    using take_buffered_frame_result [OF Suc.prems(2)] by blast
  then have valid: "bpf_endpoint_valid e1" by (simp add: same_device_def)
  show ?case
  proof (cases "buffered_frames e")
    case (Cons f fs)
    then have "r = Inr (Some (min (length f) (length buf)))" "buf' = write_slice 0 (take (length buf) f) buf"
      "w' = w" "e' = e1" "buffered_frames e1 = fs"
      using Suc.prems(1) e1 by (simp_all add: macos_receive.simps(2))
    moreover have "take (min (length f) (length buf)) (write_slice 0 (take (length buf) f) buf) =
        take (length buf) f"
      by (simp add: write_slice_def min_def)
    ultimately show ?thesis
      using valid handed_over_next Suc.prems(3) Cons by (simp add: frames_given_def)
  next
    case Nil
    then have take: "take_buffered_frame buf e = (Inr None, buf, e1)" and none: "buffered_frames e1 = []"
      using e1 by simp_all
    have H: "handed_over given [] (reads_of (events w))" using Suc.prems(3) Nil by simp
    note step = macos_receive_step [OF take, of fuel k w]
    obtain q w1 where run: "mk_read k (mbe_bpf_device e1) (length (mbe_read_buffer e1)) w = (q, w1)"
      by fastforce
    then have log: "time w \<le> time w1" "case q of Inl _ \<Rightarrow> events w1 = events w
        | Inr b \<Rightarrow> length b \<le> length (mbe_read_buffer e1)
            \<and> events w1 = (if b = [] then events w else events w @ [Read b])"
      using assms unfolding macos_kernel_logs_def by blast+
    show ?thesis
    proof (cases q)
      case (Inr b)
      show ?thesis
      proof (cases "b = []")
        case False
        then have len: "length b \<le> length (mbe_read_buffer e1)" and w1: "events w1 = events w @ [Read b]"
          using log Inr by simp_all
        have "macos_receive fuel k buf (w1, refilled b e1) = (r, buf', w', e')"
          using Suc.prems(1) step run Inr False by simp
        from Suc.IH [OF this] refilled [OF len] handed_over_read [OF H] show ?thesis
          using w1 log(1) by (simp add: same_device_def)
      qed (use Suc.prems(1) step run Inr valid none H log in \<open>auto simp: frames_given_def\<close>)
    next
      case (Inl x)
      show ?thesis
      proof (cases "io_errno x \<noteq> Some macos_eagain \<and> io_errno x \<noteq> Some macos_ewouldblock
          \<and> io_kind x = Interrupted")
        case True
        then have "macos_receive fuel k buf (w1, e1) = (r, buf', w', e')"
          using Suc.prems(1) step run Inl by simp
        from Suc.IH [OF this valid] none H log Inl show ?thesis by simp
      qed (use Suc.prems(1) step run Inl valid none H log in \<open>auto simp: frames_given_def split: if_splits\<close>)
    qed
  qed
qed (auto simp: frames_given_def)

section \<open>The engine over the endpoint\<close>

definition macos_related ::
    "('w \<Rightarrow> event list) \<Rightarrow> 'w \<times> macos_bpf_endpoint \<Rightarrow> ('w \<times> macos_bpf_endpoint) \<times> event list \<Rightarrow> bool" where
  "macos_related events v u \<longleftrightarrow> fst u = v \<and> bpf_endpoint_valid (snd v)
     \<and> map snd (sent_of (snd u)) = map snd (sent_of (events (fst v)))
     \<and> handed_over (reads_of (snd u)) (buffered_frames (snd v)) (reads_of (events (fst v)))"

definition time_beside :: "('w \<Rightarrow> timestamp) \<Rightarrow> 'w \<times> 'e \<Rightarrow> timestamp" where
  "time_beside time v = time (fst v)"

abbreviation traced_macos ::
    "('w \<Rightarrow> timestamp) \<Rightarrow> nat \<Rightarrow> 'w macos_kernel \<Rightarrow> (('w \<times> macos_bpf_endpoint) \<times> event list) endpoint" where
  "traced_macos time rfuel k \<equiv> traced_endpoint (time_beside time) (macos_endpoint rfuel k)"

lemma macos_receive_time:
  assumes "macos_kernel_logs k time events"
  shows "time (fst v) \<le> time (fst (snd (snd (macos_receive fuel k buf v))))"
proof (induction fuel arbitrary: buf v)
  case 0
  then show ?case by (cases v) simp
next
  case (Suc fuel)
  obtain w e where v: "v = (w, e)" by (cases v)
  obtain r buf' e' where buffered: "take_buffered_frame buf e = (r, buf', e')" by (metis prod_cases3)
  obtain q w1 where run: "mk_read k (mbe_bpf_device e') (length (mbe_read_buffer e')) w = (q, w1)" by fastforce
  then have log: "time w \<le> time w1" using assms unfolding macos_kernel_logs_def by blast
  have "time w1 \<le> time (fst (snd (snd (macos_receive fuel k b (w1, x)))))" for b x
    using Suc.IH [of "(w1, x)" b] by simp
  then show ?case
    using log by (auto simp: v macos_receive.simps(2) buffered run intro: le_trans
        split: sum.split option.split)
qed

lemma macos_write_log:
  "macos_kernel_logs k time events \<Longrightarrow> mk_write k d f w = (r, w') \<Longrightarrow>
     \<exists>t. events w' = events w @ [Sent t f] \<and> time w \<le> t \<and> t \<le> time w'"
  unfolding macos_kernel_logs_def by blast

lemma macos_poll_log:
  "macos_kernel_logs k time events \<Longrightarrow> mk_poll k d t w = (r, w') \<Longrightarrow> time w \<le> time w' \<and> events w' = events w"
  unfolding macos_kernel_logs_def quiet_call_def by blast

lemma macos_wait_run:
  "macos_wait k ms (w, e) = (r, v) \<Longrightarrow> \<exists>q. mk_poll k (mbe_bpf_device e) ms w = (q, fst v) \<and> snd v = e"
  by (auto simp: macos_wait_def split: prod.splits sum.splits if_splits)

lemma macos_send_run:
  "macos_send k f (w, e) = (r, v) \<Longrightarrow> \<exists>q. mk_write k (mbe_bpf_device e) f w = (q, fst v) \<and> snd v = e"
  by (auto simp: macos_send_def split: prod.splits sum.splits)

lemma macos_never_back:
  assumes "macos_kernel_logs k time events"
  shows "never_back (time_beside time) (macos_endpoint rfuel k)"
  unfolding never_back_def time_beside_def
proof (intro conjI allI)
  fix f :: "u8 list" and ms :: nat and buf :: "u8 list" and v :: "'a \<times> macos_bpf_endpoint"
  obtain w e where v: "v = (w, e)" by (cases v)
  obtain r v1 where send: "macos_send k f (w, e) = (r, v1)" by (cases "macos_send k f (w, e)")
  then obtain q where "mk_write k (mbe_bpf_device e) f w = (q, fst v1)" using macos_send_run [OF send] by blast
  from macos_write_log [OF assms this] show "time (fst v) \<le> time (fst (snd (ep_send (macos_endpoint rfuel k) f v)))"
    by (auto simp: v macos_endpoint_def send)
  obtain r v1 where wait: "macos_wait k ms (w, e) = (r, v1)" by (cases "macos_wait k ms (w, e)")
  then obtain q where "mk_poll k (mbe_bpf_device e) ms w = (q, fst v1)" using macos_wait_run [OF wait] by blast
  from macos_poll_log [OF assms this] show "time (fst v) \<le> time (fst (snd (ep_wait (macos_endpoint rfuel k) ms v)))"
    by (simp add: v macos_endpoint_def wait)
  show "time (fst v) \<le> time (fst (snd (snd (ep_receive (macos_endpoint rfuel k) buf v))))"
    using macos_receive_time [OF assms] by (simp add: macos_endpoint_def)
qed

lemma beside_clock_same:
  assumes "clock_logs ck time events" and "macos_related events v u"
  shows "same_run (macos_related events) (ck_now (beside ck) v) (ck_now (beside (beside ck)) u)"
    and "macos_related events (ck_sleep_until (beside ck) t v) (ck_sleep_until (beside (beside ck)) t u)"
    and "macos_related events (ck_sleep_for (beside ck) d v) (ck_sleep_for (beside (beside ck)) d u)"
    and "macos_related events (ck_unreadable (beside ck) d v) (ck_unreadable (beside (beside ck)) d u)"
    and "macos_related events (ck_after_send (beside ck) v) (ck_after_send (beside (beside ck)) u)"
  using assms
  by (auto simp: clock_logs_def macos_related_def beside_def same_run_def split: prod.splits)

lemma macos_simulation:
  assumes k: "macos_kernel_logs k time events" and ck: "clock_logs ck time events"
  shows "world_simulation (macos_related events) (macos_endpoint rfuel k) (beside ck)
    (traced_macos time rfuel k) (beside (beside ck))"
proof (unfold_locales; (rule beside_clock_same [OF ck]; assumption)?)
  fix v u and frame :: "u8 list"
  assume R: "macos_related events v u"
  obtain w e where v: "v = (w, e)" by (cases v)
  obtain es where u: "u = ((w, e), es)" using R by (cases u) (simp add: macos_related_def v)
  obtain r v1 where send: "macos_send k frame (w, e) = (r, v1)" by (cases "macos_send k frame (w, e)")
  then obtain q where q: "mk_write k (mbe_bpf_device e) frame w = (q, fst v1)" "snd v1 = e"
    using macos_send_run [OF send] by blast
  obtain t where "events (fst v1) = events w @ [Sent t frame]" using macos_write_log [OF k q(1)] by blast
  then show "same_run (macos_related events) (ep_send (macos_endpoint rfuel k) frame v)
      (ep_send (traced_macos time rfuel k) frame u)"
    using R q(2) by (simp add: same_run_def macos_related_def traced_endpoint_def macos_endpoint_def v u send)
next
  fix v u and ms :: nat
  assume R: "macos_related events v u"
  obtain w e where v: "v = (w, e)" by (cases v)
  obtain es where u: "u = ((w, e), es)" using R by (cases u) (simp add: macos_related_def v)
  obtain r v1 where wait: "macos_wait k ms (w, e) = (r, v1)" by (cases "macos_wait k ms (w, e)")
  then obtain q where q: "mk_poll k (mbe_bpf_device e) ms w = (q, fst v1)" "snd v1 = e"
    using macos_wait_run [OF wait] by blast
  show "same_run (macos_related events) (ep_wait (macos_endpoint rfuel k) ms v)
      (ep_wait (traced_macos time rfuel k) ms u)"
    using R q(2) macos_poll_log [OF k q(1)]
    by (simp add: same_run_def macos_related_def traced_endpoint_def macos_endpoint_def v u wait)
next
  fix v u and buf :: "u8 list"
  assume R: "macos_related events v u"
  obtain w e where v: "v = (w, e)" by (cases v)
  obtain r buf' w' e' where run: "macos_receive rfuel k buf (w, e) = (r, buf', w', e')" by (metis prod_cases4)
  obtain es where u: "u = ((w, e), es)" using R by (cases u) (simp add: macos_related_def v)
  have "macos_related events (w', e') ((w', e'), es @ map Read (frames_given r buf'))"
    using macos_receive_logs [OF k run, of "reads_of es"] R by (simp add: macos_related_def u v)
  then show "\<exists>r buf' v' u'. ep_receive (macos_endpoint rfuel k) buf v = (r, buf', v')
      \<and> ep_receive (traced_macos time rfuel k) buf u = (r, buf', u') \<and> macos_related events v' u'"
    using run by (simp add: v u macos_endpoint_def traced_endpoint_def frames_given_def
        split: sum.splits option.splits)
qed (simp_all add: beside_def)

section \<open>The way to the device\<close>

definition classified_addresses :: "classified_scan_interface \<Rightarrow> interface_scan_addresses" where
  "classified_addresses c =
     \<lparr>isa_source_ipv4_address = csi_source_ipv4_address c, isa_ipv4_netmask = csi_ipv4_netmask c,
      isa_source_mac_address = csi_source_mac_address c\<rparr>"

lemma macos_engine_reached:
  assumes k: "macos_kernel_logs k time events" and q: "macos_quiescent k nodes indexes"
    and run: "op_then (op_map_err Failed (macos_discover_interface_scan_addresses k name)) (\<lambda>addresses.
       op_then (op_map_err Failed (op_lift (check addresses))) (\<lambda>plan.
       op_then (op_map_err Failed (open_macos_link_layer_endpoint k name)) (\<lambda>endpoint.
       engine addresses plan endpoint))) w = (r, w')"
  obtains "events w' = events w" "\<exists>e. r = Inl e"
  | c plan endpoint w1 where "macos_usable (lowered nodes) name c" "check (classified_addresses c) = Ok plan"
      "events w1 = events w" "bpf_endpoint_valid endpoint" "buffered_frames endpoint = []"
      "engine (classified_addresses c) plan endpoint w1 = (r, w')"
proof -
  have quiets: "quiet_call time events (op_map_err Failed (macos_discover_interface_scan_addresses k name))"
    "quiet_call time events (op_map_err Failed (open_macos_link_layer_endpoint k name))"
    by (intro quiet k)+
  from run quiets(1) show thesis
  proof (cases rule: op_then_quiet)
    case 1
    then show thesis using that(1) by blast
  next
    case (2 addresses w1)
    then have w1: "w1 = w" and "\<exists>c. macos_usable (lowered nodes) name c \<and> addresses = classified_addresses c"
      using macos_discover_quiescent [OF q, of name w addresses w1]
      by (simp_all add: classified_addresses_def)
    then obtain c where c: "macos_usable (lowered nodes) name c" "addresses = classified_addresses c" by blast
    show thesis
    proof (cases "check addresses")
      case (Inl e)
      then have "r = Inl (Failed e)" "w' = w" using 2(4) w1 by simp_all
      then show thesis using that(1) by simp
    next
      case (Inr plan)
      then have "op_then (op_map_err Failed (open_macos_link_layer_endpoint k name))
          (\<lambda>endpoint. engine addresses plan endpoint) w = (r, w')"
        using 2(4) w1 by simp
      from this quiets(2) show thesis
      proof (cases rule: op_then_quiet)
        case 1
        then show thesis using that(1) by blast
      next
        case (2 endpoint w3)
        then have "bpf_endpoint_valid endpoint \<and> buffered_frames endpoint = []"
          by (intro open_macos_valid) simp
        then show thesis using that(2) 2 c Inr by blast
      qed
    qed
  qed
qed

text \<open>A frame the engine read is one of the captured frames, or its start when it does not fit.\<close>

definition captured_in_order :: "u8 list list \<Rightarrow> u8 list list \<Rightarrow> bool" where
  "captured_in_order frames buffers \<longleftrightarrow> (\<exists>left. handed_over frames left buffers)"

lemma captured_in_order_iff:
  "captured_in_order frames buffers \<longleftrightarrow>
     (\<exists>n. list_all2 prefix frames (take n (concat (map (\<lambda>b. bpf_frames b 0) buffers))))"
proof
  assume "captured_in_order frames buffers"
  then obtain left fs where "list_all2 prefix frames fs" "fs @ left = concat (map (\<lambda>b. bpf_frames b 0) buffers)"
    by (auto simp: captured_in_order_def handed_over_def)
  then show "\<exists>n. list_all2 prefix frames (take n (concat (map (\<lambda>b. bpf_frames b 0) buffers)))"
    by (metis append_eq_conv_conj)
next
  assume "\<exists>n. list_all2 prefix frames (take n (concat (map (\<lambda>b. bpf_frames b 0) buffers)))"
  then show "captured_in_order frames buffers"
    by (metis captured_in_order_def handed_over_def append_take_drop_id)
qed

text \<open>A run of the engine over the device is a run over the traced endpoint.\<close>

lemma macos_related_start:
  "bpf_endpoint_valid e \<Longrightarrow> buffered_frames e = [] \<Longrightarrow> events w = [] \<Longrightarrow>
     macos_related events (w, e) ((w, e), [])"
  by (simp add: macos_related_def handed_over_def)

lemma with_endpoint_traced:
  assumes "same_run (macos_related events) (run (w, e)) y" and "with_endpoint run e w = (r, w')"
  shows "\<exists>u. y = (r, u) \<and> map snd (sent_of (snd u)) = map snd (sent_of (events w'))
    \<and> captured_in_order (reads_of (snd u)) (reads_of (events w'))"
  using assms
  by (cases y) (auto simp: with_endpoint_def same_run_def macos_related_def captured_in_order_def
      split: prod.splits)

lemma clock_monotonic: "clock_logs ck time events \<Longrightarrow> monotonic_clock ck time"
  by (simp add: clock_logs_def)

lemma macos_traced_endpoint:
  assumes "macos_kernel_logs k time events" and "clock_logs ck time events"
  shows "timed_endpoint (beside (beside ck)) (\<lambda>u. time_beside time (fst u)) (traced_macos time rfuel k) snd"
proof -
  have "monotonic_clock (beside ck) (time_beside time)"
    using beside_monotonic [OF clock_monotonic [OF assms(2)]] by (simp add: time_beside_def [abs_def])
  then show ?thesis by (rule traced_timed_endpoint [OF _ macos_never_back [OF assms(1)]])
qed

text \<open>A scan fails without a call that transmits, or runs the engine.\<close>

lemma macos_scan_engine:
  assumes k: "macos_kernel_logs k time events" and ck: "clock_logs ck time events"
    and q: "macos_quiescent k nodes indexes"
    and run: "macos_perform_arp_scan fuel dfuel rfuel pw k ck name timeout pacing rounds wire rate w = (r, w')"
    and empty: "events w = []"
  obtains "events w' = []" "\<exists>e. r = Inl e"
  | c plan v u where "macos_usable (lowered nodes) name c"
      "full_subnet_scan_plan (classified_addresses c) = Ok plan"
      "collect_scan_over_endpoint fuel dfuel pw (traced_macos time rfuel k) (beside (beside ck))
         \<lparr>esr_targets = plan_targets plan, esr_transmit = transmit_context (classified_addresses c) wire,
          esr_acceptance = plan_acceptance plan, esr_receive_timeout = timeout,
          esr_pacing = pacing, esr_scan_round_count = rounds, esr_rate_limit = rate\<rparr> (v, []) = (r, u)"
      "map snd (sent_of (snd u)) = map snd (sent_of (events w'))"
      "captured_in_order (reads_of (snd u)) (reads_of (events w'))"
proof (cases "validate_scan_timing_before_socket pw timeout pacing rounds wire rate")
  case (Inl e)
  then have "r = Inl (Failed e)" "w' = w" using run by (simp_all add: macos_perform_arp_scan_def)
  then show thesis using that(1) empty by simp
next
  case (Inr s)
  note run [unfolded macos_perform_arp_scan_def
      op_map_lift [where r = "validate_scan_timing_before_socket pw timeout pacing rounds wire rate"],
      unfolded Inr sum.case]
  from macos_engine_reached [OF k q this] show thesis
  proof cases
    case (2 c plan endpoint w1)
    have "events w1 = []" using 2(3) empty by simp
    note found = 2(1,2)
    note start = macos_related_start [where events = events, OF 2(4,5) \<open>events w1 = []\<close>]
    from with_endpoint_traced [OF world_simulation.scan_same [OF macos_simulation [OF k ck] start] 2(6)]
    show thesis by (elim exE conjE) (rule that(2) [OF found])
  qed (use that(1) empty in simp)
qed

lemma macos_listen_engine:
  assumes k: "macos_kernel_logs k time events" and ck: "clock_logs ck time events"
    and run: "macos_perform_passive_arp_monitor fuel dfuel rfuel k ck name timeout w = (r, w')"
    and empty: "events w = []"
  obtains "events w' = []" "\<exists>e. r = Inl e"
  | identity w1 w2 v u where "macos_discover_monitor_interface_identity k name w1 = (Inr identity, w2)"
      "listen_for_passive_arp fuel dfuel (traced_macos time rfuel k) (beside (beside ck))
        \<lparr>mlr_local_ipv4_addresses = mii_ipv4_addresses identity,
         mlr_local_mac_address = mii_source_mac_address identity, mlr_timeout = timeout\<rparr> (v, []) = (r, u)"
      "map snd (sent_of (snd u)) = map snd (sent_of (events w'))"
      "captured_in_order (reads_of (snd u)) (reads_of (events w'))"
proof -
  have quiets: "quiet_call time events (op_map_err Failed (monitor_deadline ck timeout))"
    "quiet_call time events (op_map_err Failed (macos_discover_monitor_interface_identity k name))"
    "quiet_call time events (op_map_err Failed (open_macos_link_layer_endpoint k name))"
    by (intro quiet k deadline_quiet ck)+
  from run [unfolded macos_perform_passive_arp_monitor_def] quiets(1) show thesis
  proof (cases rule: op_then_quiet)
    case (2 d w1)
    note w1 = 2(2)
    from 2(4) quiets(2) show thesis
    proof (cases rule: op_then_quiet)
      case (2 identity w2)
      note w2 = 2(1,2)
      from 2(4) quiets(3) show thesis
      proof (cases rule: op_then_quiet)
        case (2 endpoint w3)
        have valid: "bpf_endpoint_valid endpoint \<and> buffered_frames endpoint = []"
          using 2(1) by (intro open_macos_valid) simp
        have "events w3 = []" using 2(2) w2 w1 empty by simp
        have found: "macos_discover_monitor_interface_identity k name w1 = (Inr identity, w2)" using w2(1) by simp
        note start = macos_related_start [where events = events, OF conjunct1 [OF valid] conjunct2 [OF valid] \<open>events w3 = []\<close>]
        from with_endpoint_traced [OF world_simulation.listen_same [OF macos_simulation [OF k ck] start] 2(4)]
        show thesis by (elim exE conjE) (rule that(2) [OF found])
      qed (use that(1) w1 w2 empty in simp)
    qed (use that(1) w1 empty in simp)
  qed (use that(1) empty in simp)
qed

section \<open>Properties\<close>

text \<open>
  On a macOS host at rest, a burst scan of an interface that returns an outcome found the
  interface usable and its netmask to have a host range; it transmitted, round after round, the
  request of each address of the plan of the first subnet of the interface, and nothing else; and its
  hosts are the senders of the accepted replies among the frames the device captured, which the
  endpoint took in order out of the buffers it read.
\<close>

theorem macos_scan_result:
  assumes "macos_kernel_logs k time events" and "clock_logs ck time events"
    and "macos_quiescent k nodes indexes"
    and "macos_perform_arp_scan fuel dfuel rfuel pw k ck name timeout pacing rounds wire None w
      = (Inr outcome, w')"
    and "events w = []"
  shows "\<exists>c plan frames. macos_usable (lowered nodes) name c
    \<and> full_subnet_scan_plan (classified_addresses c) = Ok plan
    \<and> map snd (sent_of (events w')) = concat (replicate rounds
        (map (request_frame (transmit_context (classified_addresses c) wire)) (plan_targets plan)))
    \<and> captured_in_order frames (reads_of (events w'))
    \<and> sorted_wrt (<) (map fst (host_pairs outcome))
    \<and> map_of (host_pairs outcome) = map_of (accepted_replies (plan_acceptance plan) frames)"
  using assms
proof (cases rule: macos_scan_engine)
  case (2 c plan start u)
  note timed_endpoint.burst_scan_events [OF macos_traced_endpoint [OF assms(1,2)] 2(3)]
  then show ?thesis
    using 2(1,2,4,5) by (intro exI [of _ c] exI [of _ plan] exI [of _ "reads_of (snd u)"])
      (simp add: bt_wf_def bt_get_map_of)
qed simp

text \<open>
  On a macOS host at rest, whatever becomes of a scan - rate limited or not, completed or failed
  half way - it transmits nothing unless the interface is usable and its subnet has a plan, and then
  only the requests of the addresses of that plan.
\<close>

theorem macos_scan_stays_in_subnet:
  assumes "macos_kernel_logs k time events" and "clock_logs ck time events"
    and "macos_quiescent k nodes indexes"
    and "macos_perform_arp_scan fuel dfuel rfuel pw k ck name timeout pacing rounds wire rate w = (r, w')"
    and "events w = []" and "sent_of (events w') \<noteq> []"
  shows "\<exists>c plan. macos_usable (lowered nodes) name c
    \<and> full_subnet_scan_plan (classified_addresses c) = Ok plan
    \<and> snd ` set (sent_of (events w')) \<subseteq>
        request_frame (transmit_context (classified_addresses c) wire) ` set (plan_targets plan)"
  using assms(1-5)
proof (cases rule: macos_scan_engine)
  case (2 c plan v u)
  have "only_requests (transmit_context (classified_addresses c) wire) (set (plan_targets plan)) (snd u)"
    using timed_endpoint.scan_only_requests [OF macos_traced_endpoint [OF assms(1,2)] 2(3)] by simp
  moreover have "snd ` set (sent_of (snd u)) = snd ` set (sent_of (events w'))"
    using arg_cong [OF 2(4), of set] by simp
  ultimately show ?thesis using 2(1,2) by (auto simp: only_requests_def)
qed (use assms(6) in simp)


section \<open>An example host\<close>

text \<open>
  A macOS host with \<^verbatim>\<open>en0\<close>, 10.0.0.1/30, over the scripted world: each read of its device returns one
  buffer of the script, which holds the record of one frame.
\<close>

definition host_nodes :: "interface_address_node list" where
  "host_nodes =
     [\<lparr>ifa_name = Some ''en0'', ifa_flags = 1, ifa_addr = Some ([20, 18, 4, 0, 6, 3, 6, 0, 101, 110, 48]
        @ [2, 0, 0, 0, 0, 1, 0, 0, 0]), ifa_netmask = None\<rparr>,
      \<lparr>ifa_name = Some ''en0'', ifa_flags = 1, ifa_addr = Some (example_inet 10 0 0 1),
       ifa_netmask = Some (example_inet 255 255 255 252)\<rparr>]"

definition host_kernel :: "scripted_world macos_kernel" where
  "host_kernel =
     \<lparr>mk_getifaddrs = op_return host_nodes, mk_if_nametoindex = (\<lambda>_. op_return 4),
      mk_open_read_write = (\<lambda>_. op_return 3), mk_ioctl_interface = (\<lambda>_ _ _. op_return ()),
      mk_ioctl_filter = (\<lambda>_ _ _. op_return ()), mk_ioctl_set_unsigned = (\<lambda>_ _ _. op_return ()),
      mk_ioctl_get_unsigned = (\<lambda>_ _. op_return 4096), mk_fcntl_get_flags = (\<lambda>_. op_return 2),
      mk_fcntl_set_flags = (\<lambda>_ _. op_return ()),
      mk_write = (\<lambda>_ f w. (Inr (length f), snd (qe_send f w))),
      mk_read = (\<lambda>_ n w. case se_inbound w of
          [] \<Rightarrow> (Inl \<lparr>io_kind = WouldBlock, io_errno = Some macos_eagain, io_text = ''''\<rparr>, w)
        | b # bs \<Rightarrow> (Inr (take n b), w\<lparr>se_inbound := bs,
            se_events := se_events w @ (if take n b = [] then [] else [Read (take n b)])\<rparr>)),
      mk_poll = (\<lambda>_ _ w. (Inr (if se_inbound w = [] then 0 else 1), w))\<rparr>"

definition host_reply :: "u8 list" where
  "host_reply = encode_request_from_layout
     ((rfc_826_ethernet_ii (MacAddress 2 0 0 0 0 9) 0x0A000002 0x0A000001)\<lparr>rl_opcode := 2\<rparr>)"

definition host_world :: scripted_world where
  "host_world = example_world\<lparr>se_inbound := [build_bpf_record host_reply]\<rparr>"

lemma host_quiescent: "macos_quiescent host_kernel host_nodes (\<lambda>_. Inr 4)"
  by (simp add: macos_quiescent_def host_kernel_def op_return_def)

lemma host_logs: "macos_kernel_logs host_kernel fc_time se_events"
  by (auto simp: macos_kernel_logs_def quiet_call_def host_kernel_def op_return_def qe_send_def
      split: list.splits)

text \<open>Such a device behaves as the queue endpoint of the source over the frames of the records.\<close>

definition queue_of :: "scripted_world \<times> macos_bpf_endpoint \<Rightarrow> scripted_world \<Rightarrow> bool" where
  "queue_of v s \<longleftrightarrow> (case v of (w, e) \<Rightarrow>
     bpf_endpoint_valid e \<and> buffered_frames e = []
     \<and> list_all2 (\<lambda>b f. bpf_frames b 0 = [f] \<and> b \<noteq> [] \<and> length b \<le> length (mbe_read_buffer e))
         (se_inbound w) (se_inbound s)
     \<and> fc_now_ns s = fc_now_ns w \<and> fc_stall_after_next_send s = fc_stall_after_next_send w)"

lemma queue_of_receive:
  assumes "queue_of (w, e) s"
  shows "\<exists>r buf' v' s'. macos_receive 2 host_kernel buf (w, e) = (r, buf', v')
    \<and> qe_receive buf s = (r, buf', s') \<and> queue_of v' s'"
proof -
  obtain e1 where same: "same_device e e1" and take: "take_buffered_frame buf e = (Inr None, buf, e1)"
    and none: "buffered_frames e1 = []"
    using take_buffered_frame_result [of e buf] assms by (auto simp: queue_of_def)
  note step = macos_receive_step [OF take, of "Suc 0" host_kernel w]
  note q = assms [unfolded queue_of_def prod.case]
  show ?thesis
  proof (cases "se_inbound w")
    case Nil
    then have "se_inbound s = []" using q by simp
    then show ?thesis
      using step Nil same none q
      by (simp add: host_kernel_def qe_receive_def queue_of_def same_device_def numeral_2_eq_2)
  next
    case (Cons b bs)
    then obtain f fs where s: "se_inbound s = f # fs" "bpf_frames b 0 = [f]" "b \<noteq> []"
      and len: "length b \<le> length (mbe_read_buffer e1)"
      using q same by (auto simp: list_all2_Cons1 same_device_def)
    let ?w1 = "w\<lparr>se_inbound := bs, se_events := se_events w @ [Read b]\<rparr>"
    have run: "macos_receive 2 host_kernel buf (w, e) = macos_receive 1 host_kernel buf (?w1, refilled b e1)"
      using step Cons s(3) len by (simp add: host_kernel_def numeral_2_eq_2)
    obtain e2 where e2: "same_device (refilled b e1) e2" "buffered_frames e2 = []"
      "take_buffered_frame buf (refilled b e1) =
        (Inr (Some (min (length f) (length buf))), write_slice 0 (take (length buf) f) buf, e2)"
      using take_buffered_frame_result [of "refilled b e1" buf] refilled [OF len] s(2)
      by (auto simp: same_device_def)
    have "macos_receive 1 host_kernel buf (?w1, refilled b e1) =
        (Inr (Some (min (length f) (length buf))), write_slice 0 (take (length buf) f) buf, ?w1, e2)"
      using e2(3) macos_receive.simps(2) [of 0 host_kernel buf ?w1 "refilled b e1"] by simp
    moreover have "take (min (length f) (length buf)) f = take (length buf) f" by (simp add: min_def)
    moreover have "same_device e e2"
      using same_device_trans [OF same same_device_trans [OF refilled(1) [OF len] e2(1)]] .
    ultimately show ?thesis
      using run s q Cons e2(2)
      by (simp add: qe_receive_def Let_def queue_of_def same_device_def list_all2_Cons1)
  qed
qed

lemma fc_queue:
  "queue_of v s \<Longrightarrow> fc_time (fst v) = fc_time s"
  "queue_of v s \<Longrightarrow> queue_of (fc_set n (fst v), snd v) (fc_set n s)"
  "queue_of v s \<Longrightarrow> queue_of ((fst v)\<lparr>fc_sleeps := x\<rparr>, snd v) (s\<lparr>fc_sleeps := y\<rparr>)"
  "queue_of v s \<Longrightarrow> queue_of ((fst v)\<lparr>fc_unreadable_waits := x\<rparr>, snd v) (s\<lparr>fc_unreadable_waits := y\<rparr>)"
  "queue_of v s \<Longrightarrow> queue_of ((fst v)\<lparr>fc_stall_after_next_send := d\<rparr>, snd v) (s\<lparr>fc_stall_after_next_send := d\<rparr>)"
  by (auto simp: queue_of_def fc_time_def fc_set_def split: prod.splits)

lemma queue_of_clock:
  assumes "queue_of (w, e) s"
  shows "queue_of (fc_sleep_until t w, e) (fc_sleep_until t s)"
    and "queue_of (fc_sleep_for d w, e) (fc_sleep_for d s)"
    and "queue_of (fc_unreadable d w, e) (fc_unreadable d s)"
    and "queue_of (fc_after_send w, e) (fc_after_send s)"
proof -
  note t = fc_queue [of "(_, _)", unfolded fst_conv snd_conv]
  have stall: "fc_stall_after_next_send s = fc_stall_after_next_send w" using assms by (simp add: queue_of_def)
  show "queue_of (fc_sleep_until t w, e) (fc_sleep_until t s)"
    unfolding fc_sleep_until_def t(1) [OF assms] by (auto intro: t assms split: option.split)
  show "queue_of (fc_sleep_for d w, e) (fc_sleep_for d s)"
    unfolding fc_sleep_for_def t(1) [OF assms] by (auto intro: t assms)
  show "queue_of (fc_unreadable d w, e) (fc_unreadable d s)"
    unfolding fc_unreadable_def t(1) [OF assms] by (auto intro: t assms)
  note s0 = t(5) [OF assms, of 0]
  show "queue_of (fc_after_send w, e) (fc_after_send s)"
    unfolding fc_after_send_def Let_def stall t(1) [OF s0] by (auto intro: t s0)
qed

lemma queue_of_calls:
  assumes "queue_of (w, e) s"
  shows "same_run queue_of (macos_send host_kernel f (w, e)) (qe_send f s)"
    and "same_run queue_of (macos_wait host_kernel ms (w, e)) (se_wait ms s)"
  using assms
  by (auto simp: same_run_def queue_of_def macos_send_def macos_wait_def host_kernel_def qe_send_def se_wait_def)

lemma host_simulation:
  "world_simulation queue_of (macos_endpoint 2 host_kernel) (beside fake_scan_clock)
     queue_endpoint fake_scan_clock"
proof
  fix v s and buf :: "u8 list"
  assume "queue_of v s"
  then show "\<exists>r buf' v' s'. ep_receive (macos_endpoint 2 host_kernel) buf v = (r, buf', v')
      \<and> ep_receive queue_endpoint buf s = (r, buf', s') \<and> queue_of v' s'"
    using queue_of_receive [of "fst v" "snd v" s buf] by (simp add: macos_endpoint_def queue_endpoint_def)
next
  fix v s and frame :: "u8 list" and ms :: nat
  assume "queue_of v s"
  then show "same_run queue_of (ep_send (macos_endpoint 2 host_kernel) frame v) (ep_send queue_endpoint frame s)"
    "same_run queue_of (ep_wait (macos_endpoint 2 host_kernel) ms v) (ep_wait queue_endpoint ms s)"
    using queue_of_calls [of "fst v" "snd v" s] by (simp_all add: macos_endpoint_def queue_endpoint_def)
next
  fix v s assume "queue_of v s"
  then show "same_run queue_of (ck_now (beside fake_scan_clock) v) (ck_now fake_scan_clock s)"
    using fc_queue(1) [of v s] by (cases v) (simp add: same_run_def beside_def fake_scan_clock_def)
qed (use queue_of_clock in \<open>auto simp: beside_def fake_scan_clock_def\<close>)

lemma host_start:
  assumes "open_macos_link_layer_endpoint host_kernel name w = (Inr e, w')"
  shows "length (mbe_read_buffer e) = 4096 \<and> w' = w"
  using assms
  by (auto simp: open_macos_link_layer_endpoint_def op_then_eq_Ok op_return_def host_kernel_def
      open_bpf_device_def set_bpf_interface_def set_bpf_filter_def set_bpf_see_sent_def set_bpf_immediate_def
      set_bpf_header_complete_def set_bpf_unsigned_option_def get_bpf_buffer_length_def op_lift_def
      set_file_descriptor_nonblocking_def upt_rec split: if_splits sum.splits)

section \<open>Runs on the example host\<close>

definition host_interface :: classified_scan_interface where
  "host_interface = \<lparr>csi_interface_name = ''en0'', csi_source_ipv4_address = ipv4_new 10 0 0 1,
     csi_ipv4_netmask = ipv4_new 255 255 255 252, csi_source_mac_address = MacAddress 2 0 0 0 0 1\<rparr>"

lemma host_lowered:
  "lowered host_nodes =
     [\<lparr>iar_interface_name = ''en0'', iar_interface_flags = 1,
       iar_payload = LinkLayerPayload 6 (Some [2, 0, 0, 0, 0, 1])\<rparr>,
      \<lparr>iar_interface_name = ''en0'', iar_interface_flags = 1,
       iar_payload = Ipv4Payload (ipv4_new 10 0 0 1) (Some (ipv4_new 255 255 255 252))\<rparr>]"
  by (simp add: host_nodes_def example_inet_def List.map_filter_simps build_interface_address_record_def
      address_payload_def macos_sa_family_def macos_af_inet_def macos_af_link_def in_range_def
      macos_read_ipv4_from_sockaddr_def read_link_layer_address_from_sockaddr_dl_def Let_def)

lemma host_usable: "macos_usable (lowered host_nodes) ''en0'' host_interface"
  by (simp add: macos_usable_def Let_def host_lowered records_of_def valid_name_def
      validate_interface_name_Ok_iff ipv4_entries_def link_entries_def List.map_filter_simps
      macos_flags_allow_arp_scanning_def macos_flag_loopback_def macos_flag_no_arp_def macos_flag_up_def
      interface_type_ethernet_def host_interface_def from_octets_def is_zero_def numeral_eq_Suc)

lemma host_addresses:
  "macos_discover_interface_scan_addresses host_kernel ''en0'' w =
     (Inr (classified_addresses host_interface), w)"
  unfolding macos_discover_quiescent [OF host_quiescent] classified_addresses_def
  using host_usable by blast

lemma host_plan:
  obtains plan where "full_subnet_scan_plan (classified_addresses host_interface) = Ok plan"
proof -
  have "ipv4_new 10 0 0 1 = 0x0A000001" "ipv4_new 255 255 255 252 = NOT (mask 2)"
    by (simp_all add: ipv4_new_def u32_from_be_def mask_numeral)
  then show thesis
    using that plan_targets_eq [where h = 2 and addresses = "classified_addresses host_interface"
        and a = "0x0A000001"]
    by (simp add: classified_addresses_def host_interface_def)
qed

lemma host_opens:
  "open_macos_link_layer_endpoint host_kernel ''en0'' w =
     (Inr \<lparr>mbe_bpf_device = 3, mbe_read_buffer = replicate 4096 0, mbe_filled_length = 0,
        mbe_parse_cursor = 0\<rparr>, w)"
  by (simp add: open_macos_link_layer_endpoint_def op_then_def op_return_def host_kernel_def op_map_err_def
      open_bpf_device_def set_bpf_interface_def set_bpf_filter_def set_bpf_see_sent_def set_bpf_immediate_def
      set_bpf_header_complete_def set_bpf_unsigned_option_def get_bpf_buffer_length_def op_lift_def
      set_file_descriptor_nonblocking_def upt_rec arp_capture_filter_def u32_max_def
      copy_interface_name_to_ifreq_def interface_name_buffer_size_def)

lemma host_reply_length: "length host_reply = 60"
  by (simp add: host_reply_def length_encode_request layout_length_def rfc_826_ethernet_ii_def)

lemma host_record:
  "bpf_frames (build_bpf_record host_reply) 0 = [host_reply]" "length (build_bpf_record host_reply) = 80"
proof -
  let ?c = "\<lparr>bc_timestamp = replicate 8 0, bc_data_length = word_of_nat (length host_reply),
    bc_gap = [0, 0], bc_frame = host_reply\<rparr>"
  have "capture_well_formed ?c" by (simp add: capture_well_formed_def host_reply_length)
  moreover show len: "length (build_bpf_record host_reply) = 80"
    by (simp add: build_bpf_record_eq capture_record_def host_reply_length)
  ultimately show "bpf_frames (build_bpf_record host_reply) 0 = [host_reply]"
    using bpf_frames_from [of "[?c]" "build_bpf_record host_reply" "[]"]
    by (simp add: build_bpf_record_eq usize_max_def u64_max_def)
qed

lemma host_queue:
  "queue_of (host_world, \<lparr>mbe_bpf_device = 3, mbe_read_buffer = replicate 4096 0, mbe_filled_length = 0,
     mbe_parse_cursor = 0\<rparr>) (host_world\<lparr>se_inbound := [host_reply]\<rparr>)"
  using host_record
  by (auto simp: queue_of_def bpf_endpoint_valid_def buffered_frames_def bpf_frames.simps [of "[]"]
      host_world_def)
lemma host_engine:
  "\<exists>outcome w'. with_endpoint (collect_scan_over_endpoint 3 2 pw (macos_endpoint 2 host_kernel)
       (beside fake_scan_clock)
       \<lparr>esr_targets = targets,
        esr_transmit = transmit_context addresses default_wire_options,
        esr_acceptance = acceptance, esr_receive_timeout = from_millis 5, esr_pacing = 0,
        esr_scan_round_count = 2, esr_rate_limit = None\<rparr>)
     \<lparr>mbe_bpf_device = 3, mbe_read_buffer = replicate 4096 0, mbe_filled_length = 0,
      mbe_parse_cursor = 0\<rparr> host_world = (Inr outcome, w')
   \<and> bt_get (host_pairs outcome) = map_of (accepted_replies acceptance [host_reply])"
proof -
  let ?request = "\<lparr>esr_targets = targets,
    esr_transmit = transmit_context addresses default_wire_options,
    esr_acceptance = acceptance, esr_receive_timeout = from_millis 5, esr_pacing = 0,
    esr_scan_round_count = 2, esr_rate_limit = None\<rparr>"
  let ?queue = "host_world\<lparr>se_inbound := [host_reply]\<rparr>"
  have time: "fc_time ?queue = 0" by (simp add: host_world_def example_world_def fc_time_def)
  have valid: "validate_ieee_8021q_tag_stack (stc_wire (esr_transmit ?request)) = Ok ()"
    "validate_ieee_8023_mac_client_data (stc_wire (esr_transmit ?request)) = Ok ()"
    using example_valid by (simp_all add: transmit_context_def example_request_def)
  have reach: "ck_add fake_scan_clock t (esr_receive_timeout ?request) \<noteq> None"
    if "t \<le> fc_time ?queue + esr_scan_round_count ?request * esr_pacing ?request" for t
    using that time five_milliseconds by (simp add: fake_scan_clock_def rust_arith)
  have fits: "\<forall>f \<in> set (se_inbound ?queue). length f \<le> receive_buffer_length"
    "length (se_inbound ?queue) < 2"
    by (simp_all add: host_reply_length receive_buffer_length_def)
  obtain outcome s where "collect_scan_over_endpoint 3 2 pw queue_endpoint fake_scan_clock ?request ?queue
      = (Inr outcome, s)" "bt_get (host_pairs outcome) = map_of (accepted_replies acceptance [host_reply])"
    using queue.burst_scan_ends [OF _ valid fits, of 3 pw] reach five_milliseconds by auto
  moreover note world_simulation.scan_same [OF host_simulation host_queue, of 3 2 pw ?request]
  ultimately show ?thesis by (auto simp: same_run_def with_endpoint_def split: prod.splits)
qed

lemma host_scan_runs:
  "\<exists>outcome w'. macos_perform_arp_scan 3 2 2 powers_of_two host_kernel fake_scan_clock ''en0''
     (from_millis 5) 0 2 default_wire_options None host_world = (Inr outcome, w')"
proof -
  obtain plan where plan: "full_subnet_scan_plan (classified_addresses host_interface) = Ok plan"
    by (rule host_plan)
  show ?thesis
    unfolding macos_perform_arp_scan_def op_then_def example_no_rate
    using host_engine [of powers_of_two "plan_targets plan" "classified_addresses host_interface"
        "plan_acceptance plan"]
    by (auto simp: op_map_err_def op_lift_def plan host_opens host_addresses)
qed

lemma host_quiet: "se_events host_world = []"
  by (simp add: host_world_def example_world_def)

theorem macos_scan_result_witness:
  "\<exists>outcome w' c plan frames. macos_perform_arp_scan 3 2 2 powers_of_two host_kernel fake_scan_clock
       ''en0'' (from_millis 5) 0 2 default_wire_options None host_world = (Inr outcome, w')
     \<and> full_subnet_scan_plan (classified_addresses c) = Ok plan
     \<and> map snd (sent_of (se_events w')) = concat (replicate 2
         (map (request_frame (transmit_context (classified_addresses c) default_wire_options))
           (plan_targets plan)))
     \<and> captured_in_order frames (reads_of (se_events w'))"
proof -
  obtain outcome w' where run: "macos_perform_arp_scan 3 2 2 powers_of_two host_kernel fake_scan_clock
      ''en0'' (from_millis 5) 0 2 default_wire_options None host_world = (Inr outcome, w')"
    using host_scan_runs by blast
  from macos_scan_result [OF host_logs example_clock_logs host_quiescent run host_quiet] run
  show ?thesis by blast
qed


end
