(* ===== verification/Target_Run.thy ===== *)
theory Target_Run
  imports Application_Run Macos_Backend
begin

text \<open>
  \<^verbatim>\<open>src/lib.rs\<close> for every operating system it compiles for. The entry points hold one \<^verbatim>\<open>cfg\<close> block
  for Linux, one for macOS and one for the rest; the target chooses the block. \<open>Application_Run\<close> is
  the program on Linux, and what is proved there carries over.
\<close>

section \<open>Dispatch\<close>

datatype 'w target =
    LinuxTarget "'w linux_kernel"
  | MacosTarget "'w macos_kernel"
  | OtherTarget string

definition unsupported_platform :: "string \<Rightarrow> ('w, stop, 'a) op" where
  "unsupported_platform operating_system = op_lift (Inl (Failed (UnsupportedPlatform operating_system)))"

text \<open>The body that the blocks for Linux and macOS share: resolve the interface and time the work on it.\<close>

definition timed_listen ::
    "'w clock \<Rightarrow> ('w, app_error, string) op \<Rightarrow> (string \<Rightarrow> ('w, stop, monitor_listen_outcome) op)
     \<Rightarrow> ('w, stop, application_outcome) op" where
  "timed_listen ck resolve listen =
     op_then (op_map_err Failed resolve) (\<lambda>resolved.
     op_then (instant_now ck) (\<lambda>started.
     op_then (listen resolved) (\<lambda>report.
     op_then (instant_now ck) (\<lambda>ended.
     op_return (MonitorOutcome
       (monitor_outcome_from_listen resolved (ck_since ck ended started) report))))))"

definition timed_scan ::
    "'w clock \<Rightarrow> nat \<Rightarrow> ('w, app_error, string) op \<Rightarrow> (string \<Rightarrow> ('w, stop, scan_outcome) op)
     \<Rightarrow> ('w, stop, application_outcome) op" where
  "timed_scan ck attempts resolve scan =
     op_then (op_map_err Failed resolve) (\<lambda>resolved.
     op_then (instant_now ck) (\<lambda>started.
     op_then (scan resolved) (\<lambda>outcome.
     op_then (instant_now ck) (\<lambda>ended.
     op_return (ScanOutcome
       (with_scan_timing_summary outcome resolved (ck_since ck ended started) attempts))))))"

definition target_run_passive_arp_monitor ::
    "nat \<Rightarrow> nat \<Rightarrow> nat \<Rightarrow> 'w target \<Rightarrow> 'w clock \<Rightarrow> string option \<Rightarrow> duration
     \<Rightarrow> ('w, stop, application_outcome) op" where
  "target_run_passive_arp_monitor fuel drain_fuel receive_fuel target ck interface_name timeout =
     op_then (op_map_err Failed (monitor_deadline ck timeout)) (\<lambda>_.
     op_then (op_map_err Failed (op_lift (case interface_name of None \<Rightarrow> Ok ()
       | Some name \<Rightarrow> validate_interface_name_for_linux_packet_socket name))) (\<lambda>_.
     case target of
       LinuxTarget k \<Rightarrow> timed_listen ck (resolve_scan_interface_name k interface_name)
         (\<lambda>resolved. perform_passive_arp_monitor fuel drain_fuel receive_fuel k ck resolved timeout)
     | MacosTarget k \<Rightarrow> timed_listen ck (macos_resolve_scan_interface_name k interface_name)
         (\<lambda>resolved. macos_perform_passive_arp_monitor fuel drain_fuel receive_fuel k ck resolved timeout)
     | OtherTarget os \<Rightarrow> unsupported_platform os))"

definition target_run_address_resolution_scan ::
    "nat \<Rightarrow> nat \<Rightarrow> nat \<Rightarrow> (f64 \<Rightarrow> nat \<Rightarrow> f64) \<Rightarrow> 'w target \<Rightarrow> 'w clock \<Rightarrow> string option
     \<Rightarrow> ipv4 option \<Rightarrow> duration \<Rightarrow> duration \<Rightarrow> nat \<Rightarrow> scan_wire_options
     \<Rightarrow> rate_limited_scan_timing option \<Rightarrow> ('w, stop, application_outcome) op" where
  "target_run_address_resolution_scan fuel drain_fuel receive_fuel pw target ck interface_name
       target_ipv4_address timeout pacing attempts wire rate_limit =
     op_then (op_map_err Failed (op_lift (validate_ieee_8021q_tag_stack wire))) (\<lambda>_.
     op_then (op_map_err Failed (op_lift (validate_ieee_8023_mac_client_data wire))) (\<lambda>_.
     op_then (op_map_err Failed (op_lift
       (validate_scan_timing_before_socket pw timeout pacing attempts wire rate_limit))) (\<lambda>_.
     op_then (op_map_err Failed (op_lift (case interface_name of None \<Rightarrow> Ok ()
       | Some name \<Rightarrow> validate_interface_name_for_linux_packet_socket name))) (\<lambda>_.
     case target of
       LinuxTarget k \<Rightarrow> timed_scan ck attempts (resolve_scan_interface_name k interface_name)
         (\<lambda>resolved. case target_ipv4_address of
            Some address \<Rightarrow> perform_arp_probe fuel drain_fuel receive_fuel pw k ck resolved address
              timeout pacing attempts wire rate_limit
          | None \<Rightarrow> perform_arp_scan fuel drain_fuel receive_fuel pw k ck resolved timeout pacing
              attempts wire rate_limit)
     | MacosTarget k \<Rightarrow> timed_scan ck attempts (macos_resolve_scan_interface_name k interface_name)
         (\<lambda>resolved. case target_ipv4_address of
            Some address \<Rightarrow> macos_perform_arp_probe fuel drain_fuel receive_fuel pw k ck resolved address
              timeout pacing attempts wire rate_limit
          | None \<Rightarrow> macos_perform_arp_scan fuel drain_fuel receive_fuel pw k ck resolved timeout pacing
              attempts wire rate_limit)
     | OtherTarget os \<Rightarrow> unsupported_platform os))))"

fun target_list_interfaces :: "'w target \<Rightarrow> ('w, stop, application_outcome) op" where
  "target_list_interfaces (LinuxTarget k) =
     op_then (op_map_err Failed (enumerate_usable_arp_scan_interface_candidates k)) (\<lambda>candidates.
     op_return (usable_interfaces_outcome_from_candidates candidates))"
| "target_list_interfaces (MacosTarget k) =
     op_then (op_map_err Failed (macos_enumerate_usable_candidates k)) (\<lambda>candidates.
     op_return (usable_interfaces_outcome_from_candidates candidates))"
| "target_list_interfaces (OtherTarget os) = unsupported_platform os"

fun target_run ::
    "nat \<Rightarrow> nat \<Rightarrow> nat \<Rightarrow> (f64 \<Rightarrow> nat \<Rightarrow> f64) \<Rightarrow> 'w target \<Rightarrow> 'w clock \<Rightarrow> application_command
     \<Rightarrow> ('w, stop, application_outcome) op" where
  "target_run fuel drain_fuel receive_fuel pw target ck
       (Scan interface_name target_ipv4_address timeout pacing attempts rate_limit wire) =
     target_run_address_resolution_scan fuel drain_fuel receive_fuel pw target ck interface_name
       target_ipv4_address timeout pacing attempts wire rate_limit"
| "target_run fuel drain_fuel receive_fuel pw target ck (Application_Command.Monitor interface_name timeout) =
     target_run_passive_arp_monitor fuel drain_fuel receive_fuel target ck interface_name timeout"
| "target_run fuel drain_fuel receive_fuel pw target ck UsableInterfacesList = target_list_interfaces target"

section \<open>The blocks\<close>

lemma target_linux:
  "target_run fuel dfuel rfuel pw (LinuxTarget k) ck command = run fuel dfuel rfuel pw k ck command"
  by (cases command)
    (simp_all add: target_run_address_resolution_scan_def run_address_resolution_scan_def timed_scan_def
      target_run_passive_arp_monitor_def run_passive_arp_monitor_def timed_listen_def)

text \<open>The block of a scan command that its checks let through.\<close>

fun scan_block ::
    "nat \<Rightarrow> nat \<Rightarrow> nat \<Rightarrow> (f64 \<Rightarrow> nat \<Rightarrow> f64) \<Rightarrow> 'w target \<Rightarrow> 'w clock \<Rightarrow> string option
     \<Rightarrow> ipv4 option \<Rightarrow> duration \<Rightarrow> duration \<Rightarrow> nat \<Rightarrow> scan_wire_options
     \<Rightarrow> rate_limited_scan_timing option \<Rightarrow> ('w, stop, application_outcome) op" where
  "scan_block fuel dfuel rfuel pw (LinuxTarget k) ck name address timeout pacing attempts wire rate =
     timed_scan ck attempts (resolve_scan_interface_name k name) (\<lambda>resolved. case address of
        Some a \<Rightarrow> perform_arp_probe fuel dfuel rfuel pw k ck resolved a timeout pacing attempts wire rate
      | None \<Rightarrow> perform_arp_scan fuel dfuel rfuel pw k ck resolved timeout pacing attempts wire rate)"
| "scan_block fuel dfuel rfuel pw (MacosTarget k) ck name address timeout pacing attempts wire rate =
     timed_scan ck attempts (macos_resolve_scan_interface_name k name) (\<lambda>resolved. case address of
        Some a \<Rightarrow> macos_perform_arp_probe fuel dfuel rfuel pw k ck resolved a timeout pacing attempts wire rate
      | None \<Rightarrow> macos_perform_arp_scan fuel dfuel rfuel pw k ck resolved timeout pacing attempts wire rate)"
| "scan_block fuel dfuel rfuel pw (OtherTarget os) ck name address timeout pacing attempts wire rate =
     unsupported_platform os"

lemma target_scan_checks:
  "target_run_address_resolution_scan fuel dfuel rfuel pw target ck name address timeout pacing attempts wire rate w =
   (case scan_checks pw name timeout pacing attempts wire rate of
      Inl e \<Rightarrow> (Inl (Failed e), w)
    | Inr _ \<Rightarrow> scan_block fuel dfuel rfuel pw target ck name address timeout pacing attempts wire rate w)"
proof -
  have "scan_block fuel dfuel rfuel pw target ck name address timeout pacing attempts wire rate = (case target of
       LinuxTarget k \<Rightarrow> timed_scan ck attempts (resolve_scan_interface_name k name) (\<lambda>resolved. case address of
          Some a \<Rightarrow> perform_arp_probe fuel dfuel rfuel pw k ck resolved a timeout pacing attempts wire rate
        | None \<Rightarrow> perform_arp_scan fuel dfuel rfuel pw k ck resolved timeout pacing attempts wire rate)
     | MacosTarget k \<Rightarrow> timed_scan ck attempts (macos_resolve_scan_interface_name k name) (\<lambda>resolved. case address of
          Some a \<Rightarrow> macos_perform_arp_probe fuel dfuel rfuel pw k ck resolved a timeout pacing attempts wire rate
        | None \<Rightarrow> macos_perform_arp_scan fuel dfuel rfuel pw k ck resolved timeout pacing attempts wire rate)
     | OtherTarget os \<Rightarrow> unsupported_platform os)"
    by (cases target) simp_all
  then show ?thesis
    unfolding target_run_address_resolution_scan_def scan_checks_def op_map_lift
    by (cases "validate_ieee_8021q_tag_stack wire"; cases "validate_ieee_8023_mac_client_data wire";
        cases "validate_scan_timing_before_socket pw timeout pacing attempts wire rate")
      (simp_all split: sum.split option.split)
qed

section \<open>A macOS run is quiet but for its scans\<close>

lemma macos_candidates_quiet:
  assumes "macos_kernel_logs k time events"
  shows "quiet_step time events (macos_collect_candidates k interfaces)"
proof (induction interfaces)
  case (Cons i interfaces)
  show ?case
    unfolding quiet_step_def
  proof (intro allI impI)
    fix w x w'
    assume run: "macos_collect_candidates k (i # interfaces) w = (x, w')"
    obtain q w1 where index: "mk_if_nametoindex k (csi_interface_name i) w = (q, w1)" by fastforce
    then have "time w \<le> time w1 \<and> events w1 = events w"
      using macos_calls_quiet(2) [OF assms] unfolding quiet_call_def by blast
    moreover have "time v \<le> time v' \<and> events v' = events v"
      if "macos_collect_candidates k interfaces v = (y, v')" for v y v'
      using Cons.IH that unfolding quiet_step_def by blast
    ultimately show "time w \<le> time w' \<and> events w' = events w"
      using run index by (fastforce split: if_splits sum.splits prod.splits)
  qed
qed (simp add: quiet_step_def)

lemma macos_enumerate_quiet [quiet]:
  assumes "macos_kernel_logs k time events"
  shows "quiet_call time events (macos_enumerate_usable_candidates k)"
proof -
  have "quiet_call time events (\<lambda>w. case macos_collect_candidates k is w of (candidates, w) \<Rightarrow>
      (Inr (sort_key candidate_key candidates), w))" for "is"
    unfolding quiet_call_def
    using macos_candidates_quiet [OF assms, of "is"] by (auto simp: quiet_step_def split: prod.splits)
  then show ?thesis
    unfolding macos_enumerate_usable_candidates_def collect_interface_address_records_def
    by (intro quiet assms)
qed

lemma macos_resolve_quiet [quiet]:
  assumes "macos_kernel_logs k time events"
  shows "quiet_call time events (macos_resolve_scan_interface_name k name)"
  unfolding macos_resolve_scan_interface_name_def
  by (cases name; simp only: option.case; intro quiet assms)

text \<open>What a timed scan that succeeds has done.\<close>

lemma timed_scan_outcome:
  assumes "timed_scan ck attempts resolve scan w = (Inr outcome, w')"
    and "quiet_call time events resolve" and "clock_logs ck time events"
  obtains resolved w0 w1 found w2 reported summary where "resolve w = (Inr resolved, w0)" "events w1 = events w"
    "scan resolved w1 = (Inr found, w2)" "events w' = events w2"
    "outcome = ScanOutcome reported" "so_timing_summary reported = Some summary" "host_pairs reported = host_pairs found"
    "sts_network_interface_name summary = resolved" "sts_scan_round_count summary = attempts"
    "sts_discovered_host_count summary = length (host_pairs reported)"
  using assms(1) [unfolded timed_scan_def] assms(2,3)
proof (cases rule: op_then_before)
  case (2 resolved w0 started w1)
  note resolved = 2(1,2)
  from 2(3) assms(3) show thesis
  proof (cases rule: op_then_after)
    case (1 q w2)
    then obtain found ended where "q = Inr found" "outcome =
        ScanOutcome (with_scan_timing_summary found resolved (ck_since ck ended started) attempts)"
      by blast
    then show thesis
      using that [OF resolved, of found w2 "with_scan_timing_summary found resolved (ck_since ck ended started) attempts"] 1(1,2)
      by (simp add: with_scan_timing_summary_def host_pairs_def)
  qed
qed simp

text \<open>A timed body whose work, started from an empty log, transmits nothing.\<close>

lemma timed_listen_silent:
  assumes "timed_listen ck resolve listen w = (r, w')"
    and "quiet_call time events resolve" and "clock_logs ck time events" and "events w = []"
    and "\<And>resolved v q v'. listen resolved v = (q, v') \<Longrightarrow> events v = [] \<Longrightarrow> sent_of (events v') = []"
  shows "sent_of (events w') = []"
  using assms(1) [unfolded timed_listen_def] assms(2,3)
proof (cases rule: op_then_before)
  case (2 resolved w0 started w1)
  have start: "events w1 = []" using 2(2) assms(4) by simp
  from 2(3) assms(3) show ?thesis
    by (cases rule: op_then_after) (use assms(5) [OF _ start] in auto)
qed (use assms(4) in simp)

lemma macos_listen_silent:
  assumes "macos_kernel_logs k time events" and "clock_logs ck time events"
    and "macos_perform_passive_arp_monitor fuel dfuel rfuel k ck name timeout w = (r, w')"
    and "events w = []"
  shows "sent_of (events w') = []"
  using assms
proof (cases rule: macos_listen_engine)
  case (2 identity w1 w2 v u)
  have "sent_of (snd u) = []"
    using timed_endpoint.listen_reads [OF macos_traced_endpoint [OF assms(1,2)] 2(2)] by auto
  then show ?thesis using 2(3) by simp
qed simp

lemma macos_monitor_run_silent:
  assumes "macos_kernel_logs k time events" and "clock_logs ck time events"
    and "target_run_passive_arp_monitor fuel dfuel rfuel (MacosTarget k) ck name timeout w = (r, w')"
    and "events w = []"
  shows "sent_of (events w') = []"
proof -
  let ?checked = "op_lift (case name of None \<Rightarrow> Ok ()
    | Some n \<Rightarrow> validate_interface_name_for_linux_packet_socket n)"
  have quiets: "quiet_call time events (op_map_err Failed (monitor_deadline ck timeout))"
    "quiet_call time events (op_map_err Failed ?checked)" "quiet_call time events (macos_resolve_scan_interface_name k name)"
    by (intro quiet deadline_quiet assms(1,2))+
  from assms(3) [unfolded target_run_passive_arp_monitor_def target.case] quiets(1) show ?thesis
  proof (cases rule: op_then_quiet)
    case (2 d w1)
    note w1 = 2(2)
    from 2(4) quiets(2) show ?thesis
    proof (cases rule: op_then_quiet)
      case (2 u w2)
      have "events w2 = []" using 2(2) w1 assms(4) by simp
      from timed_listen_silent [OF 2(4) quiets(3) assms(2) this macos_listen_silent [OF assms(1,2)]]
      show ?thesis .
    qed (use w1 assms(4) in simp)
  qed (use assms(4) in simp)
qed

section \<open>Properties\<close>

definition target_logs :: "'w target \<Rightarrow> ('w \<Rightarrow> timestamp) \<Rightarrow> ('w \<Rightarrow> event list) \<Rightarrow> bool" where
  "target_logs target time events \<longleftrightarrow> (case target of
       LinuxTarget k \<Rightarrow> kernel_logs k time events
     | MacosTarget k \<Rightarrow> macos_kernel_logs k time events
     | OtherTarget _ \<Rightarrow> True)"

text \<open>
  C14: on every operating system only a scan command whose options, schedule and interface name were
  accepted ever transmits: a monitor run, an interface listing, a refused scan and a system without a
  backend leave the wire silent, whatever the kernel and the clock do.
\<close>

theorem targets_transmit_accepted_scans_only:
  assumes "target_logs target time events" and "clock_logs ck time events"
    and "target_run fuel dfuel rfuel pw target ck command w = (r, w')"
    and "events w = []" and "sent_of (events w') \<noteq> []"
  shows "\<exists>name address timeout pacing attempts rate_limit wire schedule.
    command = Scan name address timeout pacing attempts rate_limit wire
    \<and> (\<forall>os. target \<noteq> OtherTarget os)
    \<and> validate_ieee_8021q_tag_stack wire = Ok () \<and> validate_ieee_8023_mac_client_data wire = Ok ()
    \<and> validate_scan_timing_before_socket pw timeout pacing attempts wire rate_limit = Ok schedule
    \<and> (\<forall>n. name = Some n \<longrightarrow> validate_interface_name_for_linux_packet_socket n = Ok ())"
proof (cases target)
  case (LinuxTarget k)
  then have "kernel_logs k time events" using assms(1) by (simp add: target_logs_def)
  from only_accepted_scans_transmit [OF this assms(2) _ assms(4,5)] assms(3) LinuxTarget
  show ?thesis by (simp add: target_linux)
next
  case (MacosTarget k)
  then have k: "macos_kernel_logs k time events" using assms(1) by (simp add: target_logs_def)
  show ?thesis
  proof (cases command)
    case (Scan name address timeout pacing attempts rate wire)
    then obtain u where "scan_checks pw name timeout pacing attempts wire rate = Inr u"
      using assms(3-5) by (cases "scan_checks pw name timeout pacing attempts wire rate") (auto simp: target_scan_checks)
    then show ?thesis using Scan MacosTarget by (auto simp: scan_checks_def and_then_eq_Ok_iff)
  next
    case (Monitor name timeout)
    then show ?thesis using macos_monitor_run_silent [OF k assms(2)] assms(3-5) MacosTarget by auto
  next
    case UsableInterfacesList
    have "quiet_call time events (target_list_interfaces (MacosTarget k))"
      unfolding target_list_interfaces.simps by (intro quiet k)
    then have "events w' = []"
      using assms(3,4) UsableInterfacesList MacosTarget unfolding quiet_call_def by fastforce
    then show ?thesis using assms(5) by simp
  qed
next
  case (OtherTarget os)
  have "events w' = []"
  proof (cases command)
    case (Scan name address timeout pacing attempts rate wire)
    then show ?thesis
      using assms(3,4) OtherTarget
      by (auto simp: target_scan_checks unsupported_platform_def op_lift_def split: sum.splits)
  next
    case (Monitor name timeout)
    let ?checked = "op_lift (case name of None \<Rightarrow> Ok ()
      | Some n \<Rightarrow> validate_interface_name_for_linux_packet_socket n)"
    have "quiet_call time events (target_run fuel dfuel rfuel pw target ck command)"
      unfolding Monitor OtherTarget target_run.simps target_run_passive_arp_monitor_def target.case
        unsupported_platform_def
      by (intro quiet deadline_quiet assms(2))
    then show ?thesis using assms(3,4) unfolding quiet_call_def by fastforce
  qed (use assms(3,4) OtherTarget in \<open>auto simp: unsupported_platform_def op_lift_def\<close>)
  then show ?thesis using assms(5) by simp
qed

text \<open>
  C26: on every operating system options that cannot be sent, a schedule that cannot be kept and an
  interface name that cannot be used are refused, in this order, before the first system call and
  before the clock is read: the world is as it was. So is a monitor timeout of zero. Where there is no
  backend every scan that passes the checks, and every listing, fails because the platform is not supported, and
  leaves the world as it was.
\<close>

theorem targets_reject_before_any_call:
  "(case and_then (validate_ieee_8021q_tag_stack wire) (\<lambda>_.
        and_then (validate_ieee_8023_mac_client_data wire) (\<lambda>_.
        and_then (validate_scan_timing_before_socket pw timeout pacing attempts wire rate_limit) (\<lambda>_.
        case interface_name of None \<Rightarrow> Ok ()
        | Some name \<Rightarrow> validate_interface_name_for_linux_packet_socket name))) of
      Inl e \<Rightarrow> target_run fuel dfuel rfuel pw target ck
        (Scan interface_name address timeout pacing attempts rate_limit wire) w = (Inl (Failed e), w)
    | Inr _ \<Rightarrow> target_run fuel dfuel rfuel pw (OtherTarget os) ck
        (Scan interface_name address timeout pacing attempts rate_limit wire) w =
          (Inl (Failed (UnsupportedPlatform os)), w))
   \<and> target_run fuel dfuel rfuel pw target ck (Application_Command.Monitor interface_name 0) w =
        (Inl (Failed MonitorTimeoutRejected), w)
   \<and> target_run fuel dfuel rfuel pw (OtherTarget os) ck UsableInterfacesList w =
        (Inl (Failed (UnsupportedPlatform os)), w)"
proof (intro conjI)
  show "target_run fuel dfuel rfuel pw target ck (Application_Command.Monitor interface_name 0) w =
      (Inl (Failed MonitorTimeoutRejected), w)"
    by (simp add: target_run_passive_arp_monitor_def op_then_def op_map_err_def monitor_deadline_def)
  show "target_run fuel dfuel rfuel pw (OtherTarget os) ck UsableInterfacesList w =
      (Inl (Failed (UnsupportedPlatform os)), w)"
    by (simp add: unsupported_platform_def op_lift_def)
qed (simp add: target_scan_checks scan_checks_def [symmetric] unsupported_platform_def op_lift_def split: sum.split)

section \<open>A macOS run on the example host\<close>

lemma host_scan_sends:
  assumes "macos_perform_arp_scan 3 2 2 powers_of_two host_kernel fake_scan_clock ''en0''
     (from_millis 5) 0 2 default_wire_options None host_world = (Inr outcome, w')"
  shows "sent_of (se_events w') \<noteq> []"
proof -
  obtain c plan where c: "macos_usable (lowered host_nodes) ''en0'' c"
    and plan: "full_subnet_scan_plan (classified_addresses c) = Ok plan"
    and sent: "map snd (sent_of (se_events w')) = concat (replicate 2
        (map (request_frame (transmit_context (classified_addresses c) default_wire_options)) (plan_targets plan)))"
    using macos_scan_result [OF host_logs example_clock_logs host_quiescent assms host_quiet] by blast
  have "c = host_interface" using macos_usable_unique [OF c host_usable] .
  moreover have "ipv4_new 10 0 0 1 = 0x0A000001" "ipv4_new 255 255 255 252 = NOT (mask 2)"
    by (simp_all add: ipv4_new_def u32_from_be_def mask_numeral)
  ultimately have "plan_targets plan \<noteq> []"
    using plan plan_targets_eq [where h = 2 and addresses = "classified_addresses host_interface"
        and a = "0x0A000001"]
    by (auto simp: classified_addresses_def host_interface_def)
  then show ?thesis using sent by (auto simp: numeral_2_eq_2)
qed

lemma host_target_run:
  "\<exists>outcome w'. target_run 3 2 2 powers_of_two (MacosTarget host_kernel) fake_scan_clock
     (Scan (Some ''en0'') None (from_millis 5) 0 2 None default_wire_options) host_world = (Inr outcome, w')
   \<and> sent_of (se_events w') \<noteq> []"
proof -
  obtain scan w' where scan: "macos_perform_arp_scan 3 2 2 powers_of_two host_kernel fake_scan_clock ''en0''
      (from_millis 5) 0 2 default_wire_options None host_world = (Inr scan, w')"
    using host_scan_runs by blast
  have "validate_interface_name_for_linux_packet_socket ''en0'' = Ok ()"
    using usable_name [OF host_usable] by (simp add: valid_name_def)
  moreover have "validate_scan_timing_before_socket powers_of_two (from_millis 5) 0 2 default_wire_options None = Ok None"
    using validate_rate_None by blast
  moreover have "stc_wire (esr_transmit example_request) = default_wire_options"
    by (simp add: example_request_def)
  ultimately have "scan_checks powers_of_two (Some ''en0'') (from_millis 5) 0 2 default_wire_options None = Inr ()"
    using example_valid by (simp add: scan_checks_def)
  then show ?thesis
    using scan host_scan_sends [OF scan]
    by (simp add: target_scan_checks timed_scan_def op_then_def op_map_err_def macos_resolve_scan_interface_name_def
        host_addresses instant_now_def scripted.now_exact op_return_def)
qed

lemma targets_transmit_accepted_scans_only_witness:
  "\<exists>outcome w'. target_run 3 2 2 powers_of_two (MacosTarget host_kernel) fake_scan_clock
       (Scan (Some ''en0'') None (from_millis 5) 0 2 None default_wire_options) host_world = (Inr outcome, w')
     \<and> sent_of (se_events w') \<noteq> [] \<and> validate_ieee_8023_mac_client_data default_wire_options = Ok ()"
proof -
  obtain outcome w' where run: "target_run 3 2 2 powers_of_two (MacosTarget host_kernel) fake_scan_clock
     (Scan (Some ''en0'') None (from_millis 5) 0 2 None default_wire_options) host_world = (Inr outcome, w')"
    and sent: "sent_of (se_events w') \<noteq> []"
    using host_target_run by blast
  have "target_logs (MacosTarget host_kernel) fc_time se_events"
    using host_logs by (simp add: target_logs_def)
  from targets_transmit_accepted_scans_only [OF this example_clock_logs run host_quiet sent] run sent
  show ?thesis by auto
qed

end
