(* ===== verification/C_Library.thy ===== *)
theory C_Library
  imports Linux_Discovery
begin

text \<open>
  Calls of the C library as the wrappers of both backends make them. A call gives its result together
  with \<^verbatim>\<open>errno\<close>, which the same thread reads right after the call, so that no other call comes between.
\<close>

type_synonym ('w, 'a) libc_call = "'w \<Rightarrow> ('a \<times> nat) \<times> 'w"

definition checked_call ::
    "(nat \<Rightarrow> io_error) \<Rightarrow> ('a \<Rightarrow> bool) \<Rightarrow> ('w, 'a) libc_call \<Rightarrow> ('w, io_error, 'a) op" where
  "checked_call error failed call w =
     (case call w of ((result, errno), w) \<Rightarrow>
        if failed result then (Err (error errno), w) else (Ok result, w))"

abbreviation negative :: "int \<Rightarrow> bool" where "negative n \<equiv> n < 0"

text \<open>\<^verbatim>\<open>usize::try_from\<close> of a \<^verbatim>\<open>c_long\<close>, after a negative one is ruled out.\<close>

definition usize_try_from :: "string \<Rightarrow> int \<Rightarrow> io_error + nat" where
  "usize_try_from message n =
     (if n < 0 then Err \<lparr>io_kind = OtherKind, io_errno = None, io_text = message\<rparr> else Ok (nat n))"

lemma checked_call_quiet [quiet]:
  "quiet_step time events call \<Longrightarrow> quiet_call time events (checked_call error failed call)"
  unfolding quiet_step_def quiet_call_def checked_call_def
  by (auto split: prod.splits if_splits)

lemma checked_call_world:
  "checked_call error failed call w = (r, w') \<Longrightarrow> \<exists>x. call w = (x, w')"
  by (auto simp: checked_call_def split: prod.splits if_splits)

lemma op_then_return_world:
  "op_then m (\<lambda>x. op_return (f x)) w = (r, w') \<Longrightarrow> \<exists>q. m w = (q, w')"
  by (auto simp: op_then_def op_return_def split: prod.splits sum.splits)

end
