(* ===== verification/Linux_System_Call.thy ===== *)
theory Linux_System_Call
  imports Linux_Backend C_Library
begin

text \<open>
  \<^verbatim>\<open>src/linux_system_call.rs\<close>: the wrappers of the C library's calls. The library is a record of its
  functions with their own conventions: a negative number, a zero index or a null pointer is a
  failure, and \<^verbatim>\<open>errno\<close> then says which. It is read right after the call by the same thread, so it
  is a second component of the result. A null pointer is \<open>None\<close>, a C string its octets, and an array
  or list in memory the list of its elements. The wrappers turn the library into the kernel interface
  of \<open>Linux_Socket\<close>.
\<close>

section \<open>The C library\<close>

record if_name_entry =
  ine_index :: nat
  ine_name :: "string option"

record ifaddrs_node =
  ifn_name :: "string option"
  ifn_addr :: "u8 list option"

record 'w linux_libc =
  lc_strerror :: "nat \<Rightarrow> string"
  lc_socket :: "32 word \<Rightarrow> 32 word \<Rightarrow> 32 word \<Rightarrow> ('w, int) libc_call"
  lc_ioctl :: "nat \<Rightarrow> nat \<Rightarrow> string \<Rightarrow> ('w, int \<times> u8 list) libc_call"
  lc_if_nametoindex :: "string \<Rightarrow> ('w, nat) libc_call"
  lc_if_nameindex :: "('w, if_name_entry list option) libc_call"
  lc_getifaddrs :: "('w, int \<times> ifaddrs_node list) libc_call"
  lc_bind :: "nat \<Rightarrow> sock_address_link_layer \<Rightarrow> nat \<Rightarrow> ('w, int) libc_call"
  lc_sendto :: "nat \<Rightarrow> u8 list \<Rightarrow> nat \<Rightarrow> sock_address_link_layer \<Rightarrow> nat \<Rightarrow> ('w, int) libc_call"
  lc_recvfrom :: "nat \<Rightarrow> nat \<Rightarrow> nat \<Rightarrow> ('w, int \<times> u8 list) libc_call"
  lc_poll :: "nat \<Rightarrow> nat \<Rightarrow> nat \<Rightarrow> ('w, int) libc_call"

definition libc_af_inet :: "32 word" where "libc_af_inet = 2"
definition libc_af_packet :: "32 word" where "libc_af_packet = 17"
definition libc_sock_dgram :: "32 word" where "libc_sock_dgram = 2"
definition libc_sock_raw :: "32 word" where "libc_sock_raw = 3"
definition libc_sock_cloexec :: "32 word" where "libc_sock_cloexec = 0x80000"
definition libc_pollin :: nat where "libc_pollin = 1"
definition libc_msg_dontwait :: nat where "libc_msg_dontwait = 0x40"

text \<open>
  \<^verbatim>\<open>std::io::Error::last_os_error\<close>: the standard library's kinds of the error numbers that the
  program tells apart.
\<close>

definition os_error_kind :: "nat \<Rightarrow> io_kind" where
  "os_error_kind errno =
     (if errno = 1 \<or> errno = 13 then PermissionDenied
      else if errno = 2 then NotFound
      else if errno = 4 then Interrupted
      else if errno = 11 then WouldBlock
      else if errno = 22 then InvalidInput
      else OtherKind)"

definition os_error :: "'w linux_libc \<Rightarrow> nat \<Rightarrow> io_error" where
  "os_error c errno =
     \<lparr>io_kind = os_error_kind errno, io_errno = Some (int errno),
      io_text = lc_strerror c errno @ '' (os error '' @ show_nat errno @ '')''\<rparr>"

definition socklen_try_from :: "nat \<Rightarrow> io_error + nat" where
  "socklen_try_from n =
     (if u32_max < n
      then Err \<lparr>io_kind = InvalidInput, io_errno = None, io_text = ''sockaddr_ll length does not fit socklen_t''\<rparr>
      else Ok n)"

definition size_of_sockaddr_ll :: nat where "size_of_sockaddr_ll = 20"

definition sockaddr_link_layer_length :: "io_error + nat" where
  "sockaddr_link_layer_length = socklen_try_from size_of_sockaddr_ll"

section \<open>Sockets\<close>

definition open_socket ::
    "'w linux_libc \<Rightarrow> 32 word \<Rightarrow> 32 word \<Rightarrow> 32 word \<Rightarrow> ('w, io_error, nat) op" where
  "open_socket c domain socket_type protocol =
     op_then (checked_call (os_error c) negative (lc_socket c domain socket_type protocol)) (\<lambda>file_descriptor.
     op_return (nat file_descriptor))"

definition open_inet_datagram_socket :: "'w linux_libc \<Rightarrow> ('w, io_error, nat) op" where
  "open_inet_datagram_socket c =
     open_socket c libc_af_inet (or libc_sock_dgram libc_sock_cloexec) 0"

definition open_packet_raw_socket :: "'w linux_libc \<Rightarrow> u16 \<Rightarrow> ('w, io_error, nat) op" where
  "open_packet_raw_socket c ethernet_protocol_host_order =
     open_socket c libc_af_packet (or libc_sock_raw libc_sock_cloexec)
       (ucast (ethernet_protocol_host_to_network_order ethernet_protocol_host_order))"

definition ioctl_ifreq :: "'w linux_libc \<Rightarrow> nat \<Rightarrow> nat \<Rightarrow> string \<Rightarrow> ('w, io_error, u8 list) op" where
  "ioctl_ifreq c socket request_code request =
     op_then (checked_call (os_error c) (\<lambda>(result, _). result < 0) (lc_ioctl c socket request_code request)) (\<lambda>(_, ifru).
     op_return ifru)"

definition bind_sockaddr_link_layer ::
    "'w linux_libc \<Rightarrow> nat \<Rightarrow> sock_address_link_layer \<Rightarrow> ('w, io_error, unit) op" where
  "bind_sockaddr_link_layer c socket address =
     op_then (op_lift sockaddr_link_layer_length) (\<lambda>address_length.
     op_then (checked_call (os_error c) negative (lc_bind c socket address address_length)) (\<lambda>_.
     op_return ()))"

definition send_to_link_layer ::
    "'w linux_libc \<Rightarrow> nat \<Rightarrow> u8 list \<Rightarrow> sock_address_link_layer \<Rightarrow> ('w, io_error, nat) op" where
  "send_to_link_layer c socket message destination =
     op_then (op_lift sockaddr_link_layer_length) (\<lambda>destination_length.
     op_then (checked_call (os_error c) negative (lc_sendto c socket message 0 destination destination_length)) (\<lambda>sent.
     op_lift (usize_try_from ''sendto returned a negative byte count'' sent)))"

text \<open>The result of \<^verbatim>\<open>recvfrom\<close> comes with the octets it wrote to the caller's buffer.\<close>

definition receive_from_link_layer ::
    "'w linux_libc \<Rightarrow> nat \<Rightarrow> nat \<Rightarrow> nat \<Rightarrow> ('w, io_error, u8 list) op" where
  "receive_from_link_layer c socket buffer_length flags =
     op_then (op_lift sockaddr_link_layer_length) (\<lambda>_.
     op_then (checked_call (os_error c) (\<lambda>(received, _). received < 0) (lc_recvfrom c socket buffer_length flags))
       (\<lambda>(received, filled).
     op_then (op_lift (usize_try_from ''recvfrom returned a negative byte count'' received)) (\<lambda>n.
     op_return (take n filled))))"

definition poll_socket_readiness ::
    "'w linux_libc \<Rightarrow> nat \<Rightarrow> nat \<Rightarrow> nat \<Rightarrow> ('w, io_error, nat) op" where
  "poll_socket_readiness c socket events timeout_milliseconds =
     op_then (checked_call (os_error c) negative (lc_poll c socket events timeout_milliseconds)) (\<lambda>ready.
     op_return (nat ready))"

section \<open>Interfaces\<close>

definition interface_index :: "'w linux_libc \<Rightarrow> string \<Rightarrow> ('w, io_error, nat) op" where
  "interface_index c name = checked_call (os_error c) (\<lambda>index. index = 0) (lc_if_nametoindex c name)"

text \<open>The array ends at the entry with no index and no name; a name that is not UTF-8 is left out.\<close>

fun name_index_pairs :: "if_name_entry list \<Rightarrow> (string \<times> nat) list" where
  "name_index_pairs [] = []"
| "name_index_pairs (entry # entries) =
     (if ine_index entry = 0 \<and> ine_name entry = None then []
      else (case ine_name entry of
          None \<Rightarrow> name_index_pairs entries
        | Some name \<Rightarrow>
            if utf8_valid name then (name, ine_index entry) # name_index_pairs entries
            else name_index_pairs entries))"

definition if_nameindex_pairs :: "'w linux_libc \<Rightarrow> ('w, io_error, (string \<times> nat) list) op" where
  "if_nameindex_pairs c =
     op_then (checked_call (os_error c) (\<lambda>head. head = None) (lc_if_nameindex c)) (\<lambda>head.
     op_return (name_index_pairs (the head)))"

definition ipv4_address_from_sockaddr :: "u8 list \<Rightarrow> ipv4 option" where
  "ipv4_address_from_sockaddr sockaddr =
     (if sa_family sockaddr \<noteq> af_inet then None
      else Some (ipv4_new (sockaddr ! 4) (sockaddr ! 5) (sockaddr ! 6) (sockaddr ! 7)))"

definition interface_ipv4_address_record_from_ifaddrs :: "ifaddrs_node \<Rightarrow> (string \<times> ipv4) option" where
  "interface_ipv4_address_record_from_ifaddrs node =
     (case (ifn_name node, ifn_addr node) of
        (Some name, Some address) \<Rightarrow>
          if utf8_valid name then map_option (Pair name) (ipv4_address_from_sockaddr address) else None
      | _ \<Rightarrow> None)"

fun ifaddrs_records :: "ifaddrs_node list \<Rightarrow> (string \<times> ipv4) list" where
  "ifaddrs_records [] = []"
| "ifaddrs_records (node # nodes) =
     (case interface_ipv4_address_record_from_ifaddrs node of
        None \<Rightarrow> ifaddrs_records nodes | Some r \<Rightarrow> r # ifaddrs_records nodes)"

definition list_interface_ipv4_addresses :: "'w linux_libc \<Rightarrow> ('w, io_error, (string \<times> ipv4) list) op" where
  "list_interface_ipv4_addresses c =
     op_then (checked_call (os_error c) (\<lambda>(result, _). result \<noteq> 0) (lc_getifaddrs c)) (\<lambda>(_, nodes).
     op_return (ifaddrs_records nodes))"

section \<open>The kernel interface\<close>

text \<open>
  What the backend calls: \<^verbatim>\<open>recvfrom\<close> without blocking, \<^verbatim>\<open>poll\<close> for input. The sorting of the list of
  interfaces is that of \<open>list_interface_name_and_index_pairs\<close>.
\<close>

definition linux_kernel_of :: "'w linux_libc \<Rightarrow> 'w linux_kernel" where
  "linux_kernel_of c =
     \<lparr>lk_interface_index = interface_index c,
      lk_open_inet_datagram_socket = open_inet_datagram_socket c,
      lk_ioctl_ifreq = ioctl_ifreq c,
      lk_if_nameindex = if_nameindex_pairs c,
      lk_list_interface_ipv4_addresses = list_interface_ipv4_addresses c,
      lk_open_packet_raw_socket = open_packet_raw_socket c,
      lk_bind = bind_sockaddr_link_layer c,
      lk_sendto = send_to_link_layer c,
      lk_recvfrom = (\<lambda>socket n. receive_from_link_layer c socket n libc_msg_dontwait),
      lk_poll = (\<lambda>socket. poll_socket_readiness c socket libc_pollin)\<rparr>"

section \<open>From the library's documented behaviour to the kernel's\<close>

lemma length_fits [simp]: "sockaddr_link_layer_length = Ok 20"
  by (simp add: sockaddr_link_layer_length_def socklen_try_from_def size_of_sockaddr_ll_def u32_max_def)

text \<open>The second check of a byte count never fails.\<close>

lemma send_to_link_layer_eq:
  "send_to_link_layer c socket message destination w =
     (case lc_sendto c socket message 0 destination 20 w of ((sent, errno), w) \<Rightarrow>
        if sent < 0 then (Err (os_error c errno), w) else (Ok (nat sent), w))"
  by (auto simp: send_to_link_layer_def op_then_def op_lift_def checked_call_def usize_try_from_def
      split: prod.splits)

lemma receive_from_link_layer_eq:
  "receive_from_link_layer c socket n flags w =
     (case lc_recvfrom c socket n flags w of (((received, filled), errno), w) \<Rightarrow>
        if received < 0 then (Err (os_error c errno), w) else (Ok (take (nat received) filled), w))"
  by (auto simp: receive_from_link_layer_def op_then_def op_lift_def op_return_def checked_call_def
      usize_try_from_def split: prod.splits)

definition libc_logs :: "'w linux_libc \<Rightarrow> ('w \<Rightarrow> timestamp) \<Rightarrow> ('w \<Rightarrow> event list) \<Rightarrow> bool" where
  "libc_logs c time events \<longleftrightarrow>
     (\<forall>d t p. quiet_step time events (lc_socket c d t p))
     \<and> (\<forall>s q r. quiet_step time events (lc_ioctl c s q r))
     \<and> (\<forall>name. quiet_step time events (lc_if_nametoindex c name))
     \<and> quiet_step time events (lc_if_nameindex c) \<and> quiet_step time events (lc_getifaddrs c)
     \<and> (\<forall>s a l. quiet_step time events (lc_bind c s a l))
     \<and> (\<forall>s e t. quiet_step time events (lc_poll c s e t))
     \<and> (\<forall>s f flags a l w r w'. lc_sendto c s f flags a l w = (r, w') \<longrightarrow>
          (\<exists>t. events w' = events w @ [Sent t f] \<and> time w \<le> t \<and> t \<le> time w'))
     \<and> (\<forall>s n flags w received filled errno w'.
          lc_recvfrom c s n flags w = (((received, filled), errno), w') \<longrightarrow> time w \<le> time w'
          \<and> (if received \<le> 0 then events w' = events w
             else received \<le> int n \<and> received \<le> int (length filled)
               \<and> events w' = events w @ [Read (take (nat received) filled)]))"

lemma libc_quiet [quiet]:
  assumes "libc_logs c time events"
  shows "quiet_step time events (lc_socket c d k p)" "quiet_step time events (lc_ioctl c s q r)"
    "quiet_step time events (lc_if_nametoindex c name)" "quiet_step time events (lc_if_nameindex c)"
    "quiet_step time events (lc_getifaddrs c)" "quiet_step time events (lc_bind c s a l)"
    "quiet_step time events (lc_poll c s e t)"
  using assms by (simp_all add: libc_logs_def)

lemma wrappers_quiet:
  assumes "libc_logs c time events"
  shows "quiet_call time events (interface_index c name)"
    and "quiet_call time events (open_socket c d k p)"
    and "quiet_call time events (ioctl_ifreq c s q r)"
    and "quiet_call time events (if_nameindex_pairs c)"
    and "quiet_call time events (list_interface_ipv4_addresses c)"
    and "quiet_call time events (bind_sockaddr_link_layer c s a)"
    and "quiet_call time events (poll_socket_readiness c s e t)"
  unfolding interface_index_def open_socket_def ioctl_ifreq_def if_nameindex_pairs_def split_def
    list_interface_ipv4_addresses_def bind_sockaddr_link_layer_def poll_socket_readiness_def
  by (intro quiet assms)+

lemma kernel_of_logs:
  assumes "libc_logs c time events"
  shows "kernel_logs (linux_kernel_of c) time events"
proof -
  have "\<exists>t. events w' = events w @ [Sent t f] \<and> time w \<le> t \<and> t \<le> time w'"
    if "send_to_link_layer c s f a w = (r, w')" for s f a w r w'
  proof -
    obtain q w1 where "lc_sendto c s f 0 a 20 w = (q, w1)" by fastforce
    moreover from this have "w1 = w'"
      using that by (auto simp: send_to_link_layer_eq split: prod.splits if_splits)
    ultimately show ?thesis using assms unfolding libc_logs_def by blast
  qed
  moreover have "time w \<le> time w' \<and> (case r of Inl _ \<Rightarrow> events w' = events w
      | Inr f \<Rightarrow> length f \<le> n \<and> events w' = (if f = [] then events w else events w @ [Read f]))"
    if "receive_from_link_layer c s n flags w = (r, w')" for s n flags w r w'
  proof -
    obtain received filled errno w1 where run: "lc_recvfrom c s n flags w = (((received, filled), errno), w1)"
      by (metis prod.exhaust)
    have "time w \<le> time w1 \<and> (if received \<le> 0 then events w1 = events w
        else received \<le> int n \<and> received \<le> int (length filled)
          \<and> events w1 = events w @ [Read (take (nat received) filled)])"
      using assms run unfolding libc_logs_def by blast
    then show ?thesis
      using that run by (auto simp: receive_from_link_layer_eq split: if_splits)
  qed
  ultimately show ?thesis
    using wrappers_quiet [OF assms]
    by (simp add: kernel_logs_def linux_kernel_of_def open_inet_datagram_socket_def open_packet_raw_socket_def)
qed

text \<open>
  \<^verbatim>\<open>recvfrom\<close> as \<open>recvfrom_documented\<close> has it, in the library's terms: minus one with \<^verbatim>\<open>EINTR\<close> or
  \<^verbatim>\<open>EAGAIN\<close>, or the length of what it wrote.
\<close>

definition libc_recvfrom_documented ::
    "'w linux_libc \<Rightarrow> nat \<Rightarrow> ('w \<Rightarrow> u8 list list) \<Rightarrow> ('w \<Rightarrow> nat) \<Rightarrow> bool" where
  "libc_recvfrom_documented c sock queue signals \<longleftrightarrow>
     (\<forall>w n. \<exists>received filled errno w'.
        lc_recvfrom c sock n libc_msg_dontwait w = (((received, filled), errno), w')
        \<and> (if 0 < signals w
           then received = - 1 \<and> errno = 4 \<and> signals w' < signals w \<and> queue w' = queue w
           else signals w' = 0 \<and> (case queue w of
               [] \<Rightarrow> received = - 1 \<and> errno = 11 \<and> queue w' = []
             | f # fs \<Rightarrow> received = int (length (take n f)) \<and> take (length (take n f)) filled = take n f
                 \<and> queue w' = fs)))"

lemma kernel_of_recvfrom:
  assumes "libc_recvfrom_documented c sock queue signals"
  shows "recvfrom_documented (linux_kernel_of c) sock queue signals"
  unfolding recvfrom_documented_def
proof (intro allI)
  fix w n
  obtain received filled errno w' where run: "lc_recvfrom c sock n libc_msg_dontwait w = (((received, filled), errno), w')"
    and law: "if 0 < signals w
      then received = - 1 \<and> errno = 4 \<and> signals w' < signals w \<and> queue w' = queue w
      else signals w' = 0 \<and> (case queue w of
          [] \<Rightarrow> received = - 1 \<and> errno = 11 \<and> queue w' = []
        | f # fs \<Rightarrow> received = int (length (take n f)) \<and> take (length (take n f)) filled = take n f
            \<and> queue w' = fs)"
    using assms unfolding libc_recvfrom_documented_def by blast
  let ?r = "if received < 0 then Err (os_error c errno) else Ok (take (nat received) filled)"
  have "lk_recvfrom (linux_kernel_of c) sock n w = (?r, w')"
    using run by (simp add: linux_kernel_of_def receive_from_link_layer_eq)
  moreover have "if 0 < signals w
      then (\<exists>e. ?r = Inl e \<and> io_kind e = Interrupted \<and> io_errno e = Some 4)
        \<and> signals w' < signals w \<and> queue w' = queue w
      else signals w' = 0 \<and> (case queue w of
          [] \<Rightarrow> (\<exists>e. ?r = Inl e \<and> io_errno e = Some errno_eagain) \<and> queue w' = []
        | f # fs \<Rightarrow> ?r = Inr (take n f) \<and> queue w' = fs)"
    using law by (auto simp: os_error_def os_error_kind_def errno_eagain_def split: list.splits if_splits)
  ultimately show "\<exists>r w'. lk_recvfrom (linux_kernel_of c) sock n w = (r, w') \<and>
      (if 0 < signals w
       then (\<exists>e. r = Inl e \<and> io_kind e = Interrupted \<and> io_errno e = Some 4)
         \<and> signals w' < signals w \<and> queue w' = queue w
       else signals w' = 0 \<and> (case queue w of
           [] \<Rightarrow> (\<exists>e. r = Inl e \<and> io_errno e = Some errno_eagain) \<and> queue w' = []
         | f # fs \<Rightarrow> r = Inr (take n f) \<and> queue w' = fs))"
    by blast
qed

text \<open>A host whose interfaces do not change, in the library's terms.\<close>

definition libc_quiescent ::
    "'w linux_libc \<Rightarrow> (nat \<Rightarrow> string \<Rightarrow> (int \<times> u8 list) \<times> nat) \<Rightarrow> (string \<Rightarrow> nat \<times> nat)
     \<Rightarrow> if_name_entry list \<Rightarrow> bool" where
  "libc_quiescent c ioctl indexes entries \<longleftrightarrow>
     (\<forall>w. \<exists>fd errno. lc_socket c libc_af_inet (or libc_sock_dgram libc_sock_cloexec) 0 w = ((int fd, errno), w))
     \<and> (\<forall>s q r w. lc_ioctl c s q r w = (ioctl q (c_string r), w))
     \<and> (\<forall>name w. lc_if_nametoindex c name w = (indexes name, w))
     \<and> (\<forall>w. \<exists>errno. lc_if_nameindex c w = ((Some entries, errno), w))"

definition ioctl_answers ::
    "'w linux_libc \<Rightarrow> (nat \<Rightarrow> string \<Rightarrow> (int \<times> u8 list) \<times> nat) \<Rightarrow> nat \<Rightarrow> string \<Rightarrow> io_error + u8 list" where
  "ioctl_answers c ioctl q name =
     (case ioctl q name of ((result, ifru), errno) \<Rightarrow>
        if result < 0 then Err (os_error c errno) else Ok ifru)"

definition index_answers :: "'w linux_libc \<Rightarrow> (string \<Rightarrow> nat \<times> nat) \<Rightarrow> string \<Rightarrow> io_error + nat" where
  "index_answers c indexes name =
     (case indexes name of (index, errno) \<Rightarrow> if index = 0 then Err (os_error c errno) else Ok index)"

lemma kernel_of_quiescent:
  assumes "libc_quiescent c ioctl indexes entries"
  shows "quiescent_kernel (linux_kernel_of c) (ioctl_answers c ioctl) (index_answers c indexes)
    (name_index_pairs entries)"
proof -
  have "\<exists>s. open_inet_datagram_socket c w = (Inr s, w)" for w
  proof -
    obtain fd errno where "lc_socket c libc_af_inet (or libc_sock_dgram libc_sock_cloexec) 0 w = ((int fd, errno), w)"
      using assms unfolding libc_quiescent_def by blast
    then show ?thesis
      by (simp add: open_inet_datagram_socket_def open_socket_def checked_call_def op_then_def op_return_def)
  qed
  moreover have "if_nameindex_pairs c w = (Inr (name_index_pairs entries), w)" for w
  proof -
    obtain errno where "lc_if_nameindex c w = ((Some entries, errno), w)"
      using assms unfolding libc_quiescent_def by blast
    then show ?thesis
      by (simp add: if_nameindex_pairs_def checked_call_def op_then_def op_return_def)
  qed
  ultimately show ?thesis
    using assms
    by (auto simp: quiescent_kernel_def libc_quiescent_def linux_kernel_of_def ioctl_ifreq_def
        interface_index_def checked_call_def op_then_def op_return_def ioctl_answers_def index_answers_def
        split: prod.splits)
qed

text \<open>The array of the library ends at its terminator, whatever lies behind it in memory.\<close>

lemma name_index_pairs_terminated:
  "name_index_pairs (map (\<lambda>(name, index). \<lparr>ine_index = index, ine_name = Some name\<rparr>) ps
       @ \<lparr>ine_index = 0, ine_name = None\<rparr> # behind)
     = filter (\<lambda>p. utf8_valid (fst p)) ps"
  by (induction ps) auto

section \<open>An example host, in the library's terms\<close>

text \<open>
  The host of \<open>Linux_Backend\<close> again, with a loopback interface and \<^verbatim>\<open>eth0\<close>, over a world whose time
  has no bound: its frames, whether a signal is still to arrive, and the log. Each \<^verbatim>\<open>poll\<close> takes a
  nanosecond longer than it is told to wait.
\<close>

record host_world =
  hw_time :: timestamp
  hw_frames :: "u8 list list"
  hw_signal :: bool
  hw_events :: "event list"

definition host_queue :: "nat \<Rightarrow> host_world \<Rightarrow> u8 list list" where
  "host_queue s w = filter (\<lambda>f. f \<noteq> []) (hw_frames w)"

definition library_ioctl :: "nat \<Rightarrow> string \<Rightarrow> (int \<times> u8 list) \<times> nat" where
  "library_ioctl request name =
     (case example_ioctl request name of Inl _ \<Rightarrow> ((- 1, []), 19) | Inr ifru \<Rightarrow> ((0, ifru), 0))"

definition library_index :: "string \<Rightarrow> nat \<times> nat" where
  "library_index name = (if name = ''lo'' then (1, 0) else if name = ''eth0'' then (2, 0) else (0, 19))"

definition library_entries :: "if_name_entry list" where
  "library_entries =
     [\<lparr>ine_index = 1, ine_name = Some ''lo''\<rparr>, \<lparr>ine_index = 2, ine_name = Some ''eth0''\<rparr>,
      \<lparr>ine_index = 0, ine_name = None\<rparr>]"

definition example_libc :: "host_world linux_libc" where
  "example_libc =
     \<lparr>lc_strerror = (\<lambda>errno. if errno = 19 then ''No such device'' else ''Unknown error''),
      lc_socket = (\<lambda>domain socket_type protocol w. ((if domain = libc_af_inet then 3 else 4, 0), w)),
      lc_ioctl = (\<lambda>s q r w. (library_ioctl q (c_string r), w)),
      lc_if_nametoindex = (\<lambda>name w. (library_index name, w)),
      lc_if_nameindex = (\<lambda>w. ((Some library_entries, 0), w)),
      lc_getifaddrs = (\<lambda>w. (((0, [\<lparr>ifn_name = Some ''lo'', ifn_addr = None\<rparr>,
        \<lparr>ifn_name = Some ''eth0'', ifn_addr = Some [2, 0, 0, 0, 10, 0, 0, 1]\<rparr>]), 0), w)),
      lc_bind = (\<lambda>s a n w. ((0, 0), w)),
      lc_sendto = (\<lambda>s f flags a n w.
        ((int (length f), 0), w\<lparr>hw_events := hw_events w @ [Sent (hw_time w) f]\<rparr>)),
      lc_recvfrom = (\<lambda>s n flags w.
        if hw_signal w then (((- 1, []), 4), w\<lparr>hw_signal := False\<rparr>)
        else (case host_queue s w of
          [] \<Rightarrow> (((- 1, []), 11), w)
        | f # fs \<Rightarrow> (((int (length (take n f)), take n f), 0),
            w\<lparr>hw_frames := fs,
              hw_events := hw_events w @ (if take n f = [] then [] else [Read (take n f)])\<rparr>))),
      lc_poll = (\<lambda>s events ms w.
        if hw_signal w then ((- 1, 4), w\<lparr>hw_signal := False, hw_time := hw_time w + 1\<rparr>)
        else if host_queue s w = [] then ((0, 0), w\<lparr>hw_time := hw_time w + ms * 1000000 + 1\<rparr>)
        else ((1, 0), w\<lparr>hw_time := hw_time w + 1\<rparr>))\<rparr>"

lemma host_queue_tail: "host_queue s w = f # fs \<Longrightarrow> filter (\<lambda>f. f \<noteq> []) fs = fs"
  unfolding host_queue_def filter_eq_Cons_iff by auto

lemma take_cut [simp]: "take (min (length f) n) f = take n f"
  by (cases "n \<le> length f") auto

lemma example_libc_logs: "libc_logs example_libc hw_time hw_events"
  unfolding libc_logs_def quiet_step_def
  by (auto simp: example_libc_def min_def split: list.splits if_splits)

lemma example_libc_recvfrom:
  "libc_recvfrom_documented example_libc s (host_queue s) (\<lambda>w. if hw_signal w then 1 else 0)"
  unfolding libc_recvfrom_documented_def
proof (intro allI)
  fix w n
  show "\<exists>received filled errno w'.
      lc_recvfrom example_libc s n libc_msg_dontwait w = (((received, filled), errno), w')
      \<and> (if (0 :: nat) < (if hw_signal w then 1 else 0)
         then received = - 1 \<and> errno = 4
           \<and> (if hw_signal w' then 1 else 0) < (if hw_signal w then (1 :: nat) else 0) \<and> host_queue s w' = host_queue s w
         else (if hw_signal w' then 1 else 0) = (0 :: nat) \<and> (case host_queue s w of
             [] \<Rightarrow> received = - 1 \<and> errno = 11 \<and> host_queue s w' = []
           | f # fs \<Rightarrow> received = int (length (take n f)) \<and> take (length (take n f)) filled = take n f
               \<and> host_queue s w' = fs))"
    using host_queue_tail [of s w]
    by (cases "hw_signal w"; cases "host_queue s w")
      (simp_all add: example_libc_def, simp_all add: host_queue_def)
qed

lemma example_libc_quiescent: "libc_quiescent example_libc library_ioctl library_index library_entries"
  by (simp add: libc_quiescent_def example_libc_def)

lemma library_answers:
  "ioctl_answers example_libc library_ioctl = example_ioctl" "index_answers example_libc library_index = example_indexes"
  "name_index_pairs library_entries = [(''lo'', 1), (''eth0'', 2)]"
proof -
  have 19: "os_error example_libc 19 = no_such_device"
    by (simp add: os_error_def example_libc_def no_such_device_def os_error_kind_def) code_simp
  have "ioctl_answers example_libc library_ioctl q name = example_ioctl q name" for q name
    by (simp add: ioctl_answers_def library_ioctl_def example_ioctl_def 19)
  then show "ioctl_answers example_libc library_ioctl = example_ioctl" by (intro ext)
  have "index_answers example_libc library_index name = example_indexes name" for name
    by (simp add: index_answers_def library_index_def example_indexes_def 19)
  then show "index_answers example_libc library_index = example_indexes" by (intro ext)
  show "name_index_pairs library_entries = [(''lo'', 1), (''eth0'', 2)]"
    by code_simp
qed

lemmas example_libc_kernel = kernel_of_quiescent [OF example_libc_quiescent, unfolded library_answers]

section \<open>Properties\<close>



end
