(* ===== verification/System_Clock.thy ===== *)
theory System_Clock
  imports Linux_Socket
begin

text \<open>
  The production clock of \<^verbatim>\<open>src/scan_timing.rs\<close>, \<^verbatim>\<open>SystemScanClock\<close>, over \<^verbatim>\<open>Instant::now\<close> and
  \<^verbatim>\<open>thread::sleep\<close>, which are arguments. An instant is its nanoseconds since the start of the
  monotonic clock, at most \<open>instant_max\<close>, the largest the standard library represents.
\<close>

section \<open>The clock\<close>

definition instant_max :: nat where
  "instant_max = (2 ^ 63 - 1) * nanos_per_sec + 999999999"

definition system_scan_clock ::
    "('w \<Rightarrow> timestamp \<times> 'w) \<Rightarrow> (duration \<Rightarrow> 'w \<Rightarrow> 'w) \<Rightarrow> 'w clock" where
  "system_scan_clock instant_now thread_sleep =
     \<lparr>ck_now = instant_now,
      ck_add = (\<lambda>timestamp duration. checked_add instant_max timestamp duration),
      ck_since = (\<lambda>later earlier. later - earlier),
      ck_sleep_until = (\<lambda>deadline w.
        (case instant_now w of (now, w) \<Rightarrow>
           (case checked_sub deadline now of
              None \<Rightarrow> w
            | Some delay \<Rightarrow> if delay \<noteq> 0 then thread_sleep delay w else w))),
      ck_sleep_for = (\<lambda>duration w. if duration \<noteq> 0 then thread_sleep duration w else w),
      ck_unreadable = (\<lambda>_ w. w),
      ck_after_send = (\<lambda>w. w)\<rparr>"

section \<open>What it gives the engine\<close>

text \<open>
  \<^verbatim>\<open>Instant::now\<close> reads the monotonic clock between the call and its return, and \<^verbatim>\<open>thread::sleep\<close>
  sleeps at least as long as it is told to. Neither transmits or receives.
\<close>

definition time_documented ::
    "('w \<Rightarrow> timestamp \<times> 'w) \<Rightarrow> (duration \<Rightarrow> 'w \<Rightarrow> 'w) \<Rightarrow> ('w \<Rightarrow> timestamp) \<Rightarrow> ('w \<Rightarrow> event list) \<Rightarrow> bool" where
  "time_documented instant_now thread_sleep time events \<longleftrightarrow>
     (\<forall>w n w'. instant_now w = (n, w') \<longrightarrow> time w \<le> n \<and> n \<le> time w' \<and> events w' = events w)
     \<and> (\<forall>d w. time w + d \<le> time (thread_sleep d w) \<and> events (thread_sleep d w) = events w)"

lemma system_sleep_until:
  assumes "time_documented instant_now thread_sleep time events"
  shows "time w \<le> time (ck_sleep_until (system_scan_clock instant_now thread_sleep) u w)
    \<and> u \<le> time (ck_sleep_until (system_scan_clock instant_now thread_sleep) u w)
    \<and> events (ck_sleep_until (system_scan_clock instant_now thread_sleep) u w) = events w"
proof -
  obtain n w1 where now: "instant_now w = (n, w1)" by fastforce
  then have n: "time w \<le> n" "n \<le> time w1" "events w1 = events w"
    using assms unfolding time_documented_def by blast+
  have "time w1 + d \<le> time (thread_sleep d w1) \<and> events (thread_sleep d w1) = events w1" for d
    using assms unfolding time_documented_def by blast
  from this [of "u - n"] have slept: "time w1 + (u - n) \<le> time (thread_sleep (u - n) w1)"
    "events (thread_sleep (u - n) w1) = events w1" by blast+
  then have "time w \<le> time (thread_sleep (u - n) w1)" "n \<le> u \<Longrightarrow> u \<le> time (thread_sleep (u - n) w1)"
    using n by linarith+
  then show ?thesis
    using n slept now by (simp add: system_scan_clock_def checked_sub_def)
qed

lemma system_clock_monotonic:
  assumes "time_documented instant_now thread_sleep time events"
  shows "monotonic_clock (system_scan_clock instant_now thread_sleep) time"
proof
  fix w :: 'a and d
  have sleep: "time w + d \<le> time (thread_sleep d w)"
    using assms unfolding time_documented_def by blast
  then show "time w \<le> time (ck_sleep_for (system_scan_clock instant_now thread_sleep) d w)"
    by (simp add: system_scan_clock_def)
next
  fix w w' :: 'a and n
  assume "ck_now (system_scan_clock instant_now thread_sleep) w = (n, w')"
  then show "time w \<le> n \<and> n \<le> time w'"
    using assms unfolding time_documented_def by (simp add: system_scan_clock_def)
qed (use system_sleep_until [OF assms] in
    \<open>auto simp: system_scan_clock_def checked_add_eq_Some_iff\<close>)

lemma system_clock_logs:
  assumes "time_documented instant_now thread_sleep time events"
  shows "clock_logs (system_scan_clock instant_now thread_sleep) time events"
proof -
  have "events (thread_sleep d w) = events w" for d w
    using assms unfolding time_documented_def by blast
  moreover have "events w' = events w" if "instant_now w = (n, w')" for w n w'
    using assms that unfolding time_documented_def by blast
  ultimately show ?thesis
    using system_clock_monotonic [OF assms] system_sleep_until [OF assms]
    unfolding clock_logs_def by (auto simp: system_scan_clock_def)
qed

section \<open>Properties\<close>

text \<open>
  C13: the production clock is the monotonic clock that the scan engine relies on. Sleeping until a
  deadline ends no earlier than the deadline, and at once when it has passed; a deadline is the exact
  sum, and there is none exactly when the sum is beyond the largest instant; and nothing the clock does
  is transmitted or read.
\<close>

theorem system_clock_keeps_deadlines:
  assumes "time_documented instant_now thread_sleep time events"
  shows "clock_logs (system_scan_clock instant_now thread_sleep) time events
    \<and> deadline \<le> time (ck_sleep_until (system_scan_clock instant_now thread_sleep) deadline w)
    \<and> (instant_now w = (n, w1) \<and> deadline \<le> n
        \<longrightarrow> ck_sleep_until (system_scan_clock instant_now thread_sleep) deadline w = w1)
    \<and> ck_add (system_scan_clock instant_now thread_sleep) n d =
        (if n + d \<le> instant_max then Some (n + d) else None)"
proof (intro conjI impI)
  show "clock_logs (system_scan_clock instant_now thread_sleep) time events"
    by (rule system_clock_logs [OF assms])
  show "deadline \<le> time (ck_sleep_until (system_scan_clock instant_now thread_sleep) deadline w)"
    using system_sleep_until [OF assms] by blast
  show "ck_sleep_until (system_scan_clock instant_now thread_sleep) deadline w = w1"
    if "instant_now w = (n, w1) \<and> deadline \<le> n"
    using that by (auto simp: system_scan_clock_def checked_sub_def)
  show "ck_add (system_scan_clock instant_now thread_sleep) n d =
      (if n + d \<le> instant_max then Some (n + d) else None)"
    by (simp add: system_scan_clock_def checked_add_def)
qed

text \<open>A world that is nothing but its time.\<close>

lemma system_clock_keeps_deadlines_witness:
  "ck_sleep_until (system_scan_clock (\<lambda>w. (w, w)) (\<lambda>d w. w + d)) 7 (5 :: nat) \<ge> 7
   \<and> ck_sleep_until (system_scan_clock (\<lambda>w. (w, w)) (\<lambda>d w. w + d)) 3 (5 :: nat) = 5
   \<and> ck_add (system_scan_clock (\<lambda>w. (w, w)) (\<lambda>d w. w + d) :: nat clock) 5 instant_max = None"
proof -
  have "time_documented (\<lambda>w. (w, w)) (\<lambda>d w. w + d) (\<lambda>w :: nat. w) (\<lambda>_. [])"
    by (simp add: time_documented_def)
  note clock = system_clock_keeps_deadlines [OF this]
  show ?thesis
    using clock [where deadline = 7 and w = 5] clock [where deadline = 3 and w = 5 and n = 5 and ?w1.0 = 5]
      clock [where n = 5 and d = instant_max] by simp
qed

end
