(* ===== verification/Live_Capture.thy ===== *)
theory Live_Capture
  imports Monitor
begin

text \<open>
  Why the receive loops of the program end under a real clock, where every call takes time and
  nothing is told in advance. The loops poll with a timeout in whole milliseconds, rounded down, so
  in the last millisecond before the deadline they poll without waiting, turn after turn; a call may
  also be interrupted, or report a readiness that comes to nothing. Only that each such turn takes
  time brings the loops to their end.
\<close>

section \<open>A capture in real time\<close>

text \<open>
  A wait does not fail. It either takes time or reports a frame that is there, and when it ends
  unreadable, time has passed once the clock has accounted for it.
\<close>

locale live_capture = frame_source ep pending + timed_endpoint ck time ep events
  for ep :: "'w endpoint" and pending :: "'w \<Rightarrow> u8 list list" and ck :: "'w clock"
    and time :: "'w \<Rightarrow> timestamp" and events :: "'w \<Rightarrow> event list" +
  assumes now_pending: "ck_now ck w = (n, w') \<Longrightarrow> pending w' = pending w"
    and unreadable_pending: "pending (ck_unreadable ck d w) = pending w"
    and sleep_for_pending: "pending (ck_sleep_for ck d w) = pending w"
    and sleep_until_pending: "pending (ck_sleep_until ck t w) = pending w"
    and after_send_pending: "pending (ck_after_send ck w) = pending w"
    and send_pending: "ep_send ep frame w = (r', w') \<Longrightarrow> pending w' = pending w"
    and wait_returns:
      "\<exists>b w'. ep_wait ep ms w = (Inr b, w') \<and> pending w' = pending w
         \<and> (b \<longrightarrow> pending w \<noteq> [] \<or> time w < time w')"
    and wait_takes_time:
      "ep_wait ep ms w = (Inr False, w') \<Longrightarrow> n \<le> time w \<Longrightarrow> ck_add ck b c = Some t
         \<Longrightarrow> t \<le> n + duration_max \<Longrightarrow> time w < t \<Longrightarrow> time w < time (ck_unreadable ck (ck_since ck t n) w')"
begin

text \<open>
  Each turn either takes time or is the only one to read what is pending. A drain that keeps an
  invariant of its state and leaves nothing behind, or sees the deadline pass, comes back.
\<close>

lemma poll_ends:
  assumes drain: "\<And>s v. I s (pending v) \<Longrightarrow> \<exists>s' u. drain s v = (Inr s', u) \<and> I s' (pending u)
      \<and> time v \<le> time u \<and> (pending u = [] \<or> pending v \<noteq> [] \<and> deadline \<le> time u)"
    and deadline: "ck_add ck b c = Some deadline"
  shows "I s (pending w) \<Longrightarrow> deadline \<le> time w + duration_max \<Longrightarrow>
    deadline - time w + (if pending w = [] then 1 else 2) \<le> fuel \<Longrightarrow>
    \<exists>s' w'. poll_loop fuel poll_ms ep ck deadline drain s w = (Inr s', w') \<and> I s' (pending w')"
proof (induction fuel arbitrary: s w)
  case (Suc fuel)
  note loop = poll_loop.simps(2) [of fuel poll_ms ep ck deadline drain s w]
  obtain n1 w1 n2 w2 where now: "ck_now ck w = (n1, w1)" "ck_now ck w1 = (n2, w2)" by fastforce
  note t = now_between [OF now(1)] now_between [OF now(2)]
  have p: "pending w2 = pending w" "pending w1 = pending w"
    using now_pending [OF now(1)] now_pending [OF now(2)] by simp_all
  let ?rem = "ck_since ck deadline n2"
  show ?case
  proof (cases "n1 < deadline \<and> ?rem \<noteq> 0")
    case False
    then show ?thesis using Suc.prems(1) now p by (auto simp: loop)
  next
    case True
    obtain ready w3 where wait: "ep_wait ep (poll_ms ?rem) w2 = (Inr ready, w3)"
      and w3: "pending w3 = pending w" "ready \<longrightarrow> pending w \<noteq> [] \<or> time w2 < time w3"
      using wait_returns [of "poll_ms ?rem" w2] p by auto
    have mono: "time w2 \<le> time w3" using wait_quiet [OF wait] by simp
    have before: "time w < deadline" using True t by linarith
    show ?thesis
    proof (cases ready)
      case False
      let ?v = "ck_unreadable ck ?rem w3"
      have unready: "ep_wait ep (poll_ms ?rem) w2 = (Inr False, w3)" using wait False by simp
      have "time w < time ?v"
      proof (cases "time w2 < deadline")
        case True
        have "deadline \<le> n2 + duration_max" using Suc.prems(2) t by linarith
        from wait_takes_time [OF unready t(2) [THEN conjunct2] deadline this True] t show ?thesis by linarith
      next
        case False
        then show ?thesis using before mono unreadable_mono [of w3 ?rem] by linarith
      qed
      then have less: "deadline - time ?v + (if pending ?v = [] then 1 else 2) \<le> fuel"
        "deadline \<le> time ?v + duration_max"
        using Suc.prems(2,3) before w3 by (auto simp: unreadable_pending split: if_splits)
      have "poll_loop (Suc fuel) poll_ms ep ck deadline drain s w = poll_loop fuel poll_ms ep ck deadline drain s ?v"
        using now True wait False by (simp add: loop)
      then show ?thesis using Suc.IH [of s ?v] less Suc.prems(1) w3 unreadable_pending by simp
    next
      case ready: True
      obtain s' u where rd: "drain s w3 = (Inr s', u)" and u: "I s' (pending u)" "time w3 \<le> time u"
        "pending u = [] \<or> pending w \<noteq> [] \<and> deadline \<le> time u"
        using drain [of s w3] Suc.prems(1) w3 by auto
      have less: "deadline - time u + (if pending u = [] then 1 else 2) \<le> fuel" "deadline \<le> time u + duration_max"
        using u Suc.prems(2,3) w3 ready before mono t by (auto split: if_splits)
      have "poll_loop (Suc fuel) poll_ms ep ck deadline drain s w = poll_loop fuel poll_ms ep ck deadline drain s' u"
        using now True wait ready rd by (simp add: loop)
      then show ?thesis using Suc.IH [OF u(1) less(2,1)] by simp
    qed
  qed
qed (auto split: if_splits)

lemma drain_time:
  "drain_buffered_reply_frames dfuel ep acceptance buf a w = (r, w') \<Longrightarrow> time w \<le> time w'"
  using drain_reads by blast

lemma collect_ends:
  assumes fits: "readable pending (length buf) dfuel w"
    and deadline: "ck_add ck b c = Some dl" "dl \<le> time w + min k duration_max"
  shows "\<exists>buf' a' w'. collect_replies_loop (k + 2) dfuel ep ck dl acceptance buf a w = (Inr (buf', a'), w')
    \<and> length buf' = length buf \<and> readable pending (length buf) dfuel w'"
proof -
  let ?I = "\<lambda>s fs. length (fst s) = length buf \<and> (\<forall>f \<in> set fs. length f \<le> length buf) \<and> length fs < dfuel"
  let ?drain = "\<lambda>(buffer, acc). drain_buffered_reply_frames dfuel ep acceptance buffer acc"
  have "\<exists>s' u. ?drain s v = (Inr s', u) \<and> ?I s' (pending u)
      \<and> time v \<le> time u \<and> (pending u = [] \<or> pending v \<noteq> [] \<and> dl \<le> time u)"
    if I: "?I s (pending v)" for s v
  proof -
    obtain buffer acc where s: "s = (buffer, acc)" by (cases s) auto
    obtain b2 u where "drain_buffered_reply_frames dfuel ep acceptance buffer acc v =
        (Inr (b2, process_frames acceptance acc (pending v)), u)" "length b2 = length buffer" "pending u = []"
      using drain_all [of v buffer dfuel acceptance acc] I s by auto
    then show ?thesis using I s drain_time by fastforce
  qed
  moreover have "?I (buf, a) (pending w)" using fits by (simp add: readable_def)
  moreover have "dl \<le> time w + duration_max" "dl - time w + (if pending w = [] then 1 else 2) \<le> k + 2"
    using deadline(2) by auto
  ultimately have "\<exists>s' w'. poll_loop (k + 2) poll_timeout_milliseconds_for_receive_wait ep ck dl ?drain (buf, a) w =
      (Inr s', w') \<and> ?I s' (pending w')"
    by (intro poll_ends [where I = ?I and drain = ?drain, OF _ deadline(1)])
  then show ?thesis unfolding collect_replies_loop_def readable_def by fastforce
qed

end

text \<open>One turn for each nanosecond of the window and two more: enough for any window of at most \<open>k\<close>.\<close>

sublocale live_capture \<subseteq> settles: settling_capture ck time ep events pending "k + 2" "min k duration_max" for k
  by unfold_locales
    (rule collect_ends now_pending sleep_for_pending sleep_until_pending after_send_pending send_pending; assumption?)+

context live_capture
begin

lemma scan_comes_back:
  assumes "readable pending receive_buffer_length dfuel w"
    and "esr_receive_timeout request \<le> duration_max" and "duration_max + 2 \<le> fuel"
  shows "not_stuck (fst (collect_scan_over_endpoint fuel dfuel pw ep ck request w))"
proof -
  have "fuel = (fuel - 2) + 2" "duration_max \<le> min (fuel - 2) duration_max" using assms(3) by simp_all
  then show ?thesis using settles.scan_not_stuck [of dfuel w request "fuel - 2" pw] assms(1,2) by simp
qed

text \<open>For a burst the turns need only last for its own window.\<close>

lemma burst_returns:
  assumes "esr_rate_limit request = None"
    and "validate_ieee_8021q_tag_stack (stc_wire (esr_transmit request)) = Ok ()"
      "validate_ieee_8023_mac_client_data (stc_wire (esr_transmit request)) = Ok ()"
    and "readable pending receive_buffer_length dfuel w"
    and timeout: "esr_receive_timeout request \<le> k" "k \<le> duration_max"
    and "run_address_resolution_request_rounds ep ck (esr_targets request)
      (esr_transmit request) (esr_scan_round_count request) (esr_pacing request) [] w = (ws, w1)"
    and "ck_now ck w1 = (n, w2)"
  shows "if ck_add ck n (esr_receive_timeout request) = None
    then collect_scan_over_endpoint (k + 2) dfuel pw ep ck request w =
      (Inl (Failed (ScanTimingExceedsLimit MonotonicDeadline)), w2)
    else \<exists>outcome w'. collect_scan_over_endpoint (k + 2) dfuel pw ep ck request w = (Inr outcome, w')"
proof -
  have "esr_receive_timeout request \<le> min k duration_max" using timeout by simp
  from settles.burst_scan_returns [OF assms(1-4) this assms(7,8), of pw] show ?thesis .
qed

end

section \<open>Listening in real time\<close>

context live_capture
begin

lemma monitor_drain_ends:
  "readable pending (length buf) fuel w \<Longrightarrow>
     \<exists>buf' s' u. drain_until_deadline fuel ep ck deadline buf s w = (Inr (buf', s'), u)
       \<and> length buf' = length buf \<and> readable pending (length buf) fuel u \<and> time w \<le> time u
       \<and> (pending u = [] \<or> pending w \<noteq> [] \<and> deadline \<le> time u)"
proof (induction fuel arbitrary: buf s w)
  case (Suc fuel)
  note loop = drain_until_deadline.simps(2) [of fuel ep ck deadline buf s w]
  obtain n w1 where now: "ck_now ck w = (n, w1)" by fastforce
  note t = now_between [OF now] and p = now_pending [OF now]
  show ?case
  proof (cases "deadline \<le> n")
    case True
    then show ?thesis using Suc.prems now t p by (auto simp: loop readable_def)
  next
    case early: False
    show ?thesis
    proof (cases "pending w1")
      case Nil
      then obtain b2 w2 where recv: "ep_receive ep buf w1 = (Inr None, b2, w2)"
        and w2: "length b2 = length buf" "pending w2 = []"
        using receive_none [OF Nil, of buf] by auto
      moreover have "time w \<le> time w2" using receive_logs [OF recv] t by linarith
      ultimately show ?thesis using early now by (auto simp: loop readable_def)
    next
      case (Cons f fs)
      then obtain b2 w2 where recv: "ep_receive ep buf w1 = (Inr (Some (length f)), b2, w2)"
        and w2: "length b2 = length buf" "pending w2 = fs"
        using receive_some [OF Cons, of buf] Suc.prems p by (auto simp: readable_def)
      have "length f \<le> length b2" and r: "readable pending (length b2) fuel w2"
        using Suc.prems Cons p w2 by (auto simp: readable_def)
      then have step: "drain_until_deadline (Suc fuel) ep ck deadline buf s w =
          drain_until_deadline fuel ep ck deadline b2 (observe (take (length f) b2) s) w2"
        using early now recv by (simp add: loop)
      have "time w \<le> time w2" using receive_logs [OF recv] t by linarith
      moreover have "pending w \<noteq> []" using Cons p by simp
      ultimately show ?thesis
        using Suc.IH [OF r, of "observe (take (length f) b2) s"] w2(1) unfolding step
        by (fastforce simp: readable_def)
    qed
  qed
qed (simp add: readable_def)

lemma listen_returns:
  assumes fits: "readable pending monitor_receive_buffer_length dfuel w"
    and timeout: "0 < mlr_timeout request" "mlr_timeout request \<le> duration_max"
    and now: "ck_now ck w = (n, w1)"
    and fuel: "mlr_timeout request + 2 \<le> fuel"
  shows "if ck_add ck n (mlr_timeout request) = None
    then listen_for_passive_arp fuel dfuel ep ck request w =
      (Inl (Failed (ScanTimingExceedsLimit MonotonicDeadline)), w1)
    else \<exists>outcome w'. listen_for_passive_arp fuel dfuel ep ck request w = (Inr outcome, w')"
proof (cases "ck_add ck n (mlr_timeout request)")
  case None
  then show ?thesis using now timeout by (simp add: listen_for_passive_arp_def monitor_deadline_def ok_or_def)
next
  case (Some dl)
  let ?buf = "replicate monitor_receive_buffer_length (0 :: u8)"
  let ?agg = "aggregator_new (mlr_local_mac_address request) (mlr_local_ipv4_addresses request)
    monitor_distinct_record_limit"
  let ?I = "\<lambda>s fs. length (fst s) = length ?buf
    \<and> (\<forall>f \<in> set fs. length f \<le> length ?buf) \<and> length fs < dfuel"
  let ?drain = "\<lambda>(buffer, s). drain_until_deadline dfuel ep ck dl buffer s"
  have "\<exists>s' u. ?drain s v = (Inr s', u) \<and> ?I s' (pending u)
      \<and> time v \<le> time u \<and> (pending u = [] \<or> pending v \<noteq> [] \<and> dl \<le> time u)"
    if I: "?I s (pending v)" for s v
  proof -
    obtain buffer agg where s: "s = (buffer, agg)" by (cases s) auto
    have "readable pending (length buffer) dfuel v" using I s by (simp add: readable_def)
    from monitor_drain_ends [OF this, of dl agg] show ?thesis using I s by (auto simp: readable_def)
  qed
  moreover have "?I (?buf, ?agg) (pending w1)" using fits now_pending [OF now] by (simp add: readable_def)
  moreover have "dl \<le> time w1 + duration_max" "dl - time w1 + (if pending w1 = [] then 1 else 2) \<le> fuel"
    using add_exact [OF Some] now_between [OF now] timeout fuel by auto
  ultimately have "\<exists>s' w'. poll_loop fuel monitor_poll_timeout_milliseconds ep ck dl ?drain (?buf, ?agg) w1 =
      (Inr s', w') \<and> ?I s' (pending w')"
    by (intro poll_ends [where I = ?I and drain = ?drain, OF _ Some])
  then show ?thesis
    using Some now timeout(1) by (auto simp: listen_for_passive_arp_def monitor_deadline_def ok_or_def)
qed

end

text \<open>A scripted capture is such a capture, under a clock that stands still.\<close>

sublocale scripted_capture \<subseteq> live: live_capture ep pending ck time events
proof (unfold_locales, goal_cases)
  case (7 ms w)
  then show ?case using wait_level [of ms w] by blast
next
  case (8 ms w w' n b c t)
  have "time w' = time w" using wait_level [of ms w] 8(1) by auto
  then show ?case using unreadable_reaches [of n w' t b c] 8 by simp
qed (use now_exact unreadable_pending sleep_for_pending sleep_until_pending after_send_pending
    send_instant in auto)

end
