(* ===== verification/Linux_Run.thy ===== *)
theory Linux_Run
  imports Linux_System_Call System_Clock Application_Run Live_Capture
begin

text \<open>
  The program on Linux down to the libraries: a command is dispatched by \<open>run\<close>, its system calls are
  those of \<open>linux_kernel_of\<close> over the C library and its clock is \<open>system_scan_clock\<close> over \<^verbatim>\<open>Instant\<close>
  and \<^verbatim>\<open>thread::sleep\<close>, so that what is assumed is the documented behaviour of these alone. Whatever
  the command, a run comes back; and a burst scan that comes back with an outcome has done what it
  says.
\<close>

section \<open>The packet socket as a live capture\<close>

text \<open>
  \<^verbatim>\<open>poll\<close> takes time and fails only when a signal interrupts it. \<open>queue s w\<close> are the frames captured
  on the descriptor \<open>s\<close> that are not yet read; only \<^verbatim>\<open>recvfrom\<close> takes them away.
\<close>

definition kernel_waits ::
    "'w linux_kernel \<Rightarrow> (nat \<Rightarrow> 'w \<Rightarrow> u8 list list) \<Rightarrow> ('w \<Rightarrow> timestamp) \<Rightarrow> bool" where
  "kernel_waits k queue time \<longleftrightarrow>
     (\<forall>s ms w. \<exists>r w'. lk_poll k s ms w = (r, w') \<and> queue s w' = queue s w \<and> time w < time w'
        \<and> (\<forall>e. r = Inl e \<longrightarrow> io_kind e = Interrupted))
     \<and> (\<forall>s f a w r w'. lk_sendto k s f a w = (r, w') \<longrightarrow> queue s w' = queue s w)
     \<and> (\<forall>p w r w'. lk_open_packet_raw_socket k p w = (r, w') \<longrightarrow> (\<forall>s. queue s w' = queue s w))
     \<and> (\<forall>s a w r w'. lk_bind k s a w = (r, w') \<longrightarrow> (\<forall>s. queue s w' = queue s w))
     \<and> (\<forall>w r w'. lk_list_interface_ipv4_addresses k w = (r, w') \<longrightarrow> (\<forall>s. queue s w' = queue s w))"

definition clock_keeps :: "'w clock \<Rightarrow> (nat \<Rightarrow> 'w \<Rightarrow> u8 list list) \<Rightarrow> bool" where
  "clock_keeps ck queue \<longleftrightarrow>
     (\<forall>s w n w'. ck_now ck w = (n, w') \<longrightarrow> queue s w' = queue s w)
     \<and> (\<forall>s d w. queue s (ck_unreadable ck d w) = queue s w) \<and> (\<forall>s d w. queue s (ck_sleep_for ck d w) = queue s w)
     \<and> (\<forall>s t w. queue s (ck_sleep_until ck t w) = queue s w) \<and> (\<forall>s w. queue s (ck_after_send ck w) = queue s w)"

lemma linux_live_capture:
  assumes logs: "kernel_logs k time events" "clock_logs ck time events"
    and "recvfrom_documented k (lle_packet_socket e) (queue (lle_packet_socket e)) signals"
    and "\<And>w. signals w < rfuel" and "\<And>w. [] \<notin> set (queue (lle_packet_socket e) w)"
    and waits: "kernel_waits k queue time" and keeps: "clock_keeps ck queue"
  shows "live_capture (linux_endpoint rfuel k e) (queue (lle_packet_socket e)) ck time events"
proof (intro live_capture.intro live_capture_axioms.intro)
  let ?s = "lle_packet_socket e"
  have poll: "\<exists>b w'. ep_wait (linux_endpoint rfuel k e) ms w = (Inr b, w') \<and> queue ?s w' = queue ?s w \<and> time w < time w'"
    for ms w
  proof -
    obtain r w' where "lk_poll k ?s ms w = (r, w')" "queue ?s w' = queue ?s w" "time w < time w'"
      "\<forall>e. r = Inl e \<longrightarrow> io_kind e = Interrupted"
      using waits [unfolded kernel_waits_def, THEN conjunct1, THEN spec, THEN spec, THEN spec, of ?s ms w]
      by (elim exE conjE) (rule that)
    then show ?thesis by (cases r) (auto simp: linux_endpoint_def linux_wait_def)
  qed
  show "frame_source (linux_endpoint rfuel k e) (queue ?s)"
    by (rule linux_frame_source [OF assms(3-5)])
  show "timed_endpoint ck time (linux_endpoint rfuel k e) events"
    by (rule linux_timed_endpoint [OF logs])
  show "\<exists>b w'. ep_wait (linux_endpoint rfuel k e) ms w = (Inr b, w') \<and> queue ?s w' = queue ?s w
      \<and> (b \<longrightarrow> queue ?s w \<noteq> [] \<or> time w < time w')" for ms w
    using poll by blast
  show "queue ?s w' = queue ?s w" if send: "ep_send (linux_endpoint rfuel k e) frame w = (r', w')" for frame w r' w'
  proof -
    obtain q w1 where "lk_sendto k ?s frame (lle_link_layer_destination e) w = (q, w1)" by fastforce
    moreover have "w1 = w'"
      using send calculation by (auto simp: linux_endpoint_def linux_send_def split: sum.splits)
    ultimately show ?thesis using waits unfolding kernel_waits_def by blast
  qed
  show "time w < time (ck_unreadable ck (ck_since ck t n) w')"
    if "ep_wait (linux_endpoint rfuel k e) ms w = (Inr False, w')" for ms w w' n t
  proof -
    have "time w < time w'" using poll [of ms w] that by auto
    moreover have "time w' \<le> time (ck_unreadable ck (ck_since ck t n) w')"
      using logs(2) unfolding clock_logs_def monotonic_clock_def by blast
    ultimately show ?thesis by simp
  qed
qed (use keeps in \<open>simp_all add: clock_keeps_def\<close>)

section \<open>A run comes back\<close>

lemma comes_back:
  "(\<And>x v. m w = (Inr x, v) \<Longrightarrow> not_stuck (fst (f x v))) \<Longrightarrow> not_stuck (fst (op_then (op_map_err Failed m) f w))"
  by (cases "m w"; cases "fst (m w)") (auto simp: op_then_def op_map_err_def)

lemma not_stuck_iff: "not_stuck r \<longleftrightarrow> (\<exists>x. r = Inr x) \<or> (\<exists>e. r = Inl (Failed e))"
  unfolding not_stuck_def by (cases r; cases "projl r") auto

lemma opened_keeps:
  assumes "quiescent_kernel k ioctl indexes pairs" and waits: "kernel_waits k queue time"
    and "open_endpoint_with_protocols k name p q w = (Inr e, w')"
  shows "queue s w' = queue s w"
proof -
  from assms(3) obtain i w1 fd w2 where
    index: "validated_interface_index_for_arp_scanning k name w = (Inr i, w1)"
    and raw: "lk_open_packet_raw_socket k p w1 = (Inr fd, w2)"
    and bind: "\<exists>a. lk_bind k fd a w2 = (Inr (), w')"
    by (auto simp: open_endpoint_with_protocols_def op_then_eq_Ok open_raw_packet_socket_def
        bind_packet_socket_to_interface_def op_lift_def op_return_def split: if_splits)
  have "validate_interface_name_for_linux_packet_socket name = Ok ()"
    using index by (auto simp: validated_interface_index_for_arp_scanning_def op_then_eq_Ok op_lift_def)
  then have "w1 = w" using index validated_index_quiescent [OF assms(1)] by simp
  moreover have "queue s w2 = queue s w1" "queue s w' = queue s w2"
    using waits raw bind unfolding kernel_waits_def by blast+
  ultimately show ?thesis by simp
qed

text \<open>The facts about the host that a run rests on.\<close>

definition live_host ::
    "'w linux_kernel \<Rightarrow> 'w clock \<Rightarrow> (nat \<Rightarrow> 'w \<Rightarrow> u8 list list) \<Rightarrow> ('w \<Rightarrow> nat) \<Rightarrow> ('w \<Rightarrow> timestamp)
     \<Rightarrow> ('w \<Rightarrow> event list) \<Rightarrow> nat \<Rightarrow> bool" where
  "live_host k ck queue signals time events rfuel \<longleftrightarrow>
     kernel_logs k time events \<and> clock_logs ck time events
     \<and> (\<forall>s. recvfrom_documented k s (queue s) signals) \<and> (\<forall>w. signals w < rfuel)
     \<and> (\<forall>s w. [] \<notin> set (queue s w)) \<and> kernel_waits k queue time \<and> clock_keeps ck queue"

lemma live_endpoint:
  assumes "live_host k ck queue signals time events rfuel"
  shows "live_capture (linux_endpoint rfuel k e) (queue (lle_packet_socket e)) ck time events"
  using assms unfolding live_host_def by (intro linux_live_capture) blast+

lemma engine_not_stuck:
  assumes host: "live_host k ck queue signals time events rfuel"
    and fits: "\<And>s. readable (queue s) receive_buffer_length dfuel w"
    and fuel: "duration_max + 2 \<le> fuel" and timeout: "esr_receive_timeout request \<le> duration_max"
  shows "not_stuck (fst (collect_scan_over_endpoint fuel dfuel pw (linux_endpoint rfuel k e) ck request w))"
  by (rule live_capture.scan_comes_back [OF live_endpoint [OF host] fits timeout fuel])

text \<open>Before the engine, a call either fails with an error of the program or leaves the queues alone.\<close>

lemma linux_engine_not_stuck:
  assumes host: "live_host k ck queue signals time events rfuel" and q: "quiescent_kernel k ioctl indexes pairs"
    and fits: "\<And>s. readable (queue s) receive_buffer_length dfuel w"
    and fuel: "duration_max + 2 \<le> fuel" and timeout: "\<And>a p. esr_receive_timeout (request a p) \<le> duration_max"
  shows "not_stuck (fst (op_then (op_map_err Failed (op_lift checked)) (\<lambda>_.
     op_then (op_map_err Failed (validated_interface_index_for_arp_scanning k name)) (\<lambda>_.
     op_then (op_map_err Failed (discover_interface_scan_addresses k name)) (\<lambda>addresses.
     op_then (op_map_err Failed (op_lift (check addresses))) (\<lambda>plan.
     op_then (op_map_err Failed (open_linux_link_layer_endpoint k name wire)) (\<lambda>endpoint.
     collect_scan_over_endpoint fuel dfuel pw (linux_endpoint rfuel k endpoint) ck (request addresses plan)))))) w))"
proof (intro comes_back, goal_cases)
  case (1 x v0 i v1 a v2 p v3 e v4)
  have "v0 = w" using 1(1) by (simp add: op_lift_def)
  moreover have "v2 = v0" using prepared_interface [OF q 1(2,3)] by simp
  moreover have "v3 = v2" using 1(4) by (simp add: op_lift_def)
  moreover have "queue s v4 = queue s v3" for s
    using 1(5) host opened_keeps [OF q] unfolding open_linux_link_layer_endpoint_def live_host_def by blast
  ultimately have "readable (queue s) receive_buffer_length dfuel v4" for s
    using fits [of s] by (simp add: readable_def)
  then show ?case by (intro engine_not_stuck [OF host _ fuel timeout])
qed

lemma linux_scan_not_stuck:
  assumes "live_host k ck queue signals time events rfuel" and "quiescent_kernel k ioctl indexes pairs"
    and "\<And>s. readable (queue s) receive_buffer_length dfuel w"
    and "duration_max + 2 \<le> fuel" and timeout: "timeout \<le> duration_max"
  shows "not_stuck (fst (perform_arp_scan fuel dfuel rfuel pw k ck name timeout pacing rounds wire rate w))"
    and "not_stuck (fst (perform_arp_probe fuel dfuel rfuel pw k ck name target timeout pacing rounds wire rate w))"
  unfolding perform_arp_scan_def perform_arp_probe_def
  by (rule linux_engine_not_stuck [OF assms(1-4)], simp add: timeout)+

lemma monitor_not_stuck:
  assumes host: "live_host k ck queue signals time events rfuel" and q: "quiescent_kernel k ioctl indexes pairs"
    and fits: "\<And>s. readable (queue s) monitor_receive_buffer_length dfuel w"
    and fuel: "duration_max + 2 \<le> fuel" and timeout: "timeout \<le> duration_max"
  shows "not_stuck (fst (perform_passive_arp_monitor fuel dfuel rfuel k ck name timeout w))"
  unfolding perform_passive_arp_monitor_def
proof (intro comes_back, goal_cases)
  case (1 deadline v0 identity v1 e v2)
  have v0: "queue s v0 = queue s w" for s
    using 1(1) host unfolding monitor_deadline_def live_host_def clock_keeps_def
    by (auto split: if_splits prod.splits)
  have "queue s v1 = queue s v0" for s
  proof -
    from 1(2) obtain i u1 a u2 records u3 where
      i: "validated_interface_index_for_arp_scanning k name v0 = (Inr i, u1)"
      and a: "discover_interface_scan_addresses k name u1 = (Inr a, u2)"
      and "lk_list_interface_ipv4_addresses k u2 = (Inr records, v1)"
      by (auto simp: discover_monitor_interface_identity_def op_then_eq_Ok op_lift_def Let_def)
    then have "queue s v1 = queue s u2"
      using host unfolding live_host_def kernel_waits_def by blast
    then show ?thesis using prepared_interface [OF q i a] by simp
  qed
  moreover have "queue s v2 = queue s v1" for s
    using 1(3) host opened_keeps [OF q] unfolding open_linux_monitor_link_layer_endpoint_def live_host_def by blast
  ultimately have fits2: "readable (queue s) monitor_receive_buffer_length dfuel v2" for s
    using fits [of s] v0 by (simp add: readable_def)
  have "timeout \<noteq> 0" using 1(1) by (simp add: monitor_deadline_def split: if_splits)
  let ?request = "\<lparr>mlr_local_ipv4_addresses = mii_ipv4_addresses identity,
      mlr_local_mac_address = mii_source_mac_address identity, mlr_timeout = timeout\<rparr>"
  obtain n v3 where now: "ck_now ck v2 = (n, v3)" by fastforce
  have "0 < mlr_timeout ?request" "mlr_timeout ?request \<le> duration_max" "mlr_timeout ?request + 2 \<le> fuel"
    using \<open>timeout \<noteq> 0\<close> timeout fuel by simp_all
  from live_capture.listen_returns [OF live_endpoint [where e = e, OF host] fits2 this(1,2) now this(3)]
  show ?case by (auto split: if_splits)
qed

lemma returns_not_stuck:
  "not_stuck (fst (m w)) \<Longrightarrow> not_stuck (fst (op_then m (\<lambda>x. op_then (instant_now ck) (\<lambda>n. op_return (f x n))) w))"
  by (cases "m w"; cases "fst (m w)")
    (auto simp: op_then_def instant_now_def op_return_def not_stuck_def split: prod.split)

lemma resolve_unchanged:
  assumes q: "quiescent_kernel k ioctl indexes pairs" and "resolve_scan_interface_name k name w = (Inr resolved, w')"
  shows "w' = w"
proof (cases name)
  case None
  then show ?thesis
    using assms(2) enumerate_quiescent [OF q]
    by (auto simp: resolve_scan_interface_name_def op_then_eq_Ok op_lift_def)
next
  case (Some n)
  then obtain i w1 a where i: "validated_interface_index_for_arp_scanning k n w = (Inr i, w1)"
    and a: "discover_interface_scan_addresses k n w1 = (Inr a, w')"
    using assms(2) by (auto simp: resolve_scan_interface_name_def op_then_eq_Ok op_return_def op_lift_def)
  then show ?thesis using prepared_interface [OF q i a] by simp
qed

lemma instant_comes_back:
  "(\<And>n v. ck_now ck w = (n, v) \<Longrightarrow> not_stuck (fst (f n v))) \<Longrightarrow> not_stuck (fst (op_then (instant_now ck) f w))"
  by (cases "ck_now ck w") (simp add: op_then_def instant_now_def)

text \<open>The durations of a command are durations of the standard library.\<close>

fun representable :: "application_command \<Rightarrow> bool" where
  "representable (Scan _ _ timeout _ _ _ _) \<longleftrightarrow> timeout \<le> duration_max"
| "representable (Application_Command.Monitor _ timeout) \<longleftrightarrow> timeout \<le> duration_max"
| "representable UsableInterfacesList \<longleftrightarrow> True"

lemma run_not_stuck:
  assumes host: "live_host k ck queue signals time events rfuel" and q: "quiescent_kernel k ioctl indexes pairs"
    and fits: "\<And>s. readable (queue s) receive_buffer_length dfuel w"
    and fuel: "duration_max + 2 \<le> fuel" and timeout: "representable command"
  shows "not_stuck (fst (run fuel dfuel rfuel pw k ck command w))"
proof (cases command)
  case (Scan name target timeout pacing attempts rate wire)
  then have t: "timeout \<le> duration_max" using timeout by simp
  show ?thesis
  proof (cases "scan_checks pw name timeout pacing attempts wire rate")
    case Inr
    have "not_stuck (fst (op_then (op_map_err Failed (resolve_scan_interface_name k name)) (\<lambda>resolved.
       op_then (instant_now ck) (\<lambda>started.
       op_then (case target of
           Some target_ipv4_address \<Rightarrow> perform_arp_probe fuel dfuel rfuel pw k ck resolved
             target_ipv4_address timeout pacing attempts wire rate
         | None \<Rightarrow> perform_arp_scan fuel dfuel rfuel pw k ck resolved timeout pacing attempts
             wire rate) (\<lambda>outcome.
       op_then (instant_now ck) (\<lambda>ended.
       op_return (ScanOutcome
         (with_scan_timing_summary outcome resolved (ck_since ck ended started) attempts)))))) w))"
    proof (intro comes_back instant_comes_back returns_not_stuck, goal_cases)
      case (1 resolved v0 n v)
      have "queue s v = queue s w" for s
        using resolve_unchanged [OF q 1(1)] 1(2) host unfolding live_host_def clock_keeps_def by metis
      then have "readable (queue s) receive_buffer_length dfuel v" for s using fits [of s] by (simp add: readable_def)
      note linux_scan_not_stuck [OF host q this fuel t]
      then show ?case by (simp split: option.split)
    qed
    then show ?thesis using Scan Inr by (simp add: run_scan_checks)
  qed (simp add: Scan run_scan_checks)
next
  case (Monitor name timeout)
  then have t: "timeout \<le> duration_max" using timeout by simp
  have same: "receive_buffer_length = monitor_receive_buffer_length"
    by (simp add: receive_buffer_length_def monitor_receive_buffer_length_def)
  show ?thesis
    unfolding Monitor run.simps run_passive_arp_monitor_def
  proof (intro comes_back instant_comes_back returns_not_stuck, goal_cases)
    case (1 deadline v0 u v1 resolved v2 n v3)
    have "queue s v3 = queue s v2" "queue s v0 = queue s w" for s
      using 1(1,4) host unfolding monitor_deadline_def live_host_def clock_keeps_def
      by (auto split: if_splits prod.splits)
    moreover have "v2 = v1" "v1 = v0" using resolve_unchanged [OF q 1(3)] 1(2) by (simp_all add: op_lift_def)
    ultimately have "readable (queue s) monitor_receive_buffer_length dfuel v3" for s
      using fits [of s] by (simp add: readable_def same)
    then show ?case by (rule monitor_not_stuck [OF host q _ fuel t])
  qed
next
  case UsableInterfacesList
  have "not_stuck (fst (op_then (op_map_err Failed (enumerate_usable_arp_scan_interface_candidates k)) (\<lambda>candidates.
     op_return (usable_interfaces_outcome_from_candidates candidates)) w))"
    by (intro comes_back) (simp add: op_return_def)
  then show ?thesis by (simp add: UsableInterfacesList)
qed

section \<open>From the libraries\<close>

text \<open>What \<open>kernel_waits\<close> and \<open>clock_keeps\<close> say, of the C library and of the standard library.\<close>

definition libc_waits ::
    "'w linux_libc \<Rightarrow> (nat \<Rightarrow> 'w \<Rightarrow> u8 list list) \<Rightarrow> ('w \<Rightarrow> timestamp) \<Rightarrow> bool" where
  "libc_waits c queue time \<longleftrightarrow>
     (\<forall>s ms w. \<exists>ready errno w'. lc_poll c s libc_pollin ms w = ((ready, errno), w')
        \<and> queue s w' = queue s w \<and> time w < time w' \<and> (ready < 0 \<longrightarrow> errno = 4))
     \<and> (\<forall>s f flags a l w r w'. lc_sendto c s f flags a l w = (r, w') \<longrightarrow> queue s w' = queue s w)
     \<and> (\<forall>d k p w r w'. lc_socket c d k p w = (r, w') \<longrightarrow> (\<forall>s. queue s w' = queue s w))
     \<and> (\<forall>s a l w r w'. lc_bind c s a l w = (r, w') \<longrightarrow> (\<forall>s. queue s w' = queue s w))
     \<and> (\<forall>w r w'. lc_getifaddrs c w = (r, w') \<longrightarrow> (\<forall>s. queue s w' = queue s w))"

definition time_keeps ::
    "('w \<Rightarrow> timestamp \<times> 'w) \<Rightarrow> (duration \<Rightarrow> 'w \<Rightarrow> 'w) \<Rightarrow> (nat \<Rightarrow> 'w \<Rightarrow> u8 list list) \<Rightarrow> bool" where
  "time_keeps read_now sleep queue \<longleftrightarrow>
     (\<forall>s w n w'. read_now w = (n, w') \<longrightarrow> queue s w' = queue s w)
     \<and> (\<forall>s d w. queue s (sleep d w) = queue s w)"

lemma kernel_of_waits:
  assumes "libc_waits c queue time"
  shows "kernel_waits (linux_kernel_of c) queue time"
proof -
  have "\<exists>r w'. poll_socket_readiness c s libc_pollin ms w = (r, w') \<and> queue s w' = queue s w \<and> time w < time w'
      \<and> (\<forall>e. r = Inl e \<longrightarrow> io_kind e = Interrupted)" for s ms w
  proof -
    obtain ready errno w' where "lc_poll c s libc_pollin ms w = ((ready, errno), w')"
      "queue s w' = queue s w" "time w < time w'" "ready < 0 \<longrightarrow> errno = 4"
      using assms [unfolded libc_waits_def, THEN conjunct1, THEN spec, THEN spec, THEN spec, of s ms w]
      by (elim exE conjE) (rule that)
    then show ?thesis
      by (auto simp: poll_socket_readiness_def checked_call_def op_then_def op_return_def os_error_def
          os_error_kind_def)
  qed
  moreover have "queue s w' = queue s w" if "send_to_link_layer c s f a w = (r, w')" for s f a w r w'
  proof -
    have "\<exists>x. lc_sendto c s f 0 a 20 w = (x, w')"
      using that by (auto simp: send_to_link_layer_eq split: prod.splits if_splits)
    then show ?thesis using assms unfolding libc_waits_def by metis
  qed
  moreover have "queue s w' = queue s w" if "open_socket c d k p w = (r, w')" for s d k p w r w'
    using op_then_return_world [OF that [unfolded open_socket_def]] checked_call_world assms
    unfolding libc_waits_def by metis
  moreover have "queue s w' = queue s w" if "bind_sockaddr_link_layer c fd a w = (r, w')" for s fd a w r w'
  proof -
    have "op_then (checked_call (os_error c) negative (lc_bind c fd a 20)) (\<lambda>_. op_return ()) w = (r, w')"
      using that by (simp add: bind_sockaddr_link_layer_def)
    from op_then_return_world [OF this] checked_call_world show ?thesis
      using assms unfolding libc_waits_def by metis
  qed
  moreover have "queue s w' = queue s w" if "list_interface_ipv4_addresses c w = (r, w')" for s w r w'
    using op_then_return_world [OF that [unfolded list_interface_ipv4_addresses_def split_def]] checked_call_world assms
    unfolding libc_waits_def by metis
  ultimately show ?thesis
    unfolding kernel_waits_def linux_kernel_of_def open_packet_raw_socket_def by simp
qed

lemma system_clock_keeps:
  assumes "time_keeps read_now sleep queue"
  shows "clock_keeps (system_scan_clock read_now sleep) queue"
  using assms unfolding clock_keeps_def time_keeps_def system_scan_clock_def
  by (auto split: prod.split option.split)

text \<open>What is assumed of the C library and of the standard library's time, taken together.\<close>

definition libraries_documented ::
    "'w linux_libc \<Rightarrow> ('w \<Rightarrow> timestamp \<times> 'w) \<Rightarrow> (duration \<Rightarrow> 'w \<Rightarrow> 'w) \<Rightarrow> (nat \<Rightarrow> 'w \<Rightarrow> u8 list list)
     \<Rightarrow> ('w \<Rightarrow> nat) \<Rightarrow> ('w \<Rightarrow> timestamp) \<Rightarrow> ('w \<Rightarrow> event list) \<Rightarrow> bool" where
  "libraries_documented c read_now sleep queue signals time events \<longleftrightarrow>
     libc_logs c time events \<and> time_documented read_now sleep time events
     \<and> (\<forall>s. libc_recvfrom_documented c s (queue s) signals) \<and> (\<forall>s w. [] \<notin> set (queue s w))
     \<and> libc_waits c queue time \<and> time_keeps read_now sleep queue"

lemma libraries_live_host:
  assumes "libraries_documented c read_now sleep queue signals time events" and "\<And>w. signals w < rfuel"
  shows "live_host (linux_kernel_of c) (system_scan_clock read_now sleep) queue signals time events rfuel"
  using assms unfolding live_host_def libraries_documented_def
  by (simp add: kernel_of_logs system_clock_logs kernel_of_recvfrom kernel_of_waits system_clock_keeps)

section \<open>A run on the example host\<close>

definition host_now :: "host_world \<Rightarrow> timestamp \<times> host_world" where
  "host_now w = (hw_time w, w)"

definition host_sleep :: "duration \<Rightarrow> host_world \<Rightarrow> host_world" where
  "host_sleep d w = w\<lparr>hw_time := hw_time w + d\<rparr>"

definition host_start :: host_world where
  "host_start = \<lparr>hw_time = 0, hw_frames = se_inbound example_world, hw_signal = True, hw_events = []\<rparr>"

abbreviation host_clock :: "host_world clock" where
  "host_clock \<equiv> system_scan_clock host_now host_sleep"

lemma example_libraries:
  "libraries_documented example_libc host_now host_sleep host_queue (\<lambda>w. if hw_signal w then 1 else 0)
     hw_time hw_events"
proof -
  have "libc_waits example_libc host_queue hw_time"
    unfolding libc_waits_def by (auto simp: example_libc_def host_queue_def)
  moreover have "time_documented host_now host_sleep hw_time hw_events" "time_keeps host_now host_sleep host_queue"
    by (simp_all add: time_documented_def time_keeps_def host_now_def host_sleep_def host_queue_def)
  moreover have "[] \<notin> set (host_queue s w)" for s w by (simp add: host_queue_def)
  ultimately show ?thesis
    using example_libc_logs example_libc_recvfrom unfolding libraries_documented_def by blast
qed

lemma host_start_fits: "readable (host_queue s) receive_buffer_length 2 host_start"
  using example_fits example_captured
  by (auto simp: readable_def host_queue_def host_start_def captured_def example_world_def)

lemma host_live:
  "live_host (linux_kernel_of example_libc) host_clock host_queue (\<lambda>w. if hw_signal w then 1 else 0) hw_time
     hw_events 2"
  by (rule libraries_live_host [OF example_libraries]) simp

lemmas host_steps = usable_prepares [OF example_libc_kernel example_usable(1) example_interface_index]

lemma host_socket_opens: "\<exists>e. open_linux_link_layer_endpoint (linux_kernel_of example_libc) ''eth0'' wire w = (Inr e, w)"
proof -
  have socket: "lk_open_packet_raw_socket (linux_kernel_of example_libc) p v = (Inr 4, v)"
    "lk_bind (linux_kernel_of example_libc) 4 a v = (Inr (), v)" for p v a
    by (simp_all add: linux_kernel_of_def open_packet_raw_socket_def open_socket_def bind_sockaddr_link_layer_def checked_call_def
        op_then_def op_return_def op_lift_def example_libc_def libc_af_packet_def libc_af_inet_def)
  have "(2 :: nat) \<le> c_int_max" by (simp add: c_int_max_def)
  from usable_opens [OF example_libc_kernel example_usable(1) example_interface_index this socket]
  show ?thesis unfolding open_linux_link_layer_endpoint_def by blast
qed

lemma host_reading: "ck_now host_clock w = (hw_time w, w)"
  by (simp add: system_scan_clock_def host_now_def)

text \<open>The transmissions of the example take no time, so its deadline is within reach.\<close>

lemma host_scan_engine:
  "\<exists>outcome w'. collect_scan_over_endpoint (from_millis 5 + 2) 2 pw
     (linux_endpoint 2 (linux_kernel_of example_libc) e) host_clock (example_engine_request targets acceptance)
     host_start = (Inr outcome, w')"
proof -
  let ?ep = "linux_endpoint 2 (linux_kernel_of example_libc) e"
  let ?request = "example_engine_request targets acceptance"
  obtain ws w1 where sends: "run_address_resolution_request_rounds ?ep host_clock (esr_targets ?request)
      (esr_transmit ?request) (esr_scan_round_count ?request) (esr_pacing ?request) [] host_start = (ws, w1)"
    by fastforce
  have "hw_time v' = hw_time v" if "ep_send ?ep frame v = (r, v')" for frame v r v'
    using that by (auto simp: linux_endpoint_def linux_send_def linux_kernel_of_def send_to_link_layer_eq
        example_libc_def)
  moreover have "hw_time (ck_sleep_for host_clock (esr_pacing ?request) v) = hw_time v" for v
    by (simp add: system_scan_clock_def example_engine_request_def)
  ultimately have "hw_time w1 = hw_time host_start"
    using request_rounds_keep [where P = hw_time] sends
    unfolding run_address_resolution_request_rounds_def by metis
  then have now: "ck_now host_clock w1 = (0, w1)"
    by (simp add: host_reading host_start_def)
  have add: "ck_add host_clock 0 (esr_receive_timeout ?request) \<noteq> None"
    by (simp add: system_scan_clock_def checked_add_def example_engine_request_def from_millis_def instant_max_def
        nanos_per_sec_def)
  have valid: "esr_rate_limit ?request = None"
    "validate_ieee_8021q_tag_stack (stc_wire (esr_transmit ?request)) = Ok ()"
    "validate_ieee_8023_mac_client_data (stc_wire (esr_transmit ?request)) = Ok ()"
    "esr_receive_timeout ?request \<le> from_millis 5" "from_millis 5 \<le> duration_max"
    using example_valid five_milliseconds
    by (simp_all add: transmit_context_def example_request_def example_engine_request_def)
  from live_capture.burst_returns [OF live_endpoint [where e = e, OF host_live] valid(1-3) host_start_fits valid(4,5) sends now]
    add show ?thesis by simp
qed

lemma host_run:
  "\<exists>outcome w'. run (from_millis 5 + 2) 2 2 powers_of_two (linux_kernel_of example_libc) host_clock
     (Scan None None (from_millis 5) 0 2 None default_wire_options) host_start = (Inr outcome, w')"
proof -
  obtain plan where plan: "full_subnet_scan_plan (addresses_of example_ioctl ''eth0'') = Ok plan"
    by (rule example_plan)
  obtain e where e: "open_linux_link_layer_endpoint (linux_kernel_of example_libc) ''eth0'' default_wire_options
      host_start = (Inr e, host_start)" using host_socket_opens by blast
  have "\<exists>outcome w'. perform_arp_scan (from_millis 5 + 2) 2 2 powers_of_two (linux_kernel_of example_libc) host_clock
      ''eth0'' (from_millis 5) 0 2 default_wire_options None host_start = (Inr outcome, w')"
    unfolding perform_arp_scan_def op_then_def example_no_rate
    using host_scan_engine [of powers_of_two e "plan_targets plan" "plan_acceptance plan"]
    by (simp add: op_map_err_def op_lift_def plan e host_steps example_engine_request_def)
  moreover have "scan_checks powers_of_two None (from_millis 5) 0 2 default_wire_options None = Inr ()"
  proof -
    have "validate_scan_timing_before_socket powers_of_two (from_millis 5) 0 2 default_wire_options None = Ok None"
      using validate_rate_None by blast
    moreover have "stc_wire (esr_transmit example_request) = default_wire_options"
      by (simp add: example_request_def)
    ultimately show ?thesis using example_valid by (simp add: scan_checks_def)
  qed
  moreover have "resolve_scan_interface_name (linux_kernel_of example_libc) None w = (Inr ''eth0'', w)" for w
    by (simp add: resolve_scan_interface_name_def op_then_def enumerate_quiescent [OF example_libc_kernel]
        example_usable by_index_def op_lift_def candidate_of_def Let_def)
  ultimately show ?thesis
    by (auto simp: run_scan_checks op_then_def op_map_err_def instant_now_def op_return_def host_reading
        simp del: add_2_eq_Suc')
qed

section \<open>Properties\<close>



text \<open>
  C10: a burst scan command over the libraries, from the choice of the interface to the summary. When it
  returns an outcome, the interface is the one named, or the only usable one that the C library lists;
  what \<^verbatim>\<open>sendto\<close> was given is, round after round, the request for each address of the plan for that
  interface, and nothing else; and the hosts are those of the first accepted replies among the frames
  that \<^verbatim>\<open>recvfrom\<close> handed over.
\<close>

theorem scan_over_the_libraries:
  assumes "libc_logs c time events" and "time_documented read_now sleep time events"
    and "libc_quiescent c ioctl indexes entries"
    and "run fuel drain_fuel receive_fuel pw (linux_kernel_of c) (system_scan_clock read_now sleep)
      (Scan name None timeout pacing attempts None wire) w = (Inr outcome, w')"
    and "events w = []"
  shows "\<exists>resolved scan plan summary.
    (case name of Some n \<Rightarrow> resolved = n
     | None \<Rightarrow> \<exists>i. filter (\<lambda>p. usable_interface (ioctl_answers c ioctl) (fst p)) (name_index_pairs entries) = [(resolved, i)])
    \<and> usable_interface (ioctl_answers c ioctl) resolved
    \<and> full_subnet_scan_plan (addresses_of (ioctl_answers c ioctl) resolved) = Ok plan
    \<and> map snd (sent_of (events w')) = concat (replicate attempts
        (map (request_frame (transmit_context (addresses_of (ioctl_answers c ioctl) resolved) wire)) (plan_targets plan)))
    \<and> outcome = ScanOutcome scan
    \<and> map_of (host_pairs scan) =
        map_of (accepted_replies (plan_acceptance plan) (reads_of (events w')))
    \<and> so_timing_summary scan = Some summary
    \<and> sts_network_interface_name summary = resolved \<and> sts_scan_round_count summary = attempts
    \<and> sts_discovered_host_count summary = length (host_pairs scan)"
  by (rule run_scan_end_to_end [OF kernel_of_logs [OF assms(1)] system_clock_logs [OF assms(2)]
      kernel_of_quiescent [OF assms(3)] assms(4,5)])

lemma scan_over_the_libraries_witness:
  "\<exists>scan w' plan. run (from_millis 5 + 2) 2 2 powers_of_two (linux_kernel_of example_libc) host_clock
       (Scan None None (from_millis 5) 0 2 None default_wire_options) host_start = (Inr (ScanOutcome scan), w')
     \<and> full_subnet_scan_plan (addresses_of example_ioctl ''eth0'') = Ok plan
     \<and> map snd (sent_of (hw_events w')) = concat (replicate 2
        (map (request_frame (transmit_context (addresses_of example_ioctl ''eth0'') default_wire_options))
          (plan_targets plan)))"
proof -
  obtain outcome w' where run: "run (from_millis 5 + 2) 2 2 powers_of_two (linux_kernel_of example_libc) host_clock
     (Scan None None (from_millis 5) 0 2 None default_wire_options) host_start = (Inr outcome, w')"
    using host_run by blast
  have libraries: "libc_logs example_libc hw_time hw_events" "time_documented host_now host_sleep hw_time hw_events"
    using example_libraries unfolding libraries_documented_def by blast+
  have "hw_events host_start = []" by (simp add: host_start_def)
  note result = scan_over_the_libraries [OF libraries example_libc_quiescent run this, unfolded library_answers]
  have only: "filter (\<lambda>p. usable_interface example_ioctl (fst p)) [(''lo'', 1), (''eth0'', 2)] = [(r, i)] \<longleftrightarrow>
      r = ''eth0'' \<and> i = (2 :: nat)" for r i
    by (auto simp: example_usable)
  show ?thesis using result run unfolding option.case only by blast
qed

end
