(* ===== verification/Macos_Live.thy ===== *)
theory Macos_Live
  imports Target_Run Linux_Run
begin

text \<open>
  The Berkeley Packet Filter endpoint as a capture in real time, and why a run on macOS comes back.
  The endpoint hands over the frames still in its buffer and then those of the buffers of records the device
  holds; it does so while its cursor and fill length lie inside the buffer, which every operation keeps.
\<close>

section \<open>The device as a live capture\<close>

text \<open>
  \<open>buffers d n w\<close> are the buffers of records that reads of \<open>n\<close> bytes from the device \<open>d\<close> have still
  to return, \<open>signals w\<close> the interruptions to come. The kernel holds boundedly many of them. Setting up a
  device may flush its buffers.
\<close>

definition device_frames ::
    "(nat \<Rightarrow> nat \<Rightarrow> 'w \<Rightarrow> u8 list list) \<Rightarrow> nat \<Rightarrow> nat \<Rightarrow> 'w \<Rightarrow> u8 list list" where
  "device_frames buffers d n w = concat (map (\<lambda>b. bpf_frames b 0) (buffers d n w))"

definition endpoint_pending ::
    "(nat \<Rightarrow> nat \<Rightarrow> 'w \<Rightarrow> u8 list list) \<Rightarrow> 'w \<times> macos_bpf_endpoint \<Rightarrow> u8 list list" where
  "endpoint_pending buffers = (\<lambda>(w, e).
     if bpf_endpoint_valid e
     then bpf_pending (buffers (mbe_bpf_device e) (length (mbe_read_buffer e))) (w, e) else [])"

text \<open>The endpoint as the engine meets it; out of its bounds it reads nothing.\<close>

definition bounded_endpoint :: "nat \<Rightarrow> 'w macos_kernel \<Rightarrow> ('w \<times> macos_bpf_endpoint) endpoint" where
  "bounded_endpoint fuel k =
     \<lparr>ep_send = macos_send k, ep_wait = macos_wait k,
      ep_receive = (\<lambda>buf v. if bpf_endpoint_valid (snd v) then macos_receive fuel k buf v else (Inr None, buf, v))\<rparr>"

definition macos_live_host ::
    "'w macos_kernel \<Rightarrow> 'w clock \<Rightarrow> (nat \<Rightarrow> nat \<Rightarrow> 'w \<Rightarrow> u8 list list) \<Rightarrow> ('w \<Rightarrow> nat) \<Rightarrow> ('w \<Rightarrow> timestamp)
     \<Rightarrow> ('w \<Rightarrow> event list) \<Rightarrow> nat \<Rightarrow> bool" where
  "macos_live_host k ck buffers signals time events rfuel \<longleftrightarrow>
     macos_kernel_logs k time events \<and> clock_logs ck time events
     \<and> (\<forall>d n. bpf_read_documented k d n (buffers d n) signals)
     \<and> (\<forall>d n w. signals w + length (buffers d n w) < rfuel)
     \<and> (\<forall>d ms w. \<exists>r w'. mk_poll k d ms w = (r, w') \<and> (\<forall>d n. buffers d n w' = buffers d n w) \<and> time w < time w'
          \<and> (\<forall>e. r = Inl e \<longrightarrow> io_kind e = Interrupted))
     \<and> (\<forall>d f w. \<forall>d' n. buffers d' n (snd (mk_write k d f w)) = buffers d' n w)
     \<and> (\<forall>name w d n. let kept = buffers d n (snd (open_macos_link_layer_endpoint k name w)) in
          kept = buffers d n w \<or> kept = [])
     \<and> (\<forall>d. clock_keeps ck (buffers d))"

lemma live_receive:
  assumes host: "macos_live_host k ck buffers signals time events rfuel" and valid: "bpf_endpoint_valid e"
  obtains w' e' where "same_device e e'"
    "receives_next (buffers (mbe_bpf_device e) (length (mbe_read_buffer e))) rfuel k buf (w, e) (w', e')"
proof -
  have "bpf_read_documented k (mbe_bpf_device e) (length (mbe_read_buffer e))
      (buffers (mbe_bpf_device e) (length (mbe_read_buffer e))) signals"
    "signals w + length (buffers (mbe_bpf_device e) (length (mbe_read_buffer e)) w) < rfuel"
    using host by (simp_all add: macos_live_host_def)
  from macos_receive_next [OF this(1) valid this(2), of buf] that show thesis by blast
qed

lemma bounded_receives:
  assumes host: "macos_live_host k ck buffers signals time events rfuel"
  shows "\<exists>v'. (bpf_endpoint_valid (snd v) \<longrightarrow> bpf_endpoint_valid (snd v'))
    \<and> (case endpoint_pending buffers v of
        [] \<Rightarrow> ep_receive (bounded_endpoint rfuel k) buf v = (Inr None, buf, v') \<and> endpoint_pending buffers v' = []
      | f # fs \<Rightarrow> ep_receive (bounded_endpoint rfuel k) buf v =
          (Inr (Some (min (length f) (length buf))), write_slice 0 (take (length buf) f) buf, v')
          \<and> endpoint_pending buffers v' = fs)"
proof -
  obtain w e where v: "v = (w, e)" by (cases v)
  show ?thesis
  proof (cases "bpf_endpoint_valid e")
    case True
    obtain w' e' where "same_device e e'"
      "receives_next (buffers (mbe_bpf_device e) (length (mbe_read_buffer e))) rfuel k buf (w, e) (w', e')"
      using live_receive [OF host True] .
    then show ?thesis
      using True by (intro exI [of _ "(w', e')"])
        (simp add: v endpoint_pending_def bounded_endpoint_def receives_next_def same_device_def split: list.splits)
  qed (auto simp: v endpoint_pending_def bounded_endpoint_def)
qed

lemma bounded_frame_source:
  assumes "macos_live_host k ck buffers signals time events rfuel"
  shows "frame_source (traced_endpoint time' (bounded_endpoint rfuel k)) (\<lambda>u. endpoint_pending buffers (fst u))"
proof
  fix u :: "('a \<times> macos_bpf_endpoint) \<times> event list" and buf :: "u8 list"
  assume "endpoint_pending buffers (fst u) = []"
  then obtain v where "ep_receive (bounded_endpoint rfuel k) buf (fst u) = (Inr None, buf, v)" "endpoint_pending buffers v = []"
    using bounded_receives [OF assms, of "fst u" buf] by auto
  then show "\<exists>buf' u'. ep_receive (traced_endpoint time' (bounded_endpoint rfuel k)) buf u = (Inr None, buf', u')
      \<and> length buf' = length buf \<and> endpoint_pending buffers (fst u') = []"
    by (cases u) (simp add: traced_endpoint_def)
next
  fix u :: "('a \<times> macos_bpf_endpoint) \<times> event list" and f fs and buf :: "u8 list"
  assume "endpoint_pending buffers (fst u) = f # fs" and len: "length f \<le> length buf"
  then obtain v where "ep_receive (bounded_endpoint rfuel k) buf (fst u) =
      (Inr (Some (length f)), write_slice 0 f buf, v)" "endpoint_pending buffers v = fs"
    using bounded_receives [OF assms, of "fst u" buf] by (auto simp: min_def)
  then show "\<exists>buf' u'. ep_receive (traced_endpoint time' (bounded_endpoint rfuel k)) buf u = (Inr (Some (length f)), buf', u')
      \<and> take (length f) buf' = f \<and> length buf' = length buf \<and> endpoint_pending buffers (fst u') = fs"
    using len by (cases u) (simp add: traced_endpoint_def write_slice_def)
qed

lemma bounded_never_back:
  assumes "macos_kernel_logs k time events"
  shows "never_back (time_beside time) (bounded_endpoint rfuel k)"
  using macos_never_back [OF assms, of rfuel]
  by (simp add: never_back_def bounded_endpoint_def macos_endpoint_def)


lemma macos_live_capture:
  assumes host: "macos_live_host k ck buffers signals time events rfuel"
  shows "live_capture (traced_endpoint (time_beside time) (bounded_endpoint rfuel k))
    (\<lambda>u. endpoint_pending buffers (fst u)) (beside (beside ck)) (\<lambda>u. time_beside time (fst u)) snd"
proof (intro live_capture.intro live_capture_axioms.intro)
  let ?ep = "traced_endpoint (time_beside time) (bounded_endpoint rfuel k)"
  have logs: "macos_kernel_logs k time events" "clock_logs ck time events"
    and polls: "\<And>d ms w. \<exists>r w'. mk_poll k d ms w = (r, w') \<and> (\<forall>d n. buffers d n w' = buffers d n w) \<and> time w < time w'
      \<and> (\<forall>e. r = Inl e \<longrightarrow> io_kind e = Interrupted)"
    and writes: "\<And>d f w d' n. buffers d' n (snd (mk_write k d f w)) = buffers d' n w"
    using host unfolding macos_live_host_def by blast+
  have pending: "endpoint_pending buffers (w', e) = endpoint_pending buffers (w, e)"
    if "\<And>d n. buffers d n w' = buffers d n w" for w' w e
    by (simp add: endpoint_pending_def bpf_pending_def that)
  show "frame_source ?ep (\<lambda>u. endpoint_pending buffers (fst u))" by (rule bounded_frame_source [OF host])
  have "monotonic_clock (beside ck) (time_beside time)"
    using beside_monotonic [OF clock_monotonic [OF logs(2)]] by (simp add: time_beside_def [abs_def])
  then show "timed_endpoint (beside (beside ck)) (\<lambda>u. time_beside time (fst u)) ?ep snd"
    by (rule traced_timed_endpoint [OF _ bounded_never_back [OF logs(1)]])
  have wait: "\<exists>b u'. ep_wait ?ep ms u = (Inr b, u')
      \<and> endpoint_pending buffers (fst u') = endpoint_pending buffers (fst u)
      \<and> time_beside time (fst u) < time_beside time (fst u')" for ms u
  proof -
    obtain w e es where u: "u = ((w, e), es)" by (metis prod.exhaust)
    obtain r w' where poll: "mk_poll k (mbe_bpf_device e) ms w = (r, w')"
      and w': "\<And>d n. buffers d n w' = buffers d n w" "time w < time w'" "\<forall>e. r = Inl e \<longrightarrow> io_kind e = Interrupted"
      using polls [of "mbe_bpf_device e" ms w] by (elim exE conjE) (rule that, assumption, blast+)
    then show ?thesis
      using pending [of w' w e]
      by (cases r) (auto simp: u traced_endpoint_def bounded_endpoint_def macos_wait_def time_beside_def)
  qed
  show "\<exists>b u'. ep_wait ?ep ms u = (Inr b, u') \<and> endpoint_pending buffers (fst u') = endpoint_pending buffers (fst u)
      \<and> (b \<longrightarrow> endpoint_pending buffers (fst u) \<noteq> [] \<or> time_beside time (fst u) < time_beside time (fst u'))" for ms u
    using wait [of ms u] by blast
  show "time_beside time (fst u) < time_beside time (fst (ck_unreadable (beside (beside ck)) (ck_since (beside (beside ck)) t n) u'))"
    if "ep_wait ?ep ms u = (Inr False, u')" for ms u u' n t
  proof -
    have "time_beside time (fst u) < time_beside time (fst u')" using wait [of ms u] that by auto
    moreover have "time w \<le> time (ck_unreadable ck d w)" for d w
      using logs(2) unfolding clock_logs_def monotonic_clock_def by blast
    ultimately show ?thesis
      by (cases u'; cases "fst u'") (auto simp: beside_def time_beside_def intro: less_le_trans)
  qed
  show "endpoint_pending buffers (fst u') = endpoint_pending buffers (fst u)"
    if sends: "ep_send ?ep frame u = (r', u')" for frame u r' u'
  proof -
    obtain w e es where u: "u = ((w, e), es)" by (metis prod.exhaust)
    obtain q w1 where sent: "mk_write k (mbe_bpf_device e) frame w = (q, w1)" by fastforce
    then have "\<And>d n. buffers d n w1 = buffers d n w" using writes by (metis snd_conv)
    moreover have "fst u' = (w1, e)"
      using sends sent by (cases q) (auto simp: u traced_endpoint_def bounded_endpoint_def macos_send_def)
    ultimately show ?thesis using pending [of w1 w e] u by simp
  qed
qed (use host in \<open>auto simp: macos_live_host_def clock_keeps_def beside_def endpoint_pending_def bpf_pending_def split: prod.splits\<close>)

text \<open>The engine over the device does what it does over the bounded and traced endpoint.\<close>

lemma live_simulation:
  assumes host: "macos_live_host k ck buffers signals time events rfuel"
  shows "world_simulation (\<lambda>v u. fst u = v \<and> bpf_endpoint_valid (snd v)) (macos_endpoint rfuel k) (beside ck)
    (traced_endpoint (time_beside time) (bounded_endpoint rfuel k)) (beside (beside ck))"
proof
  fix v :: "'a \<times> macos_bpf_endpoint" and u :: "('a \<times> macos_bpf_endpoint) \<times> event list"
    and buf :: "u8 list"
  assume R: "fst u = v \<and> bpf_endpoint_valid (snd v)"
  obtain r buf' v' where receive: "macos_receive rfuel k buf v = (r, buf', v')" by (metis prod_cases3)
  obtain v1 where "bpf_endpoint_valid (snd v1)" "\<exists>r buf'. ep_receive (bounded_endpoint rfuel k) buf v = (r, buf', v1)"
    using bounded_receives [OF host, of v buf] R
    by (cases "endpoint_pending buffers v") fastforce+
  then have "bpf_endpoint_valid (snd v')" using receive R by (simp add: bounded_endpoint_def)
  then show "\<exists>r buf' v' u'. ep_receive (macos_endpoint rfuel k) buf v = (r, buf', v')
      \<and> ep_receive (traced_endpoint (time_beside time) (bounded_endpoint rfuel k)) buf u = (r, buf', u')
      \<and> fst u' = v' \<and> bpf_endpoint_valid (snd v')"
    using R receive by (cases u) (simp add: traced_endpoint_def bounded_endpoint_def macos_endpoint_def)
qed (auto simp: same_run_def traced_endpoint_def bounded_endpoint_def macos_endpoint_def beside_def
    macos_send_def macos_wait_def split: prod.splits sum.splits)

lemma same_run_fst: "same_run R x y \<Longrightarrow> fst x = fst y"
  by (auto simp: same_run_def)

lemma with_endpoint_fst: "fst (with_endpoint engine e w) = fst (engine (w, e))"
  by (simp add: with_endpoint_def split: prod.split)

section \<open>A run comes back\<close>

lemma endpoint_starts:
  assumes "bpf_endpoint_valid e" and "buffered_frames e = []"
  shows "endpoint_pending buffers (w, e) = device_frames buffers (mbe_bpf_device e) (length (mbe_read_buffer e)) w"
  using assms by (simp add: endpoint_pending_def bpf_pending_def device_frames_def)

lemma macos_engine_not_stuck:
  assumes host: "macos_live_host k ck buffers signals time events rfuel"
    and fits: "\<And>d n. readable (device_frames buffers d n) receive_buffer_length dfuel w"
    and e: "bpf_endpoint_valid e" "buffered_frames e = []"
    and fuel: "duration_max + 2 \<le> fuel" and timeout: "esr_receive_timeout request \<le> duration_max"
  shows "not_stuck (fst (with_endpoint
    (collect_scan_over_endpoint fuel dfuel pw (macos_endpoint rfuel k) (beside ck) request) e w))"
proof -
  let ?u = "((w, e), [] :: event list)"
  have "fst ?u = (w, e) \<and> bpf_endpoint_valid (snd (w, e))" using e by simp
  note same = same_run_fst [OF world_simulation.scan_same [OF live_simulation [OF host] this]]
  have "readable (\<lambda>u. endpoint_pending buffers (fst u)) receive_buffer_length dfuel ?u"
    using fits by (simp add: readable_def endpoint_starts [OF e])
  from live_capture.scan_comes_back [OF macos_live_capture [OF host] this timeout fuel]
  show ?thesis by (simp add: with_endpoint_fst same)
qed

text \<open>What was readable before the device was opened stays so, or was flushed.\<close>

lemma macos_opened:
  assumes host: "macos_live_host k ck buffers signals time events rfuel"
    and opened: "open_macos_link_layer_endpoint k name w = (Inr e, w')"
  shows "bpf_endpoint_valid e" and "buffered_frames e = []"
    and "readable (device_frames buffers d n) m dfuel w \<Longrightarrow> readable (device_frames buffers d n) m dfuel w'"
proof -
  show "bpf_endpoint_valid e" "buffered_frames e = []" using open_macos_valid [OF opened] by simp_all
  have "buffers d n w' = buffers d n w \<or> buffers d n w' = []"
    using host opened unfolding macos_live_host_def by (metis snd_conv)
  then show "readable (device_frames buffers d n) m dfuel w \<Longrightarrow> readable (device_frames buffers d n) m dfuel w'"
    by (auto simp: device_frames_def readable_def)
qed

lemma macos_way_not_stuck:
  assumes host: "macos_live_host k ck buffers signals time events rfuel" and q: "macos_quiescent k nodes indexes"
    and fits: "\<And>d n. readable (device_frames buffers d n) receive_buffer_length dfuel w"
    and fuel: "duration_max + 2 \<le> fuel" and timeout: "\<And>a p. esr_receive_timeout (request a p) \<le> duration_max"
  shows "not_stuck (fst (op_then (op_map_err Failed (op_lift checked)) (\<lambda>_.
     op_then (op_map_err Failed (macos_discover_interface_scan_addresses k name)) (\<lambda>addresses.
     op_then (op_map_err Failed (op_lift (check addresses))) (\<lambda>plan.
     op_then (op_map_err Failed (open_macos_link_layer_endpoint k name)) (\<lambda>endpoint.
     with_endpoint (collect_scan_over_endpoint fuel dfuel pw (macos_endpoint rfuel k) (beside ck)
       (request addresses plan)) endpoint)))) w))"
proof (intro comes_back, goal_cases)
  case (1 x v0 a v1 p v2 e v3)
  have "v0 = w" "v2 = v1" using 1(1,3) by (simp_all add: op_lift_def)
  moreover have "v1 = v0" using macos_discover_quiescent [OF q] 1(2) by blast
  ultimately have "readable (device_frames buffers d n) receive_buffer_length dfuel v3" for d n
    using macos_opened(3) [OF host 1(4)] fits by simp
  then show ?case by (intro macos_engine_not_stuck [OF host _ macos_opened(1,2) [OF host 1(4)] fuel timeout])
qed

lemma macos_scan_not_stuck:
  assumes "macos_live_host k ck buffers signals time events rfuel" and "macos_quiescent k nodes indexes"
    and "\<And>d n. readable (device_frames buffers d n) receive_buffer_length dfuel w"
    and "duration_max + 2 \<le> fuel" and timeout: "timeout \<le> duration_max"
  shows "not_stuck (fst (macos_perform_arp_scan fuel dfuel rfuel pw k ck name timeout pacing rounds wire rate w))"
    and "not_stuck (fst (macos_perform_arp_probe fuel dfuel rfuel pw k ck name target timeout pacing rounds wire rate w))"
  unfolding macos_perform_arp_scan_def macos_perform_arp_probe_def
  by (rule macos_way_not_stuck [OF assms(1-4)], simp add: timeout)+

lemma macos_monitor_not_stuck:
  assumes host: "macos_live_host k ck buffers signals time events rfuel" and q: "macos_quiescent k nodes indexes"
    and fits: "\<And>d n. readable (device_frames buffers d n) monitor_receive_buffer_length dfuel w"
    and fuel: "duration_max + 2 \<le> fuel" and timeout: "timeout \<le> duration_max"
  shows "not_stuck (fst (macos_perform_passive_arp_monitor fuel dfuel rfuel k ck name timeout w))"
  unfolding macos_perform_passive_arp_monitor_def
proof (intro comes_back, goal_cases)
  case (1 deadline v0 identity v1 e v2)
  have v0: "buffers d n v0 = buffers d n w" for d n
    using 1(1) host unfolding monitor_deadline_def macos_live_host_def clock_keeps_def
    by (auto split: if_splits prod.splits)
  have "v1 = v0"
    using 1(2) by (auto simp: macos_discover_monitor_interface_identity_def op_then_eq_Ok op_lift_def
        collect_quiescent_records [OF q])
  then have "readable (device_frames buffers d n) monitor_receive_buffer_length dfuel v1" for d n
    using fits [of d n] v0 by (simp add: readable_def device_frames_def)
  note frames = macos_opened(3) [OF host 1(3) this] and e = macos_opened(1,2) [OF host 1(3)]
  let ?request = "\<lparr>mlr_local_ipv4_addresses = mii_ipv4_addresses identity,
      mlr_local_mac_address = mii_source_mac_address identity, mlr_timeout = timeout\<rparr>"
  let ?u = "((v2, e), [] :: event list)"
  have "fst ?u = (v2, e) \<and> bpf_endpoint_valid (snd (v2, e))" using e by simp
  note same = same_run_fst [OF world_simulation.listen_same [OF live_simulation [OF host] this]]
  have ready: "readable (\<lambda>u. endpoint_pending buffers (fst u)) monitor_receive_buffer_length dfuel ?u"
    using frames by (simp add: readable_def endpoint_starts [OF e])
  have "timeout \<noteq> 0" using 1(1) by (simp add: monitor_deadline_def split: if_splits)
  then have t: "0 < mlr_timeout ?request" "mlr_timeout ?request \<le> duration_max" "mlr_timeout ?request + 2 \<le> fuel"
    using timeout fuel by simp_all
  obtain n u1 where now: "ck_now (beside (beside ck)) ?u = (n, u1)"
    by (rule prod.exhaust)
  from live_capture.listen_returns [OF macos_live_capture [OF host] ready t(1,2) now t(3)]
  show ?case by (auto simp: with_endpoint_fst same split: if_splits)
qed

lemma macos_resolve_unchanged:
  assumes q: "macos_quiescent k nodes indexes" and "macos_resolve_scan_interface_name k name w = (Inr resolved, w')"
  shows "w' = w"
proof (cases name)
  case None
  then show ?thesis
    using assms(2) macos_enumerate_quiescent [OF q, of w]
    by (auto simp: macos_resolve_scan_interface_name_def op_then_eq_Ok op_lift_def)
next
  case (Some n)
  then show ?thesis
    using assms(2) macos_discover_quiescent [OF q, of n w]
    by (auto simp: macos_resolve_scan_interface_name_def op_then_eq_Ok op_return_def)
qed

lemma macos_run_not_stuck:
  assumes host: "macos_live_host k ck buffers signals time events rfuel" and q: "macos_quiescent k nodes indexes"
    and fits: "\<And>d n. readable (device_frames buffers d n) receive_buffer_length dfuel w"
    and fuel: "duration_max + 2 \<le> fuel" and timeout: "representable command"
  shows "not_stuck (fst (target_run fuel dfuel rfuel pw (MacosTarget k) ck command w))"
proof (cases command)
  case (Scan name target timeout pacing attempts rate wire)
  then have t: "timeout \<le> duration_max" using timeout by simp
  show ?thesis
  proof (cases "scan_checks pw name timeout pacing attempts wire rate")
    case Inr
    have "not_stuck (fst (scan_block fuel dfuel rfuel pw (MacosTarget k) ck name target timeout pacing attempts
        wire rate w))"
      unfolding scan_block.simps timed_scan_def
    proof (intro comes_back instant_comes_back returns_not_stuck, goal_cases)
      case (1 resolved v0 n v)
      have "buffers d n v = buffers d n w" for d n
        using macos_resolve_unchanged [OF q 1(1)] 1(2) host unfolding macos_live_host_def clock_keeps_def by metis
      then have "readable (device_frames buffers d n) receive_buffer_length dfuel v" for d n
        using fits [of d n] by (simp add: readable_def device_frames_def)
      note macos_scan_not_stuck [OF host q this fuel t]
      then show ?case by (simp split: option.split)
    qed
    then show ?thesis using Scan Inr by (simp add: target_scan_checks)
  qed (simp add: Scan target_scan_checks)
next
  case (Monitor name timeout)
  then have t: "timeout \<le> duration_max" using timeout by simp
  have same: "receive_buffer_length = monitor_receive_buffer_length"
    by (simp add: receive_buffer_length_def monitor_receive_buffer_length_def)
  show ?thesis
    unfolding Monitor target_run.simps target_run_passive_arp_monitor_def target.case timed_listen_def
  proof (intro comes_back instant_comes_back returns_not_stuck, goal_cases)
    case (1 deadline v0 u v1 resolved v2 n v3)
    have "buffers d n v3 = buffers d n v2" "buffers d n v0 = buffers d n w" for d n
      using 1(1,4) host unfolding monitor_deadline_def macos_live_host_def clock_keeps_def
      by (auto split: if_splits prod.splits)
    moreover have "v2 = v1" "v1 = v0" using macos_resolve_unchanged [OF q 1(3)] 1(2) by (simp_all add: op_lift_def)
    ultimately have "readable (device_frames buffers d n) monitor_receive_buffer_length dfuel v3" for d n
      using fits [of d n] by (simp add: readable_def same device_frames_def)
    then show ?case by (rule macos_monitor_not_stuck [OF host q _ fuel t])
  qed
next
  case UsableInterfacesList
  have "not_stuck (fst (op_then (op_map_err Failed (macos_enumerate_usable_candidates k)) (\<lambda>candidates.
     op_return (usable_interfaces_outcome_from_candidates candidates)) w))"
    by (intro comes_back) (simp add: op_return_def)
  then show ?thesis by (simp add: UsableInterfacesList)
qed

end
