(* ===== verification/Macos_System_Call.thy ===== *)
theory Macos_System_Call
  imports Macos_Backend C_Library
begin

text \<open>
  \<^verbatim>\<open>src/macos_system_call.rs\<close>: the wrappers of the C library's calls on macOS, over a record of the
  library's functions as in \<open>Linux_System_Call\<close>. An \<^verbatim>\<open>ioctl\<close> appears once for each type of its
  argument, \<^verbatim>\<open>fcntl\<close> once for each of its commands; opening a device is \<^verbatim>\<open>std::fs::OpenOptions\<close>, which
  returns a result already. The wrappers turn the library into the record \<open>macos_kernel\<close> that the Berkeley
  Packet Filter endpoint uses.
\<close>

section \<open>The C library\<close>

record 'w macos_libc =
  mc_strerror :: "nat \<Rightarrow> string"
  mc_open_read_write :: "string \<Rightarrow> ('w, io_error, nat) op"
  mc_getifaddrs :: "('w, int \<times> interface_address_node list) libc_call"
  mc_if_nametoindex :: "string \<Rightarrow> ('w, nat) libc_call"
  mc_ioctl_ifreq :: "nat \<Rightarrow> nat \<Rightarrow> string \<Rightarrow> ('w, int) libc_call"
  mc_ioctl_program :: "nat \<Rightarrow> nat \<Rightarrow> bpf_instruction list \<Rightarrow> ('w, int) libc_call"
  mc_ioctl_unsigned :: "nat \<Rightarrow> nat \<Rightarrow> u32 \<Rightarrow> ('w, int \<times> u32) libc_call"
  mc_fcntl_getfl :: "nat \<Rightarrow> ('w, int) libc_call"
  mc_fcntl_setfl :: "nat \<Rightarrow> 32 word \<Rightarrow> ('w, int) libc_call"
  mc_write :: "nat \<Rightarrow> u8 list \<Rightarrow> ('w, int) libc_call"
  mc_read :: "nat \<Rightarrow> nat \<Rightarrow> ('w, int \<times> u8 list) libc_call"
  mc_poll :: "nat \<Rightarrow> nat \<Rightarrow> nat \<Rightarrow> ('w, int) libc_call"

definition macos_pollin :: nat where "macos_pollin = 1"

definition macos_os_error :: "'w macos_libc \<Rightarrow> nat \<Rightarrow> io_error" where
  "macos_os_error c errno =
     \<lparr>io_kind = (if errno = 1 \<or> errno = 13 then PermissionDenied
        else if errno = 2 then NotFound
        else if errno = 4 then Interrupted
        else if errno = 35 then WouldBlock
        else if errno = 22 then InvalidInput
        else OtherKind),
      io_errno = Some (int errno),
      io_text = mc_strerror c errno @ '' (os error '' @ show_nat errno @ '')''\<rparr>"

section \<open>Wrappers\<close>

definition macos_interface_index :: "'w macos_libc \<Rightarrow> string \<Rightarrow> ('w, io_error, nat) op" where
  "macos_interface_index c name =
     checked_call (macos_os_error c) (\<lambda>index. index = 0) (mc_if_nametoindex c name)"

definition interface_address_nodes :: "'w macos_libc \<Rightarrow> ('w, io_error, interface_address_node list) op" where
  "interface_address_nodes c =
     op_then (checked_call (macos_os_error c) (\<lambda>(result, _). result \<noteq> 0) (mc_getifaddrs c)) (\<lambda>(_, nodes).
     op_return nodes)"

text \<open>A call whose result is only tested for its sign.\<close>

definition unit_call :: "'w macos_libc \<Rightarrow> ('w, int) libc_call \<Rightarrow> ('w, io_error, unit) op" where
  "unit_call c call =
     op_then (checked_call (macos_os_error c) negative call) (\<lambda>_. op_return ())"

text \<open>The kernel may write the option back; only \<^verbatim>\<open>BIOCGBLEN\<close> reads it.\<close>

definition ioctl_set_unsigned :: "'w macos_libc \<Rightarrow> nat \<Rightarrow> nat \<Rightarrow> u32 \<Rightarrow> ('w, io_error, unit) op" where
  "ioctl_set_unsigned c device request_code value =
     op_then (checked_call (macos_os_error c) (\<lambda>(result, _). result < 0)
       (mc_ioctl_unsigned c device request_code value)) (\<lambda>_.
     op_return ())"

definition ioctl_get_unsigned :: "'w macos_libc \<Rightarrow> nat \<Rightarrow> nat \<Rightarrow> ('w, io_error, u32) op" where
  "ioctl_get_unsigned c device request_code =
     op_then (checked_call (macos_os_error c) (\<lambda>(result, _). result < 0)
       (mc_ioctl_unsigned c device request_code 0)) (\<lambda>(_, value).
     op_return value)"

definition fcntl_get_flags :: "'w macos_libc \<Rightarrow> nat \<Rightarrow> ('w, io_error, 32 word) op" where
  "fcntl_get_flags c fd =
     op_then (checked_call (macos_os_error c) negative (mc_fcntl_getfl c fd)) (\<lambda>flags.
     op_return (word_of_int flags))"

definition write_link_layer_frame :: "'w macos_libc \<Rightarrow> nat \<Rightarrow> u8 list \<Rightarrow> ('w, io_error, nat) op" where
  "write_link_layer_frame c device frame =
     op_then (checked_call (macos_os_error c) negative (mc_write c device frame)) (\<lambda>sent.
     op_lift (usize_try_from ''write returned a negative byte count'' sent))"

definition read_link_layer_frames :: "'w macos_libc \<Rightarrow> nat \<Rightarrow> nat \<Rightarrow> ('w, io_error, u8 list) op" where
  "read_link_layer_frames c device buffer_length =
     op_then (checked_call (macos_os_error c) (\<lambda>(received, _). received < 0) (mc_read c device buffer_length))
       (\<lambda>(received, filled).
     op_then (op_lift (usize_try_from ''read returned a negative byte count'' received)) (\<lambda>n.
     op_return (take n filled)))"

definition poll_readiness :: "'w macos_libc \<Rightarrow> nat \<Rightarrow> nat \<Rightarrow> nat \<Rightarrow> ('w, io_error, nat) op" where
  "poll_readiness c file_descriptor events timeout_milliseconds =
     op_then (checked_call (macos_os_error c) negative (mc_poll c file_descriptor events timeout_milliseconds))
       (\<lambda>ready. op_return (nat ready))"

definition macos_kernel_of :: "'w macos_libc \<Rightarrow> 'w macos_kernel" where
  "macos_kernel_of c =
     \<lparr>mk_getifaddrs = interface_address_nodes c, mk_if_nametoindex = macos_interface_index c,
      mk_open_read_write = mc_open_read_write c,
      mk_ioctl_interface = (\<lambda>device request_code request. unit_call c (mc_ioctl_ifreq c device request_code request)),
      mk_ioctl_filter = (\<lambda>device request_code program. unit_call c (mc_ioctl_program c device request_code program)),
      mk_ioctl_set_unsigned = ioctl_set_unsigned c, mk_ioctl_get_unsigned = ioctl_get_unsigned c,
      mk_fcntl_get_flags = fcntl_get_flags c,
      mk_fcntl_set_flags = (\<lambda>fd flags. unit_call c (mc_fcntl_setfl c fd flags)),
      mk_write = write_link_layer_frame c, mk_read = read_link_layer_frames c,
      mk_poll = (\<lambda>fd. poll_readiness c fd macos_pollin)\<rparr>"

section \<open>From the library's documented behaviour to the kernel's\<close>

lemma write_link_layer_frame_eq:
  "write_link_layer_frame c device frame w =
     (case mc_write c device frame w of ((sent, errno), w) \<Rightarrow>
        if sent < 0 then (Err (macos_os_error c errno), w) else (Ok (nat sent), w))"
  by (auto simp: write_link_layer_frame_def op_then_def op_lift_def checked_call_def usize_try_from_def
      split: prod.splits)

lemma read_link_layer_frames_eq:
  "read_link_layer_frames c device n w =
     (case mc_read c device n w of (((received, filled), errno), w) \<Rightarrow>
        if received < 0 then (Err (macos_os_error c errno), w) else (Ok (take (nat received) filled), w))"
  by (auto simp: read_link_layer_frames_def op_then_def op_lift_def op_return_def checked_call_def
      usize_try_from_def split: prod.splits)

definition macos_libc_logs :: "'w macos_libc \<Rightarrow> ('w \<Rightarrow> timestamp) \<Rightarrow> ('w \<Rightarrow> event list) \<Rightarrow> bool" where
  "macos_libc_logs c time events \<longleftrightarrow>
     (\<forall>path. quiet_call time events (mc_open_read_write c path))
     \<and> quiet_step time events (mc_getifaddrs c) \<and> (\<forall>name. quiet_step time events (mc_if_nametoindex c name))
     \<and> (\<forall>d q r. quiet_step time events (mc_ioctl_ifreq c d q r))
     \<and> (\<forall>d q p. quiet_step time events (mc_ioctl_program c d q p))
     \<and> (\<forall>d q v. quiet_step time events (mc_ioctl_unsigned c d q v))
     \<and> (\<forall>d. quiet_step time events (mc_fcntl_getfl c d)) \<and> (\<forall>d f. quiet_step time events (mc_fcntl_setfl c d f))
     \<and> (\<forall>d e t. quiet_step time events (mc_poll c d e t))
     \<and> (\<forall>d f w r w'. mc_write c d f w = (r, w') \<longrightarrow>
          (\<exists>t. events w' = events w @ [Sent t f] \<and> time w \<le> t \<and> t \<le> time w'))
     \<and> (\<forall>d n w received filled errno w'.
          mc_read c d n w = (((received, filled), errno), w') \<longrightarrow> time w \<le> time w'
          \<and> (if received \<le> 0 then events w' = events w
             else received \<le> int n \<and> received \<le> int (length filled)
               \<and> events w' = events w @ [Read (take (nat received) filled)]))"

lemma macos_libc_quiet [quiet]:
  assumes "macos_libc_logs c time events"
  shows "quiet_call time events (mc_open_read_write c path)"
    "quiet_step time events (mc_getifaddrs c)" "quiet_step time events (mc_if_nametoindex c name)"
    "quiet_step time events (mc_ioctl_ifreq c d q r)" "quiet_step time events (mc_ioctl_program c d q p)"
    "quiet_step time events (mc_ioctl_unsigned c d q v)" "quiet_step time events (mc_fcntl_getfl c d)"
    "quiet_step time events (mc_fcntl_setfl c d f)" "quiet_step time events (mc_poll c d e t)"
  using assms by (simp_all add: macos_libc_logs_def)

lemma macos_wrappers_quiet:
  assumes "macos_libc_logs c time events"
  shows "quiet_call time events (macos_interface_index c name)"
    and "quiet_call time events (interface_address_nodes c)"
    and "quiet_call time events (unit_call c (mc_ioctl_ifreq c d q r))"
    and "quiet_call time events (unit_call c (mc_ioctl_program c d q p))"
    and "quiet_call time events (unit_call c (mc_fcntl_setfl c d f))"
    and "quiet_call time events (ioctl_set_unsigned c d q v)"
    and "quiet_call time events (ioctl_get_unsigned c d q)"
    and "quiet_call time events (fcntl_get_flags c d)"
    and "quiet_call time events (poll_readiness c d e t)"
  unfolding macos_interface_index_def interface_address_nodes_def unit_call_def split_def
    ioctl_set_unsigned_def ioctl_get_unsigned_def fcntl_get_flags_def poll_readiness_def
  by (intro quiet assms)+

lemma macos_kernel_of_logs:
  assumes "macos_libc_logs c time events"
  shows "macos_kernel_logs (macos_kernel_of c) time events"
proof -
  have "\<exists>t. events w' = events w @ [Sent t f] \<and> time w \<le> t \<and> t \<le> time w'"
    if "write_link_layer_frame c d f w = (r, w')" for d f w r w'
  proof -
    obtain q w1 where "mc_write c d f w = (q, w1)" by fastforce
    moreover from this have "w1 = w'"
      using that by (auto simp: write_link_layer_frame_eq split: prod.splits if_splits)
    ultimately show ?thesis using assms unfolding macos_libc_logs_def by blast
  qed
  moreover have "time w \<le> time w' \<and> (case r of Inl _ \<Rightarrow> events w' = events w
      | Inr b \<Rightarrow> length b \<le> n \<and> events w' = (if b = [] then events w else events w @ [Read b]))"
    if "read_link_layer_frames c d n w = (r, w')" for d n w r w'
  proof -
    obtain received filled errno w1 where run: "mc_read c d n w = (((received, filled), errno), w1)"
      by (metis prod.exhaust)
    have "time w \<le> time w1 \<and> (if received \<le> 0 then events w1 = events w
        else received \<le> int n \<and> received \<le> int (length filled)
          \<and> events w1 = events w @ [Read (take (nat received) filled)])"
      using assms run unfolding macos_libc_logs_def by blast
    then show ?thesis
      using that run by (auto simp: read_link_layer_frames_eq split: if_splits)
  qed
  ultimately show ?thesis
    using macos_wrappers_quiet [OF assms] macos_libc_quiet(1) [OF assms]
    by (simp add: macos_kernel_logs_def macos_kernel_of_def)
qed

text \<open>\<^verbatim>\<open>read\<close> as \<open>bpf_read_documented\<close> has it, in the library's terms.\<close>

definition libc_read_documented ::
    "'w macos_libc \<Rightarrow> nat \<Rightarrow> nat \<Rightarrow> ('w \<Rightarrow> u8 list list) \<Rightarrow> ('w \<Rightarrow> nat) \<Rightarrow> bool" where
  "libc_read_documented c device n buffers signals \<longleftrightarrow>
     (\<forall>w. \<exists>received filled errno w'. mc_read c device n w = (((received, filled), errno), w')
       \<and> (if 0 < signals w
          then received = - 1 \<and> errno = 4 \<and> signals w' < signals w \<and> buffers w' = buffers w
          else signals w' = 0 \<and> (case buffers w of
              [] \<Rightarrow> received = - 1 \<and> errno = 35 \<and> buffers w' = []
            | b # bs \<Rightarrow> received = int (length b) \<and> take (length b) filled = b \<and> b \<noteq> [] \<and> length b \<le> n
                \<and> buffers w' = bs)))"

lemma macos_kernel_of_read:
  assumes "libc_read_documented c device n buffers signals"
  shows "bpf_read_documented (macos_kernel_of c) device n buffers signals"
  unfolding bpf_read_documented_def
proof (intro allI)
  fix w
  obtain received filled errno w' where run: "mc_read c device n w = (((received, filled), errno), w')"
    and law: "if 0 < signals w
      then received = - 1 \<and> errno = 4 \<and> signals w' < signals w \<and> buffers w' = buffers w
      else signals w' = 0 \<and> (case buffers w of
          [] \<Rightarrow> received = - 1 \<and> errno = 35 \<and> buffers w' = []
        | b # bs \<Rightarrow> received = int (length b) \<and> take (length b) filled = b \<and> b \<noteq> [] \<and> length b \<le> n
            \<and> buffers w' = bs)"
    using assms unfolding libc_read_documented_def by blast
  let ?r = "if received < 0 then Err (macos_os_error c errno) else Ok (take (nat received) filled)"
  have "mk_read (macos_kernel_of c) device n w = (?r, w')"
    using run by (simp add: macos_kernel_of_def read_link_layer_frames_eq)
  moreover have "if 0 < signals w
      then (\<exists>e. ?r = Inl e \<and> io_kind e = Interrupted \<and> io_errno e = Some 4)
        \<and> signals w' < signals w \<and> buffers w' = buffers w
      else signals w' = 0 \<and> (case buffers w of
          [] \<Rightarrow> (\<exists>e. ?r = Inl e \<and> io_errno e = Some macos_eagain) \<and> buffers w' = []
        | b # bs \<Rightarrow> ?r = Inr b \<and> b \<noteq> [] \<and> length b \<le> n \<and> buffers w' = bs)"
    using law by (auto simp: macos_os_error_def macos_eagain_def split: list.splits if_splits)
  ultimately show "\<exists>r w'. mk_read (macos_kernel_of c) device n w = (r, w') \<and>
      (if 0 < signals w
       then (\<exists>e. r = Inl e \<and> io_kind e = Interrupted \<and> io_errno e = Some 4)
         \<and> signals w' < signals w \<and> buffers w' = buffers w
       else signals w' = 0 \<and> (case buffers w of
           [] \<Rightarrow> (\<exists>e. r = Inl e \<and> io_errno e = Some macos_eagain) \<and> buffers w' = []
         | b # bs \<Rightarrow> r = Inr b \<and> b \<noteq> [] \<and> length b \<le> n \<and> buffers w' = bs))"
    by blast
qed

definition macos_libc_quiescent ::
    "'w macos_libc \<Rightarrow> interface_address_node list \<Rightarrow> (string \<Rightarrow> nat \<times> nat) \<Rightarrow> bool" where
  "macos_libc_quiescent c nodes indexes \<longleftrightarrow>
     (\<forall>w. \<exists>errno. mc_getifaddrs c w = (((0, nodes), errno), w))
     \<and> (\<forall>name w. mc_if_nametoindex c name w = (indexes name, w))"

definition macos_index_answers :: "'w macos_libc \<Rightarrow> (string \<Rightarrow> nat \<times> nat) \<Rightarrow> string \<Rightarrow> io_error + nat" where
  "macos_index_answers c indexes name =
     (case indexes name of (index, errno) \<Rightarrow>
        if index = 0 then Err (macos_os_error c errno) else Ok index)"

lemma macos_kernel_of_quiescent:
  assumes "macos_libc_quiescent c nodes indexes"
  shows "macos_quiescent (macos_kernel_of c) nodes (macos_index_answers c indexes)"
proof -
  have "interface_address_nodes c w = (Inr nodes, w)" for w
  proof -
    obtain errno where "mc_getifaddrs c w = (((0, nodes), errno), w)"
      using assms unfolding macos_libc_quiescent_def by blast
    then show ?thesis
      by (simp add: interface_address_nodes_def checked_call_def op_then_def op_return_def)
  qed
  then show ?thesis
    using assms by (auto simp: macos_quiescent_def macos_libc_quiescent_def macos_kernel_of_def
        macos_interface_index_def checked_call_def macos_index_answers_def split: prod.splits)
qed

section \<open>Properties\<close>

text \<open>
  Over a C library that behaves as its manual pages say, the macOS wrappers give the kernel
  interface that the Berkeley Packet Filter endpoint relies on: only \<^verbatim>\<open>write\<close> transmits, a \<^verbatim>\<open>read\<close>
  gives the oldest buffer of records whole or reports the interruption or the empty device, and the
  answers about the interfaces are those of the library, an error number turned into an error.
\<close>

theorem macos_wrappers_give_kernel_interface:
  assumes "macos_libc_logs c time events" and "libc_read_documented c device n buffers signals"
    and "macos_libc_quiescent c nodes indexes"
  shows "macos_kernel_logs (macos_kernel_of c) time events
    \<and> bpf_read_documented (macos_kernel_of c) device n buffers signals
    \<and> macos_quiescent (macos_kernel_of c) nodes (macos_index_answers c indexes)"
  using macos_kernel_of_logs [OF assms(1)] macos_kernel_of_read [OF assms(2)]
    macos_kernel_of_quiescent [OF assms(3)] by blast

text \<open>A device whose world is its log, the buffers still to be read, and the signals still to arrive.\<close>

definition readable_buffers :: "nat \<Rightarrow> u8 list list \<Rightarrow> u8 list list" where
  "readable_buffers n bs = filter (\<lambda>b. b \<noteq> [] \<and> length b \<le> n) bs"

definition device_libc :: "(event list \<times> u8 list list \<times> nat) macos_libc" where
  "device_libc =
     \<lparr>mc_strerror = (\<lambda>_. ''Unknown error''), mc_open_read_write = (\<lambda>_. op_return 3),
      mc_getifaddrs = (\<lambda>w. (((0, example_nodes), 0), w)),
      mc_if_nametoindex = (\<lambda>name w. ((if name = ''en0'' then 4 else 1, 0), w)),
      mc_ioctl_ifreq = (\<lambda>d q r w. ((0, 0), w)), mc_ioctl_program = (\<lambda>d q p w. ((0, 0), w)),
      mc_ioctl_unsigned = (\<lambda>d q v w. (((0, 4096), 0), w)), mc_fcntl_getfl = (\<lambda>d w. ((2, 0), w)),
      mc_fcntl_setfl = (\<lambda>d f w. ((0, 0), w)),
      mc_write = (\<lambda>d f (es, bs, s). ((int (length f), 0), es @ [Sent 0 f], bs, s)),
      mc_read = (\<lambda>d n (es, bs, s). case s of
          Suc s \<Rightarrow> (((- 1, []), 4), es, bs, s)
        | 0 \<Rightarrow> (case readable_buffers n bs of
              [] \<Rightarrow> (((- 1, []), 35), es, [], 0)
            | b # bs \<Rightarrow> (((int (length b), b), 0), es @ [Read b], bs, 0))),
      mc_poll = (\<lambda>d e t w. ((1, 0), w))\<rparr>"

lemma readable_buffers_Cons:
  "readable_buffers n bs = b # bs' \<Longrightarrow> b \<noteq> [] \<and> length b \<le> n \<and> readable_buffers n bs' = bs'"
  unfolding readable_buffers_def using filter_eq_ConsD by fastforce

lemma device_libc_logs: "macos_libc_logs device_libc (\<lambda>_. 0) fst"
  unfolding macos_libc_logs_def quiet_step_def quiet_call_def
  by (auto simp: device_libc_def op_return_def split: list.splits nat.splits prod.splits
      dest: readable_buffers_Cons)

lemma device_libc_read:
  "libc_read_documented device_libc d n (\<lambda>w. readable_buffers n (fst (snd w))) (\<lambda>w. snd (snd w))"
proof -
  have none: "readable_buffers n [] = []" by (simp add: readable_buffers_def)
  have "\<exists>received filled errno w'. mc_read device_libc d n w = (((received, filled), errno), w')
      \<and> (if 0 < snd (snd w)
         then received = - 1 \<and> errno = 4 \<and> snd (snd w') < snd (snd w)
           \<and> readable_buffers n (fst (snd w')) = readable_buffers n (fst (snd w))
         else snd (snd w') = 0 \<and> (case readable_buffers n (fst (snd w)) of
             [] \<Rightarrow> received = - 1 \<and> errno = 35 \<and> readable_buffers n (fst (snd w')) = []
           | b # bs' \<Rightarrow> received = int (length b) \<and> take (length b) filled = b \<and> b \<noteq> [] \<and> length b \<le> n
               \<and> readable_buffers n (fst (snd w')) = bs'))" for w
    by (cases w; cases "snd (snd w)"; cases "readable_buffers n (fst (snd w))")
      (auto simp: device_libc_def none dest: readable_buffers_Cons)
  then show ?thesis unfolding libc_read_documented_def by (intro allI)
qed

lemma macos_wrappers_give_kernel_interface_witness:
  "bpf_read_documented (macos_kernel_of device_libc) 3 64 (\<lambda>w. readable_buffers 64 (fst (snd w))) (\<lambda>w. snd (snd w))
   \<and> macos_kernel_logs (macos_kernel_of device_libc) (\<lambda>_. 0) fst
   \<and> (\<exists>indexes. macos_quiescent (macos_kernel_of device_libc) example_nodes indexes)"
proof -
  have "macos_libc_quiescent device_libc example_nodes (\<lambda>name. (if name = ''en0'' then 4 else 1, 0))"
    by (simp add: macos_libc_quiescent_def device_libc_def)
  from macos_wrappers_give_kernel_interface [OF device_libc_logs device_libc_read this] show ?thesis by blast
qed

end
