(* ===== verification/Macos_Run.thy ===== *)
theory Macos_Run
  imports Macos_Live Macos_System_Call
begin

text \<open>
  The program on macOS down to the libraries, as \<open>Linux_Run\<close> has it for Linux: the system calls are
  those of \<open>macos_kernel_of\<close> over the C library, and the clock is \<open>system_scan_clock\<close>. Every command
  comes back, and a burst scan that comes back with an outcome has done what it says.
\<close>

section \<open>From the libraries\<close>

text \<open>Setting up a device may flush the records it holds; nothing else but \<^verbatim>\<open>read\<close> takes them away.\<close>

definition keeps_or_flushes :: "(nat \<Rightarrow> nat \<Rightarrow> 'w \<Rightarrow> u8 list list) \<Rightarrow> ('w \<Rightarrow> 'a \<times> 'w) \<Rightarrow> bool" where
  "keeps_or_flushes buffers m \<longleftrightarrow>
     (\<forall>w r w' d n. m w = (r, w') \<longrightarrow> buffers d n w' = buffers d n w \<or> buffers d n w' = [])"

lemma flush_return: "keeps_or_flushes buffers (op_return x)" "keeps_or_flushes buffers (op_lift y)"
  by (simp_all add: keeps_or_flushes_def op_return_def op_lift_def)

lemma flush_then:
  assumes "keeps_or_flushes buffers m" and "\<And>x. keeps_or_flushes buffers (f x)"
  shows "keeps_or_flushes buffers (op_then m f)"
  unfolding keeps_or_flushes_def
proof (intro allI impI)
  fix w r w' d n
  assume run: "op_then m f w = (r, w')"
  obtain q w1 where m: "m w = (q, w1)" by fastforce
  have 1: "buffers d n w1 = buffers d n w \<or> buffers d n w1 = []"
    using assms(1) m unfolding keeps_or_flushes_def by blast
  show "buffers d n w' = buffers d n w \<or> buffers d n w' = []"
  proof (cases q)
    case (Inr x)
    then have "f x w1 = (r, w')" using run m by (simp add: op_then_def)
    then have "buffers d n w' = buffers d n w1 \<or> buffers d n w' = []"
      using assms(2) unfolding keeps_or_flushes_def by blast
    then show ?thesis using 1 by metis
  qed (use run m 1 in \<open>simp add: op_then_def\<close>)
qed

lemma flush_call:
  "keeps_or_flushes buffers m \<Longrightarrow> keeps_or_flushes buffers (op_map_err g m)"
  "keeps_or_flushes buffers call \<Longrightarrow> keeps_or_flushes buffers (checked_call error failed call)"
  unfolding keeps_or_flushes_def op_map_err_def checked_call_def
  by (fastforce split: prod.splits if_splits)+

lemma flush_devices:
  assumes "\<And>path. keeps_or_flushes buffers (mk_open_read_write k path)"
  shows "keeps_or_flushes buffers (try_bpf_devices k minors last_error)"
proof (induction minors arbitrary: last_error)
  case (Cons m minors)
  show ?case
    unfolding keeps_or_flushes_def
  proof (intro allI impI)
    fix w r w' d n
    assume run: "try_bpf_devices k (m # minors) last_error w = (r, w')"
    obtain q w1 where opened: "mk_open_read_write k (''/dev/bpf'' @ show_nat m) w = (q, w1)" by fastforce
    then have 1: "buffers d n w1 = buffers d n w \<or> buffers d n w1 = []"
      using assms unfolding keeps_or_flushes_def by blast
    have "buffers d n v' = buffers d n v \<or> buffers d n v' = []"
      if "try_bpf_devices k minors e v = (x, v')" for e v x v'
      using Cons.IH that unfolding keeps_or_flushes_def by blast
    then show "buffers d n w' = buffers d n w \<or> buffers d n w' = []"
      using run opened 1 by (fastforce split: sum.splits if_splits)
  qed
qed (simp add: keeps_or_flushes_def)

text \<open>
  The C library: \<^verbatim>\<open>poll\<close> takes time and fails only when a signal interrupts it; writing a frame and
  polling leave the records of the devices alone.
\<close>

definition macos_libc_waits ::
    "'w macos_libc \<Rightarrow> (nat \<Rightarrow> nat \<Rightarrow> 'w \<Rightarrow> u8 list list) \<Rightarrow> ('w \<Rightarrow> timestamp) \<Rightarrow> bool" where
  "macos_libc_waits c buffers time \<longleftrightarrow>
     (\<forall>s ms w. \<exists>ready errno w'. mc_poll c s macos_pollin ms w = ((ready, errno), w')
        \<and> (\<forall>d n. buffers d n w' = buffers d n w) \<and> time w < time w' \<and> (ready < 0 \<longrightarrow> errno = 4))
     \<and> (\<forall>s f w r w'. mc_write c s f w = (r, w') \<longrightarrow> (\<forall>d n. buffers d n w' = buffers d n w))
     \<and> (\<forall>path. keeps_or_flushes buffers (mc_open_read_write c path))
     \<and> (\<forall>d q r. keeps_or_flushes buffers (mc_ioctl_ifreq c d q r))
     \<and> (\<forall>d q p. keeps_or_flushes buffers (mc_ioctl_program c d q p))
     \<and> (\<forall>d q v. keeps_or_flushes buffers (mc_ioctl_unsigned c d q v))
     \<and> (\<forall>d. keeps_or_flushes buffers (mc_fcntl_getfl c d))
     \<and> (\<forall>d f. keeps_or_flushes buffers (mc_fcntl_setfl c d f))"

lemma macos_open_flushes:
  assumes "macos_libc_waits c buffers time"
  shows "keeps_or_flushes buffers (open_macos_link_layer_endpoint (macos_kernel_of c) name)"
proof -
  note calls = assms [unfolded macos_libc_waits_def, THEN conjunct2, THEN conjunct2]
  have opens: "keeps_or_flushes buffers (mk_open_read_write (macos_kernel_of c) path)" for path
    using calls by (simp add: macos_kernel_of_def)
  have "keeps_or_flushes buffers (mk_ioctl_interface (macos_kernel_of c) d q r)"
    "keeps_or_flushes buffers (mk_ioctl_filter (macos_kernel_of c) d q p)"
    "keeps_or_flushes buffers (mk_ioctl_set_unsigned (macos_kernel_of c) d q v)"
    "keeps_or_flushes buffers (mk_ioctl_get_unsigned (macos_kernel_of c) d q)"
    "keeps_or_flushes buffers (mk_fcntl_get_flags (macos_kernel_of c) d)"
    "keeps_or_flushes buffers (mk_fcntl_set_flags (macos_kernel_of c) d f)" for d q r p v f
    unfolding macos_kernel_of_def macos_kernel.simps unit_call_def ioctl_set_unsigned_def ioctl_get_unsigned_def
      fcntl_get_flags_def split_def
    by (intro flush_then flush_call flush_return; use calls in blast)+
  note rules = flush_then flush_call(1) flush_return flush_devices [OF opens] this
  show ?thesis
    unfolding open_macos_link_layer_endpoint_def open_bpf_device_def set_bpf_interface_def
      set_bpf_filter_def set_bpf_see_sent_def set_bpf_immediate_def set_bpf_header_complete_def
      set_bpf_unsigned_option_def get_bpf_buffer_length_def set_file_descriptor_nonblocking_def
    by (simp add: arp_capture_filter_def u32_max_def) (intro rules)
qed

text \<open>What is assumed of the C library and of the standard library's time, taken together.\<close>

definition macos_libraries_documented ::
    "'w macos_libc \<Rightarrow> ('w \<Rightarrow> timestamp \<times> 'w) \<Rightarrow> (duration \<Rightarrow> 'w \<Rightarrow> 'w) \<Rightarrow> (nat \<Rightarrow> nat \<Rightarrow> 'w \<Rightarrow> u8 list list)
     \<Rightarrow> ('w \<Rightarrow> nat) \<Rightarrow> ('w \<Rightarrow> timestamp) \<Rightarrow> ('w \<Rightarrow> event list) \<Rightarrow> bool" where
  "macos_libraries_documented c read_now sleep buffers signals time events \<longleftrightarrow>
     macos_libc_logs c time events \<and> time_documented read_now sleep time events
     \<and> (\<forall>d n. libc_read_documented c d n (buffers d n) signals)
     \<and> macos_libc_waits c buffers time \<and> (\<forall>d. time_keeps read_now sleep (buffers d))"

lemma macos_libraries_live:
  assumes libraries: "macos_libraries_documented c read_now sleep buffers signals time events"
    and bound: "\<And>d n w. signals w + length (buffers d n w) < rfuel"
  shows "macos_live_host (macos_kernel_of c) (system_scan_clock read_now sleep) buffers signals time events rfuel"
proof -
  have logs: "macos_libc_logs c time events" and clock: "time_documented read_now sleep time events"
    and reads: "\<And>d n. libc_read_documented c d n (buffers d n) signals" and waits: "macos_libc_waits c buffers time"
    and keeps: "\<And>d. time_keeps read_now sleep (buffers d)"
    using libraries unfolding macos_libraries_documented_def by blast+
  have polls: "\<exists>r w'. mk_poll (macos_kernel_of c) s ms w = (r, w') \<and> (\<forall>d n. buffers d n w' = buffers d n w)
      \<and> time w < time w' \<and> (\<forall>e. r = Inl e \<longrightarrow> io_kind e = Interrupted)" for s ms w
  proof -
    obtain ready errno w' where "mc_poll c s macos_pollin ms w = ((ready, errno), w')"
      "\<And>d n. buffers d n w' = buffers d n w" "time w < time w'" "ready < 0 \<longrightarrow> errno = 4"
      using waits [unfolded macos_libc_waits_def, THEN conjunct1, THEN spec, THEN spec, THEN spec, of s ms w]
      by (elim exE conjE) (rule that, assumption, blast+)
    then show ?thesis
      by (auto simp: macos_kernel_of_def poll_readiness_def checked_call_def op_then_def op_return_def macos_os_error_def)
  qed
  have writes: "buffers d n (snd (mk_write (macos_kernel_of c) s f w)) = buffers d n w" for s f w d n
  proof -
    obtain q w1 where "mc_write c s f w = (q, w1)" by fastforce
    moreover from this have "snd (mk_write (macos_kernel_of c) s f w) = w1"
      by (cases q) (simp add: macos_kernel_of_def write_link_layer_frame_eq)
    ultimately show ?thesis using waits unfolding macos_libc_waits_def by metis
  qed
  have opens: "let kept = buffers d n (snd (open_macos_link_layer_endpoint (macos_kernel_of c) name w)) in
      kept = buffers d n w \<or> kept = []" for name w d n
    using macos_open_flushes [OF waits] unfolding keeps_or_flushes_def Let_def by (metis prod.collapse)
  show ?thesis
    unfolding macos_live_host_def
    by (intro conjI allI macos_kernel_of_logs [OF logs] system_clock_logs [OF clock] polls writes opens bound
        system_clock_keeps [OF keeps] macos_kernel_of_read [OF reads])
qed

section \<open>The interface of a run\<close>

lemma macos_resolved:
  assumes q: "macos_quiescent k nodes indexes"
    and run: "macos_resolve_scan_interface_name k name w = (Inr resolved, w')"
  shows "case name of Some n \<Rightarrow> resolved = n
    | None \<Rightarrow> \<exists>i. {(n, j). (\<exists>c. macos_usable (lowered nodes) n c) \<and> indexes n = Inr j} = {(resolved, i)}"
proof (cases name)
  case (Some n)
  then show ?thesis
    using run by (auto simp: macos_resolve_scan_interface_name_def op_then_eq_Ok op_return_def)
next
  case None
  obtain cs where cs: "macos_enumerate_usable_candidates k w = (Inr cs, w)"
    "set (map (\<lambda>c. (cand_interface_name c, cand_interface_index c)) cs) =
      {(n, j). (\<exists>c. macos_usable (lowered nodes) n c) \<and> indexes n = Inr j}"
    using macos_enumerate_quiescent [OF q] by blast
  then obtain c where "cs = [c]" "resolved = cand_interface_name c"
    using run None
    by (auto simp: macos_resolve_scan_interface_name_def op_then_def op_lift_def split: list.splits)
  then have "{(n, j). (\<exists>c. macos_usable (lowered nodes) n c) \<and> indexes n = Inr j} =
      {(resolved, cand_interface_index c)}"
    using cs(2) by simp
  then show ?thesis using None by auto
qed

section \<open>A run on an example host\<close>

text \<open>A host with \<^verbatim>\<open>en0\<close> whose device holds at most one buffer of records, and where one signal is due.\<close>

record device_world =
  dw_time :: timestamp
  dw_buffer :: "u8 list option"
  dw_signal :: bool
  dw_events :: "event list"

definition dw_buffers :: "nat \<Rightarrow> nat \<Rightarrow> device_world \<Rightarrow> u8 list list" where
  "dw_buffers d n w = (case dw_buffer w of None \<Rightarrow> [] | Some b \<Rightarrow> if b \<noteq> [] \<and> length b \<le> n then [b] else [])"

definition mac_libc :: "device_world macos_libc" where
  "mac_libc =
     \<lparr>mc_strerror = (\<lambda>_. ''Unknown error''), mc_open_read_write = (\<lambda>_. op_return 3),
      mc_getifaddrs = (\<lambda>w. (((0, host_nodes), 0), w)), mc_if_nametoindex = (\<lambda>name w. ((4, 0), w)),
      mc_ioctl_ifreq = (\<lambda>d q r w. ((0, 0), w)), mc_ioctl_program = (\<lambda>d q p w. ((0, 0), w)),
      mc_ioctl_unsigned = (\<lambda>d q v w. (((0, 4096), 0), w)), mc_fcntl_getfl = (\<lambda>d w. ((2, 0), w)),
      mc_fcntl_setfl = (\<lambda>d f w. ((0, 0), w)),
      mc_write = (\<lambda>d f w. ((int (length f), 0), w\<lparr>dw_events := dw_events w @ [Sent (dw_time w) f]\<rparr>)),
      mc_read = (\<lambda>d n w.
        if dw_signal w then (((- 1, []), 4), w\<lparr>dw_signal := False\<rparr>)
        else (case dw_buffers d n w of
            [] \<Rightarrow> (((- 1, []), 35), w)
          | b # bs \<Rightarrow> (((int (length b), b), 0),
              w\<lparr>dw_buffer := None, dw_events := dw_events w @ [Read b]\<rparr>))),
      mc_poll = (\<lambda>d events ms w.
        if dw_signal w then ((- 1, 4), w\<lparr>dw_signal := False, dw_time := dw_time w + 1\<rparr>)
        else if dw_buffer w = None then ((0, 0), w\<lparr>dw_time := dw_time w + ms * 1000000 + 1\<rparr>)
        else ((1, 0), w\<lparr>dw_time := dw_time w + 1\<rparr>))\<rparr>"

definition dw_now :: "device_world \<Rightarrow> timestamp \<times> device_world" where
  "dw_now w = (dw_time w, w)"

definition dw_sleep :: "duration \<Rightarrow> device_world \<Rightarrow> device_world" where
  "dw_sleep d w = w\<lparr>dw_time := dw_time w + d\<rparr>"

definition dw_start :: device_world where
  "dw_start = \<lparr>dw_time = 0, dw_buffer = Some (build_bpf_record host_reply), dw_signal = True, dw_events = []\<rparr>"

abbreviation dw_clock :: "device_world clock" where
  "dw_clock \<equiv> system_scan_clock dw_now dw_sleep"

lemma dw_buffers_cases: "dw_buffers d n w = b # bs \<Longrightarrow> b \<noteq> [] \<and> length b \<le> n \<and> bs = [] \<and> dw_buffer w = Some b"
  by (auto simp: dw_buffers_def split: option.splits if_splits)

lemma mac_libc_logs: "macos_libc_logs mac_libc dw_time dw_events"
  unfolding macos_libc_logs_def quiet_step_def quiet_call_def
  by (auto simp: mac_libc_def op_return_def split: list.splits dest: dw_buffers_cases)

lemma mac_libc_read: "libc_read_documented mac_libc d n (dw_buffers d n) (\<lambda>w. if dw_signal w then 1 else 0)"
proof -
  have none: "dw_buffers d n (w\<lparr>dw_buffer := None, dw_events := es\<rparr>) = []" for w es
    by (simp add: dw_buffers_def)
  have signal: "dw_buffers d n (w\<lparr>dw_signal := b\<rparr>) = dw_buffers d n w" for w b by (simp add: dw_buffers_def)
  show ?thesis
    unfolding libc_read_documented_def
  proof
    fix w
    show "\<exists>received filled errno w'. mc_read mac_libc d n w = (((received, filled), errno), w')
      \<and> (if 0 < (if dw_signal w then 1 else 0 :: nat)
         then received = - 1 \<and> errno = 4 \<and> (if dw_signal w' then 1 else 0 :: nat) < (if dw_signal w then 1 else 0)
           \<and> dw_buffers d n w' = dw_buffers d n w
         else (if dw_signal w' then 1 else 0 :: nat) = 0 \<and> (case dw_buffers d n w of
             [] \<Rightarrow> received = - 1 \<and> errno = 35 \<and> dw_buffers d n w' = []
           | b # bs \<Rightarrow> received = int (length b) \<and> take (length b) filled = b \<and> b \<noteq> [] \<and> length b \<le> n
               \<and> dw_buffers d n w' = bs))"
      by (cases "dw_buffers d n w") (auto simp: mac_libc_def none signal dest: dw_buffers_cases)
  qed
qed

lemma mac_libc_quiescent: "macos_libc_quiescent mac_libc host_nodes (\<lambda>_. (4, 0))"
  by (simp add: macos_libc_quiescent_def mac_libc_def)

lemma mac_libraries:
  "macos_libraries_documented mac_libc dw_now dw_sleep dw_buffers (\<lambda>w. if dw_signal w then 1 else 0) dw_time dw_events"
proof -
  have "macos_libc_waits mac_libc dw_buffers dw_time"
    unfolding macos_libc_waits_def keeps_or_flushes_def
    by (auto simp: mac_libc_def dw_buffers_def op_return_def)
  moreover have "time_documented dw_now dw_sleep dw_time dw_events" "time_keeps dw_now dw_sleep (dw_buffers d)" for d
    by (simp_all add: time_documented_def time_keeps_def dw_now_def dw_sleep_def dw_buffers_def)
  ultimately show ?thesis
    using mac_libc_logs mac_libc_read unfolding macos_libraries_documented_def by blast
qed

lemma dw_bound: "(if dw_signal w then 1 else 0) + length (dw_buffers d n w) < (3 :: nat)"
  by (simp add: dw_buffers_def split: option.split)

lemma dw_start_fits: "readable (device_frames dw_buffers d n) receive_buffer_length 2 dw_start"
  using host_record host_reply_length
  by (simp add: readable_def device_frames_def dw_buffers_def dw_start_def receive_buffer_length_def)

lemmas mac_quiescent = macos_kernel_of_quiescent [OF mac_libc_quiescent]

lemma mac_live:
  "macos_live_host (macos_kernel_of mac_libc) dw_clock dw_buffers (\<lambda>w. if dw_signal w then 1 else 0) dw_time dw_events 3"
  by (rule macos_libraries_live [OF mac_libraries dw_bound])

definition mac_endpoint :: macos_bpf_endpoint where
  "mac_endpoint = \<lparr>mbe_bpf_device = 3, mbe_read_buffer = replicate 4096 0, mbe_filled_length = 0,
     mbe_parse_cursor = 0\<rparr>"

lemma mac_opens: "open_macos_link_layer_endpoint (macos_kernel_of mac_libc) ''en0'' w = (Inr mac_endpoint, w)"
proof -
  have calls: "mk_open_read_write (macos_kernel_of mac_libc) path v = (Inr 3, v)"
    "mk_ioctl_interface (macos_kernel_of mac_libc) d q r v = (Inr (), v)"
    "mk_ioctl_filter (macos_kernel_of mac_libc) d q p v = (Inr (), v)"
    "mk_ioctl_set_unsigned (macos_kernel_of mac_libc) d q x v = (Inr (), v)"
    "mk_ioctl_get_unsigned (macos_kernel_of mac_libc) d q v = (Inr 4096, v)"
    "mk_fcntl_get_flags (macos_kernel_of mac_libc) d v = (Inr 2, v)"
    "mk_fcntl_set_flags (macos_kernel_of mac_libc) d f v = (Inr (), v)" for path d q r p x f v
    by (simp_all add: macos_kernel_of_def mac_libc_def unit_call_def ioctl_set_unsigned_def ioctl_get_unsigned_def
        fcntl_get_flags_def checked_call_def op_then_def op_return_def)
  show ?thesis
    by (simp add: open_macos_link_layer_endpoint_def op_then_def op_return_def calls op_map_err_def
        open_bpf_device_def set_bpf_interface_def set_bpf_filter_def set_bpf_see_sent_def set_bpf_immediate_def
        set_bpf_header_complete_def set_bpf_unsigned_option_def get_bpf_buffer_length_def op_lift_def
        set_file_descriptor_nonblocking_def upt_rec arp_capture_filter_def u32_max_def mac_endpoint_def
        copy_interface_name_to_ifreq_def interface_name_buffer_size_def)
qed

lemma mac_endpoint_empty: "bpf_endpoint_valid mac_endpoint" "buffered_frames mac_endpoint = []"
  by (simp_all add: mac_endpoint_def bpf_endpoint_valid_def buffered_frames_def bpf_frames.simps)

lemma mac_addresses:
  "macos_discover_interface_scan_addresses (macos_kernel_of mac_libc) ''en0'' w =
     (Inr (classified_addresses host_interface), w)"
  unfolding macos_discover_quiescent [OF mac_quiescent] classified_addresses_def
  using host_usable by blast

definition mac_request :: "ipv4 list \<Rightarrow> arp_reply_acceptance \<Rightarrow> endpoint_scan_request" where
  "mac_request targets acceptance =
     \<lparr>esr_targets = targets,
      esr_transmit = transmit_context (classified_addresses host_interface) default_wire_options,
      esr_acceptance = acceptance, esr_receive_timeout = from_millis 5, esr_pacing = 0,
      esr_scan_round_count = 2, esr_rate_limit = None\<rparr>"

text \<open>The transmissions of the example take no time, so its deadline is within reach.\<close>

lemma mac_scan_engine:
  "\<exists>outcome w'. with_endpoint (collect_scan_over_endpoint (from_millis 5 + 2) 2 pw
     (macos_endpoint 3 (macos_kernel_of mac_libc)) (beside dw_clock) (mac_request targets acceptance))
     mac_endpoint dw_start = (Inr outcome, w')"
proof -
  let ?ep = "traced_endpoint (time_beside dw_time) (bounded_endpoint 3 (macos_kernel_of mac_libc))"
  let ?ck = "beside (beside dw_clock) :: ((device_world \<times> macos_bpf_endpoint) \<times> event list) clock"
  let ?request = "mac_request targets acceptance"
  let ?u = "((dw_start, mac_endpoint), [] :: event list)"
  let ?time = "\<lambda>u. time_beside dw_time (fst u)"
  obtain ws u1 where sends: "run_address_resolution_request_rounds ?ep ?ck (esr_targets ?request)
      (esr_transmit ?request) (esr_scan_round_count ?request) (esr_pacing ?request) [] ?u = (ws, u1)"
    by (rule prod.exhaust)
  have "?time v' = ?time v" if "ep_send ?ep frame v = (r, v')" for frame v r v'
    using that by (cases v; cases "fst v") (auto simp: traced_endpoint_def bounded_endpoint_def macos_send_def
        macos_kernel_of_def write_link_layer_frame_eq mac_libc_def time_beside_def)
  moreover have "?time (ck_sleep_for ?ck (esr_pacing ?request) v) = ?time v" for v
    by (cases v; cases "fst v") (auto simp: beside_def system_scan_clock_def mac_request_def)
  ultimately have "?time u1 = ?time ?u"
    using request_rounds_keep [where P = ?time] sends
    unfolding run_address_resolution_request_rounds_def by metis
  then have now: "ck_now ?ck u1 = (0, u1)"
    by (cases u1; cases "fst u1")
      (auto simp: beside_def system_scan_clock_def dw_now_def time_beside_def dw_start_def)
  have add: "ck_add ?ck 0 (esr_receive_timeout ?request) \<noteq> None"
    by (simp add: beside_def system_scan_clock_def checked_add_def mac_request_def from_millis_def
        instant_max_def nanos_per_sec_def)
  have valid: "esr_rate_limit ?request = None"
    "validate_ieee_8021q_tag_stack (stc_wire (esr_transmit ?request)) = Ok ()"
    "validate_ieee_8023_mac_client_data (stc_wire (esr_transmit ?request)) = Ok ()"
    "esr_receive_timeout ?request \<le> from_millis 5" "from_millis 5 \<le> duration_max"
    using example_valid five_milliseconds
    by (simp_all add: transmit_context_def example_request_def mac_request_def)
  have fits: "readable (\<lambda>u. endpoint_pending dw_buffers (fst u)) receive_buffer_length 2 ?u"
    using dw_start_fits by (simp add: readable_def endpoint_starts [OF mac_endpoint_empty])
  obtain outcome where "fst (collect_scan_over_endpoint (from_millis 5 + 2) 2 pw ?ep ?ck ?request ?u) = Inr outcome"
    using live_capture.burst_returns [OF macos_live_capture [OF mac_live] valid(1-3) fits valid(4,5) sends now, of pw]
      add by auto
  moreover have "fst ?u = (dw_start, mac_endpoint) \<and> bpf_endpoint_valid (snd (dw_start, mac_endpoint))"
    by (simp add: mac_endpoint_empty)
  note same_run_fst [OF world_simulation.scan_same [OF live_simulation [OF mac_live] this]]
  ultimately show ?thesis
    by (metis with_endpoint_fst prod.collapse)
qed

lemma mac_run:
  "\<exists>outcome w'. target_run (from_millis 5 + 2) 2 3 powers_of_two (MacosTarget (macos_kernel_of mac_libc)) dw_clock
     (Scan (Some ''en0'') None (from_millis 5) 0 2 None default_wire_options) dw_start = (Inr outcome, w')"
proof -
  obtain plan where plan: "full_subnet_scan_plan (classified_addresses host_interface) = Ok plan"
    by (rule host_plan)
  have rate: "validate_scan_timing_before_socket powers_of_two (from_millis 5) 0 2 default_wire_options None = Ok None"
    using validate_rate_None by blast
  have "\<exists>outcome w'. macos_perform_arp_scan (from_millis 5 + 2) 2 3 powers_of_two (macos_kernel_of mac_libc) dw_clock
      ''en0'' (from_millis 5) 0 2 default_wire_options None dw_start = (Inr outcome, w')"
    using mac_scan_engine [of powers_of_two "plan_targets plan" "plan_acceptance plan"]
    by (simp add: macos_perform_arp_scan_def op_then_def op_map_err_def op_lift_def rate plan mac_opens mac_addresses
        mac_request_def)
  moreover have "validate_interface_name_for_linux_packet_socket ''en0'' = Ok ()"
    using usable_name [OF host_usable] by (simp add: valid_name_def)
  moreover have "stc_wire (esr_transmit example_request) = default_wire_options"
    by (simp add: example_request_def)
  ultimately show ?thesis
    using rate example_valid
    by (auto simp: target_scan_checks scan_checks_def timed_scan_def op_then_def op_map_err_def
        macos_resolve_scan_interface_name_def mac_addresses instant_now_def op_return_def system_scan_clock_def
        dw_now_def simp del: add_2_eq_Suc')
qed

section \<open>Properties\<close>



text \<open>
  C7: a burst scan command on macOS over the libraries, from the choice of the interface to the
  summary. When it returns an outcome, the interface is the one named, or the only usable one that
  \<^verbatim>\<open>getifaddrs\<close> lists; what \<^verbatim>\<open>write\<close> was given is, round after round, the request for each address of
  the plan for that interface, and nothing else; and the hosts are those of the first accepted replies
  among the frames that the endpoint took, in order, out of the buffers of records that \<^verbatim>\<open>read\<close> filled.
\<close>

theorem macos_scan_over_the_libraries:
  assumes "macos_libc_logs c time events" and "time_documented read_now sleep time events"
    and "macos_libc_quiescent c nodes indexes"
    and "target_run fuel drain_fuel receive_fuel pw (MacosTarget (macos_kernel_of c)) (system_scan_clock read_now sleep)
      (Scan name None timeout pacing attempts None wire) w = (Inr outcome, w')"
    and "events w = []"
  shows "\<exists>resolved interface scan plan summary frames.
    (case name of Some n \<Rightarrow> resolved = n
     | None \<Rightarrow> \<exists>i. {(n, j). (\<exists>x. macos_usable (lowered nodes) n x) \<and> macos_index_answers c indexes n = Inr j}
         = {(resolved, i)})
    \<and> macos_usable (lowered nodes) resolved interface
    \<and> full_subnet_scan_plan (classified_addresses interface) = Ok plan
    \<and> map snd (sent_of (events w')) = concat (replicate attempts
        (map (request_frame (transmit_context (classified_addresses interface) wire)) (plan_targets plan)))
    \<and> captured_in_order frames (reads_of (events w'))
    \<and> outcome = ScanOutcome scan
    \<and> map_of (host_pairs scan) = map_of (accepted_replies (plan_acceptance plan) frames)
    \<and> so_timing_summary scan = Some summary
    \<and> sts_network_interface_name summary = resolved \<and> sts_scan_round_count summary = attempts
    \<and> sts_discovered_host_count summary = length (host_pairs scan)"
proof -
  let ?k = "macos_kernel_of c" and ?ck = "system_scan_clock read_now sleep"
  note k = macos_kernel_of_logs [OF assms(1)] and ck = system_clock_logs [OF assms(2)]
    and q = macos_kernel_of_quiescent [OF assms(3)]
  obtain u where "scan_checks pw name timeout pacing attempts wire None = Inr u"
    using assms(4) by (cases "scan_checks pw name timeout pacing attempts wire None") (simp_all add: target_scan_checks)
  then have "timed_scan ?ck attempts (macos_resolve_scan_interface_name ?k name) (\<lambda>resolved.
      macos_perform_arp_scan fuel drain_fuel receive_fuel pw ?k ?ck resolved timeout pacing attempts wire None) w
      = (Inr outcome, w')"
    using assms(4) by (simp add: target_scan_checks)
  from this macos_resolve_quiet [OF k] ck show ?thesis
  proof (cases rule: timed_scan_outcome)
    case (1 resolved w0 w1 found w2 reported summary)
    have "events w1 = []" using 1(2) assms(5) by simp
    from macos_scan_result [OF k ck q 1(3) this] macos_resolved [OF q 1(1)] 1(4-)
    show ?thesis
      by (elim exE conjE) (intro exI conjI; (assumption | simp only:))
  qed
qed

lemma macos_scan_over_the_libraries_witness:
  "\<exists>interface scan w' plan. target_run (from_millis 5 + 2) 2 3 powers_of_two (MacosTarget (macos_kernel_of mac_libc))
       dw_clock (Scan (Some ''en0'') None (from_millis 5) 0 2 None default_wire_options) dw_start = (Inr (ScanOutcome scan), w')
     \<and> full_subnet_scan_plan (classified_addresses interface) = Ok plan
     \<and> map snd (sent_of (dw_events w')) = concat (replicate 2
        (map (request_frame (transmit_context (classified_addresses interface) default_wire_options))
          (plan_targets plan)))"
proof -
  obtain outcome w' where run: "target_run (from_millis 5 + 2) 2 3 powers_of_two (MacosTarget (macos_kernel_of mac_libc))
      dw_clock (Scan (Some ''en0'') None (from_millis 5) 0 2 None default_wire_options) dw_start = (Inr outcome, w')"
    using mac_run by blast
  have libraries: "macos_libc_logs mac_libc dw_time dw_events" "time_documented dw_now dw_sleep dw_time dw_events"
    using mac_libraries unfolding macos_libraries_documented_def by blast+
  have "dw_events dw_start = []" by (simp add: dw_start_def)
  from macos_scan_over_the_libraries [OF libraries mac_libc_quiescent run this] run show ?thesis by blast
qed

end
